(* ===== verification/Prelude.thy ===== *)
theory Prelude
  imports
    Complex_Main
    "HOL-Library.AList"
    "HOL-Library.Char_ord"
    "HOL-Library.List_Lexorder"
    "HOL-Library.Product_Lexorder"
begin

text \<open>
  Shared vocabulary of the development: insertion-ordered dictionaries, the
  string operations of the source language that the code calls, exceptions as
  values, and the lemma collections the component theories draw on.

  Strings are lists of ASCII characters, so \<open>strip\<close>, \<open>lower\<close>, \<open>upper\<close>,
  \<open>split\<close> and \<open>isdigit\<close> are the ASCII restriction of the library functions.
  Time stamps are natural numbers (instants); an operation that reads the clock
  takes the instant as its argument \<open>now\<close>.
\<close>

section \<open>Lemma collections\<close>

named_theorems dict_simps "lookup, keys and values of insertion-ordered dictionaries"
named_theorems frame_simps "what an operation leaves unchanged"

section \<open>Names and instants\<close>

type_synonym ident = string
type_synonym time = nat

section \<open>Exceptions\<close>

text \<open>An exception with its message. \<open>InvalidGoalTransitionError\<close> is a subclass of
  \<open>ValueError\<close> in the source, which \<open>is_value_error\<close> records.\<close>

datatype exn =
    ValueError string
  | KeyError string
  | InvalidGoalTransitionError string
  | RuntimeError string
  | TypeError string
  | AttributeError string

type_synonym 'a outcome = "exn + 'a"

fun is_value_error :: "exn \<Rightarrow> bool" where
  "is_value_error (ValueError _) = True"
| "is_value_error (InvalidGoalTransitionError _) = True"
| "is_value_error (KeyError _) = False"
| "is_value_error (RuntimeError _) = False"
| "is_value_error (TypeError _) = False"
| "is_value_error (AttributeError _) = False"

section \<open>JSON values\<close>

text \<open>The values an untyped dictionary field carries.\<close>

datatype json =
    JNull
  | JBool bool
  | JInt int
  | JStr string
  | JList "json list"
  | JObj "(string \<times> json) list"

section \<open>Insertion-ordered dictionaries\<close>

type_synonym ('k, 'v) dict = "('k \<times> 'v) list"

abbreviation dict_get :: "('k, 'v) dict \<Rightarrow> 'k \<Rightarrow> 'v option" where
  "dict_get \<equiv> map_of"

abbreviation dict_keys :: "('k, 'v) dict \<Rightarrow> 'k list" where
  "dict_keys \<equiv> map fst"

abbreviation dict_values :: "('k, 'v) dict \<Rightarrow> 'v list" where
  "dict_values \<equiv> map snd"

text \<open>Assignment keeps the position of an existing key and appends a new one, as a
  Python dict does; \<open>dict_pop\<close> removes a key.\<close>

definition dict_set :: "'k \<Rightarrow> 'v \<Rightarrow> ('k, 'v) dict \<Rightarrow> ('k, 'v) dict" where
  "dict_set = AList.update"

definition dict_pop :: "'k \<Rightarrow> ('k, 'v) dict \<Rightarrow> ('k, 'v) dict" where
  "dict_pop = AList.delete"

text \<open>Mutating the object stored under a key.\<close>

definition dict_modify :: "'k \<Rightarrow> ('v \<Rightarrow> 'v) \<Rightarrow> ('k, 'v) dict \<Rightarrow> ('k, 'v) dict" where
  "dict_modify k f d = map (\<lambda>(k', v). if k' = k then (k', f v) else (k', v)) d"

text \<open>\<open>d.update(new)\<close>.\<close>

definition dict_update :: "('k, 'v) dict \<Rightarrow> ('k, 'v) dict \<Rightarrow> ('k, 'v) dict" where
  "dict_update d new = foldl (\<lambda>d (k, v). dict_set k v d) d new"

definition wf_dict :: "('k, 'v) dict \<Rightarrow> bool" where
  "wf_dict d \<longleftrightarrow> distinct (dict_keys d)"

lemma dict_get_set [simp, dict_simps]:
  "dict_get (dict_set k v d) k' = (if k' = k then Some v else dict_get d k')"
  by (simp add: dict_set_def update_conv')

lemma dict_get_pop [simp, dict_simps]:
  "dict_get (dict_pop k d) k' = (if k' = k then None else dict_get d k')"
  by (simp add: dict_pop_def delete_conv')

lemma dict_keys_set [simp, dict_simps]:
  "dict_keys (dict_set k v d) = (if k \<in> set (dict_keys d) then dict_keys d else dict_keys d @ [k])"
  by (simp add: dict_set_def update_keys)

lemma dict_keys_set_image: "fst ` set (dict_set k v d) = insert k (fst ` set d)"
  unfolding set_map [symmetric] dict_keys_set by auto

lemma dict_keys_pop [dict_simps]: "dict_keys (dict_pop k d) = filter (\<lambda>k'. k' \<noteq> k) (dict_keys d)"
  by (induction d) (auto simp: dict_pop_def)

lemma dict_keys_modify [simp, dict_simps]: "dict_keys (dict_modify k f d) = dict_keys d"
  by (auto simp: dict_modify_def)

lemma dict_get_modify [simp, dict_simps]:
  "dict_get (dict_modify k f d) k' = (if k' = k then map_option f (dict_get d k) else dict_get d k')"
  by (induction d) (auto simp: dict_modify_def)

lemma dict_modify_ident: "(\<And>v. dict_get d k = Some v \<Longrightarrow> f v = v) \<Longrightarrow> wf_dict d \<Longrightarrow> dict_modify k f d = d"
proof (induction d)
  case (Cons p d)
  obtain k0 v0 where p: "p = (k0, v0)" by (cases p)
  show ?case
  proof (cases "k0 = k")
    case True
    with Cons.prems(2) p have "k \<notin> set (dict_keys d)" by (simp add: wf_dict_def)
    then have "dict_modify k f d = d"
      by (force simp: dict_modify_def intro!: map_idI)
    with Cons.prems(1) [of v0] True p show ?thesis by (simp add: dict_modify_def)
  next
    case False
    with Cons p show ?thesis by (auto simp: dict_modify_def wf_dict_def)
  qed
qed (simp add: dict_modify_def)

lemma dict_modify_missing: "k \<notin> set (dict_keys d) \<Longrightarrow> dict_modify k f d = d"
  unfolding dict_modify_def by (induction d) auto

lemma dict_modify_length [simp]: "length (dict_modify k f d) = length d"
  by (simp add: dict_modify_def)

lemma wf_dict_Nil [simp, intro]: "wf_dict []"
  by (simp add: wf_dict_def)

lemma wf_dict_set [simp, intro]: "wf_dict d \<Longrightarrow> wf_dict (dict_set k v d)"
  by (simp add: wf_dict_def)

lemma wf_dict_pop [simp, intro]: "wf_dict d \<Longrightarrow> wf_dict (dict_pop k d)"
  by (simp add: wf_dict_def dict_keys_pop)

lemma wf_dict_modify [simp]: "wf_dict (dict_modify k f d) = wf_dict d"
  by (simp add: wf_dict_def)

lemma dict_get_in [dict_simps]: "wf_dict d \<Longrightarrow> (dict_get d k = Some v) = ((k, v) \<in> set d)"
  by (simp add: wf_dict_def)

lemma dict_get_key: "dict_get d k = Some v \<Longrightarrow> k \<in> set (dict_keys d)"
  by (force dest: map_of_SomeD)

lemma dict_get_None [dict_simps]: "(dict_get d k = None) = (k \<notin> set (dict_keys d))"
  by (simp add: map_of_eq_None_iff image_image)

lemma dict_key_get: "k \<in> set (dict_keys d) \<Longrightarrow> \<exists>v. dict_get d k = Some v"
  by (cases "dict_get d k") (auto simp: dict_get_None)

lemma dict_get_value: "dict_get d k = Some v \<Longrightarrow> v \<in> set (dict_values d)"
  by (force dest: map_of_SomeD)

lemma dict_set_new: "k \<notin> set (dict_keys d) \<Longrightarrow> dict_set k v d = d @ [(k, v)]"
  unfolding dict_set_def by (induction d) auto

text \<open>A dictionary whose values carry their own key.\<close>

definition keyed_by :: "('v \<Rightarrow> 'k) \<Rightarrow> ('k, 'v) dict \<Rightarrow> bool" where
  "keyed_by f d \<longleftrightarrow> wf_dict d \<and> (\<forall>k v. dict_get d k = Some v \<longrightarrow> f v = k)"

lemma keyed_by_wf: "keyed_by f d \<Longrightarrow> wf_dict d"
  by (simp add: keyed_by_def)

lemma keyed_by_get: "keyed_by f d \<Longrightarrow> dict_get d k = Some v \<Longrightarrow> f v = k"
  by (simp add: keyed_by_def)

lemma keyed_by_Nil [simp]: "keyed_by f []"
  by (simp add: keyed_by_def)

lemma keyed_by_set: "keyed_by f d \<Longrightarrow> f v = k \<Longrightarrow> keyed_by f (dict_set k v d)"
  by (auto simp: keyed_by_def)

lemma keyed_by_pop: "keyed_by f d \<Longrightarrow> keyed_by f (dict_pop k d)"
  by (auto simp: keyed_by_def)

lemma keyed_by_modify: "keyed_by f d \<Longrightarrow> (\<And>v. f (g v) = f v) \<Longrightarrow> keyed_by f (dict_modify k g d)"
  by (auto simp: keyed_by_def)

lemma keyed_by_values:
  assumes "keyed_by f d"
  shows "v \<in> set (dict_values d) \<longleftrightarrow> dict_get d (f v) = Some v"
proof
  assume "v \<in> set (dict_values d)"
  then obtain k where "(k, v) \<in> set d" by auto
  with assms have "dict_get d k = Some v" by (simp add: keyed_by_wf dict_get_in)
  with assms show "dict_get d (f v) = Some v" by (auto dest: keyed_by_get)
qed (rule dict_get_value)

lemma keyed_by_keys: "keyed_by f d \<Longrightarrow> map f (dict_values d) = dict_keys d"
  by (auto simp: keyed_by_def wf_dict_def dict_get_in)

lemma keyed_by_map_values:
  assumes "keyed_by f d" "\<And>v. f (g v) = f v" "d' = map (\<lambda>(k, v). (k, g v)) d"
  shows "keyed_by f d'"
proof -
  have "dict_keys d' = dict_keys d" using assms(3) by auto
  moreover have "dict_get d' k = map_option g (dict_get d k)" for k
    by (simp add: assms(3) map_of_map)
  ultimately show ?thesis using assms(1,2) unfolding keyed_by_def wf_dict_def by auto
qed

lemma zip_dict: "zip (dict_keys d) (dict_values d) = d"
  by (induction d) auto

lemma map_with_key: "map (\<lambda>v. (f v, v)) vs = zip (map f vs) vs"
  by (induction vs) auto

lemma wf_dict_filter_keys:
  "wf_dict d \<Longrightarrow> k \<in> set (map fst (filter (\<lambda>(k, v). P v) d)) \<longleftrightarrow> (\<exists>v. dict_get d k = Some v \<and> P v)"
  by (force simp: dict_get_in)

section \<open>Optional strings and truth values\<close>

text \<open>\<open>if s:\<close> on an optional string: absent and empty are both false.\<close>

definition truthy :: "string option \<Rightarrow> bool" where
  "truthy s = (case s of None \<Rightarrow> False | Some t \<Rightarrow> t \<noteq> [])"

text \<open>\<open>s or t\<close> on strings.\<close>

definition str_or :: "string \<Rightarrow> string \<Rightarrow> string" where
  "str_or s t = (if s = [] then t else s)"

definition opt_str :: "string option \<Rightarrow> string" where
  "opt_str s = (case s of None \<Rightarrow> [] | Some t \<Rightarrow> t)"

lemma truthy_simps [simp]: "truthy None = False" "truthy (Some s) = (s \<noteq> [])"
  by (simp_all add: truthy_def)

lemma opt_str_simps [simp]: "opt_str None = []" "opt_str (Some s) = s"
  by (simp_all add: opt_str_def)

lemma case_option_False: "(case x of None \<Rightarrow> False | Some y \<Rightarrow> P y) \<longleftrightarrow> (\<exists>y. x = Some y \<and> P y)"
  by (cases x) simp_all

section \<open>String operations\<close>

definition is_space :: "char \<Rightarrow> bool" where
  "is_space c \<longleftrightarrow> of_char c \<in> {9, 10, 11, 12, 13, 28, 29, 30, 31, 32 :: nat}"

definition py_lstrip :: "string \<Rightarrow> string" where
  "py_lstrip s = dropWhile is_space s"

definition py_rstrip :: "string \<Rightarrow> string" where
  "py_rstrip s = rev (dropWhile is_space (rev s))"

definition py_strip :: "string \<Rightarrow> string" where
  "py_strip s = py_rstrip (py_lstrip s)"

definition lower_char :: "char \<Rightarrow> char" where
  "lower_char c = (let n = of_char c :: nat in if 65 \<le> n \<and> n \<le> 90 then char_of (n + 32) else c)"

definition upper_char :: "char \<Rightarrow> char" where
  "upper_char c = (let n = of_char c :: nat in if 97 \<le> n \<and> n \<le> 122 then char_of (n - 32) else c)"

definition py_lower :: "string \<Rightarrow> string" where
  "py_lower s = map lower_char s"

definition py_upper :: "string \<Rightarrow> string" where
  "py_upper s = map upper_char s"

text \<open>Splitting at every character that satisfies a predicate, and the whitespace
  \<open>split()\<close> that drops empty pieces.\<close>

fun split_at :: "(char \<Rightarrow> bool) \<Rightarrow> string \<Rightarrow> string list" where
  "split_at p [] = [[]]"
| "split_at p (c # cs) =
     (if p c then [] # split_at p cs
      else (case split_at p cs of [] \<Rightarrow> [[c]] | w # ws \<Rightarrow> (c # w) # ws))"

definition py_split :: "string \<Rightarrow> string list" where
  "py_split s = filter (\<lambda>w. w \<noteq> []) (split_at is_space s)"

fun py_join :: "string \<Rightarrow> string list \<Rightarrow> string" where
  "py_join sep [] = []"
| "py_join sep [w] = w"
| "py_join sep (w # v # ws) = w @ sep @ py_join sep (v # ws)"

definition is_digit :: "char \<Rightarrow> bool" where
  "is_digit c \<longleftrightarrow> (let n = of_char c :: nat in 48 \<le> n \<and> n \<le> 57)"

definition py_isdigit :: "string \<Rightarrow> bool" where
  "py_isdigit s \<longleftrightarrow> s \<noteq> [] \<and> list_all is_digit s"

definition digit_value :: "char \<Rightarrow> nat" where
  "digit_value c = of_char c - 48"

text \<open>\<open>int(s, 10)\<close> on a string of digits.\<close>

definition parse_digits :: "string \<Rightarrow> nat" where
  "parse_digits s = foldl (\<lambda>n c. 10 * n + digit_value c) 0 s"

definition digit_char :: "nat \<Rightarrow> char" where
  "digit_char n = ''0123456789'' ! n"

fun show_nat :: "nat \<Rightarrow> string" where
  "show_nat n = (if n < 10 then [digit_char n] else show_nat (n div 10) @ [digit_char (n mod 10)])"

declare show_nat.simps [simp del]

definition show_int :: "int \<Rightarrow> string" where
  "show_int i = (if i < 0 then ''-'' @ show_nat (nat (- i)) else show_nat (nat i))"

definition starts_with :: "string \<Rightarrow> string \<Rightarrow> bool" where
  "starts_with s prefix \<longleftrightarrow> take (length prefix) s = prefix"

fun contains :: "string \<Rightarrow> string \<Rightarrow> bool" where
  "contains pat [] \<longleftrightarrow> pat = []"
| "contains pat (c # cs) \<longleftrightarrow> starts_with (c # cs) pat \<or> contains pat cs"

lemma starts_with_length: "starts_with s p \<Longrightarrow> length p \<le> length s"
  by (metis length_take min.absorb_iff2 min.cobounded1 starts_with_def)

text \<open>\<open>s.replace(old, new)\<close> for an \<open>old\<close> that is not empty.\<close>

function py_replace :: "string \<Rightarrow> string \<Rightarrow> string \<Rightarrow> string" where
  "py_replace old new s =
     (if old \<noteq> [] \<and> starts_with s old then new @ py_replace old new (drop (length old) s)
      else (case s of [] \<Rightarrow> [] | c # cs \<Rightarrow> c # py_replace old new cs))"
  by pat_completeness auto
termination
  by (relation "measure (\<lambda>(old, new, s). length s)") (auto dest: starts_with_length simp: diff_less_mono2, metis diff_less le_0_eq length_greater_0_conv list.size(3) starts_with_length)

declare py_replace.simps [simp del]

lemma py_strip_Nil [simp]: "py_strip [] = []"
  by (simp add: py_strip_def py_lstrip_def py_rstrip_def)

lemma py_rstrip_prefix: "\<exists>t. s = py_rstrip s @ t \<and> list_all is_space t"
proof -
  have "rev s = takeWhile is_space (rev s) @ dropWhile is_space (rev s)" by simp
  then have "s = rev (dropWhile is_space (rev s)) @ rev (takeWhile is_space (rev s))"
    by (metis rev_append rev_rev_ident)
  moreover have "list_all is_space (rev (takeWhile is_space (rev s)))"
    by (auto simp: list_all_iff dest: set_takeWhileD)
  ultimately show ?thesis unfolding py_rstrip_def by blast
qed

lemma py_rstrip_idem [simp]: "py_rstrip (py_rstrip s) = py_rstrip s"
  by (simp add: py_rstrip_def dropWhile_idem)

lemma py_lstrip_rstrip: "py_lstrip (py_rstrip (py_lstrip s)) = py_rstrip (py_lstrip s)"
proof (cases "py_rstrip (py_lstrip s)")
  case (Cons c cs)
  obtain t where "py_lstrip s = (c # cs) @ t"
    using py_rstrip_prefix [of "py_lstrip s"] Cons by auto
  then have "\<not> is_space c"
    unfolding py_lstrip_def by (metis append_Cons hd_dropWhile list.sel(1) list.distinct(1))
  with Cons show ?thesis by (simp add: py_lstrip_def)
qed (simp add: py_lstrip_def)

lemma py_strip_idem [simp]: "py_strip (py_strip s) = py_strip s"
  by (simp add: py_strip_def py_lstrip_rstrip)

text \<open>Joining and splitting at one separator character.\<close>

lemma split_at_neq_Nil [simp]: "split_at p s \<noteq> []"
  by (cases s) (auto split: list.splits)

lemma split_at_no_sep: "\<forall>w \<in> set (split_at p s). list_all (\<lambda>c. \<not> p c) w"
proof (induction s)
  case (Cons c s)
  then show ?case by (cases "split_at p s") auto
qed simp

lemma split_at_none: "list_all (\<lambda>c. \<not> p c) w \<Longrightarrow> split_at p w = [w]"
  by (induction w) auto

lemma split_at_append: "list_all (\<lambda>c. \<not> p c) w \<Longrightarrow> p c \<Longrightarrow> split_at p (w @ c # s) = w # split_at p s"
  by (induction w) auto

lemma split_join:
  "p c \<Longrightarrow> ws \<noteq> [] \<Longrightarrow> \<forall>w \<in> set ws. list_all (\<lambda>c. \<not> p c) w \<Longrightarrow> split_at p (py_join [c] ws) = ws"
proof (induction ws rule: induct_list012)
  case (3 w v ws)
  then show ?case by (simp add: split_at_append)
qed (simp_all add: split_at_none)

section \<open>Slices and bounds\<close>

text \<open>\<open>xs[:n]\<close>: a negative bound counts from the end.\<close>

definition py_prefix :: "int \<Rightarrow> 'a list \<Rightarrow> 'a list" where
  "py_prefix n xs = (if n \<ge> 0 then take (nat n) xs else take (length xs - nat (- n)) xs)"

text \<open>\<open>xs[-n:]\<close> for a positive \<open>n\<close>.\<close>

definition py_last :: "nat \<Rightarrow> 'a list \<Rightarrow> 'a list" where
  "py_last n xs = drop (length xs - n) xs"

lemma set_py_prefix: "set (py_prefix n xs) \<subseteq> set xs"
  by (auto simp: py_prefix_def dest: in_set_takeD)

lemma length_py_prefix: "n \<ge> 0 \<Longrightarrow> length (py_prefix n xs) \<le> nat n"
  by (simp add: py_prefix_def)

lemma py_prefix_take: "\<exists>m. py_prefix n xs = take m xs"
  by (auto simp: py_prefix_def)

lemma py_prefix_all: "length (py_prefix n xs) < nat n \<Longrightarrow> py_prefix n xs = xs"
  by (auto simp: py_prefix_def split: if_splits)

text \<open>The chosen prefix of a sorted list: every element left out is no smaller.\<close>

lemma sorted_prefix_least:
  assumes "sorted (map f xs)" "x \<in> set (py_prefix n xs)" "y \<in> set xs" "y \<notin> set (py_prefix n xs)"
  shows "f x \<le> f y"
proof -
  obtain m where m: "py_prefix n xs = take m xs" using py_prefix_take by blast
  have split: "xs = take m xs @ drop m xs" by simp
  with assms(3,4) m have "y \<in> set (drop m xs)" by (metis Un_iff set_append)
  moreover have "sorted (map f (take m xs) @ map f (drop m xs))"
    using assms(1) by (metis map_append split)
  ultimately show ?thesis using assms(2) m by (auto simp: sorted_append)
qed

lemma length_py_last [simp]: "length (py_last n xs) = min n (length xs)"
  by (simp add: py_last_def)

text \<open>\<open>max(lo, min(hi, x))\<close>.\<close>

definition clamp :: "int \<Rightarrow> int \<Rightarrow> int \<Rightarrow> int" where
  "clamp lo hi x = max lo (min hi x)"

lemma clamp_bounds: "lo \<le> hi \<Longrightarrow> lo \<le> clamp lo hi x \<and> clamp lo hi x \<le> hi"
  by (auto simp: clamp_def)

lemma clamp_inside: "lo \<le> x \<Longrightarrow> x \<le> hi \<Longrightarrow> clamp lo hi x = x"
  by (auto simp: clamp_def)

text \<open>Sets of strings come out in ascending order where the code sorts them.\<close>

lemma sorted_list_of_set_strings [simp]:
  "finite A \<Longrightarrow> set (sorted_list_of_set (A :: string set)) = A"
  by simp

end
