(* ===== verification/Dag_Utils.thy ===== *)
theory Dag_Utils
  imports Prelude
begin

text \<open>
  Dependency token expansion (\<open>context/dag_utils.py\<close>): a completed step id such as
  \<open>KFA-07\<close> also satisfies the local aliases \<open>07\<close> and \<open>7\<close>, provided no other
  completed id ends in the same number. The model keeps the two passes of the code:
  collecting the owners of every numeric suffix in a dictionary, then adding the aliases
  of the suffixes with a single owner. \<open>expand_iff\<close> states what the passes compute
  without the dictionary.
\<close>

section \<open>The two passes\<close>

text \<open>\<open>sid.rsplit("-", 1)[-1]\<close>: what follows the last dash.\<close>

definition id_tail :: "ident \<Rightarrow> string" where
  "id_tail sid = rev (takeWhile (\<lambda>c. c \<noteq> CHR ''-'') (rev sid))"

definition has_numeric_tail :: "ident \<Rightarrow> bool" where
  "has_numeric_tail sid \<longleftrightarrow> CHR ''-'' \<in> set sid \<and> py_isdigit (id_tail sid)"

definition tail_value :: "ident \<Rightarrow> nat" where
  "tail_value sid = parse_digits (id_tail sid)"

text \<open>\<open>value_to_owners.setdefault(v, []).append(sid)\<close>.\<close>

definition add_owner :: "ident \<Rightarrow> (nat, ident list) dict \<Rightarrow> (nat, ident list) dict" where
  "add_owner sid owners =
     dict_set (tail_value sid)
       ((case dict_get owners (tail_value sid) of None \<Rightarrow> [] | Some l \<Rightarrow> l) @ [sid]) owners"

fun collect_owners :: "ident list \<Rightarrow> (nat, ident list) dict \<Rightarrow> (nat, ident list) dict" where
  "collect_owners [] owners = owners"
| "collect_owners (sid # sids) owners =
     (if has_numeric_tail sid then collect_owners sids (add_owner sid owners)
      else collect_owners sids owners)"

fun add_aliases :: "ident list list \<Rightarrow> ident set \<Rightarrow> ident set" where
  "add_aliases [] base = base"
| "add_aliases (owners # rest) base =
     (case owners of
        [own] \<Rightarrow> add_aliases rest (base \<union> {id_tail own, show_nat (parse_digits (id_tail own))})
      | _ \<Rightarrow> add_aliases rest base)"

definition expand_dependency_satisfaction_ids :: "ident list \<Rightarrow> ident set" where
  "expand_dependency_satisfaction_ids completed =
     (let base = remdups completed in
      if base = [] then {}
      else add_aliases (dict_values (collect_owners base [])) (set base))"

section \<open>What the passes compute\<close>

text \<open>The owners of the value \<open>v\<close> among \<open>sids\<close>, in order.\<close>

abbreviation owners_of :: "ident list \<Rightarrow> nat \<Rightarrow> ident list" where
  "owners_of sids v \<equiv> filter (\<lambda>s. has_numeric_tail s \<and> tail_value s = v) sids"

lemma collect_owners_get:
  "dict_get (collect_owners sids owners) v =
     (if dict_get owners v = None \<and> owners_of sids v = [] then None
      else Some ((case dict_get owners v of None \<Rightarrow> [] | Some l \<Rightarrow> l) @ owners_of sids v))"
  by (induction sids arbitrary: owners) (auto simp: add_owner_def split: option.splits)

lemma collect_owners_wf: "wf_dict owners \<Longrightarrow> wf_dict (collect_owners sids owners)"
  by (induction sids arbitrary: owners) (auto simp: add_owner_def)

lemma add_aliases_iff:
  "d \<in> add_aliases ls base \<longleftrightarrow>
     d \<in> base \<or> (\<exists>own. [own] \<in> set ls \<and> (d = id_tail own \<or> d = show_nat (tail_value own)))"
  by (induction ls arbitrary: base) (auto simp: tail_value_def split: list.splits)

lemma collect_owners_empty_get:
  "dict_get (collect_owners sids []) v =
     (if owners_of sids v = [] then None else Some (owners_of sids v))"
  by (simp add: collect_owners_get)

lemma collect_owners_singletons:
  "[own] \<in> set (dict_values (collect_owners sids [])) \<longleftrightarrow> (\<exists>v. owners_of sids v = [own])"
proof -
  have "[own] \<in> set (dict_values (collect_owners sids [])) \<longleftrightarrow>
      (\<exists>v. dict_get (collect_owners sids []) v = Some [own])"
    using collect_owners_wf [of "[]" sids] by (force simp: dict_get_in)
  also have "\<dots> \<longleftrightarrow> (\<exists>v. owners_of sids v = [own])"
    unfolding collect_owners_empty_get by (rule ex_cong1) simp
  finally show ?thesis .
qed

text \<open>\<open>own\<close> is the only id of \<open>sids\<close> whose numeric suffix has its value.\<close>

definition sole_owner :: "ident set \<Rightarrow> ident \<Rightarrow> bool" where
  "sole_owner ids own \<longleftrightarrow> own \<in> ids \<and> has_numeric_tail own \<and>
     (\<forall>s \<in> ids. has_numeric_tail s \<longrightarrow> tail_value s = tail_value own \<longrightarrow> s = own)"

lemma owners_of_singleton:
  "distinct sids \<Longrightarrow> (\<exists>v. owners_of sids v = [own]) \<longleftrightarrow> sole_owner (set sids) own"
proof
  assume "\<exists>v. owners_of sids v = [own]"
  then obtain v where v: "owners_of sids v = [own]" by blast
  have own: "own \<in> set (owners_of sids v)" unfolding v by simp
  have "s = own" if "s \<in> set sids" "has_numeric_tail s" "tail_value s = tail_value own" for s
  proof -
    from own have "tail_value own = v" by simp
    with that have "s \<in> set (owners_of sids v)" by simp
    then show ?thesis unfolding v by simp
  qed
  with own show "sole_owner (set sids) own" by (simp add: sole_owner_def)
next
  assume d: "distinct sids" and s: "sole_owner (set sids) own"
  define l where "l = owners_of sids (tail_value own)"
  have "x \<in> set l \<longleftrightarrow> x = own" for x
    using s unfolding sole_owner_def l_def set_filter mem_Collect_eq by blast
  then have "set l = {own}" by blast
  moreover have "distinct l" using d by (simp add: l_def)
  ultimately have "l = [own]" by (cases l) (auto simp: insert_eq_iff subset_singleton_iff)
  then show "\<exists>v. owners_of sids v = [own]" unfolding l_def by blast
qed

theorem expand_iff:
  "d \<in> expand_dependency_satisfaction_ids completed \<longleftrightarrow>
     d \<in> set completed \<or>
     (\<exists>own. sole_owner (set completed) own \<and> (d = id_tail own \<or> d = show_nat (tail_value own)))"
proof (cases "completed = []")
  case True
  then show ?thesis by (simp add: expand_dependency_satisfaction_ids_def sole_owner_def)
next
  case False
  have "d \<in> add_aliases (dict_values (collect_owners (remdups completed) [])) (set completed) \<longleftrightarrow>
      d \<in> set completed \<or>
      (\<exists>own. sole_owner (set completed) own \<and> (d = id_tail own \<or> d = show_nat (tail_value own)))"
    unfolding add_aliases_iff collect_owners_singletons
    by (simp only: owners_of_singleton [OF distinct_remdups] set_remdups)
  with False show ?thesis by (simp add: expand_dependency_satisfaction_ids_def)
qed

lemma expand_contains: "set completed \<subseteq> expand_dependency_satisfaction_ids completed"
  by (auto simp: expand_iff)

lemma expand_cong: "set xs = set ys \<Longrightarrow>
    expand_dependency_satisfaction_ids xs = expand_dependency_satisfaction_ids ys"
  by (auto simp: expand_iff)

lemma expand_Nil [simp]: "expand_dependency_satisfaction_ids [] = {}"
  by (simp add: expand_dependency_satisfaction_ids_def)

end
