(* ===== verification/Object_Store.thy ===== *)
theory Object_Store
  imports Prelude
begin

text \<open>
  The interface both DAGs offer their callers: objects looked up under an id and mutated in
  place. What a caller may rely on is proved once here, from the single law of \<open>upd\<close>,
  and is interpreted on the step DAG (\<open>Step_Dag\<close>) and on the goal DAG (\<open>Goal_Dag\<close>).
\<close>

locale object_store =
  fixes get :: "'s \<Rightarrow> 'k \<Rightarrow> 'n option"
    and upd :: "'k \<Rightarrow> ('n \<Rightarrow> 'n) \<Rightarrow> 's \<Rightarrow> 's"
  assumes get_upd: "get (upd k f s) k' = (if k' = k then map_option f (get s k) else get s k')"
begin

lemma upd_same: "get s k = Some n \<Longrightarrow> get (upd k f s) k = Some (f n)"
  by (simp add: get_upd)

lemma upd_other: "k' \<noteq> k \<Longrightarrow> get (upd k f s) k' = get s k'"
  by (simp add: get_upd)

lemma upd_missing: "get s k = None \<Longrightarrow> get (upd k f s) k' = get s k'"
  by (simp add: get_upd)

lemma upd_dom: "(get (upd k f s) k' = None) = (get s k' = None)"
  by (simp add: get_upd)

text \<open>A mutation changes an attribute \<open>a\<close> of no object when it keeps that attribute.\<close>

lemma upd_attr:
  "(\<And>n. a (f n) = a n) \<Longrightarrow> map_option a (get (upd k f s) k') = map_option a (get s k')"
  by (simp add: get_upd option.map_comp comp_def)

lemma upd_all:
  assumes "\<And>k n. get s k = Some n \<Longrightarrow> P k n"
    and "\<And>n. get s k = Some n \<Longrightarrow> P k n \<Longrightarrow> P k (f n)"
    and "get (upd k f s) k' = Some n'"
  shows "P k' n'"
proof (cases "k' = k")
  case True
  with assms(3) obtain n where "get s k = Some n" "n' = f n"
    by (auto simp: get_upd)
  with assms(1,2) True show ?thesis by simp
qed (use assms(1,3) in \<open>simp add: get_upd\<close>)

lemma upd_commute: "k \<noteq> k' \<Longrightarrow> get (upd k f (upd k' g s)) = get (upd k' g (upd k f s))"
  by (rule ext) (simp add: get_upd)

text \<open>A whole sequence of mutations, each of which keeps \<open>P\<close>.\<close>

lemma upd_sequence_all:
  assumes "\<And>k n. get s k = Some n \<Longrightarrow> P k n"
    and "\<And>k f n. (k, f) \<in> set ops \<Longrightarrow> P k n \<Longrightarrow> P k (f n)"
    and "get (foldl (\<lambda>s (k, f). upd k f s) s ops) k' = Some n'"
  shows "P k' n'"
  using assms
proof (induction ops arbitrary: s)
  case (Cons p ops)
  obtain k f where p: "p = (k, f)" by (cases p)
  have step: "\<And>k1 n1. get (upd k f s) k1 = Some n1 \<Longrightarrow> P k1 n1"
    by (rule upd_all [where P = P and s = s and k = k and f = f])
      (use Cons.prems(1,2) p in \<open>simp_all\<close>)
  show ?case
  proof (rule Cons.IH [of "upd k f s"])
    show "\<And>k1 n1. get (upd k f s) k1 = Some n1 \<Longrightarrow> P k1 n1" by (rule step)
    show "\<And>k f n. (k, f) \<in> set ops \<Longrightarrow> P k n \<Longrightarrow> P k (f n)"
      using Cons.prems(2) by simp
    show "get (foldl (\<lambda>s (k, f). upd k f s) (upd k f s) ops) k' = Some n'"
      using Cons.prems(3) p by simp
  qed
qed simp

end

end
