(* ===== verification/Step_Dag.thy ===== *)
theory Step_Dag
  imports Dag_Utils Object_Store
begin

text \<open>
  The step DAG of one goal (\<open>context/models.py\<close>): \<open>StepNode\<close>, \<open>StepExecution\<close>,
  \<open>StepCloseReport\<close> and the operations of \<open>StepDAG\<close> except \<open>chain_depth\<close>, which
  has a theory of its own. A method that mutates the DAG returns the new DAG.
\<close>

section \<open>Data\<close>

datatype step_status =
    SPending | SActive | SCompleted | SFailed | SSkipped | SDecomposed | SSuperseded

datatype execution_hint = HintTool | HintSubagent | HintRemote | HintAuto

datatype step_kind = KAction | KAskUser | KEval

record step_execution =
  se_input_messages :: "json list"
  se_output_messages :: "json list"
  se_tokens_used :: int
  se_duration_ms :: int
  se_error :: "string option"
  se_error_type :: "string option"
  se_thread_id :: "string option"
  se_outcome :: "json option"
  se_tool_call_count :: int
  se_subagent_task_completions :: int
  se_hit_subagent_cap :: bool
  se_hit_tool_budget :: bool

record deferred_item =
  di_description :: string
  di_claimed_in_scope :: bool

record step_close_report =
  cr_goal_portion_complete :: bool
  cr_early_exit :: bool
  cr_deferred_items :: "deferred_item list"
  cr_recommendations :: "string list"

definition requires_eval :: "step_close_report \<Rightarrow> bool" where
  "requires_eval r \<longleftrightarrow> cr_early_exit r \<or> cr_deferred_items r \<noteq> []"

record step_node =
  sn_id :: ident
  sn_description :: string
  sn_status :: step_status
  sn_dependencies :: "ident list"
  sn_plan_iteration :: int
  sn_reasoning_trace :: "string option"
  sn_execution :: "step_execution option"
  sn_parent_step_id :: "ident option"
  sn_secondary_parent_step_ids :: "ident list"
  sn_replacement_of :: "ident option"
  sn_full_description :: "string option"
  sn_expected_output :: "string option"
  sn_execution_hint :: "execution_hint option"
  sn_recompose_count :: int
  sn_kind :: step_kind
  sn_close_report :: "step_close_report option"
  sn_task_complexity :: "string option"
  sn_retry_count :: int

text \<open>A node with every field but the two required ones at its default.\<close>

definition new_step :: "ident \<Rightarrow> string \<Rightarrow> step_node" where
  "new_step sid desc =
     \<lparr>sn_id = sid, sn_description = desc, sn_status = SPending, sn_dependencies = [],
      sn_plan_iteration = 0, sn_reasoning_trace = None, sn_execution = None,
      sn_parent_step_id = None, sn_secondary_parent_step_ids = [], sn_replacement_of = None,
      sn_full_description = None, sn_expected_output = None, sn_execution_hint = None,
      sn_recompose_count = 0, sn_kind = KAction, sn_close_report = None,
      sn_task_complexity = None, sn_retry_count = 0\<rparr>"

record step_dag =
  nodes :: "(ident, step_node) dict"

definition empty_step_dag :: step_dag where
  "empty_step_dag = \<lparr>nodes = []\<rparr>"

definition step_nodes :: "step_dag \<Rightarrow> step_node list" where
  "step_nodes d = dict_values (nodes d)"

text \<open>Every node is stored under its own id, once.\<close>

definition wf_step_dag :: "step_dag \<Rightarrow> bool" where
  "wf_step_dag d \<longleftrightarrow> keyed_by sn_id (nodes d)"

section \<open>Queries\<close>

definition ids_with_status :: "step_status \<Rightarrow> step_dag \<Rightarrow> ident list" where
  "ids_with_status st d = map fst (filter (\<lambda>(k, n). sn_status n = st) (nodes d))"

definition completed_step_ids :: "step_dag \<Rightarrow> ident set" where
  "completed_step_ids d = set (ids_with_status SCompleted d)"

definition decomposed_step_ids :: "step_dag \<Rightarrow> ident set" where
  "decomposed_step_ids d = set (ids_with_status SDecomposed d)"

definition failed_step_ids :: "step_dag \<Rightarrow> ident set" where
  "failed_step_ids d = set (ids_with_status SFailed d)"

definition pending_step_ids :: "step_dag \<Rightarrow> ident set" where
  "pending_step_ids d = set (ids_with_status SPending d)"

text \<open>\<open>satisfied\<close> in \<open>ready_steps\<close> and \<open>chain_depth\<close>.\<close>

definition satisfied_ids :: "step_dag \<Rightarrow> ident set" where
  "satisfied_ids d = expand_dependency_satisfaction_ids (ids_with_status SCompleted d)"

definition ready_steps :: "step_dag \<Rightarrow> ident set" where
  "ready_steps d =
     (let satisfied = satisfied_ids d in
      set (map fst (filter (\<lambda>(k, n). sn_status n = SPending \<and>
                               list_all (\<lambda>dep. dep \<in> satisfied) (sn_dependencies n)) (nodes d))))"

definition total_steps :: "step_dag \<Rightarrow> nat" where
  "total_steps d = length (nodes d)"

definition completed_steps :: "step_dag \<Rightarrow> nat" where
  "completed_steps d = length (filter (\<lambda>n. sn_status n = SCompleted) (step_nodes d))"

definition failed_steps :: "step_dag \<Rightarrow> nat" where
  "failed_steps d = length (filter (\<lambda>n. sn_status n = SFailed) (step_nodes d))"

text \<open>The quotient is kept exact; the source rounds it to a double.\<close>

definition success_rate :: "step_dag \<Rightarrow> rat" where
  "success_rate d =
     (let executed = completed_steps d + failed_steps d in
      if executed = 0 then 1 else of_nat (completed_steps d) / of_nat executed)"

section \<open>Mutations\<close>

definition add_step :: "step_node \<Rightarrow> step_dag \<Rightarrow> step_dag" where
  "add_step step d = d\<lparr>nodes := dict_set (sn_id step) step (nodes d)\<rparr>"

definition modify_step :: "ident \<Rightarrow> (step_node \<Rightarrow> step_node) \<Rightarrow> step_dag \<Rightarrow> step_dag" where
  "modify_step sid f d = d\<lparr>nodes := dict_modify sid f (nodes d)\<rparr>"

definition mark_active :: "ident \<Rightarrow> step_dag \<Rightarrow> step_dag" where
  "mark_active sid =
     modify_step sid (\<lambda>n. if sn_status n = SPending then n\<lparr>sn_status := SActive\<rparr> else n)"

definition mark_completed :: "ident \<Rightarrow> step_execution \<Rightarrow> step_dag \<Rightarrow> step_dag" where
  "mark_completed sid ex =
     modify_step sid (\<lambda>n. n\<lparr>sn_status := SCompleted, sn_execution := Some ex\<rparr>)"

definition mark_failed :: "ident \<Rightarrow> step_execution \<Rightarrow> step_dag \<Rightarrow> step_dag" where
  "mark_failed sid ex =
     modify_step sid (\<lambda>n. n\<lparr>sn_status := SFailed, sn_execution := Some ex\<rparr>)"

definition mark_skipped :: "ident \<Rightarrow> step_dag \<Rightarrow> step_dag" where
  "mark_skipped sid = modify_step sid (\<lambda>n. n\<lparr>sn_status := SSkipped\<rparr>)"

definition mark_decomposed :: "ident \<Rightarrow> step_dag \<Rightarrow> step_dag" where
  "mark_decomposed sid = modify_step sid (\<lambda>n. n\<lparr>sn_status := SDecomposed\<rparr>)"

definition mark_superseded :: "ident \<Rightarrow> step_dag \<Rightarrow> step_dag" where
  "mark_superseded sid = modify_step sid (\<lambda>n. n\<lparr>sn_status := SSuperseded\<rparr>)"

definition reset_failed_step :: "ident \<Rightarrow> step_dag \<Rightarrow> bool \<times> step_dag" where
  "reset_failed_step sid d =
     (case dict_get (nodes d) sid of
        Some n \<Rightarrow>
          if sn_status n = SFailed
          then (True, modify_step sid (\<lambda>n. n\<lparr>sn_status := SPending, sn_execution := None\<rparr>) d)
          else (False, d)
      | None \<Rightarrow> (False, d))"

section \<open>Lineage depth\<close>

text \<open>The \<open>while\<close> loop of \<open>lineage_depth\<close>. An id that is not a node is counted and
  ends the walk; an id seen before ends it uncounted.\<close>

function lineage_walk :: "(ident, step_node) dict \<Rightarrow> ident option \<Rightarrow> ident set \<Rightarrow> nat \<Rightarrow> nat" where
  "lineage_walk ns current seen depth =
     (case current of
        None \<Rightarrow> depth
      | Some c \<Rightarrow>
          if c \<in> seen then depth
          else (case dict_get ns c of
                  None \<Rightarrow> Suc depth
                | Some n \<Rightarrow> lineage_walk ns (sn_parent_step_id n) (insert c seen) (Suc depth)))"
  by pat_completeness auto
termination
proof (relation "measure (\<lambda>(ns, _, seen, _). card (set (dict_keys ns) - seen))", goal_cases)
  case (2 ns current seen depth c n)
  then have "c \<in> set (dict_keys ns)" by (auto dest: dict_get_key)
  with 2 have "set (dict_keys ns) - insert c seen \<subset> set (dict_keys ns) - seen" by auto
  then show ?case by (simp add: psubset_card_mono)
qed simp

declare lineage_walk.simps [simp del]

definition lineage_depth :: "step_dag \<Rightarrow> ident \<Rightarrow> nat" where
  "lineage_depth d sid =
     (if sid \<in> set (dict_keys (nodes d)) then lineage_walk (nodes d) (Some sid) {} 0 else 0)"

section \<open>Coverage predicates\<close>

text \<open>The two early-return loops of \<open>tree_green\<close>.\<close>

fun tree_green_open :: "step_node list \<Rightarrow> bool" where
  "tree_green_open [] = True"
| "tree_green_open (n # ns) =
     (if sn_status n = SPending \<or> sn_status n = SActive then False
      else if sn_status n = SFailed then False
      else if sn_status n = SSkipped then tree_green_open ns
      else tree_green_open ns)"

fun tree_green_leaves :: "step_node list \<Rightarrow> bool" where
  "tree_green_leaves [] = True"
| "tree_green_leaves (n # ns) =
     (if sn_status n \<in> {SDecomposed, SSuperseded, SSkipped} then tree_green_leaves ns
      else if sn_status n \<noteq> SCompleted then False
      else tree_green_leaves ns)"

definition tree_green :: "step_dag \<Rightarrow> bool" where
  "tree_green d \<longleftrightarrow>
     (if nodes d = [] then False
      else tree_green_open (step_nodes d) \<and> tree_green_leaves (step_nodes d))"

fun action_green :: "step_node list \<Rightarrow> bool" where
  "action_green [] = True"
| "action_green (n # ns) =
     (if sn_status n \<in> {SPending, SActive, SFailed} then False
      else if sn_status n \<notin> {SCompleted, SDecomposed, SSuperseded, SSkipped} then False
      else action_green ns)"

definition action_tree_green :: "step_dag \<Rightarrow> bool" where
  "action_tree_green d =
     (let action_nodes = filter (\<lambda>n. sn_kind n \<noteq> KEval) (step_nodes d) in
      if action_nodes = [] then False else action_green action_nodes)"

text \<open>\<open>max(ns, key=...)\<close> returns the first of the maximal elements.\<close>

fun max_by_iteration :: "step_node \<Rightarrow> step_node list \<Rightarrow> step_node" where
  "max_by_iteration best [] = best"
| "max_by_iteration best (n # ns) =
     max_by_iteration (if sn_plan_iteration best < sn_plan_iteration n then n else best) ns"

definition latest_eval :: "step_dag \<Rightarrow> step_node option" where
  "latest_eval d =
     (case filter (\<lambda>n. sn_kind n = KEval) (step_nodes d) of
        [] \<Rightarrow> None
      | n # ns \<Rightarrow> Some (max_by_iteration n ns))"

definition eval_required :: "step_dag \<Rightarrow> bool" where
  "eval_required d =
     (if \<not> action_tree_green d then False
      else case latest_eval d of
        Some latest \<Rightarrow> sn_status latest = SDecomposed
      | None \<Rightarrow>
          (let action_nodes = filter (\<lambda>n. sn_kind n = KAction) (step_nodes d);
               completed_leaves = filter (\<lambda>n. sn_status n = SCompleted \<and>
                 \<not> list_ex (\<lambda>child. sn_parent_step_id child = Some (sn_id n)) action_nodes) action_nodes;
               used_decompose = list_ex (\<lambda>n. sn_status n = SDecomposed) action_nodes;
               early_exit = list_ex (\<lambda>n. sn_status n = SCompleted \<and>
                 (case sn_close_report n of None \<Rightarrow> False | Some r \<Rightarrow> requires_eval r)) action_nodes
           in used_decompose \<or> length completed_leaves > 1 \<or> early_exit))"

section \<open>Frame and well-formedness\<close>

lemmas mark_defs =
  mark_active_def mark_completed_def mark_failed_def mark_skipped_def mark_decomposed_def
  mark_superseded_def

lemma modify_step_get [simp]:
  "dict_get (nodes (modify_step sid f d)) k =
     (if k = sid then map_option f (dict_get (nodes d) sid) else dict_get (nodes d) k)"
  by (simp add: modify_step_def)

interpretation step_store: object_store "\<lambda>d. dict_get (nodes d)" modify_step
  by unfold_locales (rule modify_step_get)

lemma modify_step_keys [simp]: "dict_keys (nodes (modify_step sid f d)) = dict_keys (nodes d)"
  by (simp add: modify_step_def)

lemma modify_step_total [simp]: "total_steps (modify_step sid f d) = total_steps d"
  by (simp add: total_steps_def modify_step_def)

lemma wf_step_dag_get: "wf_step_dag d \<Longrightarrow> dict_get (nodes d) k = Some n \<Longrightarrow> sn_id n = k"
  unfolding wf_step_dag_def by (rule keyed_by_get)

lemma wf_step_dag_dict: "wf_step_dag d \<Longrightarrow> wf_dict (nodes d)"
  unfolding wf_step_dag_def by (rule keyed_by_wf)

lemma wf_empty_step_dag [simp]: "wf_step_dag empty_step_dag"
  by (simp add: wf_step_dag_def empty_step_dag_def)

lemma wf_modify_step:
  "wf_step_dag d \<Longrightarrow> (\<And>n. sn_id (f n) = sn_id n) \<Longrightarrow> wf_step_dag (modify_step sid f d)"
  by (simp add: wf_step_dag_def modify_step_def keyed_by_modify)

lemma wf_add_step: "wf_step_dag d \<Longrightarrow> wf_step_dag (add_step n d)"
  by (simp add: wf_step_dag_def add_step_def keyed_by_set)

lemma wf_marks:
  assumes "wf_step_dag d"
  shows "wf_step_dag (mark_active sid d)" "wf_step_dag (mark_completed sid ex d)"
    "wf_step_dag (mark_failed sid ex d)" "wf_step_dag (mark_skipped sid d)"
    "wf_step_dag (mark_decomposed sid d)" "wf_step_dag (mark_superseded sid d)"
    "wf_step_dag (snd (reset_failed_step sid d))"
  using assms
  by (simp_all add: mark_defs reset_failed_step_def wf_modify_step split: option.split)

lemma mark_keys [simp]:
  "dict_keys (nodes (mark_active sid d)) = dict_keys (nodes d)"
  "dict_keys (nodes (mark_completed sid ex d)) = dict_keys (nodes d)"
  "dict_keys (nodes (mark_failed sid ex d)) = dict_keys (nodes d)"
  "dict_keys (nodes (mark_skipped sid d)) = dict_keys (nodes d)"
  "dict_keys (nodes (mark_decomposed sid d)) = dict_keys (nodes d)"
  "dict_keys (nodes (mark_superseded sid d)) = dict_keys (nodes d)"
  by (simp_all add: mark_defs)

section \<open>Queries characterised\<close>

lemma step_nodes_get:
  "wf_step_dag d \<Longrightarrow> n \<in> set (step_nodes d) \<longleftrightarrow> dict_get (nodes d) (sn_id n) = Some n"
  unfolding step_nodes_def wf_step_dag_def by (rule keyed_by_values)

lemma ids_with_status_iff:
  "wf_step_dag d \<Longrightarrow>
     sid \<in> set (ids_with_status st d) \<longleftrightarrow> (\<exists>n. dict_get (nodes d) sid = Some n \<and> sn_status n = st)"
  unfolding ids_with_status_def by (rule wf_dict_filter_keys) (rule wf_step_dag_dict)

lemma ready_steps_iff:
  "wf_step_dag d \<Longrightarrow>
     sid \<in> ready_steps d \<longleftrightarrow>
       (\<exists>n. dict_get (nodes d) sid = Some n \<and> sn_status n = SPending \<and>
            set (sn_dependencies n) \<subseteq> satisfied_ids d)"
  unfolding ready_steps_def Let_def list_all_iff subset_eq
  by (rule wf_dict_filter_keys) (rule wf_step_dag_dict)

lemma satisfied_completed: "set (ids_with_status SCompleted d) \<subseteq> satisfied_ids d"
  by (simp add: satisfied_ids_def expand_contains)

lemma tree_green_open_iff:
  "tree_green_open ns \<longleftrightarrow> (\<forall>n \<in> set ns. sn_status n \<notin> {SPending, SActive, SFailed})"
  by (induction ns) auto

lemma tree_green_leaves_iff:
  "tree_green_leaves ns \<longleftrightarrow>
     (\<forall>n \<in> set ns. sn_status n \<in> {SCompleted, SDecomposed, SSuperseded, SSkipped})"
  by (induction ns) auto

lemma tree_green_iff:
  "tree_green d \<longleftrightarrow>
     nodes d \<noteq> [] \<and>
     (\<forall>n \<in> set (step_nodes d). sn_status n \<in> {SCompleted, SDecomposed, SSuperseded, SSkipped})"
  by (auto simp: tree_green_def tree_green_open_iff tree_green_leaves_iff)

lemma action_green_iff:
  "action_green ns \<longleftrightarrow>
     (\<forall>n \<in> set ns. sn_status n \<in> {SCompleted, SDecomposed, SSuperseded, SSkipped})"
  by (induction ns) auto

lemma max_by_iteration_max:
  "max_by_iteration best ns \<in> set (best # ns) \<and>
   (\<forall>n \<in> set (best # ns). sn_plan_iteration n \<le> sn_plan_iteration (max_by_iteration best ns))"
proof (induction ns arbitrary: best)
  case (Cons n ns)
  show ?case
    using Cons.IH [of "if sn_plan_iteration best < sn_plan_iteration n then n else best"]
    by (auto split: if_splits)
qed simp

section \<open>Lineage\<close>

lemma lineage_walk_add:
  "lineage_walk ns current seen (k + depth) = k + lineage_walk ns current seen depth"
proof (induction ns current seen depth rule: lineage_walk.induct)
  case (1 ns current seen depth)
  show ?case
  proof (cases current)
    case None
    then show ?thesis by (simp add: lineage_walk.simps [of ns None])
  next
    case (Some c)
    show ?thesis
    proof (cases "c \<in> seen \<or> dict_get ns c = None")
      case True
      with Some show ?thesis by (auto simp: lineage_walk.simps [of ns "Some c"])
    next
      case False
      then obtain n where n: "dict_get ns c = Some n" and c: "c \<notin> seen" by auto
      from "1.IH" [OF Some c n] Some n c show ?thesis
        by (simp add: lineage_walk.simps [of ns "Some c"])
    qed
  qed
qed

lemma lineage_walk_depth:
  "lineage_walk ns current seen depth = depth + lineage_walk ns current seen 0"
  using lineage_walk_add [of ns current seen depth 0] by simp

text \<open>The walk never counts more than the unseen nodes and one dangling id.\<close>

lemma lineage_walk_bound:
  "lineage_walk ns current seen depth \<le> Suc (depth + card (set (dict_keys ns) - seen))"
proof (induction ns current seen depth rule: lineage_walk.induct)
  case (1 ns current seen depth)
  show ?case
  proof (cases current)
    case None
    then show ?thesis by (simp add: lineage_walk.simps [of ns None])
  next
    case (Some c)
    show ?thesis
    proof (cases "c \<in> seen \<or> dict_get ns c = None")
      case True
      with Some show ?thesis by (auto simp: lineage_walk.simps [of ns "Some c"])
    next
      case False
      then obtain n where n: "dict_get ns c = Some n" and c: "c \<notin> seen" by auto
      have "c \<in> set (dict_keys ns) - seen" using n c by (auto dest: dict_get_key)
      moreover have "set (dict_keys ns) - insert c seen = (set (dict_keys ns) - seen) - {c}"
        by auto
      ultimately have "Suc (card (set (dict_keys ns) - insert c seen)) = card (set (dict_keys ns) - seen)"
        by (metis card_Suc_Diff1 finite_Diff List.finite_set)
      with "1.IH" [OF Some c n] Some n c show ?thesis
        by (simp add: lineage_walk.simps [of ns "Some c"] del: set_map)
    qed
  qed
qed

lemma lineage_depth_bound: "lineage_depth d sid \<le> Suc (length (nodes d))"
proof -
  have "card (set (dict_keys (nodes d)) - {}) \<le> length (nodes d)"
    by (metis Diff_empty card_length length_map)
  then show ?thesis
    using lineage_walk_bound [of "nodes d" "Some sid" "{}" 0]
    by (simp add: lineage_depth_def del: set_map)
qed

text \<open>Adding fresh ids that no existing node names as its parent leaves every walk over
  the existing nodes unchanged.\<close>

lemma lineage_walk_extend:
  assumes agree: "\<And>k. k \<notin> fresh \<Longrightarrow>
      map_option sn_parent_step_id (dict_get ns' k) = map_option sn_parent_step_id (dict_get ns k)"
    and old: "set (dict_keys ns) \<inter> fresh = {}"
    and parents: "\<And>k n q. dict_get ns k = Some n \<Longrightarrow> sn_parent_step_id n = Some q \<Longrightarrow> q \<notin> fresh"
    and F: "F \<subseteq> fresh"
  shows "(\<And>q. current = Some q \<Longrightarrow> q \<notin> fresh) \<Longrightarrow>
    lineage_walk ns' current (seen \<union> F) depth = lineage_walk ns current seen depth"
  using agree old parents
proof (induction ns current seen depth rule: lineage_walk.induct)
  case (1 ns current seen depth)
  show ?case
  proof (cases current)
    case None
    then show ?thesis by (simp add: lineage_walk.simps [of _ None])
  next
    case (Some c)
    with "1.prems"(1) have c: "c \<notin> fresh" by simp
    with F have seen: "c \<in> seen \<union> F \<longleftrightarrow> c \<in> seen" by blast
    have get: "map_option sn_parent_step_id (dict_get ns' c) = map_option sn_parent_step_id (dict_get ns c)"
      using "1.prems"(2) c by simp
    show ?thesis
    proof (cases "c \<in> seen \<or> dict_get ns c = None")
      case True
      moreover have "dict_get ns c = None \<longleftrightarrow> dict_get ns' c = None" using get by (metis map_option_is_None)
      ultimately show ?thesis using Some seen by (auto simp: lineage_walk.simps [of _ "Some c"])
    next
      case False
      then obtain n where n: "dict_get ns c = Some n" and cs: "c \<notin> seen" by auto
      from get n obtain n' where n': "dict_get ns' c = Some n'" "sn_parent_step_id n' = sn_parent_step_id n" by auto
      have "lineage_walk ns' (sn_parent_step_id n) (insert c seen \<union> F) (Suc depth) =
          lineage_walk ns (sn_parent_step_id n) (insert c seen) (Suc depth)"
        by (rule "1.IH" [OF Some cs n]) (use "1.prems" n in blast)+
      then show ?thesis
        using Some n cs seen n' by (simp add: lineage_walk.simps [of _ "Some c"])
    qed
  qed
qed

text \<open>A fresh child is one level below its parent.\<close>

lemma lineage_depth_child:
  assumes fresh: "\<And>k. k \<notin> fresh \<Longrightarrow>
      map_option sn_parent_step_id (dict_get (nodes d') k) = map_option sn_parent_step_id (dict_get (nodes d) k)"
    and old: "set (dict_keys (nodes d)) \<inter> fresh = {}"
    and parents: "\<And>k n q. dict_get (nodes d) k = Some n \<Longrightarrow> sn_parent_step_id n = Some q \<Longrightarrow> q \<notin> fresh"
    and c: "c \<in> fresh" "dict_get (nodes d') c = Some child" "sn_parent_step_id child = Some p"
    and p: "p \<in> set (dict_keys (nodes d))"
  shows "lineage_depth d' c = Suc (lineage_depth d p)"
proof -
  have "lineage_depth d' c = lineage_walk (nodes d') (Some p) ({} \<union> {c}) 1"
    using c dict_get_key [OF c(2)]
    by (simp add: lineage_depth_def lineage_walk.simps [of _ "Some c"] del: set_map)
  also have "\<dots> = lineage_walk (nodes d) (Some p) {} 1"
    by (rule lineage_walk_extend [where fresh = fresh]) (use assms in blast)+
  also have "\<dots> = Suc (lineage_walk (nodes d) (Some p) {} 0)"
    using lineage_walk_depth [of "nodes d" "Some p" "{}" 1] by simp
  finally show ?thesis using p by (simp add: lineage_depth_def)
qed

end
