(* ===== verification/Cycle_Removal.thy ===== *)
theory Cycle_Removal
  imports Step_Dag
begin

text \<open>
  \<open>_drop_new_node_cycles\<close> (\<open>sloop/decompose/reconcile.py\<close>): a depth-first search over the
  dependencies inside a batch of new steps, which records every edge to a node still being
  visited and then drops those edges. The source iterates over a Python set, so the order of
  the roots is a parameter \<open>order\<close>; the results hold for every order.
\<close>

section \<open>The search\<close>

record dfs_state =
  dfs_remove :: "(ident \<times> ident) set"
  dfs_visiting :: "ident set"
  dfs_visited :: "ident list"

text \<open>Fuel bounds the nesting of \<open>visit\<close>; \<open>None\<close> stands for a recursion that does not return.
  \<open>dfs_visited\<close> lists the visited set in the order of insertion.\<close>

fun visit_step :: "nat \<Rightarrow> (ident \<Rightarrow> ident list) \<Rightarrow> ident \<Rightarrow> dfs_state \<Rightarrow> dfs_state option"
and visit_deps :: "nat \<Rightarrow> (ident \<Rightarrow> ident list) \<Rightarrow> ident \<Rightarrow> ident list \<Rightarrow> dfs_state \<Rightarrow> dfs_state option" where
  "visit_step 0 dm sid st = None"
| "visit_step (Suc fuel) dm sid st =
     (if sid \<in> dfs_visiting st \<or> sid \<in> set (dfs_visited st) then Some st
      else (case visit_deps fuel dm sid (dm sid) (st\<lparr>dfs_visiting := insert sid (dfs_visiting st)\<rparr>) of
              None \<Rightarrow> None
            | Some st' \<Rightarrow> Some (st'\<lparr>dfs_visiting := dfs_visiting st' - {sid},
                                  dfs_visited := dfs_visited st' @ [sid]\<rparr>)))"
| "visit_deps fuel dm sid [] st = Some st"
| "visit_deps fuel dm sid (dep # deps) st =
     (if dep \<in> dfs_visiting st
      then visit_deps fuel dm sid deps (st\<lparr>dfs_remove := insert (dep, sid) (dfs_remove st)\<rparr>)
      else (case visit_step fuel dm dep st of
              None \<Rightarrow> None
            | Some st' \<Rightarrow> visit_deps fuel dm sid deps st'))"

fun visit_all :: "nat \<Rightarrow> (ident \<Rightarrow> ident list) \<Rightarrow> ident list \<Rightarrow> dfs_state \<Rightarrow> dfs_state option" where
  "visit_all fuel dm [] st = Some st"
| "visit_all fuel dm (sid # sids) st =
     (case visit_step fuel dm sid st of None \<Rightarrow> None | Some st' \<Rightarrow> visit_all fuel dm sids st')"

definition dfs_start :: dfs_state where
  "dfs_start = \<lparr>dfs_remove = {}, dfs_visiting = {}, dfs_visited = []\<rparr>"

definition batch_deps :: "step_node list \<Rightarrow> ident \<Rightarrow> ident list" where
  "batch_deps ns sid =
     (case map_of (rev (map (\<lambda>n. (sn_id n, filter (\<lambda>d. d \<in> set (map sn_id ns)) (sn_dependencies n))) ns)) sid of
        None \<Rightarrow> [] | Some l \<Rightarrow> l)"

definition drop_new_node_cycles :: "ident list \<Rightarrow> step_node list \<Rightarrow> step_node list option" where
  "drop_new_node_cycles order ns =
     (case visit_all (Suc (length ns)) (batch_deps ns) order dfs_start of
        None \<Rightarrow> None
      | Some st \<Rightarrow>
          if dfs_remove st = {} then Some ns
          else Some (map (\<lambda>n. n\<lparr>sn_dependencies :=
                        filter (\<lambda>d. (d, sn_id n) \<notin> dfs_remove st) (sn_dependencies n)\<rparr>) ns))"

section \<open>The search returns\<close>

lemma visit_returns:
  assumes "finite A" "\<forall>s \<in> A. set (dm s) \<subseteq> A"
  shows "sid \<in> A \<Longrightarrow> card (A - dfs_visiting st) < fuel \<Longrightarrow>
      \<exists>st'. visit_step fuel dm sid st = Some st' \<and> dfs_visiting st' = dfs_visiting st"
    and "set deps \<subseteq> A \<Longrightarrow> card (A - dfs_visiting st) < fuel \<Longrightarrow>
      \<exists>st'. visit_deps fuel dm sid deps st = Some st' \<and> dfs_visiting st' = dfs_visiting st"
  using assms
proof (induction fuel dm sid st and fuel dm sid deps st rule: visit_step_visit_deps.induct)
  case (2 fuel dm sid st)
  show ?case
  proof (cases "sid \<in> dfs_visiting st \<or> sid \<in> set (dfs_visited st)")
    case False
    let ?st = "st\<lparr>dfs_visiting := insert sid (dfs_visiting st)\<rparr>"
    have "A - dfs_visiting ?st \<subset> A - dfs_visiting st" using 2(2) False by auto
    then have "card (A - dfs_visiting ?st) < card (A - dfs_visiting st)"
      using 2(4) by (intro psubset_card_mono) simp_all
    with 2(3) have "card (A - dfs_visiting ?st) < fuel" by simp
    with 2(1) [OF False] 2(2,4,5) obtain st' where
      "visit_deps fuel dm sid (dm sid) ?st = Some st'" "dfs_visiting st' = dfs_visiting ?st" by blast
    with False show ?thesis by auto
  qed auto
next
  case (4 fuel dm sid dep deps st)
  show ?case
  proof (cases "dep \<in> dfs_visiting st")
    case True
    with 4(1) [OF True] 4(4-7) show ?thesis by simp
  next
    case False
    with 4(2) [OF False] 4(4-7) obtain st1 where st1:
      "visit_step fuel dm dep st = Some st1" "dfs_visiting st1 = dfs_visiting st" by auto
    with 4(3) [OF False st1(1)] 4(4-7) False show ?thesis by simp
  qed
qed simp_all

lemma visit_all_returns:
  assumes "finite A" "\<forall>s \<in> A. set (dm s) \<subseteq> A" "card A < fuel"
    and "dfs_visiting st = {}" "set order \<subseteq> A"
  shows "\<exists>st'. visit_all fuel dm order st = Some st'"
  using assms(4,5)
proof (induction order arbitrary: st)
  case (Cons sid sids)
  have "card (A - dfs_visiting st) < fuel" using Cons.prems(1) assms(3) by simp
  with visit_returns(1) [OF assms(1,2), of sid st fuel] Cons.prems(2) obtain st1 where
    "visit_step fuel dm sid st = Some st1" "dfs_visiting st1 = dfs_visiting st" by fastforce
  with Cons show ?case by simp
qed simp

section \<open>The finishing order\<close>

text \<open>Every dependency of a finished node is dropped or finished before it.\<close>

definition finished_in_order :: "(ident \<Rightarrow> ident list) \<Rightarrow> dfs_state \<Rightarrow> bool" where
  "finished_in_order dm st \<longleftrightarrow>
     distinct (dfs_visited st) \<and> set (dfs_visited st) \<inter> dfs_visiting st = {} \<and>
     (\<forall>xs s ys. dfs_visited st = xs @ s # ys \<longrightarrow>
        (\<forall>dep \<in> set (dm s). (dep, s) \<in> dfs_remove st \<or> dep \<in> set xs))"

text \<open>What one call leaves behind.\<close>

definition extends :: "dfs_state \<Rightarrow> dfs_state \<Rightarrow> bool" where
  "extends st st' \<longleftrightarrow> dfs_visiting st' = dfs_visiting st \<and>
     set (dfs_visited st) \<subseteq> set (dfs_visited st') \<and> dfs_remove st \<subseteq> dfs_remove st'"

lemma extends_refl [simp]: "extends st st"
  by (simp add: extends_def)

lemma extends_trans: "extends a b \<Longrightarrow> extends b c \<Longrightarrow> extends a c"
  unfolding extends_def by auto

lemma finished_more_removed:
  assumes "finished_in_order dm st"
  shows "finished_in_order dm (st\<lparr>dfs_remove := insert e (dfs_remove st)\<rparr>)"
  using assms unfolding finished_in_order_def by auto

lemma finished_visiting:
  assumes "finished_in_order dm st" "sid \<notin> set (dfs_visited st)"
  shows "finished_in_order dm (st\<lparr>dfs_visiting := insert sid (dfs_visiting st)\<rparr>)"
  using assms unfolding finished_in_order_def by auto

lemma finished_append:
  assumes fin: "finished_in_order dm st" and sid: "sid \<in> dfs_visiting st"
    and deps: "\<forall>dep \<in> set (dm sid). (dep, sid) \<in> dfs_remove st \<or> dep \<in> set (dfs_visited st)"
  shows "finished_in_order dm
    (st\<lparr>dfs_visiting := dfs_visiting st - {sid}, dfs_visited := dfs_visited st @ [sid]\<rparr>)"
proof -
  have new: "sid \<notin> set (dfs_visited st)" using fin sid unfolding finished_in_order_def by blast
  have "\<forall>dep \<in> set (dm s). (dep, s) \<in> dfs_remove st \<or> dep \<in> set xs"
    if "dfs_visited st @ [sid] = xs @ s # ys" for xs s ys
  proof (cases ys rule: rev_cases)
    case Nil
    with that have "xs = dfs_visited st" "s = sid" by auto
    with deps show ?thesis by simp
  next
    case (snoc zs z)
    with that have "dfs_visited st = xs @ s # zs" by auto
    with fin show ?thesis unfolding finished_in_order_def by blast
  qed
  with fin new show ?thesis unfolding finished_in_order_def by auto
qed

lemma visit_finishes:
  "visit_step fuel dm sid st = Some st' \<Longrightarrow> finished_in_order dm st \<Longrightarrow>
     extends st st' \<and> finished_in_order dm st' \<and> (sid \<notin> dfs_visiting st \<longrightarrow> sid \<in> set (dfs_visited st'))"
  "visit_deps fuel dm sid deps st = Some st' \<Longrightarrow> finished_in_order dm st \<Longrightarrow>
     extends st st' \<and> finished_in_order dm st' \<and>
     (\<forall>dep \<in> set deps. (dep, sid) \<in> dfs_remove st' \<or> dep \<in> set (dfs_visited st'))"
proof (induction fuel dm sid st and fuel dm sid deps st arbitrary: st' and st'
    rule: visit_step_visit_deps.induct)
  case (2 fuel dm sid st)
  show ?case
  proof (cases "sid \<in> dfs_visiting st \<or> sid \<in> set (dfs_visited st)")
    case True
    with 2(2,3) show ?thesis by auto
  next
    case False
    let ?st = "st\<lparr>dfs_visiting := insert sid (dfs_visiting st)\<rparr>"
    from 2(2) False obtain st1 where st1: "visit_deps fuel dm sid (dm sid) ?st = Some st1"
      and st': "st' = st1\<lparr>dfs_visiting := dfs_visiting st1 - {sid}, dfs_visited := dfs_visited st1 @ [sid]\<rparr>"
      by (auto split: option.splits)
    have "finished_in_order dm ?st" using 2(3) False by (intro finished_visiting) auto
    from 2(1) [OF False st1 this] have IH: "extends ?st st1" "finished_in_order dm st1"
      "\<forall>dep \<in> set (dm sid). (dep, sid) \<in> dfs_remove st1 \<or> dep \<in> set (dfs_visited st1)" by blast+
    have "finished_in_order dm st'"
      unfolding st' by (rule finished_append [OF IH(2) _ IH(3)]) (use IH(1) in \<open>simp add: extends_def\<close>)
    moreover have "extends st st'" using IH(1) False unfolding extends_def st' by auto
    ultimately show ?thesis unfolding st' by simp
  qed
next
  case (4 fuel dm sid dep deps st)
  show ?case
  proof (cases "dep \<in> dfs_visiting st")
    case True
    let ?st = "st\<lparr>dfs_remove := insert (dep, sid) (dfs_remove st)\<rparr>"
    have "visit_deps fuel dm sid deps ?st = Some st'" using 4(4) True by simp
    from 4(1) [OF True this finished_more_removed [OF 4(5)]]
    have IH: "extends ?st st'" "finished_in_order dm st'"
      "\<forall>d \<in> set deps. (d, sid) \<in> dfs_remove st' \<or> d \<in> set (dfs_visited st')" by blast+
    then have "extends st st'" "(dep, sid) \<in> dfs_remove st'" unfolding extends_def by auto
    with IH show ?thesis by simp
  next
    case False
    from 4(4) False obtain st1 where st1: "visit_step fuel dm dep st = Some st1"
      and st2: "visit_deps fuel dm sid deps st1 = Some st'" by (auto split: option.splits)
    from 4(2) [OF False st1 4(5)] False have IH1: "extends st st1" "finished_in_order dm st1"
      "dep \<in> set (dfs_visited st1)" by blast+
    from 4(3) [OF False st1 st2 IH1(2)] have IH2: "extends st1 st'" "finished_in_order dm st'"
      "\<forall>d \<in> set deps. (d, sid) \<in> dfs_remove st' \<or> d \<in> set (dfs_visited st')" by blast+
    have "dep \<in> set (dfs_visited st')" using IH1(3) IH2(1) unfolding extends_def by blast
    with extends_trans [OF IH1(1) IH2(1)] IH2 show ?thesis by simp
  qed
qed simp_all

lemma visit_all_finishes:
  "visit_all fuel dm order st = Some st' \<Longrightarrow> finished_in_order dm st \<Longrightarrow> dfs_visiting st = {} \<Longrightarrow>
   finished_in_order dm st' \<and> set (dfs_visited st) \<union> set order \<subseteq> set (dfs_visited st')"
proof (induction order arbitrary: st)
  case (Cons sid sids)
  from Cons.prems(1) obtain st1 where st1: "visit_step fuel dm sid st = Some st1"
    "visit_all fuel dm sids st1 = Some st'" by (auto split: option.splits)
  from visit_finishes(1) [OF st1(1) Cons.prems(2)] Cons.prems(3)
  have "extends st st1" "finished_in_order dm st1" "sid \<in> set (dfs_visited st1)" by auto
  with Cons.IH [OF st1(2)] Cons.prems(3) show ?case unfolding extends_def by auto
qed simp

text \<open>The edges that survive follow the finishing order, so they form no cycle.\<close>

lemma finished_acyclic:
  assumes fin: "finished_in_order dm st"
  shows "acyclic {(dep, s). s \<in> set (dfs_visited st) \<and> dep \<in> set (dm s) \<and> (dep, s) \<notin> dfs_remove st}"
proof -
  let ?idx = "\<lambda>s. length (takeWhile (\<lambda>t. t \<noteq> s) (dfs_visited st))"
  have "?idx dep < ?idx s"
    if s: "s \<in> set (dfs_visited st)" and dep: "dep \<in> set (dm s)" "(dep, s) \<notin> dfs_remove st" for dep s
  proof -
    from split_list [OF s] obtain xs ys where v: "dfs_visited st = xs @ s # ys" by blast
    with fin dep have d: "dep \<in> set xs" unfolding finished_in_order_def by blast
    have "s \<notin> set xs" using fin v unfolding finished_in_order_def by auto
    then have "?idx s = length xs" using v by (simp add: takeWhile_append)
    moreover have "?idx dep < length xs"
    proof -
      have "takeWhile (\<lambda>t. t \<noteq> dep) (dfs_visited st) = takeWhile (\<lambda>t. t \<noteq> dep) xs"
        unfolding v using d by (intro takeWhile_append1) auto
      moreover have "length (takeWhile (\<lambda>t. t \<noteq> dep) xs) < length xs"
        using d by (metis (mono_tags, lifting) length_takeWhile_le nat_less_le takeWhile_eq_all_conv
            takeWhile_eq_take take_all_iff)
      ultimately show ?thesis by simp
    qed
    ultimately show ?thesis by simp
  qed
  then have "{(dep, s). s \<in> set (dfs_visited st) \<and> dep \<in> set (dm s) \<and> (dep, s) \<notin> dfs_remove st} \<subseteq> measure ?idx"
    by auto
  then show ?thesis by (rule acyclic_subset [OF wf_acyclic [OF wf_measure]])
qed

section \<open>Acyclic batches are left alone\<close>

lemma visit_keeps_acyclic:
  fixes dm :: "ident \<Rightarrow> ident list"
  defines "R \<equiv> {(d, s). d \<in> set (dm s)}"
  assumes acyc: "acyclic R"
  shows "visit_step fuel dm sid st = Some st' \<Longrightarrow> \<forall>v \<in> dfs_visiting st. (sid, v) \<in> R\<^sup>* \<Longrightarrow>
      dfs_remove st' = dfs_remove st \<and> dfs_visiting st' = dfs_visiting st"
    and "visit_deps fuel dm sid deps st = Some st' \<Longrightarrow> \<forall>v \<in> dfs_visiting st. (sid, v) \<in> R\<^sup>* \<Longrightarrow>
      set deps \<subseteq> set (dm sid) \<Longrightarrow> dfs_remove st' = dfs_remove st \<and> dfs_visiting st' = dfs_visiting st"
  using acyc unfolding R_def
proof (induction fuel dm sid st and fuel dm sid deps st arbitrary: st' and st'
    rule: visit_step_visit_deps.induct)
  case (2 fuel dm sid st)
  let ?R = "{(d, s). d \<in> set (dm s)}"
  show ?case
  proof (cases "sid \<in> dfs_visiting st \<or> sid \<in> set (dfs_visited st)")
    case False
    let ?st = "st\<lparr>dfs_visiting := insert sid (dfs_visiting st)\<rparr>"
    from 2(2) False obtain st1 where st1: "visit_deps fuel dm sid (dm sid) ?st = Some st1"
      and st': "st' = st1\<lparr>dfs_visiting := dfs_visiting st1 - {sid}, dfs_visited := dfs_visited st1 @ [sid]\<rparr>"
      by (auto split: option.splits)
    have "\<forall>v \<in> dfs_visiting ?st. (sid, v) \<in> ?R\<^sup>*" using 2(3) by simp
    from 2(1) [OF False st1 this _ 2(4)] False show ?thesis unfolding st' by simp
  qed (use 2 in auto)
next
  case (4 fuel dm sid dep deps st)
  let ?R = "{(d, s). d \<in> set (dm s)}"
  have edge: "(dep, sid) \<in> ?R" using 4(6) by simp
  have new: "dep \<notin> dfs_visiting st"
  proof
    assume "dep \<in> dfs_visiting st"
    then have "(sid, dep) \<in> ?R\<^sup>*" using 4(5) by blast
    with edge have "(dep, dep) \<in> ?R\<^sup>+" by (rule rtrancl_into_trancl2)
    with 4(7) show False unfolding acyclic_def by blast
  qed
  from 4(4) new obtain st1 where st1: "visit_step fuel dm dep st = Some st1"
    and st2: "visit_deps fuel dm sid deps st1 = Some st'" by (auto split: option.splits)
  have "\<forall>v \<in> dfs_visiting st. (dep, v) \<in> ?R\<^sup>*"
    using 4(5) edge by (meson converse_rtrancl_into_rtrancl)
  from 4(2) [OF new st1 this 4(7)]
  have s1: "dfs_remove st1 = dfs_remove st" "dfs_visiting st1 = dfs_visiting st" by simp_all
  have "dfs_remove st' = dfs_remove st1 \<and> dfs_visiting st' = dfs_visiting st1"
    by (rule 4(3) [OF new st1 st2]) (use 4(5-7) s1 in simp_all)
  with s1 show ?case by simp
qed simp_all

lemma visit_all_keeps_acyclic:
  assumes "acyclic {(d, s). d \<in> set (dm s)}" "visit_all fuel dm order st = Some st'" "dfs_visiting st = {}"
  shows "dfs_remove st' = dfs_remove st"
  using assms(2,3)
proof (induction order arbitrary: st)
  case (Cons sid sids)
  from Cons.prems(1) obtain st1 where st1: "visit_step fuel dm sid st = Some st1"
    "visit_all fuel dm sids st1 = Some st'" by (auto split: option.splits)
  with visit_keeps_acyclic(1) [OF assms(1) st1(1)] Cons show ?case by simp
qed simp

lemma visit_removes:
  "visit_step fuel dm sid st = Some st' \<Longrightarrow>
     dfs_remove st' \<subseteq> dfs_remove st \<union> {(d, s). d \<in> set (dm s)}"
  "visit_deps fuel dm sid deps st = Some st' \<Longrightarrow> set deps \<subseteq> set (dm sid) \<Longrightarrow>
     dfs_remove st' \<subseteq> dfs_remove st \<union> {(d, s). d \<in> set (dm s)}"
proof (induction fuel dm sid st and fuel dm sid deps st arbitrary: st' and st'
    rule: visit_step_visit_deps.induct)
  case (2 fuel dm sid st)
  then show ?case by (auto split: if_splits option.splits)
next
  case (4 fuel dm sid dep deps st)
  show ?case
  proof (cases "dep \<in> dfs_visiting st")
    case True
    let ?st = "st\<lparr>dfs_remove := insert (dep, sid) (dfs_remove st)\<rparr>"
    have "dfs_remove st' \<subseteq> dfs_remove ?st \<union> {(d, s). d \<in> set (dm s)}"
      by (rule 4(1) [OF True]) (use 4(4,5) True in simp_all)
    then show ?thesis using 4(5) by auto
  next
    case False
    from 4(4) False obtain st1 where st1: "visit_step fuel dm dep st = Some st1"
      and st2: "visit_deps fuel dm sid deps st1 = Some st'" by (auto split: option.splits)
    have "dfs_remove st' \<subseteq> dfs_remove st1 \<union> {(d, s). d \<in> set (dm s)}"
      by (rule 4(3) [OF False st1 st2]) (use 4(5) in simp)
    with 4(2) [OF False st1] show ?thesis by blast
  qed
qed simp_all

lemma visit_all_removes:
  "visit_all fuel dm order st = Some st' \<Longrightarrow> dfs_remove st' \<subseteq> dfs_remove st \<union> {(d, s). d \<in> set (dm s)}"
proof (induction order arbitrary: st)
  case (Cons sid sids)
  from Cons.prems obtain st1 where st1: "visit_step fuel dm sid st = Some st1"
    "visit_all fuel dm sids st1 = Some st'" by (auto split: option.splits)
  from visit_removes(1) [OF st1(1)] Cons.IH [OF st1(2)] show ?case by blast
qed simp

section \<open>The batch\<close>

text \<open>\<open>(d, s)\<close> when the step \<open>s\<close> of the batch depends on the step \<open>d\<close> of the batch.\<close>

definition batch_rel :: "step_node list \<Rightarrow> (ident \<times> ident) set" where
  "batch_rel ns = {(d, s). \<exists>n \<in> set ns. sn_id n = s \<and> d \<in> set (sn_dependencies n) \<and> d \<in> set (map sn_id ns)}"

lemma batch_deps_in: "set (batch_deps ns s) \<subseteq> set (map sn_id ns)"
proof (cases "map_of (rev (map (\<lambda>n. (sn_id n, filter (\<lambda>d. d \<in> set (map sn_id ns)) (sn_dependencies n))) ns)) s")
  case (Some l)
  then have "(s, l) \<in> set (map (\<lambda>n. (sn_id n, filter (\<lambda>d. d \<in> set (map sn_id ns)) (sn_dependencies n))) ns)"
    by (auto dest!: map_of_SomeD)
  then have "set l \<subseteq> set (map sn_id ns)" by auto
  with Some show ?thesis unfolding batch_deps_def by simp
qed (simp add: batch_deps_def)

lemma batch_deps_eq:
  assumes "distinct (map sn_id ns)" "n \<in> set ns"
  shows "batch_deps ns (sn_id n) = filter (\<lambda>d. d \<in> set (map sn_id ns)) (sn_dependencies n)"
proof -
  let ?kv = "map (\<lambda>n. (sn_id n, filter (\<lambda>d. d \<in> set (map sn_id ns)) (sn_dependencies n))) ns"
  have "distinct (map fst (rev ?kv))" using assms(1) by (simp add: rev_map [symmetric] comp_def)
  moreover have "(sn_id n, filter (\<lambda>d. d \<in> set (map sn_id ns)) (sn_dependencies n)) \<in> set (rev ?kv)"
    using assms(2) by simp
  ultimately have "map_of (rev ?kv) (sn_id n) = Some (filter (\<lambda>d. d \<in> set (map sn_id ns)) (sn_dependencies n))"
    by (rule map_of_is_SomeI)
  then show ?thesis unfolding batch_deps_def by simp
qed

lemma batch_rel_deps:
  assumes "distinct (map sn_id ns)"
  shows "(d, s) \<in> batch_rel ns \<longleftrightarrow> s \<in> set (map sn_id ns) \<and> d \<in> set (batch_deps ns s)"
  unfolding batch_rel_def using batch_deps_eq [OF assms] by fastforce

lemma batch_deps_rel:
  assumes "distinct (map sn_id ns)"
  shows "{(d, s). d \<in> set (batch_deps ns s)} = batch_rel ns"
proof -
  have "batch_deps ns s = []" if "s \<notin> set (map sn_id ns)" for s
  proof -
    have "map_of (rev (map (\<lambda>n. (sn_id n, filter (\<lambda>d. d \<in> set (map sn_id ns)) (sn_dependencies n))) ns)) s = None"
      using that by (simp add: map_of_eq_None_iff image_image)
    then show ?thesis unfolding batch_deps_def by simp
  qed
  then show ?thesis using batch_rel_deps [OF assms] by (fastforce simp del: set_map)
qed

lemma drop_cycles_spec:
  assumes dist: "distinct (map sn_id ns)" and order: "set order = set (map sn_id ns)"
  shows "\<exists>ns' P. drop_new_node_cycles order ns = Some ns' \<and>
     ns' = map (\<lambda>n. n\<lparr>sn_dependencies := filter (\<lambda>d. P d (sn_id n)) (sn_dependencies n)\<rparr>) ns \<and>
     (\<forall>d s. d \<notin> set (map sn_id ns) \<longrightarrow> P d s) \<and>
     acyclic (batch_rel ns') \<and> (acyclic (batch_rel ns) \<longrightarrow> ns' = ns)"
proof -
  let ?ids = "set (map sn_id ns)" and ?dm = "batch_deps ns"
  have "card ?ids \<le> length ns" by (metis card_length length_map)
  then have "\<exists>st. visit_all (Suc (length ns)) ?dm order dfs_start = Some st"
    by (intro visit_all_returns [of ?ids])
      (use order batch_deps_in in \<open>simp_all add: dfs_start_def less_Suc_eq_le del: set_map\<close>)
  then obtain st where st: "visit_all (Suc (length ns)) ?dm order dfs_start = Some st" by blast
  have "finished_in_order ?dm dfs_start" by (simp add: finished_in_order_def dfs_start_def)
  from visit_all_finishes [OF st this]
  have fin: "finished_in_order ?dm st" and all: "?ids \<subseteq> set (dfs_visited st)"
    using order by (simp_all add: dfs_start_def del: set_map)
  have removed: "dfs_remove st \<subseteq> batch_rel ns"
    using visit_all_removes [OF st] unfolding batch_deps_rel [OF dist] by (simp add: dfs_start_def)
  let ?P = "\<lambda>d s. (d, s) \<notin> dfs_remove st"
  let ?ns = "map (\<lambda>n. n\<lparr>sn_dependencies := filter (\<lambda>d. ?P d (sn_id n)) (sn_dependencies n)\<rparr>) ns"
  have "drop_new_node_cycles order ns = Some ?ns"
    using st by (simp add: drop_new_node_cycles_def)
  moreover have "\<forall>d s. d \<notin> ?ids \<longrightarrow> ?P d s" using removed unfolding batch_rel_def by blast
  moreover have "acyclic (batch_rel ?ns)"
  proof (rule acyclic_subset [OF finished_acyclic [OF fin]])
    have ids: "map sn_id ?ns = map sn_id ns" by simp
    have "s \<in> ?ids \<and> d \<in> set (?dm s) \<and> ?P d s" if ds: "(d, s) \<in> batch_rel ?ns" for d s
    proof -
      obtain n where n: "n \<in> set ns" "sn_id n = s" "d \<in> set (sn_dependencies n)" "?P d s" "d \<in> ?ids"
        using ds unfolding batch_rel_def ids by auto
      then have "(d, s) \<in> batch_rel ns" unfolding batch_rel_def by blast
      with n(4) show ?thesis using batch_rel_deps [OF dist] by blast
    qed
    with all show "batch_rel ?ns \<subseteq>
        {(d, s). s \<in> set (dfs_visited st) \<and> d \<in> set (?dm s) \<and> ?P d s}" by blast
  qed
  moreover have "?ns = ns" if acyc: "acyclic (batch_rel ns)"
  proof -
    have "acyclic {(d, s). d \<in> set (?dm s)}" using acyc unfolding batch_deps_rel [OF dist] .
    from visit_all_keeps_acyclic [OF this st] have "dfs_remove st = {}" by (simp add: dfs_start_def)
    then show ?thesis by simp
  qed
  ultimately show ?thesis
    by (intro exI [of _ ?ns] exI [of _ ?P] conjI impI refl)
qed

text \<open>Claim C25. \<open>_drop_new_node_cycles\<close> returns for every order in which the set of roots is
  visited; the batch it leaves has no dependency cycle; it only filters dependencies (never one
  on a step outside the batch); and a batch without cycles is left as it was.\<close>

theorem drop_new_node_cycles_correct:
  assumes dist: "distinct (map sn_id ns)" and order: "set order = set (map sn_id ns)"
  shows "\<exists>ns' P. drop_new_node_cycles order ns = Some ns' \<and>
     ns' = map (\<lambda>n. n\<lparr>sn_dependencies := filter (\<lambda>d. P d (sn_id n)) (sn_dependencies n)\<rparr>) ns \<and>
     (\<forall>d s. d \<notin> set (map sn_id ns) \<longrightarrow> P d s) \<and>
     acyclic (batch_rel ns') \<and> (acyclic (batch_rel ns) \<longrightarrow> ns' = ns)"
  using assms by (rule drop_cycles_spec)

text \<open>Two steps that depend on each other, and on a step outside the batch.\<close>

definition cyclic_batch :: "step_node list" where
  "cyclic_batch =
     [(new_step ''P-01'' ''a'')\<lparr>sn_dependencies := [''P-02'', ''OLD-01'']\<rparr>,
      (new_step ''P-02'' ''b'')\<lparr>sn_dependencies := [''P-01'']\<rparr>]"

lemma drop_new_node_cycles_correct_witness:
  "(\<exists>ns'. drop_new_node_cycles [''P-01'', ''P-02''] cyclic_batch = Some ns' \<and> acyclic (batch_rel ns')) \<and>
   \<not> acyclic (batch_rel cyclic_batch)"
proof
  have ids: "map sn_id cyclic_batch = [''P-01'', ''P-02'']"
    by (simp add: cyclic_batch_def new_step_def)
  show "\<exists>ns'. drop_new_node_cycles [''P-01'', ''P-02''] cyclic_batch = Some ns' \<and> acyclic (batch_rel ns')"
    using drop_new_node_cycles_correct [of cyclic_batch "[''P-01'', ''P-02'']"] unfolding ids by auto
  have "(''P-01'', ''P-02'') \<in> batch_rel cyclic_batch" "(''P-02'', ''P-01'') \<in> batch_rel cyclic_batch"
    by (simp_all add: batch_rel_def cyclic_batch_def new_step_def)
  then have "(''P-01'', ''P-01'') \<in> (batch_rel cyclic_batch)\<^sup>+" by (meson trancl.simps)
  then show "\<not> acyclic (batch_rel cyclic_batch)" unfolding acyclic_def by blast
qed

end
