(* ===== verification/Reconcile.thy ===== *)
theory Reconcile
  imports Cycle_Removal
begin

text \<open>
  \<open>plan_commit_from_proposals\<close> (\<open>sloop/decompose/reconcile.py\<close>) with the proposal types of
  \<open>context/decomposition.py\<close>: how a batch of decomposition proposals becomes new steps. The
  plan id that \<open>allocate_plan_id\<close> would draw is the argument \<open>fresh\<close>; the order in which the
  cycle search visits a set of ids is the argument \<open>set_order\<close>.
\<close>

section \<open>Proposals\<close>

datatype task_complexity = TcMinimal | TcSimple | TcComplex

fun complexity_value :: "task_complexity \<Rightarrow> string" where
  "complexity_value TcMinimal = ''minimal''"
| "complexity_value TcSimple = ''simple''"
| "complexity_value TcComplex = ''complex''"

record proposed_subtask =
  ps_description :: string
  ps_full_description :: string
  ps_expected_output :: string
  ps_execution_hint :: "execution_hint option"
  ps_depends_on_local :: "int list option"
  ps_in_scope :: bool
  ps_necessary_for_user_goal :: bool
  ps_task_complexity :: task_complexity

record decomposition_proposal =
  dp_parent_step_id :: ident
  dp_subtasks :: "proposed_subtask list"
  dp_wave_seq :: int

text \<open>The validators that run when a subtask or a proposal is built.\<close>

definition description_nonempty :: "string \<Rightarrow> string" where
  "description_nonempty v = (let text = py_strip v in if text = [] then ''(untitled subtask)'' else text)"

definition validate_local_deps :: "nat \<Rightarrow> nat \<Rightarrow> proposed_subtask \<Rightarrow> proposed_subtask" where
  "validate_local_deps n idx sub =
     (let deps = (case ps_depends_on_local sub of None \<Rightarrow> [] | Some l \<Rightarrow> l);
          filtered = filter (\<lambda>d. 0 \<le> d \<and> d < int n \<and> d \<noteq> int idx) deps
      in if deps = [] then sub
         else if length filtered \<noteq> length deps
              then sub\<lparr>ps_depends_on_local := (if filtered = [] then None else Some filtered)\<rparr>
              else sub)"

definition make_proposal :: "ident \<Rightarrow> proposed_subtask list \<Rightarrow> int \<Rightarrow> decomposition_proposal outcome" where
  "make_proposal parent subs wave =
     (let text = py_strip parent in
      if text = [] then Inl (ValueError ''parent_step_id must be non-empty'')
      else if subs = [] then Inl (ValueError ''subtasks: at least 1 item'')
      else Inr \<lparr>dp_parent_step_id = text,
                dp_subtasks = map (\<lambda>(i, s). validate_local_deps (length subs) i s) (enumerate 0 subs),
                dp_wave_seq = wave\<rparr>)"

section \<open>Budgets and names\<close>

record decompose_loop_config =
  dc_max_depth :: nat
  dc_max_steps :: nat
  dc_max_waves :: nat
  dc_max_branch_root :: nat
  dc_max_branch_inner :: nat

definition default_decompose_config :: decompose_loop_config where
  "default_decompose_config =
     \<lparr>dc_max_depth = 3, dc_max_steps = 30, dc_max_waves = 10, dc_max_branch_root = 5, dc_max_branch_inner = 3\<rparr>"

definition normalize_subtask_key :: "string \<Rightarrow> string" where
  "normalize_subtask_key description = py_join '' '' (py_split (py_lower description))"

record reconcile_rejection =
  rj_parent_step_id :: ident
  rj_reason :: string

definition branch_cap :: "ident \<Rightarrow> step_dag \<Rightarrow> decompose_loop_config \<Rightarrow> nat" where
  "branch_cap parent_id dag cfg =
     (case dict_get (nodes dag) parent_id of
        None \<Rightarrow> dc_max_branch_root cfg
      | Some parent \<Rightarrow>
          if sn_parent_step_id parent = None then dc_max_branch_root cfg else dc_max_branch_inner cfg)"

definition zero_pad :: "nat \<Rightarrow> string \<Rightarrow> string" where
  "zero_pad width s = replicate (width - length s) (CHR ''0'') @ s"

definition next_local_ids :: "nat \<Rightarrow> string list" where
  "next_local_ids n =
     (let width = max 2 (length (show_nat n)) in map (\<lambda>i. zero_pad width (show_nat i)) [1..<n + 1])"

definition composite_step_id :: "string \<Rightarrow> string \<Rightarrow> ident" where
  "composite_step_id raw_id plan_id =
     (let prefix = plan_id @ ''-'' in if starts_with raw_id prefix then raw_id else prefix @ raw_id)"

fun status_name :: "step_status \<Rightarrow> string" where
  "status_name SPending = ''pending''"
| "status_name SActive = ''active''"
| "status_name SCompleted = ''completed''"
| "status_name SFailed = ''failed''"
| "status_name SSkipped = ''skipped''"
| "status_name SDecomposed = ''decomposed''"
| "status_name SSuperseded = ''superseded''"

section \<open>Accepting proposals\<close>

type_synonym accepted = "ident \<times> proposed_subtask list"

definition fingerprint :: "string list \<Rightarrow> string list" where
  "fingerprint descriptions = sort (map normalize_subtask_key descriptions)"

text \<open>The fingerprints of the earlier Eval continuations.\<close>

definition prior_eval_fingerprints :: "step_dag \<Rightarrow> ident \<Rightarrow> string list list" where
  "prior_eval_fingerprints dag parent_id =
     map (\<lambda>prior. fingerprint (map sn_description
           (filter (\<lambda>child. sn_parent_step_id child = Some (sn_id prior) \<and> sn_kind child \<noteq> KEval) (step_nodes dag))))
       (filter (\<lambda>prior. sn_kind prior = KEval \<and> sn_id prior \<noteq> parent_id) (step_nodes dag))"

text \<open>The Eval branch: the rejections it records and the subtasks it keeps (\<open>None\<close> when the
  proposal is dropped).\<close>

definition eval_scope ::
  "step_dag \<Rightarrow> ident \<Rightarrow> proposed_subtask list \<Rightarrow> reconcile_rejection list \<times> proposed_subtask list option" where
  "eval_scope dag parent_id subtasks =
     (let out = (if list_ex (\<lambda>s. \<not> ps_in_scope s) subtasks
                 then [\<lparr>rj_parent_step_id = parent_id, rj_reason = ''out_of_scope''\<rparr>] else []);
          unneeded = (if list_ex (\<lambda>s. ps_in_scope s \<and> \<not> ps_necessary_for_user_goal s) subtasks
                 then [\<lparr>rj_parent_step_id = parent_id, rj_reason = ''not_necessary''\<rparr>] else []);
          scoped = filter (\<lambda>s. ps_in_scope s \<and> ps_necessary_for_user_goal s) subtasks
      in if scoped = [] then (out @ unneeded, None)
         else if fingerprint (map ps_description scoped) \<in> set (prior_eval_fingerprints dag parent_id)
         then (out @ unneeded @ [\<lparr>rj_parent_step_id = parent_id, rj_reason = ''identical_eval_continuation''\<rparr>], None)
         else (out @ unneeded, Some scoped))"

definition accept_proposal ::
  "step_dag \<Rightarrow> decompose_loop_config \<Rightarrow> decomposition_proposal \<Rightarrow> reconcile_rejection list \<times> accepted option" where
  "accept_proposal dag cfg prop =
     (let parent_id = dp_parent_step_id prop in
      case dict_get (nodes dag) parent_id of
        None \<Rightarrow> ([\<lparr>rj_parent_step_id = parent_id, rj_reason = ''parent_not_found''\<rparr>], None)
      | Some parent \<Rightarrow>
          if sn_status parent \<in> {SCompleted, SFailed, SSkipped, SSuperseded} then
            ([\<lparr>rj_parent_step_id = parent_id, rj_reason = ''parent_status_'' @ status_name (sn_status parent)\<rparr>], None)
          else if lineage_depth dag parent_id \<ge> dc_max_depth cfg then
            ([\<lparr>rj_parent_step_id = parent_id, rj_reason = ''max_depth_exceeded''\<rparr>], None)
          else
            (let (rejected, scoped) =
                   (if sn_kind parent = KEval then eval_scope dag parent_id (dp_subtasks prop)
                    else ([], Some (dp_subtasks prop)))
             in case scoped of
                  None \<Rightarrow> (rejected, None)
                | Some subtasks \<Rightarrow> (rejected, Some (parent_id, take (branch_cap parent_id dag cfg) subtasks))))"

fun accept_all ::
  "step_dag \<Rightarrow> decompose_loop_config \<Rightarrow> decomposition_proposal list \<Rightarrow> reconcile_rejection list \<times> accepted list" where
  "accept_all dag cfg [] = ([], [])"
| "accept_all dag cfg (p # ps) =
     (let (rejected, acc) = accept_proposal dag cfg p;
          (rejected', accs) = accept_all dag cfg ps
      in (rejected @ rejected', (case acc of None \<Rightarrow> accs | Some a \<Rightarrow> a # accs)))"

section \<open>Merging equal descriptions\<close>

record merged_entry =
  me_primary :: ident
  me_secondaries :: "ident list"
  me_kept :: proposed_subtask
  me_deps :: "int list option"

definition merge_subtask ::
  "ident \<Rightarrow> proposed_subtask \<Rightarrow> (string, merged_entry) dict \<Rightarrow> (string, merged_entry) dict" where
  "merge_subtask parent_id sub merged =
     (let key = normalize_subtask_key (ps_description sub) in
      case dict_get merged key of
        Some e \<Rightarrow>
          dict_set key
            (e\<lparr>me_secondaries :=
                 (if parent_id \<noteq> me_primary e \<and> parent_id \<notin> set (me_secondaries e)
                  then me_secondaries e @ [parent_id] else me_secondaries e),
               me_deps := None\<rparr>) merged
      | None \<Rightarrow>
          dict_set key \<lparr>me_primary = parent_id, me_secondaries = [], me_kept = sub,
                        me_deps = ps_depends_on_local sub\<rparr> merged)"

fun merge_accepted ::
  "accepted list \<Rightarrow> (string, merged_entry) dict \<Rightarrow> (ident, string list) dict \<Rightarrow>
   (string, merged_entry) dict \<times> (ident, string list) dict" where
  "merge_accepted [] merged local_keys = (merged, local_keys)"
| "merge_accepted ((parent_id, subtasks) # rest) merged local_keys =
     merge_accepted rest
       (foldl (\<lambda>m sub. merge_subtask parent_id sub m) merged subtasks)
       (dict_set parent_id (map (\<lambda>sub. normalize_subtask_key (ps_description sub)) subtasks) local_keys)"

section \<open>Building the nodes\<close>

text \<open>\<open>list(dict.fromkeys(xs))\<close>: the first occurrence of each element.\<close>

definition from_keys :: "'a list \<Rightarrow> 'a list" where
  "from_keys xs = rev (remdups (rev xs))"

definition local_dependency ::
  "(string, ident) dict \<Rightarrow> string \<Rightarrow> string list \<Rightarrow> int \<Rightarrow> ident list" where
  "local_dependency composite key local_keys idx =
     (if 0 \<le> idx \<and> idx < int (length local_keys) then
        (case dict_get composite (local_keys ! nat idx) of
           None \<Rightarrow> []
         | Some dep_id \<Rightarrow> if dep_id \<noteq> [] \<and> Some dep_id \<noteq> dict_get composite key then [dep_id] else [])
      else [])"

definition build_node ::
  "step_dag \<Rightarrow> (string, ident) dict \<Rightarrow> (ident, string list) dict \<Rightarrow> string \<Rightarrow> ident \<Rightarrow> merged_entry \<Rightarrow> step_node" where
  "build_node dag composite parent_local_keys key nid e =
     (let deps_local = (case me_deps e of None \<Rightarrow> [] | Some l \<Rightarrow> l);
          dependencies =
            (case dict_get parent_local_keys (me_primary e) of
               None \<Rightarrow> []
             | Some local_keys \<Rightarrow> concat (map (local_dependency composite key local_keys) deps_local));
          resolvable = filter (\<lambda>d. d \<in> set (dict_values composite) \<or> d \<in> set (dict_keys (nodes dag)))
                         (from_keys dependencies);
          sub = me_kept e
      in (new_step nid (ps_description sub))
           \<lparr>sn_full_description := (if ps_full_description sub = [] then None else Some (ps_full_description sub)),
            sn_expected_output := (if ps_expected_output sub = [] then None else Some (ps_expected_output sub)),
            sn_execution_hint := ps_execution_hint sub,
            sn_dependencies := resolvable,
            sn_parent_step_id := Some (me_primary e),
            sn_secondary_parent_step_ids := me_secondaries e,
            sn_status := SPending,
            sn_task_complexity := Some (complexity_value (ps_task_complexity sub))\<rparr>)"

record commit_plan =
  cp_new_nodes :: "step_node list"
  cp_parents :: "ident list"
  cp_rejections :: "reconcile_rejection list"
  cp_plan_id :: string

definition composite_ids :: "string list \<Rightarrow> string \<Rightarrow> (string, ident) dict" where
  "composite_ids keys plan =
     map (\<lambda>(key, loc). (key, composite_step_id loc plan)) (zip keys (next_local_ids (length keys)))"

text \<open>Each merged key in sorted order, with its step id and its entry; and the node of each.\<close>

definition commit_entries ::
  "(string, merged_entry) dict \<Rightarrow> string \<Rightarrow> (string \<times> ident \<times> merged_entry) list" where
  "commit_entries merged plan =
     map (\<lambda>(key, nid). (key, nid, the (dict_get merged key))) (composite_ids (sort (dict_keys merged)) plan)"

definition commit_nodes ::
  "step_dag \<Rightarrow> (string, merged_entry) dict \<Rightarrow> (ident, string list) dict \<Rightarrow> string \<Rightarrow> step_node list" where
  "commit_nodes dag merged local_keys plan =
     map (\<lambda>(key, nid, e). build_node dag (composite_ids (sort (dict_keys merged)) plan) local_keys key nid e)
       (commit_entries merged plan)"

text \<open>\<open>None\<close> would mean that the recursive cycle search does not return.\<close>

definition plan_commit_from_proposals ::
  "(ident list \<Rightarrow> ident list) \<Rightarrow> string \<Rightarrow> step_dag \<Rightarrow> decomposition_proposal list \<Rightarrow>
   decompose_loop_config \<Rightarrow> string option \<Rightarrow> commit_plan option" where
  "plan_commit_from_proposals set_order fresh dag proposals cfg plan_id =
     (let plan = (if truthy plan_id then opt_str plan_id else fresh) in
      if proposals = [] then
        Some \<lparr>cp_new_nodes = [], cp_parents = [], cp_rejections = [], cp_plan_id = plan\<rparr>
      else
        (let ordered = sort_key (\<lambda>p. (dp_wave_seq p, dp_parent_step_id p)) proposals;
             (rejections, acc) = accept_all dag cfg ordered
         in if acc = [] then
              Some \<lparr>cp_new_nodes = [], cp_parents = [], cp_rejections = rejections, cp_plan_id = plan\<rparr>
            else
              (let (merged, local_keys) = merge_accepted acc [] [] in
               if length (nodes dag) + length merged > dc_max_steps cfg then
                 Some \<lparr>cp_new_nodes = [], cp_parents = [],
                       cp_rejections = rejections @
                         map (\<lambda>(pid, _). \<lparr>rj_parent_step_id = pid, rj_reason = ''max_steps_exceeded''\<rparr>) acc,
                       cp_plan_id = plan\<rparr>
               else
                 (let new_nodes = commit_nodes dag merged local_keys plan;
                      parents = sort (remdups (concat (map (\<lambda>(_, _, e). me_primary e # me_secondaries e)
                                  (commit_entries merged plan))))
                  in case drop_new_node_cycles (set_order (map sn_id new_nodes)) new_nodes of
                       None \<Rightarrow> None
                     | Some ns \<Rightarrow>
                         Some \<lparr>cp_new_nodes = ns, cp_parents = parents, cp_rejections = rejections,
                               cp_plan_id = plan\<rparr>))))"

end
