(* ===== verification/Reconcile_Facts.thy ===== *)
theory Reconcile_Facts
  imports Reconcile
begin

text \<open>
  What \<open>plan_commit_from_proposals\<close> guarantees: the new ids are distinct and scoped by the plan
  id, the batch stays within every budget, its dependencies are resolvable and acyclic, equal
  descriptions become one step, and the children sit one level below accepted parents.
\<close>

section \<open>Step ids\<close>

lemma digit_char_value: "n < 10 \<Longrightarrow> is_digit (digit_char n) \<and> digit_value (digit_char n) = n"
proof -
  assume "n < 10"
  then have "n \<in> {0, 1, 2, 3, 4, 5, 6, 7, 8, 9}" by auto
  then show ?thesis by (auto simp: digit_char_def is_digit_def digit_value_def)
qed

lemma parse_digits_append: "parse_digits (s @ [c]) = 10 * parse_digits s + digit_value c"
  by (simp add: parse_digits_def)

lemma parse_show_nat [simp]: "parse_digits (show_nat n) = n"
proof (induction n rule: show_nat.induct)
  case (1 n)
  show ?case
  proof (cases "n < 10")
    case True
    then show ?thesis
      using digit_char_value [OF True] by (simp add: show_nat.simps [of n] parse_digits_def)
  next
    case False
    then have "show_nat n = show_nat (n div 10) @ [digit_char (n mod 10)]"
      by (simp add: show_nat.simps [of n])
    then show ?thesis using 1 False digit_char_value [of "n mod 10"] by (simp add: parse_digits_append)
  qed
qed

lemma show_nat_digits: "list_all is_digit (show_nat n)"
proof (induction n rule: show_nat.induct)
  case (1 n)
  then show ?case
    using digit_char_value [of n] digit_char_value [of "n mod 10"]
    by (cases "n < 10") (simp_all add: show_nat.simps [of n])
qed

lemma parse_zero_pad: "parse_digits (zero_pad w s) = parse_digits s"
proof -
  have "foldl (\<lambda>n c. 10 * n + digit_value c) 0 (replicate k (CHR ''0'')) = 0" for k
    by (induction k) (simp_all add: digit_value_def)
  then show ?thesis by (simp add: parse_digits_def zero_pad_def)
qed

lemma zero_pad_digits: "list_all is_digit s \<Longrightarrow> list_all is_digit (zero_pad w s)"
  by (auto simp: zero_pad_def list_all_iff is_digit_def)

lemma length_next_local_ids [simp]: "length (next_local_ids n) = n"
  by (simp add: next_local_ids_def Let_def)

lemma next_local_ids_values: "map parse_digits (next_local_ids n) = [1..<n + 1]"
  unfolding next_local_ids_def Let_def map_map comp_def parse_zero_pad parse_show_nat by simp

lemma distinct_next_local_ids: "distinct (next_local_ids n)"
  by (rule distinct_map [THEN iffD1, THEN conjunct1, of parse_digits])
    (simp only: next_local_ids_values distinct_upt)

lemma next_local_ids_digits: "loc \<in> set (next_local_ids n) \<Longrightarrow> list_all is_digit loc"
  unfolding next_local_ids_def Let_def using zero_pad_digits [OF show_nat_digits] by auto

lemma composite_local:
  assumes "loc \<in> set (next_local_ids n)"
  shows "composite_step_id loc plan = plan @ ''-'' @ loc"
proof -
  have "\<not> starts_with loc (plan @ ''-'')"
  proof
    assume "starts_with loc (plan @ ''-'')"
    then have "CHR ''-'' \<in> set loc"
      unfolding starts_with_def by (metis in_set_conv_decomp in_set_takeD)
    with next_local_ids_digits [OF assms] have "is_digit (CHR ''-'')" by (simp add: list_all_iff)
    then show False by (simp add: is_digit_def)
  qed
  then show ?thesis by (simp add: composite_step_id_def Let_def)
qed

lemma zip_dict_parts:
  assumes "length xs = length ys"
  shows "dict_keys (map (\<lambda>(x, y). (x, f y)) (zip xs ys)) = xs"
    and "dict_values (map (\<lambda>(x, y). (x, f y)) (zip xs ys)) = map f ys"
  using assms by (induction xs ys rule: list_induct2) simp_all

lemma composite_keys: "dict_keys (composite_ids keys plan) = keys"
  unfolding composite_ids_def by (rule zip_dict_parts(1)) simp

lemma composite_values:
  "dict_values (composite_ids keys plan) = map (\<lambda>loc. plan @ ''-'' @ loc) (next_local_ids (length keys))"
proof -
  have "dict_values (composite_ids keys plan) = map (\<lambda>loc. composite_step_id loc plan) (next_local_ids (length keys))"
    unfolding composite_ids_def by (rule zip_dict_parts(2)) simp
  then show ?thesis by (simp add: composite_local)
qed

lemma distinct_composite_values: "distinct (dict_values (composite_ids keys plan))"
  unfolding composite_values by (simp add: distinct_map distinct_next_local_ids inj_on_def)

section \<open>Accepted proposals\<close>

text \<open>What is known of an accepted parent and its subtasks.\<close>

definition acceptable :: "step_dag \<Rightarrow> decompose_loop_config \<Rightarrow> accepted \<Rightarrow> bool" where
  "acceptable dag cfg a \<longleftrightarrow>
     (\<exists>parent. dict_get (nodes dag) (fst a) = Some parent \<and>
        sn_status parent \<in> {SPending, SActive, SDecomposed}) \<and>
     lineage_depth dag (fst a) < dc_max_depth cfg \<and> length (snd a) \<le> branch_cap (fst a) dag cfg"

lemma accept_proposal_acceptable:
  assumes "accept_proposal dag cfg prop = (rej, Some a)"
  shows "acceptable dag cfg a \<and> fst a = dp_parent_step_id prop"
proof (cases "dict_get (nodes dag) (dp_parent_step_id prop)")
  case None
  with assms show ?thesis by (simp add: accept_proposal_def)
next
  case (Some parent)
  let ?pid = "dp_parent_step_id prop"
  have status: "sn_status parent \<notin> {SCompleted, SFailed, SSkipped, SSuperseded}"
    and depth: "\<not> lineage_depth dag ?pid \<ge> dc_max_depth cfg"
    using assms Some by (simp_all add: accept_proposal_def Let_def split: if_splits)
  obtain r scoped where rs: "(if sn_kind parent = KEval then eval_scope dag ?pid (dp_subtasks prop)
      else ([], Some (dp_subtasks prop))) = (r, scoped)" by (rule prod.exhaust)
  have "accept_proposal dag cfg prop =
      (case scoped of None \<Rightarrow> (r, None) | Some subs \<Rightarrow> (r, Some (?pid, take (branch_cap ?pid dag cfg) subs)))"
    unfolding accept_proposal_def Let_def Some option.case if_not_P [OF status] if_not_P [OF depth] rs prod.case ..
  with assms obtain subs where "a = (?pid, take (branch_cap ?pid dag cfg) subs)"
    by (cases scoped) auto
  moreover have "sn_status parent \<in> {SPending, SActive, SDecomposed}"
    using status by (cases "sn_status parent") simp_all
  ultimately show ?thesis using Some depth unfolding acceptable_def by simp
qed

lemma accept_all_acceptable:
  "a \<in> set (snd (accept_all dag cfg ps)) \<Longrightarrow> acceptable dag cfg a \<and> fst a \<in> dp_parent_step_id ` set ps"
proof (induction ps)
  case (Cons p ps)
  obtain rej acc where p: "accept_proposal dag cfg p = (rej, acc)" by (rule prod.exhaust)
  obtain rej' accs where ps: "accept_all dag cfg ps = (rej', accs)" by (rule prod.exhaust)
  show ?case
  proof (cases "acc = Some a")
    case True
    with accept_proposal_acceptable [of dag cfg p rej a] p show ?thesis by simp
  next
    case False
    with Cons.prems p ps have "a \<in> set accs" by (auto split: option.splits)
    with Cons.IH ps show ?thesis by simp
  qed
qed simp

lemma accept_all_parents:
  "map fst (snd (accept_all dag cfg ps)) \<in> set (subseqs (map dp_parent_step_id ps))"
proof (induction ps)
  case (Cons p ps)
  obtain rej acc where p: "accept_proposal dag cfg p = (rej, acc)" by (rule prod.exhaust)
  obtain rej' accs where ps: "accept_all dag cfg ps = (rej', accs)" by (rule prod.exhaust)
  show ?case
  proof (cases acc)
    case None
    with Cons p ps show ?thesis by (simp add: Let_def)
  next
    case (Some a)
    with accept_proposal_acceptable [of dag cfg p rej a] p have "fst a = dp_parent_step_id p" by simp
    with Some Cons p ps show ?thesis by (simp add: Let_def)
  qed
qed simp

section \<open>The merged dictionary\<close>

lemma merge_subtask_keys:
  "dict_keys (merge_subtask pid sub m) =
     (let key = normalize_subtask_key (ps_description sub)
      in if key \<in> set (dict_keys m) then dict_keys m else dict_keys m @ [key])"
  unfolding merge_subtask_def Let_def
  by (cases "dict_get m (normalize_subtask_key (ps_description sub))") (simp_all del: set_map)

lemma wf_merge_subtask: "wf_dict m \<Longrightarrow> wf_dict (merge_subtask pid sub m)"
  unfolding merge_subtask_def Let_def by (simp split: option.split)

text \<open>An entry keeps the description that gave its key and knows only accepted parents.\<close>

definition entry_ok :: "ident set \<Rightarrow> string \<Rightarrow> merged_entry \<Rightarrow> bool" where
  "entry_ok ps key e \<longleftrightarrow> normalize_subtask_key (ps_description (me_kept e)) = key \<and>
     me_primary e \<in> ps \<and> set (me_secondaries e) \<subseteq> ps"

definition merged_ok :: "ident set \<Rightarrow> (string, merged_entry) dict \<Rightarrow> bool" where
  "merged_ok ps m \<longleftrightarrow> wf_dict m \<and> (\<forall>k e. dict_get m k = Some e \<longrightarrow> entry_ok ps k e)"

lemma merged_ok_subtask:
  assumes "merged_ok ps m" "pid \<in> ps"
  shows "merged_ok ps (merge_subtask pid sub m)"
proof -
  let ?key = "normalize_subtask_key (ps_description sub)"
  obtain e where e: "merge_subtask pid sub m = dict_set ?key e m" "entry_ok ps ?key e"
  proof (cases "dict_get m ?key")
    case None
    with assms(2) show thesis
      by (intro that [of "\<lparr>me_primary = pid, me_secondaries = [], me_kept = sub, me_deps = ps_depends_on_local sub\<rparr>"])
        (simp_all add: merge_subtask_def entry_ok_def Let_def)
  next
    case (Some e0)
    with assms have "entry_ok ps ?key e0" by (simp add: merged_ok_def)
    with Some assms(2) show thesis
      by (intro that [of "e0\<lparr>me_secondaries :=
                 (if pid \<noteq> me_primary e0 \<and> pid \<notin> set (me_secondaries e0)
                  then me_secondaries e0 @ [pid] else me_secondaries e0), me_deps := None\<rparr>"])
        (simp_all add: merge_subtask_def entry_ok_def Let_def)
  qed
  with assms(1) show ?thesis unfolding merged_ok_def e(1) by simp
qed

lemma merged_ok_subtasks:
  "merged_ok ps m \<Longrightarrow> pid \<in> ps \<Longrightarrow> merged_ok ps (foldl (\<lambda>m sub. merge_subtask pid sub m) m subs)"
  by (induction subs arbitrary: m) (simp_all add: merged_ok_subtask)

lemma merge_accepted_ok:
  "merged_ok ps m \<Longrightarrow> fst ` set acc \<subseteq> ps \<Longrightarrow> merged_ok ps (fst (merge_accepted acc m lk))"
  by (induction acc m lk rule: merge_accepted.induct) (simp_all add: merged_ok_subtasks)

text \<open>How many entries name \<open>p\<close> as their primary parent.\<close>

definition primaries :: "ident \<Rightarrow> (string, merged_entry) dict \<Rightarrow> nat" where
  "primaries p m = length (filter (\<lambda>(k, e). me_primary e = p) m)"

lemma primaries_new:
  "k \<notin> set (dict_keys m) \<Longrightarrow> primaries p (dict_set k e m) = primaries p m + (if me_primary e = p then 1 else 0)"
  by (simp add: dict_set_new primaries_def)

lemma primaries_set:
  "dict_get m k = Some e0 \<Longrightarrow> me_primary e = me_primary e0 \<Longrightarrow> primaries p (dict_set k e m) = primaries p m"
  unfolding primaries_def dict_set_def by (induction m) auto

lemma primaries_subtask:
  "primaries p (merge_subtask pid sub m) \<le> primaries p m + (if pid = p then 1 else 0)"
proof (cases "dict_get m (normalize_subtask_key (ps_description sub))")
  case None
  then have new: "normalize_subtask_key (ps_description sub) \<notin> set (dict_keys m)" unfolding dict_get_None .
  show ?thesis unfolding merge_subtask_def Let_def None option.case primaries_new [OF new] by simp
next
  case (Some e)
  then show ?thesis by (simp add: merge_subtask_def Let_def primaries_set)
qed

lemma primaries_subtasks:
  "primaries p (foldl (\<lambda>m sub. merge_subtask pid sub m) m subs) \<le> primaries p m + (if pid = p then length subs else 0)"
proof (induction subs arbitrary: m)
  case (Cons s subs)
  from Cons [of "merge_subtask pid s m"] primaries_subtask [of p pid s m] show ?case
    by (simp split: if_splits)
qed simp

lemma primaries_accepted:
  "primaries p (fst (merge_accepted acc m lk)) \<le>
     primaries p m + sum_list (map (\<lambda>(pid, subs). if pid = p then length subs else 0) acc)"
proof (induction acc m lk rule: merge_accepted.induct)
  case (2 pid subs rest m lk)
  with primaries_subtasks [of p pid m subs] show ?case by simp
qed simp

section \<open>The plan\<close>

text \<open>What a plan with new nodes was made from.\<close>

definition commit_source ::
  "(ident list \<Rightarrow> ident list) \<Rightarrow> step_dag \<Rightarrow> decomposition_proposal list \<Rightarrow> decompose_loop_config \<Rightarrow>
   accepted list \<Rightarrow> (string, merged_entry) dict \<Rightarrow> (ident, string list) dict \<Rightarrow> commit_plan \<Rightarrow> bool" where
  "commit_source set_order dag proposals cfg acc merged lk cp \<longleftrightarrow>
     acc = snd (accept_all dag cfg (sort_key (\<lambda>p. (dp_wave_seq p, dp_parent_step_id p)) proposals)) \<and>
     merge_accepted acc [] [] = (merged, lk) \<and>
     length (nodes dag) + length merged \<le> dc_max_steps cfg \<and>
     (let ns = commit_nodes dag merged lk (cp_plan_id cp)
      in drop_new_node_cycles (set_order (map sn_id ns)) ns = Some (cp_new_nodes cp)) \<and>
     cp_parents cp = sort (remdups (concat (map (\<lambda>(_, _, e). me_primary e # me_secondaries e)
                       (commit_entries merged (cp_plan_id cp)))))"

lemma commit_cases:
  assumes "plan_commit_from_proposals set_order fresh dag proposals cfg plan_id = Some cp"
  shows "cp_plan_id cp = (if truthy plan_id then opt_str plan_id else fresh) \<and>
    (cp_new_nodes cp = [] \<and> cp_parents cp = [] \<or>
     (\<exists>acc merged lk. commit_source set_order dag proposals cfg acc merged lk cp))"
proof -
  let ?ordered = "sort_key (\<lambda>p. (dp_wave_seq p, dp_parent_step_id p)) proposals"
  obtain rej acc where acc: "accept_all dag cfg ?ordered = (rej, acc)" by (rule prod.exhaust)
  obtain merged lk where m: "merge_accepted acc [] [] = (merged, lk)" by (rule prod.exhaust)
  show ?thesis
  proof (cases "proposals = [] \<or> acc = [] \<or> length (nodes dag) + length merged > dc_max_steps cfg")
    case True
    with assms show ?thesis
      unfolding plan_commit_from_proposals_def Let_def acc prod.case m by (auto split: if_splits)
  next
    case False
    then have "commit_source set_order dag proposals cfg acc merged lk cp \<and>
        cp_plan_id cp = (if truthy plan_id then opt_str plan_id else fresh)"
      using assms unfolding plan_commit_from_proposals_def commit_source_def Let_def acc prod.case m
      by (auto split: if_splits option.splits)
    then show ?thesis by blast
  qed
qed

lemma build_node_simps [simp]:
  "sn_id (build_node dag composite lk key nid e) = nid"
  "sn_description (build_node dag composite lk key nid e) = ps_description (me_kept e)"
  "sn_status (build_node dag composite lk key nid e) = SPending"
  "sn_parent_step_id (build_node dag composite lk key nid e) = Some (me_primary e)"
  "sn_secondary_parent_step_ids (build_node dag composite lk key nid e) = me_secondaries e"
  "sn_kind (build_node dag composite lk key nid e) = KAction"
  by (simp_all add: build_node_def new_step_def Let_def)

lemma local_dependency_in: "set (local_dependency composite key local_keys idx) \<subseteq> set (dict_values composite)"
proof (cases "dict_get composite (local_keys ! nat idx)")
  case None
  show ?thesis unfolding local_dependency_def None option.case if_cancel by simp
next
  case (Some v)
  then have "v \<in> set (dict_values composite)" by (rule dict_get_value)
  then show ?thesis unfolding local_dependency_def Some option.case by auto
qed

lemma build_node_deps: "set (sn_dependencies (build_node dag composite lk key nid e)) \<subseteq> set (dict_values composite)"
proof -
  show ?thesis
  proof (cases "dict_get lk (me_primary e)")
    case (Some keys)
    have "set (concat (map (local_dependency composite key keys) l)) \<subseteq> set (dict_values composite)" for l
      using local_dependency_in by fastforce
    with Some show ?thesis
      unfolding build_node_def Let_def by (simp add: from_keys_def del: set_map) blast
  qed (simp add: build_node_def Let_def from_keys_def)
qed

lemma commit_nodes_ids:
  "map sn_id (commit_nodes dag merged lk plan) =
     map (\<lambda>loc. plan @ ''-'' @ loc) (next_local_ids (length merged))"
proof -
  have "map sn_id (commit_nodes dag merged lk plan) = dict_values (composite_ids (sort (dict_keys merged)) plan)"
    unfolding commit_nodes_def commit_entries_def by (simp add: comp_def case_prod_beta)
  then show ?thesis unfolding composite_values by simp
qed

lemma distinct_commit_nodes: "distinct (map sn_id (commit_nodes dag merged lk plan))"
  unfolding commit_nodes_ids by (simp add: distinct_map distinct_next_local_ids inj_on_def)

lemma commit_node_entry:
  assumes "wf_dict merged" "n \<in> set (commit_nodes dag merged lk plan)"
  obtains key e where "dict_get merged key = Some e" "sn_description n = ps_description (me_kept e)"
    "sn_parent_step_id n = Some (me_primary e)" "sn_secondary_parent_step_ids n = me_secondaries e"
    "sn_status n = SPending" "sn_kind n = KAction"
    "set (sn_dependencies n) \<subseteq> set (map sn_id (commit_nodes dag merged lk plan))"
proof -
  let ?c = "composite_ids (sort (dict_keys merged)) plan"
  obtain key nid where kn: "(key, nid) \<in> set ?c"
    and n: "n = build_node dag ?c lk key nid (the (dict_get merged key))"
    using assms(2) unfolding commit_nodes_def commit_entries_def by auto
  have "key \<in> set (dict_keys ?c)" using kn by force
  then have "key \<in> set (dict_keys merged)" unfolding composite_keys by simp
  then obtain e where e: "dict_get merged key = Some e" using dict_key_get by force
  have "set (dict_values ?c) = set (map sn_id (commit_nodes dag merged lk plan))"
    unfolding commit_nodes_ids composite_values by simp
  then have "set (sn_dependencies n) \<subseteq> set (map sn_id (commit_nodes dag merged lk plan))"
    unfolding n using build_node_deps by blast
  with e show thesis by (intro that [of key e]) (simp_all add: n)
qed

text \<open>The nodes of a plan are the built ones with some in-batch dependencies filtered out.\<close>

lemma commit_new_nodes:
  assumes ord: "\<forall>xs. set (set_order xs) = set xs"
    and src: "commit_source set_order dag proposals cfg acc merged lk cp"
  shows "\<exists>P. cp_new_nodes cp = map (\<lambda>n. n\<lparr>sn_dependencies := filter (\<lambda>d. P d (sn_id n)) (sn_dependencies n)\<rparr>)
      (commit_nodes dag merged lk (cp_plan_id cp)) \<and> acyclic (batch_rel (cp_new_nodes cp))"
proof -
  let ?ns = "commit_nodes dag merged lk (cp_plan_id cp)"
  have drop: "drop_new_node_cycles (set_order (map sn_id ?ns)) ?ns = Some (cp_new_nodes cp)"
    using src unfolding commit_source_def Let_def by blast
  have "set (set_order (map sn_id ?ns)) = set (map sn_id ?ns)" using ord by blast
  from drop_cycles_spec [OF distinct_commit_nodes this] obtain ns' P where
    spec: "drop_new_node_cycles (set_order (map sn_id ?ns)) ?ns = Some ns'"
      "ns' = map (\<lambda>n. n\<lparr>sn_dependencies := filter (\<lambda>d. P d (sn_id n)) (sn_dependencies n)\<rparr>) ?ns"
      "acyclic (batch_rel ns')" by (elim exE conjE)
  from spec(1) drop have new: "cp_new_nodes cp = ns'" by simp
  show ?thesis unfolding new by (intro exI [of _ P] conjI spec(2,3))
qed

lemma commit_new_ids:
  assumes "\<forall>xs. set (set_order xs) = set xs" "commit_source set_order dag proposals cfg acc merged lk cp"
  shows "map sn_id (cp_new_nodes cp) = map (\<lambda>loc. cp_plan_id cp @ ''-'' @ loc) (next_local_ids (length merged))"
    and "length (cp_new_nodes cp) = length merged"
proof -
  from commit_new_nodes [OF assms] obtain P where
    ns: "cp_new_nodes cp = map (\<lambda>n. n\<lparr>sn_dependencies := filter (\<lambda>d. P d (sn_id n)) (sn_dependencies n)\<rparr>)
      (commit_nodes dag merged lk (cp_plan_id cp))" by blast
  have "map sn_id (cp_new_nodes cp) = map sn_id (commit_nodes dag merged lk (cp_plan_id cp))"
    unfolding ns by simp
  then show ids: "map sn_id (cp_new_nodes cp) = map (\<lambda>loc. cp_plan_id cp @ ''-'' @ loc) (next_local_ids (length merged))"
    unfolding commit_nodes_ids .
  from arg_cong [OF ids, of length] show "length (cp_new_nodes cp) = length merged" by simp
qed

lemma commit_source_merged:
  assumes "commit_source set_order dag proposals cfg acc merged lk cp"
  shows "merged_ok (fst ` set acc) merged" "a \<in> set acc \<Longrightarrow> acceptable dag cfg a"
    "a \<in> set acc \<Longrightarrow> fst a \<in> dp_parent_step_id ` set proposals"
proof -
  have "merge_accepted acc [] [] = (merged, lk)" using assms unfolding commit_source_def by blast
  moreover have "merged_ok (fst ` set acc) (fst (merge_accepted acc [] []))"
    by (rule merge_accepted_ok) (simp_all add: merged_ok_def)
  ultimately show "merged_ok (fst ` set acc) merged" by simp
  have acc: "acc = snd (accept_all dag cfg (sort_key (\<lambda>p. (dp_wave_seq p, dp_parent_step_id p)) proposals))"
    using assms unfolding commit_source_def by blast
  have both: "acceptable dag cfg a \<and> fst a \<in> dp_parent_step_id ` set proposals" if "a \<in> set acc"
    using accept_all_acceptable [OF that [unfolded acc]] by simp
  show "a \<in> set acc \<Longrightarrow> acceptable dag cfg a" using both by (rule conjunct1)
  show "a \<in> set acc \<Longrightarrow> fst a \<in> dp_parent_step_id ` set proposals" using both by (rule conjunct2)
qed

text \<open>Each new node with the entry it was built from.\<close>

lemma commit_node_cases:
  assumes ord: "\<forall>xs. set (set_order xs) = set xs"
    and src: "commit_source set_order dag proposals cfg acc merged lk cp" and n: "n \<in> set (cp_new_nodes cp)"
  obtains key e where "dict_get merged key = Some e" "entry_ok (fst ` set acc) key e"
    "sn_description n = ps_description (me_kept e)" "sn_parent_step_id n = Some (me_primary e)"
    "sn_secondary_parent_step_ids n = me_secondaries e" "sn_status n = SPending" "sn_kind n = KAction"
    "set (sn_dependencies n) \<subseteq> set (map sn_id (cp_new_nodes cp))"
proof -
  from commit_new_nodes [OF ord src] obtain P where
    ns: "cp_new_nodes cp = map (\<lambda>n. n\<lparr>sn_dependencies := filter (\<lambda>d. P d (sn_id n)) (sn_dependencies n)\<rparr>)
      (commit_nodes dag merged lk (cp_plan_id cp))" by blast
  with n obtain n0 where n0: "n0 \<in> set (commit_nodes dag merged lk (cp_plan_id cp))"
    "n = n0\<lparr>sn_dependencies := filter (\<lambda>d. P d (sn_id n0)) (sn_dependencies n0)\<rparr>" by auto
  have ids: "map sn_id (cp_new_nodes cp) = map sn_id (commit_nodes dag merged lk (cp_plan_id cp))"
    unfolding ns by simp
  have ok: "merged_ok (fst ` set acc) merged" by (rule commit_source_merged [OF src])
  then have "wf_dict merged" by (simp add: merged_ok_def)
  from commit_node_entry [OF this n0(1)] obtain key e where e: "dict_get merged key = Some e"
    "sn_description n0 = ps_description (me_kept e)" "sn_parent_step_id n0 = Some (me_primary e)"
    "sn_secondary_parent_step_ids n0 = me_secondaries e" "sn_status n0 = SPending" "sn_kind n0 = KAction"
    "set (sn_dependencies n0) \<subseteq> set (map sn_id (commit_nodes dag merged lk (cp_plan_id cp)))" .
  moreover have "entry_ok (fst ` set acc) key e" using ok e(1) by (simp add: merged_ok_def)
  moreover have "set (sn_dependencies n) \<subseteq> set (map sn_id (cp_new_nodes cp))"
    using e(7) unfolding ids n0(2) by auto
  ultimately show thesis by (intro that [of key e]) (simp_all add: n0(2))
qed

end
