(* ===== verification/Reconcile_Properties.thy ===== *)
theory Reconcile_Properties
  imports Reconcile_Facts
begin

text \<open>
  The properties of a reconcile plan: termination and shape of the batch, the budgets, the
  parents, the lineage depth of the children once they are added, deduplication, and the two
  places where the plan does not do what the proposals asked for.
\<close>

section \<open>The batch\<close>

lemma plan_commit_total:
  assumes ord: "\<forall>xs. set (set_order xs) = set xs"
  shows "\<exists>cp. plan_commit_from_proposals set_order fresh dag proposals cfg plan_id = Some cp"
proof -
  let ?ordered = "sort_key (\<lambda>p. (dp_wave_seq p, dp_parent_step_id p)) proposals"
  obtain rej acc where acc: "accept_all dag cfg ?ordered = (rej, acc)" by (rule prod.exhaust)
  obtain merged lk where m: "merge_accepted acc [] [] = (merged, lk)" by (rule prod.exhaust)
  let ?ns = "commit_nodes dag merged lk (if truthy plan_id then opt_str plan_id else fresh)"
  have "set (set_order (map sn_id ?ns)) = set (map sn_id ?ns)" using ord by blast
  from drop_cycles_spec [OF distinct_commit_nodes this] obtain ns' where
    "drop_new_node_cycles (set_order (map sn_id ?ns)) ?ns = Some ns'" by blast
  then show ?thesis
    unfolding plan_commit_from_proposals_def Let_def acc prod.case m by simp
qed

section \<open>A sample batch\<close>

definition subtask :: "string \<Rightarrow> int list option \<Rightarrow> proposed_subtask" where
  "subtask desc deps =
     \<lparr>ps_description = desc, ps_full_description = [], ps_expected_output = [],
      ps_execution_hint = Some HintAuto, ps_depends_on_local = deps, ps_in_scope = True,
      ps_necessary_for_user_goal = True, ps_task_complexity = TcSimple\<rparr>"

definition one_step :: "step_kind \<Rightarrow> step_dag" where
  "one_step kind = \<lparr>nodes = [(''R-01'', (new_step ''R-01'' ''task'')\<lparr>sn_status := SActive, sn_kind := kind\<rparr>)]\<rparr>"

definition planned_deps :: "commit_plan option \<Rightarrow> (string \<times> ident list) list option" where
  "planned_deps cp = map_option (\<lambda>cp. map (\<lambda>n. (sn_description n, sn_dependencies n)) (cp_new_nodes cp)) cp"

definition sample_proposals :: "decomposition_proposal list" where
  "sample_proposals =
     [\<lparr>dp_parent_step_id = ''R-01'',
       dp_subtasks = [subtask ''Write  code'' None, subtask ''Test'' (Some [0]), subtask ''write code'' None],
       dp_wave_seq = 0\<rparr>]"

definition sample_plan :: commit_plan where
  "sample_plan = the (plan_commit_from_proposals id ''ABC'' (one_step KAction) sample_proposals default_decompose_config None)"

lemma id_order: "\<forall>xs. set (id xs) = set xs"
  by simp

lemma sample_plan:
  "plan_commit_from_proposals id ''ABC'' (one_step KAction) sample_proposals default_decompose_config None = Some sample_plan"
  using plan_commit_total [OF id_order] unfolding sample_plan_def by (metis option.sel)

text \<open>Claim C23. \<open>plan_commit_from_proposals\<close> always returns, and the batch it plans is well formed:
  the ids are the plan id followed by consecutive zero-padded numbers, all distinct; every new
  step is pending; its dependencies name steps of the batch only; and they form no cycle.\<close>

theorem commit_batch_wellformed:
  assumes ord: "\<forall>xs. set (set_order xs) = set xs"
  shows "\<exists>cp. plan_commit_from_proposals set_order fresh dag proposals cfg plan_id = Some cp \<and>
     map sn_id (cp_new_nodes cp) =
       map (\<lambda>loc. cp_plan_id cp @ ''-'' @ loc) (next_local_ids (length (cp_new_nodes cp))) \<and>
     distinct (map sn_id (cp_new_nodes cp)) \<and> acyclic (batch_rel (cp_new_nodes cp)) \<and>
     (\<forall>n \<in> set (cp_new_nodes cp). sn_status n = SPending \<and>
        set (sn_dependencies n) \<subseteq> set (map sn_id (cp_new_nodes cp)))"
proof -
  obtain cp where cp: "plan_commit_from_proposals set_order fresh dag proposals cfg plan_id = Some cp"
    using plan_commit_total [OF ord] by blast
  from commit_cases [OF cp] consider "cp_new_nodes cp = []"
    | acc merged lk where "commit_source set_order dag proposals cfg acc merged lk cp" by blast
  then show ?thesis
  proof cases
    case 1
    then show ?thesis
      by (intro exI [of _ cp]) (simp add: cp next_local_ids_def acyclic_def batch_rel_def)
  next
    case (2 acc merged lk)
    have nodes: "sn_status n = SPending \<and> set (sn_dependencies n) \<subseteq> set (map sn_id (cp_new_nodes cp))"
      if n: "n \<in> set (cp_new_nodes cp)" for n
      using commit_node_cases [OF ord 2 n] by blast
    have ids: "map sn_id (cp_new_nodes cp) =
        map (\<lambda>loc. cp_plan_id cp @ ''-'' @ loc) (next_local_ids (length (cp_new_nodes cp)))"
      using commit_new_ids [OF ord 2] by simp
    have dist: "distinct (map sn_id (cp_new_nodes cp))"
      unfolding ids by (simp add: distinct_map distinct_next_local_ids inj_on_def)
    from commit_new_nodes [OF ord 2] have "acyclic (batch_rel (cp_new_nodes cp))" by (elim exE conjE)
    with cp ids dist nodes show ?thesis by (intro exI [of _ cp] conjI ballI) blast+
  qed
qed

lemma commit_batch_wellformed_witness:
  "\<exists>cp. plan_commit_from_proposals id ''ABC'' (one_step KAction) sample_proposals default_decompose_config None = Some cp
     \<and> distinct (map sn_id (cp_new_nodes cp)) \<and> acyclic (batch_rel (cp_new_nodes cp))"
  using commit_batch_wellformed [OF id_order] by blast

section \<open>Budgets\<close>

lemma commit_nodes_parents:
  "map sn_parent_step_id (commit_nodes dag merged lk plan) =
     map (\<lambda>k. Some (me_primary (the (dict_get merged k)))) (sort (dict_keys merged))"
proof -
  let ?c = "composite_ids (sort (dict_keys merged)) plan"
  have "map sn_parent_step_id (commit_nodes dag merged lk plan) =
      map (\<lambda>k. Some (me_primary (the (dict_get merged k)))) (dict_keys ?c)"
    unfolding commit_nodes_def commit_entries_def by (simp add: comp_def case_prod_beta)
  then show ?thesis unfolding composite_keys .
qed

lemma length_filter_image: "length (filter (\<lambda>x. f x = y) xs) = length (filter (\<lambda>z. z = y) (map f xs))"
  by (induction xs) simp_all

lemma commit_children_count:
  assumes ord: "\<forall>xs. set (set_order xs) = set xs"
    and src: "commit_source set_order dag proposals cfg acc merged lk cp"
  shows "length (filter (\<lambda>n. sn_parent_step_id n = Some p) (cp_new_nodes cp)) = primaries p merged"
proof -
  from commit_new_nodes [OF ord src] obtain P where
    ns: "cp_new_nodes cp = map (\<lambda>n. n\<lparr>sn_dependencies := filter (\<lambda>d. P d (sn_id n)) (sn_dependencies n)\<rparr>)
      (commit_nodes dag merged lk (cp_plan_id cp))" by blast
  have wf: "wf_dict merged" using commit_source_merged(1) [OF src] by (simp add: merged_ok_def)
  have "map sn_parent_step_id (cp_new_nodes cp) = map sn_parent_step_id (commit_nodes dag merged lk (cp_plan_id cp))"
    unfolding ns by simp
  then have "length (filter (\<lambda>n. sn_parent_step_id n = Some p) (cp_new_nodes cp)) =
      length (filter (\<lambda>z. z = Some p) (map (\<lambda>k. Some (me_primary (the (dict_get merged k)))) (sort (dict_keys merged))))"
    unfolding length_filter_image [of sn_parent_step_id] commit_nodes_parents by simp
  also have "\<dots> = length (filter (\<lambda>k. me_primary (the (dict_get merged k)) = p) (sort (dict_keys merged)))"
    unfolding length_filter_image [symmetric] by simp
  also have "\<dots> = length (filter (\<lambda>k. me_primary (the (dict_get merged k)) = p) (dict_keys merged))"
    by (simp only: filter_sort length_sort)
  also have "\<dots> = length (filter (\<lambda>(k, e). me_primary (the (dict_get merged k)) = p) merged)"
    by (simp add: filter_map comp_def case_prod_unfold)
  also have "\<dots> = primaries p merged"
  proof -
    have "filter (\<lambda>(k, e). me_primary (the (dict_get merged k)) = p) merged = filter (\<lambda>(k, e). me_primary e = p) merged"
    proof (rule filter_cong [OF refl])
      fix x assume x: "x \<in> set merged"
      obtain k e where "x = (k, e)" by (cases x)
      with x wf have "dict_get merged k = Some e" by (simp add: dict_get_in)
      with \<open>x = (k, e)\<close> show "(case x of (k, e) \<Rightarrow> me_primary (the (dict_get merged k)) = p) =
          (case x of (k, e) \<Rightarrow> me_primary e = p)" by simp
    qed
    then show ?thesis by (simp add: primaries_def)
  qed
  finally show ?thesis .
qed

lemma sum_single_parent:
  assumes "distinct (map fst acc)" "\<And>a. a \<in> set acc \<Longrightarrow> length (snd a) \<le> cap (fst a)"
  shows "sum_list (map (\<lambda>(pid, subs). if pid = p then length subs else 0) acc) \<le> cap p"
  using assms
proof (induction acc)
  case (Cons a acc)
  obtain pid subs where a: "a = (pid, subs)" by (cases a)
  show ?case
  proof (cases "pid = p")
    case True
    then have "p \<notin> set (map fst acc)" using Cons.prems(1) a by auto
    then have zero: "sum_list (map (\<lambda>(pid, subs). if pid = p then length subs else 0) acc) = 0"
      by (induction acc) auto
    show ?thesis unfolding a list.map sum_list.Cons zero
      using Cons.prems(2) [of a] True by (simp add: a)
  next
    case False
    with Cons a show ?thesis by simp
  qed
qed simp

text \<open>The budgets hold: a plan never takes the DAG over \<open>max_steps\<close> nodes, and a parent
  that is proposed for once gets at most its branch cap of children (\<open>max_branch_root\<close> for a
  root step, \<open>max_branch_inner\<close> below it).\<close>

theorem commit_budgets:
  assumes ord: "\<forall>xs. set (set_order xs) = set xs"
    and cp: "plan_commit_from_proposals set_order fresh dag proposals cfg plan_id = Some cp"
    and once: "distinct (map dp_parent_step_id proposals)"
  shows "(cp_new_nodes cp = [] \<or> length (nodes dag) + length (cp_new_nodes cp) \<le> dc_max_steps cfg) \<and>
     length (filter (\<lambda>n. sn_parent_step_id n = Some p) (cp_new_nodes cp)) \<le> branch_cap p dag cfg"
proof -
  from commit_cases [OF cp] consider "cp_new_nodes cp = []"
    | acc merged lk where "commit_source set_order dag proposals cfg acc merged lk cp" by blast
  then show ?thesis
  proof cases
    case (2 acc merged lk)
    let ?ordered = "sort_key (\<lambda>p. (dp_wave_seq p, dp_parent_step_id p)) proposals"
    have acc: "acc = snd (accept_all dag cfg ?ordered)" and m: "merge_accepted acc [] [] = (merged, lk)"
      and steps: "length (nodes dag) + length merged \<le> dc_max_steps cfg"
      using 2 unfolding commit_source_def by blast+
    have "distinct (map dp_parent_step_id ?ordered)" using once by (simp add: distinct_map)
    then have "distinct (map fst acc)"
      unfolding acc by (rule subseqs_distinctD [OF accept_all_parents])
    moreover have "length (snd a) \<le> branch_cap (fst a) dag cfg" if "a \<in> set acc" for a
      using commit_source_merged(2) [OF 2 that] by (simp add: acceptable_def)
    ultimately have "sum_list (map (\<lambda>(pid, subs). if pid = p then length subs else 0) acc) \<le> branch_cap p dag cfg"
      by (rule sum_single_parent [where cap = "\<lambda>p. branch_cap p dag cfg"])
    with primaries_accepted [of p acc "[]" "[]"] have "primaries p merged \<le> branch_cap p dag cfg"
      unfolding m by (simp add: primaries_def)
    with steps commit_new_ids(2) [OF ord 2] commit_children_count [OF ord 2, of p] show ?thesis by simp
  qed simp
qed

lemma commit_budgets_witness:
  "length (filter (\<lambda>n. sn_parent_step_id n = Some ''R-01'') (cp_new_nodes sample_plan)) \<le> 5"
proof -
  have "distinct (map dp_parent_step_id sample_proposals)" by (simp add: sample_proposals_def)
  from commit_budgets [OF id_order sample_plan this, of "''R-01''"] show ?thesis
    by (simp add: branch_cap_def one_step_def new_step_def default_decompose_config_def)
qed

section \<open>Parents\<close>

lemma sort_in: "x \<in> set (sort (remdups (concat (map f xs)))) \<longleftrightarrow> (\<exists>y \<in> set xs. x \<in> set (f y))"
  by simp

lemma commit_parents_iff:
  assumes src: "commit_source set_order dag proposals cfg acc merged lk cp"
  shows "q \<in> set (cp_parents cp) \<longleftrightarrow>
     (\<exists>key e. dict_get merged key = Some e \<and> (q = me_primary e \<or> q \<in> set (me_secondaries e)))"
proof -
  let ?c = "composite_ids (sort (dict_keys merged)) (cp_plan_id cp)"
  have keys: "set (dict_keys ?c) = set (dict_keys merged)" unfolding composite_keys by simp
  have "q \<in> set (cp_parents cp) \<longleftrightarrow>
      (\<exists>y \<in> set ?c. q \<in> set (me_primary (the (dict_get merged (fst y))) # me_secondaries (the (dict_get merged (fst y)))))"
    using src unfolding commit_source_def commit_entries_def by (simp add: case_prod_beta)
  also have "\<dots> \<longleftrightarrow> (\<exists>key \<in> set (dict_keys merged).
      q \<in> set (me_primary (the (dict_get merged key)) # me_secondaries (the (dict_get merged key))))"
    unfolding keys [symmetric] by force
  also have "\<dots> \<longleftrightarrow> (\<exists>key e. dict_get merged key = Some e \<and> (q = me_primary e \<or> q \<in> set (me_secondaries e)))"
  proof
    assume "\<exists>key \<in> set (dict_keys merged).
      q \<in> set (me_primary (the (dict_get merged key)) # me_secondaries (the (dict_get merged key)))"
    then obtain key where key: "key \<in> set (dict_keys merged)"
      "q \<in> set (me_primary (the (dict_get merged key)) # me_secondaries (the (dict_get merged key)))" by blast
    then obtain e where "dict_get merged key = Some e" using dict_key_get by fast
    with key(2) show "\<exists>key e. dict_get merged key = Some e \<and> (q = me_primary e \<or> q \<in> set (me_secondaries e))"
      by (intro exI [of _ key] exI [of _ e]) simp
  next
    assume "\<exists>key e. dict_get merged key = Some e \<and> (q = me_primary e \<or> q \<in> set (me_secondaries e))"
    then obtain key e where e: "dict_get merged key = Some e" "q = me_primary e \<or> q \<in> set (me_secondaries e)" by blast
    then show "\<exists>key \<in> set (dict_keys merged).
      q \<in> set (me_primary (the (dict_get merged key)) # me_secondaries (the (dict_get merged key)))"
      by (intro bexI [of _ key] dict_get_key [OF e(1)]) simp
  qed
  finally show ?thesis .
qed

lemma commit_parents_lemma:
  assumes ord: "\<forall>xs. set (set_order xs) = set xs"
    and cp: "plan_commit_from_proposals set_order fresh dag proposals cfg plan_id = Some cp"
  shows "(\<forall>q \<in> set (cp_parents cp). q \<in> dp_parent_step_id ` set proposals \<and>
        (\<exists>parent. dict_get (nodes dag) q = Some parent \<and> sn_status parent \<in> {SPending, SActive, SDecomposed}) \<and>
        lineage_depth dag q < dc_max_depth cfg) \<and>
     (\<forall>n \<in> set (cp_new_nodes cp). \<exists>q \<in> set (cp_parents cp). sn_parent_step_id n = Some q \<and>
        set (sn_secondary_parent_step_ids n) \<subseteq> set (cp_parents cp))"
proof -
  from commit_cases [OF cp] consider "cp_new_nodes cp = []" "cp_parents cp = []"
    | acc merged lk where "commit_source set_order dag proposals cfg acc merged lk cp" by blast
  then show ?thesis
  proof cases
    case (2 acc merged lk)
    note iff = commit_parents_iff [OF 2]
    have ok: "merged_ok (fst ` set acc) merged" by (rule commit_source_merged [OF 2])
    have "q \<in> dp_parent_step_id ` set proposals \<and>
        (\<exists>parent. dict_get (nodes dag) q = Some parent \<and> sn_status parent \<in> {SPending, SActive, SDecomposed}) \<and>
        lineage_depth dag q < dc_max_depth cfg" if q: "q \<in> set (cp_parents cp)" for q
    proof -
      from q [unfolded iff] obtain key e where e: "dict_get merged key = Some e"
        "q = me_primary e \<or> q \<in> set (me_secondaries e)" by blast
      from ok e(1) have "entry_ok (fst ` set acc) key e" unfolding merged_ok_def by blast
      with e(2) have "q \<in> fst ` set acc" unfolding entry_ok_def by blast
      then obtain a where a: "a \<in> set acc" "q = fst a" by blast
      show ?thesis
        using commit_source_merged(2,3) [OF 2 a(1)] unfolding acceptable_def a(2) by blast
    qed
    moreover have "\<exists>q \<in> set (cp_parents cp). sn_parent_step_id n = Some q \<and>
        set (sn_secondary_parent_step_ids n) \<subseteq> set (cp_parents cp)" if n: "n \<in> set (cp_new_nodes cp)" for n
      using commit_node_cases [OF ord 2 n]
    proof -
      from commit_node_cases [OF ord 2 n] obtain key e where e: "dict_get merged key = Some e"
        "sn_parent_step_id n = Some (me_primary e)" "sn_secondary_parent_step_ids n = me_secondaries e" by blast
      have "me_primary e \<in> set (cp_parents cp)" "set (me_secondaries e) \<subseteq> set (cp_parents cp)"
        unfolding subset_iff iff using e(1) by blast+
      with e(2,3) show ?thesis by simp
    qed
    ultimately show ?thesis by blast
  qed simp
qed

text \<open>Only steps that may be split are: every parent a plan marks as decomposed was proposed for,
  exists, is pending, active or already decomposed, and lies above the depth limit; and every
  new step hangs below such a parent, with its secondary parents among them.\<close>

theorem commit_parents_accepted:
  assumes ord: "\<forall>xs. set (set_order xs) = set xs"
    and cp: "plan_commit_from_proposals set_order fresh dag proposals cfg plan_id = Some cp"
  shows "(\<forall>q \<in> set (cp_parents cp). q \<in> dp_parent_step_id ` set proposals \<and>
        (\<exists>parent. dict_get (nodes dag) q = Some parent \<and> sn_status parent \<in> {SPending, SActive, SDecomposed}) \<and>
        lineage_depth dag q < dc_max_depth cfg) \<and>
     (\<forall>n \<in> set (cp_new_nodes cp). \<exists>q \<in> set (cp_parents cp). sn_parent_step_id n = Some q \<and>
        set (sn_secondary_parent_step_ids n) \<subseteq> set (cp_parents cp))"
  using assms by (rule commit_parents_lemma)

lemma sample_plan_ids: "map sn_id (cp_new_nodes sample_plan) = [''ABC-01'', ''ABC-02'']"
  unfolding sample_plan_def by code_simp

lemma commit_parents_accepted_witness:
  "lineage_depth (one_step KAction) ''R-01'' < 3"
proof -
  have parents: "cp_parents sample_plan = [''R-01'']" unfolding sample_plan_def by code_simp
  have "lineage_depth (one_step KAction) ''R-01'' < dc_max_depth default_decompose_config"
    using commit_parents_accepted [OF id_order sample_plan] unfolding parents by simp
  then show ?thesis by (simp add: default_decompose_config_def)
qed

section \<open>Deduplication\<close>

lemma commit_nodes_keys:
  assumes "merged_ok ps merged"
  shows "map (\<lambda>n. normalize_subtask_key (sn_description n)) (commit_nodes dag merged lk plan) = sort (dict_keys merged)"
proof -
  let ?c = "composite_ids (sort (dict_keys merged)) plan"
  have "map (\<lambda>n. normalize_subtask_key (sn_description n)) (commit_nodes dag merged lk plan) =
      map (\<lambda>k. normalize_subtask_key (ps_description (me_kept (the (dict_get merged k))))) (dict_keys ?c)"
    unfolding commit_nodes_def commit_entries_def by (simp add: comp_def case_prod_beta)
  also have "\<dots> = sort (dict_keys merged)"
    unfolding composite_keys
  proof (rule map_idI)
    fix k assume "k \<in> set (sort (dict_keys merged))"
    then obtain e where e: "dict_get merged k = Some e" using dict_key_get [of k merged] by auto
    with assms have "entry_ok ps k e" unfolding merged_ok_def by blast
    with e show "normalize_subtask_key (ps_description (me_kept (the (dict_get merged k)))) = k"
      by (simp add: entry_ok_def)
  qed
  finally show ?thesis .
qed

text \<open>Deduplication: whatever the proposals repeat, no two new steps have descriptions that are equal
  up to case and white space, and the steps come in ascending order of that normal form.\<close>

theorem commit_deduplicates:
  assumes ord: "\<forall>xs. set (set_order xs) = set xs"
    and cp: "plan_commit_from_proposals set_order fresh dag proposals cfg plan_id = Some cp"
  shows "distinct (map (\<lambda>n. normalize_subtask_key (sn_description n)) (cp_new_nodes cp)) \<and>
     sorted (map (\<lambda>n. normalize_subtask_key (sn_description n)) (cp_new_nodes cp))"
proof -
  from commit_cases [OF cp] consider "cp_new_nodes cp = []"
    | acc merged lk where "commit_source set_order dag proposals cfg acc merged lk cp" by blast
  then show ?thesis
  proof cases
    case (2 acc merged lk)
    from commit_new_nodes [OF ord 2] obtain P where
      ns: "cp_new_nodes cp = map (\<lambda>n. n\<lparr>sn_dependencies := filter (\<lambda>d. P d (sn_id n)) (sn_dependencies n)\<rparr>)
        (commit_nodes dag merged lk (cp_plan_id cp))" by blast
    have ok: "merged_ok (fst ` set acc) merged" by (rule commit_source_merged [OF 2])
    have "map (\<lambda>n. normalize_subtask_key (sn_description n)) (cp_new_nodes cp) = sort (dict_keys merged)"
      unfolding ns map_map comp_def using commit_nodes_keys [OF ok] by simp
    moreover have "distinct (dict_keys merged)" using ok by (simp add: merged_ok_def wf_dict_def)
    ultimately show ?thesis by simp
  qed simp
qed

lemma commit_deduplicates_witness:
  "distinct (map (\<lambda>n. normalize_subtask_key (sn_description n)) (cp_new_nodes sample_plan)) \<and>
   length (cp_new_nodes sample_plan) = 2"
proof
  show "distinct (map (\<lambda>n. normalize_subtask_key (sn_description n)) (cp_new_nodes sample_plan))"
    using commit_deduplicates [OF id_order sample_plan] by (rule conjunct1)
  show "length (cp_new_nodes sample_plan) = 2"
    using arg_cong [OF sample_plan_ids, of length] by simp
qed

section \<open>Local dependencies that go astray\<close>

text \<open>Filtering an Eval proposal for scope shifts its local indices: of the three subtasks below
  the third asks to wait for the second; once the out-of-scope first one is gone, index 1 means
  the third subtask itself, and the dependency is lost.\<close>

theorem eval_scope_loses_dependency:
  "planned_deps (plan_commit_from_proposals id ''ABC'' (one_step KEval)
      [\<lparr>dp_parent_step_id = ''R-01'',
        dp_subtasks = [(subtask ''other'' None)\<lparr>ps_in_scope := False\<rparr>, subtask ''build'' None,
                       subtask ''deploy'' (Some [1])],
        dp_wave_seq = 0\<rparr>] default_decompose_config None)
   = Some [(''build'', []), (''deploy'', [])]"
  by code_simp

text \<open>Two proposals for one parent in a batch mix up their local indices: the table of local keys
  is kept per parent and the second proposal overwrites it, so the dependency of the first
  proposal's second subtask on its first one is resolved against the second proposal.\<close>

theorem second_proposal_rewires_first:
  "planned_deps (plan_commit_from_proposals id ''ABC'' (one_step KAction)
      [\<lparr>dp_parent_step_id = ''R-01'', dp_subtasks = [subtask ''a build'' None, subtask ''b deploy'' (Some [0])],
        dp_wave_seq = 0\<rparr>,
       \<lparr>dp_parent_step_id = ''R-01'', dp_subtasks = [subtask ''c report'' None], dp_wave_seq = 0\<rparr>]
      default_decompose_config None)
   = Some [(''a build'', []), (''b deploy'', [''ABC-03'']), (''c report'', [])]"
  by code_simp

end
