(* ===== verification/Goal_Dag.thy ===== *)
theory Goal_Dag
  imports Step_Dag Object_Store
begin

text \<open>
  The goal DAG (\<open>context/models.py\<close>): \<open>GoalNode\<close> and the operations of
  \<open>GoalStepDAG\<close>, with the scheduler of \<open>context/planning_scheduling.py\<close>. Goals live in
  an insertion-ordered dictionary; an operation that reads the clock takes \<open>now\<close>, and one
  that draws a fresh id takes the id.
\<close>

section \<open>Data\<close>

datatype goal_status =
    GPending | GActive | GCompleted | GFailed | GSuspended | GBlocked | GValidated
  | GAwaitingClarification | GCancelled

fun status_str :: "goal_status \<Rightarrow> string" where
  "status_str GPending = ''pending''"
| "status_str GActive = ''active''"
| "status_str GCompleted = ''completed''"
| "status_str GFailed = ''failed''"
| "status_str GSuspended = ''suspended''"
| "status_str GBlocked = ''blocked''"
| "status_str GValidated = ''validated''"
| "status_str GAwaitingClarification = ''awaiting_clarification''"
| "status_str GCancelled = ''cancelled''"

definition TERMINAL_STATES :: "goal_status set" where
  "TERMINAL_STATES = {GCompleted, GFailed, GCancelled}"

definition BLOCKED_STATES :: "goal_status set" where
  "BLOCKED_STATES = {GAwaitingClarification, GSuspended}"

definition MAX_GOAL_DEPTH :: nat where
  "MAX_GOAL_DEPTH = 5"

datatype evidence_kind = EvTool | EvBootstrap | EvLedger

record evidence_entry =
  ev_evidence_id :: string
  ev_summary :: string
  ev_kind :: evidence_kind

datatype goal_source = SrcUser | SrcDirective | SrcFileDiscovery | SrcDecomposition | SrcReflection

datatype branch_status = BrActive | BrPruned | BrSuspended

datatype intake_scope = ScopeMinimal | ScopeSimple | ScopeComplex

text \<open>One row of \<open>guidance_accumulated\<close>; the code always writes these four keys.\<close>

record guidance_entry =
  gd_text :: string
  gd_timestamp :: time
  gd_scope :: string
  gd_source :: string

type_synonym obj = "(string, json) dict"

record goal_node =
  g_id :: ident
  g_description :: string
  g_priority :: int
  g_status :: goal_status
  g_parent_id :: "ident option"
  g_depends_on :: "ident list"
  g_informs :: "ident list"
  g_conflicts_with :: "ident list"
  g_steps :: step_dag
  g_generating_reasoning :: "string option"
  g_source :: goal_source
  g_iteration_count :: int
  g_total_tokens_used :: int
  g_total_duration_ms :: int
  g_max_iterations :: int
  g_thread_id :: "string option"
  g_assigned_loop_id :: "string option"
  g_previous_plan :: "json option"
  g_action_history :: "string list"
  g_evidence_ledger :: "evidence_entry list"
  g_retry_count :: int
  g_max_retries :: int
  g_send_back_count :: int
  g_max_send_backs :: int
  g_attempts_after_crash :: int
  g_engine_recovery_count :: int
  g_workspace :: "string option"
  g_report :: "obj option"
  g_report_revision :: int
  g_judged_report_revision :: int
  g_error :: "string option"
  g_pending_clarification :: "obj option"
  g_guidance_accumulated :: "guidance_entry list"
  g_verification_rules :: "string option"
  g_maturity :: "json option"
  g_rail_id :: "string option"
  g_rail_tags :: "string list"
  g_branch_id :: "string option"
  g_branch_status :: "branch_status option"
  g_role :: "string option"
  g_intake_scope :: "intake_scope option"
  g_cron_job_id :: "string option"
  g_topic :: "string option"
  g_findings :: "string list"
  g_distilled :: bool
  g_created_at :: time
  g_updated_at :: time
  g_suspended_at :: "time option"
  g_started_at :: "time option"
  g_last_assessment :: "json option"
  g_last_assessment_iteration :: "int option"
  g_last_gap_analysis :: "json option"

text \<open>A goal with every field but the required description at its default.\<close>

definition new_goal :: "ident \<Rightarrow> string \<Rightarrow> time \<Rightarrow> goal_node" where
  "new_goal gid desc now =
     \<lparr>g_id = gid, g_description = desc, g_priority = 50, g_status = GPending,
      g_parent_id = None, g_depends_on = [], g_informs = [], g_conflicts_with = [],
      g_steps = empty_step_dag, g_generating_reasoning = None, g_source = SrcUser,
      g_iteration_count = 0, g_total_tokens_used = 0, g_total_duration_ms = 0,
      g_max_iterations = 0, g_thread_id = None, g_assigned_loop_id = None,
      g_previous_plan = None, g_action_history = [], g_evidence_ledger = [],
      g_retry_count = 0, g_max_retries = 2, g_send_back_count = 0, g_max_send_backs = 3,
      g_attempts_after_crash = 0, g_engine_recovery_count = 0, g_workspace = None,
      g_report = None, g_report_revision = 0, g_judged_report_revision = 0, g_error = None,
      g_pending_clarification = None, g_guidance_accumulated = [], g_verification_rules = None,
      g_maturity = None, g_rail_id = None, g_rail_tags = [], g_branch_id = None,
      g_branch_status = None, g_role = None, g_intake_scope = None, g_cron_job_id = None,
      g_topic = None, g_findings = [], g_distilled = False, g_created_at = now,
      g_updated_at = now, g_suspended_at = None, g_started_at = None,
      g_last_assessment = None, g_last_assessment_iteration = None,
      g_last_gap_analysis = None\<rparr>"

definition touch :: "time \<Rightarrow> goal_node \<Rightarrow> goal_node" where
  "touch now g = g\<lparr>g_updated_at := now\<rparr>"

record goal_dag =
  goals :: "(ident, goal_node) dict"

definition goal_nodes :: "goal_dag \<Rightarrow> goal_node list" where
  "goal_nodes d = dict_values (goals d)"

definition get_goal :: "goal_dag \<Rightarrow> ident \<Rightarrow> goal_node option" where
  "get_goal d gid = dict_get (goals d) gid"

text \<open>Mutating the goal stored under an id; nothing happens when there is none.\<close>

definition modify_goal :: "ident \<Rightarrow> (goal_node \<Rightarrow> goal_node) \<Rightarrow> goal_dag \<Rightarrow> goal_dag" where
  "modify_goal gid f d = d\<lparr>goals := dict_modify gid f (goals d)\<rparr>"

definition put_goal :: "goal_node \<Rightarrow> goal_dag \<Rightarrow> goal_dag" where
  "put_goal g d = d\<lparr>goals := dict_set (g_id g) g (goals d)\<rparr>"

definition goal_ids :: "goal_dag \<Rightarrow> ident list" where
  "goal_ids d = dict_keys (goals d)"

section \<open>Depth and lineage\<close>

function depth_walk :: "(ident, goal_node) dict \<Rightarrow> ident option \<Rightarrow> ident set \<Rightarrow> nat \<Rightarrow> nat" where
  "depth_walk gs current visited depth =
     (case current of
        None \<Rightarrow> depth
      | Some c \<Rightarrow>
          if c = [] \<or> c \<in> visited then depth
          else (case dict_get gs c of
                  None \<Rightarrow> depth
                | Some g \<Rightarrow>
                    if Suc depth > MAX_GOAL_DEPTH + 1 then Suc depth
                    else depth_walk gs (g_parent_id g) (insert c visited) (Suc depth)))"
  by pat_completeness auto
termination
proof (relation "measure (\<lambda>(gs, _, visited, _). card (set (dict_keys gs) - visited))", goal_cases)
  case (2 gs current visited depth c g)
  then have "c \<in> set (dict_keys gs)" by (auto dest: dict_get_key)
  with 2 have "set (dict_keys gs) - insert c visited \<subset> set (dict_keys gs) - visited" by auto
  then show ?case by (simp add: psubset_card_mono)
qed simp

declare depth_walk.simps [simp del]

definition goal_depth :: "goal_dag \<Rightarrow> ident \<Rightarrow> nat" where
  "goal_depth d gid = depth_walk (goals d) (Some gid) {} 0"

function lineage_chain :: "(ident, goal_node) dict \<Rightarrow> ident option \<Rightarrow> ident set \<Rightarrow> string list \<Rightarrow> string list" where
  "lineage_chain gs current visited chain =
     (case current of
        None \<Rightarrow> chain
      | Some c \<Rightarrow>
          if c = [] \<or> c \<in> visited then chain
          else (case dict_get gs c of
                  None \<Rightarrow> chain
                | Some g \<Rightarrow>
                    lineage_chain gs (g_parent_id g) (insert c visited) (chain @ [g_description g])))"
  by pat_completeness auto
termination
proof (relation "measure (\<lambda>(gs, _, visited, _). card (set (dict_keys gs) - visited))", goal_cases)
  case (2 gs current visited chain c g)
  then have "c \<in> set (dict_keys gs)" by (auto dest: dict_get_key)
  with 2 have "set (dict_keys gs) - insert c visited \<subset> set (dict_keys gs) - visited" by auto
  then show ?case by (simp add: psubset_card_mono)
qed simp

declare lineage_chain.simps [simp del]

definition goal_lineage :: "goal_dag \<Rightarrow> ident \<Rightarrow> string list" where
  "goal_lineage d gid = rev (lineage_chain (goals d) (Some gid) {} [])"

section \<open>Goal lifecycle\<close>

definition add_goal :: "goal_node \<Rightarrow> goal_dag \<Rightarrow> exn + goal_dag" where
  "add_goal g d =
     (if truthy (g_parent_id g) then
        (let pid = opt_str (g_parent_id g) in
         case get_goal d pid of
           None \<Rightarrow> Inl (ValueError (''Parent goal '' @ pid @ '' not found.''))
         | Some parent \<Rightarrow>
             (let depth = goal_depth d pid in
              if depth \<ge> MAX_GOAL_DEPTH then
                Inl (ValueError (''Goal depth limit ('' @ show_nat MAX_GOAL_DEPTH @
                  '') exceeded. Parent '' @ pid @ '' is at depth '' @ show_nat depth @ ''.''))
              else Inr (put_goal g d)))
      else Inr (put_goal g d))"

definition dag_complete_goal :: "time \<Rightarrow> ident \<Rightarrow> goal_dag \<Rightarrow> goal_dag" where
  "dag_complete_goal now gid = modify_goal gid
     (\<lambda>g. g\<lparr>g_status := GCompleted, g_assigned_loop_id := None, g_updated_at := now\<rparr>)"

definition dag_fail_goal :: "time \<Rightarrow> ident \<Rightarrow> string \<Rightarrow> goal_dag \<Rightarrow> goal_dag" where
  "dag_fail_goal now gid error = modify_goal gid
     (\<lambda>g. g\<lparr>g_status := GFailed, g_error := Some error, g_updated_at := now\<rparr>)"

definition dag_suspend_goal :: "time \<Rightarrow> ident \<Rightarrow> string \<Rightarrow> goal_dag \<Rightarrow> goal_dag" where
  "dag_suspend_goal now gid reason = modify_goal gid
     (\<lambda>g. let g' = g\<lparr>g_status := GSuspended, g_assigned_loop_id := None, g_updated_at := now\<rparr> in
       (if g_suspended_at g' = None then g'\<lparr>g_suspended_at := Some now\<rparr> else g'))"

definition dag_cancel_goal :: "time \<Rightarrow> ident \<Rightarrow> goal_dag \<Rightarrow> goal_dag" where
  "dag_cancel_goal now gid = modify_goal gid (\<lambda>g. g\<lparr>g_status := GCancelled, g_updated_at := now\<rparr>)"

definition dag_block_goal :: "time \<Rightarrow> ident \<Rightarrow> goal_dag \<Rightarrow> goal_dag" where
  "dag_block_goal now gid = modify_goal gid (\<lambda>g. g\<lparr>g_status := GBlocked, g_updated_at := now\<rparr>)"

definition dag_unblock_goal :: "time \<Rightarrow> ident \<Rightarrow> goal_dag \<Rightarrow> goal_dag" where
  "dag_unblock_goal now gid = modify_goal gid
     (\<lambda>g. if g_status g = GBlocked then g\<lparr>g_status := GPending, g_updated_at := now\<rparr> else g)"

text \<open>\<open>children.setdefault(goal.parent_id, []).append(gid)\<close> over the goals.\<close>

fun collect_children :: "(ident \<times> goal_node) list \<Rightarrow> (ident, ident list) dict \<Rightarrow> (ident, ident list) dict" where
  "collect_children [] children = children"
| "collect_children ((gid, g) # rest) children =
     (if truthy (g_parent_id g) then
        (let pid = opt_str (g_parent_id g) in
         collect_children rest
           (dict_set pid ((case dict_get children pid of None \<Rightarrow> [] | Some l \<Rightarrow> l) @ [gid]) children))
      else collect_children rest children)"

text \<open>The recursive \<open>_visit\<close>. Fuel bounds its nesting; \<open>None\<close> stands for a recursion that
  does not return.\<close>

fun visit_subtree :: "nat \<Rightarrow> (ident, ident list) dict \<Rightarrow> ident \<Rightarrow> ident list option"
and visit_children :: "nat \<Rightarrow> (ident, ident list) dict \<Rightarrow> ident list \<Rightarrow> ident list option" where
  "visit_subtree 0 children gid = None"
| "visit_subtree (Suc fuel) children gid =
     (case visit_children fuel children (case dict_get children gid of None \<Rightarrow> [] | Some l \<Rightarrow> l) of
        None \<Rightarrow> None
      | Some below \<Rightarrow> Some (below @ [gid]))"
| "visit_children fuel children [] = Some []"
| "visit_children fuel children (c # cs) =
     (case visit_subtree fuel children c of
        None \<Rightarrow> None
      | Some first \<Rightarrow>
          (case visit_children fuel children cs of
             None \<Rightarrow> None
           | Some rest \<Rightarrow> Some (first @ rest)))"

definition collect_subtree_ids :: "goal_dag \<Rightarrow> ident \<Rightarrow> ident list option" where
  "collect_subtree_ids d root_id =
     (if root_id \<notin> set (goal_ids d) then Some []
      else visit_subtree (Suc (length (goals d))) (collect_children (goals d) []) root_id)"

section \<open>Scheduling\<close>

definition active_goal_ids :: "goal_dag \<Rightarrow> ident list" where
  "active_goal_ids d = map fst (filter (\<lambda>(gid, g). g_status g = GActive) (goals d))"

definition deps_met :: "goal_dag \<Rightarrow> goal_node \<Rightarrow> bool" where
  "deps_met d g \<longleftrightarrow>
     list_all (\<lambda>dep_id. case get_goal d dep_id of None \<Rightarrow> False | Some dep \<Rightarrow> g_status dep \<in> TERMINAL_STATES)
       (g_depends_on g)"

definition is_ready :: "goal_dag \<Rightarrow> goal_node \<Rightarrow> bool" where
  "is_ready d g \<longleftrightarrow>
     (if g_status g \<noteq> GPending then False
      else if g_status g \<in> BLOCKED_STATES then False
      else if \<not> deps_met d g then False
      else \<not> list_ex (\<lambda>dep_id. dep_id \<in> set (active_goal_ids d)) (g_conflicts_with g))"

definition ready_key :: "goal_node \<Rightarrow> int \<times> time" where
  "ready_key g = (- g_priority g, g_created_at g)"

definition peek_ready_goals :: "goal_dag \<Rightarrow> int \<Rightarrow> goal_node list" where
  "peek_ready_goals d limit = py_prefix limit (sort_key ready_key (filter (is_ready d) (goal_nodes d)))"

definition claim_goal ::
  "time \<Rightarrow> ident \<Rightarrow> string option \<Rightarrow> goal_dag \<Rightarrow> goal_node option \<times> goal_dag" where
  "claim_goal now gid loop_id d =
     (case get_goal d gid of
        None \<Rightarrow> (None, d)
      | Some goal \<Rightarrow>
          if g_status goal \<noteq> GPending then (None, d)
          else if list_ex (\<lambda>dep_id. dep_id \<in> set (filter (\<lambda>i. i \<noteq> gid) (active_goal_ids d)))
                    (g_conflicts_with goal) then (None, d)
          else if \<not> deps_met d goal then (None, d)
          else
            (let goal' = goal\<lparr>g_status := GActive, g_started_at := Some now, g_updated_at := now\<rparr>;
                 goal'' = (if truthy loop_id then goal'\<lparr>g_assigned_loop_id := loop_id\<rparr> else goal')
             in (Some goal'', modify_goal gid (\<lambda>_. goal'') d)))"

definition active_goals :: "goal_dag \<Rightarrow> goal_node list" where
  "active_goals d = filter (\<lambda>g. g_status g = GActive) (goal_nodes d)"

definition is_dag_complete :: "goal_dag \<Rightarrow> bool" where
  "is_dag_complete d \<longleftrightarrow>
     (if goals d = [] then True else list_all (\<lambda>g. g_status g \<in> TERMINAL_STATES) (goal_nodes d))"

definition check_reactivatable_goals :: "goal_dag \<Rightarrow> goal_node list" where
  "check_reactivatable_goals d =
     filter (\<lambda>g. g_status g \<in> {GBlocked, GSuspended} \<and> deps_met d g) (goal_nodes d)"

section \<open>Snapshot and recovery\<close>

record goal_dag_snapshot =
  snap_goals :: "goal_node list"
  snap_saved_at :: time

definition snapshot :: "time \<Rightarrow> goal_dag \<Rightarrow> goal_dag_snapshot" where
  "snapshot now d = \<lparr>snap_goals = goal_nodes d, snap_saved_at = now\<rparr>"

definition restore_from_snapshot :: "goal_dag_snapshot \<Rightarrow> goal_dag \<Rightarrow> goal_dag" where
  "restore_from_snapshot s d = foldl (\<lambda>d g. put_goal g d) (d\<lparr>goals := []\<rparr>) (snap_goals s)"

definition recover_goal :: "time \<Rightarrow> goal_node \<Rightarrow> goal_node" where
  "recover_goal now g =
     g\<lparr>g_assigned_loop_id := None, g_status := GPending,
       g_attempts_after_crash := g_attempts_after_crash g + 1, g_updated_at := now\<rparr>"

fun recover_loop ::
  "time \<Rightarrow> (ident, goal_node) dict \<Rightarrow> ident list \<times> (ident, goal_node) dict" where
  "recover_loop now [] = ([], [])"
| "recover_loop now ((k, g) # rest) =
     (let (recovered, rest') = recover_loop now rest in
      if g_status g \<noteq> GActive then (recovered, (k, g) # rest')
      else (g_id g # recovered, (k, recover_goal now g) # rest'))"

definition recover_active_goals :: "time \<Rightarrow> goal_dag \<Rightarrow> ident list \<times> goal_dag" where
  "recover_active_goals now d =
     (let (recovered, gs) = recover_loop now (goals d) in (recovered, d\<lparr>goals := gs\<rparr>))"

section \<open>Structural operations\<close>

definition get_goal_dependents :: "goal_dag \<Rightarrow> ident \<Rightarrow> ident list" where
  "get_goal_dependents d gid = map fst (filter (\<lambda>(k, g). gid \<in> set (g_depends_on g)) (goals d))"

definition remove_goal :: "ident \<Rightarrow> goal_dag \<Rightarrow> bool \<times> goal_dag" where
  "remove_goal gid d =
     (case get_goal d gid of
        None \<Rightarrow> (False, d)
      | Some goal \<Rightarrow>
          if get_goal_dependents d gid \<noteq> [] then (False, d)
          else (True, d\<lparr>goals := dict_pop gid (goals d)\<rparr>))"

definition get_goals_by_status :: "goal_status option \<Rightarrow> goal_dag \<Rightarrow> goal_node list" where
  "get_goals_by_status status d =
     (case status of None \<Rightarrow> goal_nodes d | Some st \<Rightarrow> filter (\<lambda>g. g_status g = st) (goal_nodes d))"

definition update_dependencies :: "time \<Rightarrow> ident \<Rightarrow> ident list \<Rightarrow> goal_dag \<Rightarrow> bool \<times> goal_dag" where
  "update_dependencies now gid deps d =
     (case get_goal d gid of
        None \<Rightarrow> (False, d)
      | Some goal \<Rightarrow> (True, modify_goal gid (\<lambda>g. touch now (g\<lparr>g_depends_on := deps\<rparr>)) d))"

text \<open>\<open>merge_goals\<close>. The union of the dependencies is a set whose iteration order the source
  leaves open; the model lists it in order of first occurrence. \<open>max\<close> of no priorities raises.\<close>

definition merged_goal ::
  "time \<Rightarrow> ident \<Rightarrow> ident list \<Rightarrow> string \<Rightarrow> ident option \<Rightarrow> goal_node list \<Rightarrow> goal_node" where
  "merged_goal now fresh ids desc merged_id gs =
     (new_goal (if truthy merged_id then opt_str merged_id else fresh) desc now)
       \<lparr>g_priority := Max (set (map g_priority gs)), g_status := GPending,
        g_depends_on := remdups (filter (\<lambda>i. i \<notin> set ids) (concat (map g_depends_on gs))),
        g_informs := remdups (filter (\<lambda>i. i \<notin> set ids) (concat (map g_informs gs))),
        g_findings := concat (map g_findings gs), g_source := SrcDecomposition,
        g_generating_reasoning := Some (''Merged from goals: '' @ py_join '', '' ids)\<rparr>"

definition merge_goals ::
  "time \<Rightarrow> ident \<Rightarrow> ident list \<Rightarrow> string \<Rightarrow> ident option \<Rightarrow> goal_dag \<Rightarrow>
   (exn + goal_node option) \<times> goal_dag" where
  "merge_goals now fresh ids desc merged_id d =
     (let found = map (get_goal d) ids in
      if \<not> list_all (\<lambda>g. g \<noteq> None) found then (Inr None, d)
      else if ids = [] then (Inl (ValueError ''max() iterable argument is empty''), d)
      else
        (let merged = merged_goal now fresh ids desc merged_id (map the found);
             pruned = d\<lparr>goals := foldl (\<lambda>gs gid. dict_pop gid gs) (goals d) ids\<rparr>
         in (Inr (Some merged), put_goal merged pruned)))"

section \<open>Well-formed goal DAGs\<close>

text \<open>Every goal is stored under its own id; every operation keeps this.\<close>

definition wf_goal_dag :: "goal_dag \<Rightarrow> bool" where
  "wf_goal_dag d \<longleftrightarrow> keyed_by g_id (goals d)"

lemma get_goal_modify [simp, dict_simps]:
  "get_goal (modify_goal k f d) k' = (if k' = k then map_option f (get_goal d k) else get_goal d k')"
  by (simp add: get_goal_def modify_goal_def)

lemma get_goal_put [simp, dict_simps]:
  "get_goal (put_goal g d) k = (if k = g_id g then Some g else get_goal d k)"
  by (simp add: get_goal_def put_goal_def)

lemma get_goal_pop [simp, dict_simps]:
  "get_goal (d\<lparr>goals := dict_pop k (goals d)\<rparr>) k' = (if k' = k then None else get_goal d k')"
  by (simp add: get_goal_def)

interpretation goal_store: object_store get_goal modify_goal
  by unfold_locales (rule get_goal_modify)

lemma goal_ids_iff: "gid \<in> set (goal_ids d) \<longleftrightarrow> get_goal d gid \<noteq> None"
  by (simp add: goal_ids_def get_goal_def dict_get_None del: set_map)

lemma wf_goal_get: "wf_goal_dag d \<Longrightarrow> get_goal d k = Some g \<Longrightarrow> g_id g = k"
  unfolding wf_goal_dag_def get_goal_def by (rule keyed_by_get)

lemma goal_nodes_iff: "wf_goal_dag d \<Longrightarrow> g \<in> set (goal_nodes d) \<longleftrightarrow> get_goal d (g_id g) = Some g"
  unfolding wf_goal_dag_def goal_nodes_def get_goal_def by (rule keyed_by_values)

lemma wf_empty_goals [simp]: "wf_goal_dag \<lparr>goals = []\<rparr>"
  by (simp add: wf_goal_dag_def)

lemma wf_put_goal: "wf_goal_dag d \<Longrightarrow> wf_goal_dag (put_goal g d)"
  by (simp add: wf_goal_dag_def put_goal_def keyed_by_set)

lemma wf_modify_goal: "wf_goal_dag d \<Longrightarrow> (\<And>g. g_id (f g) = g_id g) \<Longrightarrow> wf_goal_dag (modify_goal k f d)"
  by (simp add: wf_goal_dag_def modify_goal_def keyed_by_modify)

lemma wf_pop_goal: "wf_goal_dag d \<Longrightarrow> wf_goal_dag (d\<lparr>goals := dict_pop k (goals d)\<rparr>)"
  by (simp add: wf_goal_dag_def keyed_by_pop)

lemma wf_replace_goal:
  assumes "wf_goal_dag d" "get_goal d k = Some g" "g_id g' = g_id g"
  shows "wf_goal_dag (modify_goal k (\<lambda>_. g') d)"
proof -
  have "g_id g' = k" using assms wf_goal_get by simp
  then show ?thesis
    using assms(1) unfolding wf_goal_dag_def modify_goal_def keyed_by_def
    by (simp add: map_option_case split: option.splits if_splits)
qed

lemma wf_goal_dict: "wf_goal_dag d \<Longrightarrow> wf_dict (goals d)"
  by (simp add: wf_goal_dag_def keyed_by_wf)

lemma active_goal_ids_iff:
  "wf_goal_dag d \<Longrightarrow> gid \<in> set (active_goal_ids d) \<longleftrightarrow> (\<exists>g. get_goal d gid = Some g \<and> g_status g = GActive)"
  unfolding active_goal_ids_def get_goal_def by (rule wf_dict_filter_keys) (rule wf_goal_dict)

lemma dependents_iff:
  "wf_goal_dag d \<Longrightarrow> k \<in> set (get_goal_dependents d gid) \<longleftrightarrow> (\<exists>g. get_goal d k = Some g \<and> gid \<in> set (g_depends_on g))"
  unfolding get_goal_dependents_def get_goal_def by (rule wf_dict_filter_keys) (rule wf_goal_dict)

lemma deps_met_iff:
  "deps_met d g \<longleftrightarrow> (\<forall>k \<in> set (g_depends_on g). \<exists>h. get_goal d k = Some h \<and> g_status h \<in> TERMINAL_STATES)"
  by (simp add: deps_met_def list_all_iff case_option_False)

lemma is_ready_iff:
  "is_ready d g \<longleftrightarrow> g_status g = GPending \<and> deps_met d g \<and> set (g_conflicts_with g) \<inter> set (active_goal_ids d) = {}"
  by (auto simp: is_ready_def BLOCKED_STATES_def list_ex_iff)

lemma wf_dag_marks [simp]:
  assumes "wf_goal_dag d"
  shows "wf_goal_dag (dag_complete_goal now k d)" "wf_goal_dag (dag_fail_goal now k e d)"
    "wf_goal_dag (dag_suspend_goal now k e d)" "wf_goal_dag (dag_cancel_goal now k d)"
    "wf_goal_dag (dag_block_goal now k d)" "wf_goal_dag (dag_unblock_goal now k d)"
  using assms
  by (simp_all add: dag_complete_goal_def dag_fail_goal_def dag_suspend_goal_def
      dag_cancel_goal_def dag_block_goal_def dag_unblock_goal_def wf_modify_goal Let_def)

lemma add_goal_result: "add_goal g d = Inr d' \<Longrightarrow> d' = put_goal g d"
  by (simp add: add_goal_def Let_def split: if_splits option.splits)

end
