(* ===== verification/Context_Engine.thy ===== *)
theory Context_Engine
  imports Goal_Dag
begin

text \<open>
  The goal operations of \<open>ContextEngine\<close> (\<open>context/engine.py\<close>): the lifecycle with its
  transition table, budgets for retries, send-backs and recovery, clarification, guidance,
  directives and steps. An operation returns its value or exception together with the DAG,
  because a raise keeps what was already mutated.
\<close>

type_synonym 'a goal_op = "goal_dag \<Rightarrow> 'a outcome \<times> goal_dag"

section \<open>The transition table\<close>

fun valid_goal_transitions :: "goal_status \<Rightarrow> goal_status set" where
  "valid_goal_transitions GPending =
     {GActive, GCompleted, GFailed, GSuspended, GBlocked, GCancelled, GAwaitingClarification}"
| "valid_goal_transitions GActive =
     {GCompleted, GFailed, GSuspended, GBlocked, GCancelled, GPending, GAwaitingClarification}"
| "valid_goal_transitions GCompleted = {}"
| "valid_goal_transitions GFailed = {GPending}"
| "valid_goal_transitions GSuspended = {GPending, GCompleted, GFailed, GCancelled}"
| "valid_goal_transitions GBlocked = {GPending, GCompleted, GFailed, GCancelled}"
| "valid_goal_transitions GValidated = {GCompleted, GFailed, GCancelled}"
| "valid_goal_transitions GAwaitingClarification = {GPending, GCompleted, GFailed, GCancelled}"
| "valid_goal_transitions GCancelled = {GPending}"

definition quoted :: "string \<Rightarrow> string" where
  "quoted s = [CHR 0x27] @ s @ [CHR 0x27]"

definition validate_transition :: "ident \<Rightarrow> goal_status \<Rightarrow> goal_status \<Rightarrow> unit outcome" where
  "validate_transition gid from_status to_status =
     (if to_status \<notin> valid_goal_transitions from_status
      then Inl (InvalidGoalTransitionError (''Goal '' @ gid @ '' cannot transition from '' @
             quoted (status_str from_status) @ '' to '' @ quoted (status_str to_status)))
      else Inr ())"

definition goal_missing :: "ident \<Rightarrow> string" where
  "goal_missing gid = ''Goal '' @ gid @ '' not found''"

section \<open>Creation and activation\<close>

text \<open>\<open>extra\<close> applies the keyword arguments that are not \<open>None\<close> to the other fields.\<close>

definition create_goal ::
  "ident \<Rightarrow> time \<Rightarrow> string \<Rightarrow> int \<Rightarrow> ident option \<Rightarrow> ident list option \<Rightarrow> string option \<Rightarrow> goal_source \<Rightarrow>
   int \<Rightarrow> (goal_node \<Rightarrow> goal_node) \<Rightarrow> goal_node goal_op" where
  "create_goal fresh now description priority parent_id depends_on reasoning source max_iterations extra d =
     (let goal = extra ((new_goal fresh description now)
            \<lparr>g_priority := priority, g_parent_id := parent_id,
             g_depends_on := (case depends_on of None \<Rightarrow> [] | Some l \<Rightarrow> l),
             g_generating_reasoning := reasoning, g_source := source,
             g_max_iterations := max_iterations\<rparr>)
      in case add_goal goal d of Inl e \<Rightarrow> (Inl e, d) | Inr d' \<Rightarrow> (Inr goal, d'))"

definition list_goals :: "goal_status option \<Rightarrow> goal_dag \<Rightarrow> goal_node list" where
  "list_goals status d =
     (case status of None \<Rightarrow> goal_nodes d | Some st \<Rightarrow> filter (\<lambda>g. g_status g = st) (goal_nodes d))"

definition activate_goal :: "time \<Rightarrow> ident \<Rightarrow> string option \<Rightarrow> unit goal_op" where
  "activate_goal now gid loop_id d =
     (case get_goal d gid of
        None \<Rightarrow> (Inl (ValueError (goal_missing gid)), d)
      | Some goal \<Rightarrow>
          if g_status goal \<noteq> GPending then
            (Inl (ValueError (''Goal '' @ gid @ '' is '' @ status_str (g_status goal) @ '', expected pending'')), d)
          else (Inr (), modify_goal gid (\<lambda>g. g\<lparr>g_status := GActive, g_assigned_loop_id := loop_id,
                          g_started_at := Some now, g_updated_at := now\<rparr>) d))"

section \<open>Terminal, suspended and blocked states\<close>

definition complete_goal :: "time \<Rightarrow> ident \<Rightarrow> unit goal_op" where
  "complete_goal now gid d =
     (case get_goal d gid of
        None \<Rightarrow> (Inl (ValueError (goal_missing gid)), d)
      | Some goal \<Rightarrow>
          if g_status goal = GCompleted then (Inr (), d)
          else (case validate_transition gid (g_status goal) GCompleted of
                  Inl e \<Rightarrow> (Inl e, d)
                | Inr _ \<Rightarrow> (Inr (), dag_complete_goal now gid d)))"

text \<open>\<open>error or (evidence.narrative if evidence else "unknown error")\<close>.\<close>

definition failure_message :: "string option \<Rightarrow> string option \<Rightarrow> string" where
  "failure_message error narrative =
     (if truthy error then opt_str error
      else (case narrative of None \<Rightarrow> ''unknown error'' | Some n \<Rightarrow> n))"

definition fail_goal :: "time \<Rightarrow> ident \<Rightarrow> string option \<Rightarrow> string option \<Rightarrow> unit goal_op" where
  "fail_goal now gid error narrative d =
     (case get_goal d gid of
        None \<Rightarrow> (Inr (), d)
      | Some goal \<Rightarrow>
          if g_status goal = GFailed then (Inr (), d)
          else (case validate_transition gid (g_status goal) GFailed of
                  Inl e \<Rightarrow> (Inl e, d)
                | Inr _ \<Rightarrow> (Inr (), dag_fail_goal now gid (failure_message error narrative) d)))"

definition suspend_goal :: "time \<Rightarrow> ident \<Rightarrow> string \<Rightarrow> unit goal_op" where
  "suspend_goal now gid reason d =
     (case get_goal d gid of
        None \<Rightarrow> (Inr (), d)
      | Some goal \<Rightarrow>
          if g_status goal = GSuspended then (Inr (), d)
          else (case validate_transition gid (g_status goal) GSuspended of
                  Inl e \<Rightarrow> (Inl e, d)
                | Inr _ \<Rightarrow> (Inr (), dag_suspend_goal now gid reason d)))"

definition cancel_goal :: "time \<Rightarrow> ident \<Rightarrow> unit goal_op" where
  "cancel_goal now gid d =
     (case get_goal d gid of
        None \<Rightarrow> (Inr (), d)
      | Some goal \<Rightarrow>
          if g_status goal = GCancelled then (Inr (), d)
          else (case validate_transition gid (g_status goal) GCancelled of
                  Inl e \<Rightarrow> (Inl e, d)
                | Inr _ \<Rightarrow> (Inr (), dag_cancel_goal now gid d)))"

definition block_goal :: "time \<Rightarrow> ident \<Rightarrow> unit goal_op" where
  "block_goal now gid d =
     (case get_goal d gid of
        None \<Rightarrow> (Inr (), d)
      | Some goal \<Rightarrow>
          if g_status goal = GBlocked then (Inr (), d)
          else (case validate_transition gid (g_status goal) GBlocked of
                  Inl e \<Rightarrow> (Inl e, d)
                | Inr _ \<Rightarrow> (Inr (), dag_block_goal now gid d)))"

definition unblock_goal :: "time \<Rightarrow> ident \<Rightarrow> unit goal_op" where
  "unblock_goal now gid d = (Inr (), dag_unblock_goal now gid d)"

definition finalize_goal :: "time \<Rightarrow> ident \<Rightarrow> goal_status \<Rightarrow> unit goal_op" where
  "finalize_goal now gid status d =
     (case get_goal d gid of
        None \<Rightarrow> (Inr (), d)
      | Some goal \<Rightarrow>
          (case (if g_status goal \<noteq> status then validate_transition gid (g_status goal) status else Inr ()) of
             Inl e \<Rightarrow> (Inl e, d)
           | Inr _ \<Rightarrow> (Inr (), modify_goal gid (\<lambda>g. g\<lparr>g_status := status, g_updated_at := now\<rparr>) d)))"

section \<open>Counters and audit fields\<close>

definition record_action :: "ident \<Rightarrow> string \<Rightarrow> unit goal_op" where
  "record_action gid action d =
     (Inr (), modify_goal gid (\<lambda>g. g\<lparr>g_action_history := g_action_history g @ [action]\<rparr>) d)"

definition increment_iteration :: "time \<Rightarrow> ident \<Rightarrow> int goal_op" where
  "increment_iteration now gid d =
     (case get_goal d gid of
        None \<Rightarrow> (Inr 0, d)
      | Some goal \<Rightarrow>
          (Inr (g_iteration_count goal + 1),
           modify_goal gid (\<lambda>g. touch now (g\<lparr>g_iteration_count := g_iteration_count g + 1\<rparr>)) d))"

definition get_iteration :: "ident \<Rightarrow> goal_dag \<Rightarrow> int" where
  "get_iteration gid d = (case get_goal d gid of None \<Rightarrow> 0 | Some g \<Rightarrow> g_iteration_count g)"

definition set_previous_plan :: "ident \<Rightarrow> json \<Rightarrow> unit goal_op" where
  "set_previous_plan gid plan d = (Inr (), modify_goal gid (\<lambda>g. g\<lparr>g_previous_plan := Some plan\<rparr>) d)"

definition set_last_assessment :: "time \<Rightarrow> ident \<Rightarrow> json \<Rightarrow> int \<Rightarrow> unit goal_op" where
  "set_last_assessment now gid assessment iteration d =
     (Inr (), modify_goal gid (\<lambda>g. touch now (g\<lparr>g_last_assessment := Some assessment,
                g_last_assessment_iteration := Some iteration\<rparr>)) d)"

definition set_last_gap_analysis :: "time \<Rightarrow> ident \<Rightarrow> json \<Rightarrow> unit goal_op" where
  "set_last_gap_analysis now gid gap d =
     (Inr (), modify_goal gid (\<lambda>g. touch now (g\<lparr>g_last_gap_analysis := Some gap\<rparr>)) d)"

section \<open>Guidance\<close>

definition append_goal_guidance :: "time \<Rightarrow> string \<Rightarrow> string \<Rightarrow> string \<Rightarrow> goal_node \<Rightarrow> goal_node" where
  "append_goal_guidance now text source scope g =
     (let cleaned = py_strip text in
      if cleaned = [] then g
      else if g_guidance_accumulated g \<noteq> [] \<and>
              py_strip (gd_text (last (g_guidance_accumulated g))) = cleaned then g
      else g\<lparr>g_guidance_accumulated := g_guidance_accumulated g @
                [\<lparr>gd_text = cleaned, gd_timestamp = now, gd_scope = scope, gd_source = source\<rparr>]\<rparr>)"

definition failure_parts :: "goal_node \<Rightarrow> string \<Rightarrow> string list" where
  "failure_parts g reason =
     (let prev_error = py_strip (opt_str (g_error g));
          note = py_strip reason
      in (if prev_error \<noteq> [] then [''Previous failure: '' @ prev_error] else []) @
         (if note \<noteq> [] \<and> note \<noteq> prev_error then [''Recovery note: '' @ note] else []))"

definition append_failure_guidance :: "time \<Rightarrow> string \<Rightarrow> goal_node \<Rightarrow> goal_node" where
  "append_failure_guidance now reason g =
     (let parts = failure_parts g reason in
      if parts = [] then g
      else append_goal_guidance now (py_join [CHR 0x0A] parts) ''failure_recovery'' ''goal'' g)"

definition absorb_guidance :: "time \<Rightarrow> ident \<Rightarrow> string \<Rightarrow> string \<Rightarrow> string \<Rightarrow> bool goal_op" where
  "absorb_guidance now gid guidance_text scope source d =
     (case get_goal d gid of
        None \<Rightarrow> (Inr False, d)
      | Some goal \<Rightarrow>
          (let cleaned = py_strip guidance_text in
           if cleaned = [] then (Inr False, d)
           else
             (let source_norm = str_or (py_strip (str_or source ''user'')) ''user'';
                  goal' = append_goal_guidance now cleaned source_norm scope goal
              in if length (g_guidance_accumulated goal') = length (g_guidance_accumulated goal)
                 then (Inr True, modify_goal gid (\<lambda>_. goal') d)
                 else (Inr True, modify_goal gid (\<lambda>_. touch now goal') d))))"

section \<open>Report commit, send-back, retry and recovery\<close>

definition commit_goal_report :: "time \<Rightarrow> ident \<Rightarrow> obj \<Rightarrow> int goal_op" where
  "commit_goal_report now gid report d =
     (case get_goal d gid of
        None \<Rightarrow> (Inl (KeyError (goal_missing gid)), d)
      | Some goal \<Rightarrow>
          (let revision = g_report_revision goal + 1 in
           (Inr revision, modify_goal gid (\<lambda>g. g\<lparr>g_report := Some report, g_report_revision := revision,
                            g_updated_at := now\<rparr>) d)))"

text \<open>The counter is raised before the transition is validated, so a refused send-back keeps
  the raised counter.\<close>

definition send_back_goal :: "time \<Rightarrow> ident \<Rightarrow> string \<Rightarrow> goal_node goal_op" where
  "send_back_goal now gid reason d =
     (case get_goal d gid of
        None \<Rightarrow> (Inl (KeyError (goal_missing gid)), d)
      | Some goal0 \<Rightarrow>
          (let goal = goal0\<lparr>g_send_back_count := g_send_back_count goal0 + 1\<rparr>;
               d1 = modify_goal gid (\<lambda>_. goal) d
           in if g_send_back_count goal \<ge> g_max_send_backs goal then
                (case fail_goal now gid (Some (str_or reason ''send_back budget exhausted'')) None d1 of
                   (Inl e, d2) \<Rightarrow> (Inl e, d2)
                 | (Inr _, d2) \<Rightarrow> (Inr (the (get_goal d2 gid)), d2))
              else
                (case validate_transition gid (g_status goal) GPending of
                   Inl e \<Rightarrow> (Inl e, d1)
                 | Inr _ \<Rightarrow>
                     (let guided = (if py_strip reason \<noteq> []
                                    then append_goal_guidance now (''Send-back: '' @ py_strip reason)
                                           ''report_commit_send_back'' ''goal'' goal
                                    else goal);
                          goal' = guided\<lparr>g_status := GPending, g_assigned_loop_id := None, g_updated_at := now\<rparr>
                      in (Inr goal', modify_goal gid (\<lambda>_. goal') d1)))))"

definition not_failed :: "ident \<Rightarrow> goal_node \<Rightarrow> exn" where
  "not_failed gid goal = ValueError (''Goal '' @ gid @ '' is '' @ status_str (g_status goal) @ '', not failed'')"

definition retry_failed_goal :: "time \<Rightarrow> ident \<Rightarrow> string \<Rightarrow> goal_node goal_op" where
  "retry_failed_goal now gid reason d =
     (case get_goal d gid of
        None \<Rightarrow> (Inl (KeyError (goal_missing gid)), d)
      | Some goal \<Rightarrow>
          if g_status goal \<noteq> GFailed then (Inl (not_failed gid goal), d)
          else if g_retry_count goal \<ge> g_max_retries goal then
            (Inl (ValueError (''Goal '' @ gid @ '' retry budget exhausted ('' @ show_int (g_retry_count goal) @
               ''/'' @ show_int (g_max_retries goal) @ '')'')), d)
          else
            (case validate_transition gid (g_status goal) GPending of
               Inl e \<Rightarrow> (Inl e, d)
             | Inr _ \<Rightarrow>
                 (let guided = append_failure_guidance now reason goal;
                      goal' = guided\<lparr>g_retry_count := g_retry_count guided + 1, g_status := GPending,
                                g_assigned_loop_id := None, g_error := None, g_updated_at := now\<rparr>
                  in (Inr goal', modify_goal gid (\<lambda>_. goal') d))))"

definition recover_failed_goal :: "time \<Rightarrow> int \<Rightarrow> ident \<Rightarrow> string \<Rightarrow> goal_node goal_op" where
  "recover_failed_goal now max_engine_recoveries gid reason d =
     (case get_goal d gid of
        None \<Rightarrow> (Inl (KeyError (goal_missing gid)), d)
      | Some goal \<Rightarrow>
          if g_status goal \<noteq> GFailed then (Inl (not_failed gid goal), d)
          else if g_parent_id goal = None \<and> truthy (g_rail_id goal) then
            (Inl (ValueError (''Goal '' @ gid @ '' is a rail job root; refuse engine recovery'')), d)
          else if g_engine_recovery_count goal \<ge> max_engine_recoveries then
            (Inl (ValueError (''Goal '' @ gid @ '' engine recovery budget exhausted ('' @
               show_int (g_engine_recovery_count goal) @ ''/'' @ show_int max_engine_recoveries @ '')'')), d)
          else
            (case validate_transition gid (g_status goal) GPending of
               Inl e \<Rightarrow> (Inl e, d)
             | Inr _ \<Rightarrow>
                 (let guided = append_failure_guidance now reason goal;
                      goal' = guided\<lparr>g_engine_recovery_count := g_engine_recovery_count guided + 1,
                                g_send_back_count := 0, g_status := GPending, g_assigned_loop_id := None,
                                g_error := None, g_updated_at := now\<rparr>
                  in (Inr goal', modify_goal gid (\<lambda>_. goal') d))))"

definition reactivate_goal :: "time \<Rightarrow> ident \<Rightarrow> goal_node goal_op" where
  "reactivate_goal now gid d =
     (case get_goal d gid of
        None \<Rightarrow> (Inl (KeyError (goal_missing gid)), d)
      | Some goal \<Rightarrow>
          if g_status goal \<notin> {GSuspended, GBlocked, GCancelled} then
            (Inl (ValueError (''Goal '' @ gid @ '' is '' @ status_str (g_status goal) @
               '', not suspended/blocked/cancelled'')), d)
          else
            (case validate_transition gid (g_status goal) GPending of
               Inl e \<Rightarrow> (Inl e, d)
             | Inr _ \<Rightarrow>
                 (let goal' = goal\<lparr>g_status := GPending, g_send_back_count := 0,
                                g_error := (if g_status goal = GCancelled then None else g_error goal),
                                g_suspended_at := None, g_updated_at := now\<rparr>
                  in (Inr goal', modify_goal gid (\<lambda>_. goal') d))))"

definition resume_interrupted_goal :: "time \<Rightarrow> ident \<Rightarrow> string option \<Rightarrow> goal_node goal_op" where
  "resume_interrupted_goal now gid loop_id d =
     (case get_goal d gid of
        None \<Rightarrow> (Inl (KeyError (goal_missing gid)), d)
      | Some goal \<Rightarrow>
          if g_status goal = GActive then
            (let goal' = (if loop_id \<noteq> None then goal\<lparr>g_assigned_loop_id := loop_id\<rparr> else goal)
             in (Inr goal', modify_goal gid (\<lambda>_. goal') d))
          else if g_status goal = GCompleted then
            (Inl (ValueError (''Goal '' @ gid @ '' is completed; cannot resume'')), d)
          else
            (case (if g_status goal \<in> {GSuspended, GBlocked, GCancelled}
                   then (case reactivate_goal now gid d of (Inl e, d1) \<Rightarrow> (Inl e, d1) | (Inr _, d1) \<Rightarrow> (Inr (), d1))
                   else if g_status goal \<noteq> GPending then
                     (Inl (ValueError (''Goal '' @ gid @ '' is '' @ status_str (g_status goal) @ ''; cannot resume'')), d)
                   else (Inr (), d)) of
               (Inl e, d1) \<Rightarrow> (Inl e, d1)
             | (Inr _, d1) \<Rightarrow>
                 (case activate_goal now gid loop_id d1 of
                    (Inl e, d2) \<Rightarrow> (Inl e, d2)
                  | (Inr _, d2) \<Rightarrow>
                      (case get_goal d2 gid of
                         None \<Rightarrow> (Inl (KeyError (''Goal '' @ gid @ '' missing after resume'')), d2)
                       | Some resumed \<Rightarrow> (Inr resumed, d2)))))"

section \<open>Clarification\<close>

definition mark_awaiting_clarification :: "time \<Rightarrow> ident \<Rightarrow> obj \<Rightarrow> goal_node goal_op" where
  "mark_awaiting_clarification now gid pending d =
     (case get_goal d gid of
        None \<Rightarrow> (Inl (KeyError (goal_missing gid)), d)
      | Some goal \<Rightarrow>
          if g_status goal = GAwaitingClarification then
            (let goal' = goal\<lparr>g_pending_clarification := Some pending, g_updated_at := now\<rparr>
             in (Inr goal', modify_goal gid (\<lambda>_. goal') d))
          else
            (case validate_transition gid (g_status goal) GAwaitingClarification of
               Inl e \<Rightarrow> (Inl e, d)
             | Inr _ \<Rightarrow>
                 (let goal' = goal\<lparr>g_status := GAwaitingClarification, g_pending_clarification := Some pending,
                                g_assigned_loop_id := None, g_updated_at := now\<rparr>
                  in (Inr goal', modify_goal gid (\<lambda>_. goal') d))))"

definition answer_clarification :: "time \<Rightarrow> ident \<Rightarrow> string list \<Rightarrow> goal_node goal_op" where
  "answer_clarification now gid answers d =
     (case get_goal d gid of
        None \<Rightarrow> (Inl (KeyError (goal_missing gid)), d)
      | Some goal \<Rightarrow>
          if g_status goal \<noteq> GAwaitingClarification then
            (Inl (ValueError (''Goal '' @ gid @ '' is not awaiting clarification (status='' @
               quoted (status_str (g_status goal)) @ '')'')), d)
          else
            (let pending = (case g_pending_clarification goal of None \<Rightarrow> [] | Some p \<Rightarrow> p);
                 goal1 = goal\<lparr>g_pending_clarification := Some (dict_set ''answers'' (JList (map JStr answers)) pending)\<rparr>
             in case validate_transition gid (g_status goal1) GPending of
                  Inl e \<Rightarrow> (Inl e, modify_goal gid (\<lambda>_. goal1) d)
                | Inr _ \<Rightarrow>
                    (let goal' = goal1\<lparr>g_status := GPending, g_updated_at := now\<rparr>
                     in (Inr goal', modify_goal gid (\<lambda>_. goal') d))))"

section \<open>Directives\<close>

datatype directive_action = DirCreate | DirDecompose | DirAdjustPriority | DirAddDependency | DirFail | DirComplete

record goal_directive =
  dv_action :: directive_action
  dv_goal_id :: string
  dv_description :: string
  dv_priority :: "int option"
  dv_parent_id :: "string option"
  dv_depends_on :: "ident list"
  dv_rationale :: string

text \<open>\<open>priority or default\<close>: an absent priority and the priority 0 both give the default.\<close>

definition priority_or :: "int option \<Rightarrow> int \<Rightarrow> int" where
  "priority_or p fallback = (case p of None \<Rightarrow> fallback | Some v \<Rightarrow> if v = 0 then fallback else v)"

fun add_missing :: "ident list \<Rightarrow> ident list \<Rightarrow> ident list" where
  "add_missing deps [] = deps"
| "add_missing deps (dep_id # rest) =
     (if dep_id \<notin> set deps then add_missing (deps @ [dep_id]) rest else add_missing deps rest)"

definition directive_create ::
  "time \<Rightarrow> ident \<Rightarrow> ident \<Rightarrow> goal_directive \<Rightarrow> goal_dag \<Rightarrow> ident option \<times> goal_dag" where
  "directive_create now fresh source dv d =
     (let parent = (if truthy (dv_parent_id dv) then opt_str (dv_parent_id dv) else source);
          priority = clamp 0 100 (priority_or (dv_priority dv) 50);
          inherit_ws = (case (if parent \<noteq> [] then get_goal d parent else None) of
                          None \<Rightarrow> None | Some p \<Rightarrow> g_workspace p)
      in case create_goal fresh now (dv_description dv) priority (Some parent) (Some (dv_depends_on dv)) None
                SrcUser 0 (\<lambda>g. if inherit_ws = None then g else g\<lparr>g_workspace := inherit_ws\<rparr>) d of
           (Inl e, d') \<Rightarrow> (None, d')
         | (Inr goal, d') \<Rightarrow> (Some (g_id goal), d'))"

text \<open>One directive. An exception is logged and dropped; what was mutated before it stays.\<close>

definition apply_directive ::
  "time \<Rightarrow> ident \<Rightarrow> ident \<Rightarrow> goal_directive \<Rightarrow> goal_dag \<Rightarrow> ident option \<times> goal_dag" where
  "apply_directive now fresh source dv d =
     (let gid = dv_goal_id dv in
      case dv_action dv of
        DirCreate \<Rightarrow> directive_create now fresh source dv d
      | DirAdjustPriority \<Rightarrow>
          if gid = [] then (None, d)
          else (None, modify_goal gid (\<lambda>g. g\<lparr>g_priority := clamp 0 100 (priority_or (dv_priority dv) (g_priority g)),
                                        g_updated_at := now\<rparr>) d)
      | DirAddDependency \<Rightarrow>
          if gid = [] then (None, d)
          else (None, modify_goal gid (\<lambda>g. g\<lparr>g_depends_on := add_missing (g_depends_on g) (dv_depends_on dv),
                                        g_updated_at := now\<rparr>) d)
      | DirFail \<Rightarrow>
          if gid = [] then (None, d)
          else (None, snd (fail_goal now gid (Some (str_or (dv_rationale dv) ''Directive-fail'')) None d))
      | DirComplete \<Rightarrow> if gid = [] then (None, d) else (None, snd (complete_goal now gid d))
      | DirDecompose \<Rightarrow> (None, d))"

text \<open>Each directive comes with the id that a goal it creates would draw.\<close>

fun apply_directives ::
  "time \<Rightarrow> ident \<Rightarrow> (goal_directive \<times> ident) list \<Rightarrow> goal_dag \<Rightarrow> ident list \<times> goal_dag" where
  "apply_directives now source [] d = ([], d)"
| "apply_directives now source ((dv, fresh) # rest) d =
     (let (created, d') = apply_directive now fresh source dv d;
          (ids, d'') = apply_directives now source rest d'
      in ((case created of None \<Rightarrow> ids | Some i \<Rightarrow> i # ids), d''))"

section \<open>Steps\<close>

definition modify_steps :: "ident \<Rightarrow> (step_dag \<Rightarrow> step_dag) \<Rightarrow> goal_dag \<Rightarrow> goal_dag" where
  "modify_steps gid f d = modify_goal gid (\<lambda>g. g\<lparr>g_steps := f (g_steps g)\<rparr>) d"

definition ce_add_step :: "ident \<Rightarrow> step_node \<Rightarrow> unit goal_op" where
  "ce_add_step gid step d =
     (case get_goal d gid of
        None \<Rightarrow> (Inl (KeyError (goal_missing gid)), d)
      | Some _ \<Rightarrow> (Inr (), modify_steps gid (add_step step) d))"

definition add_steps_to :: "int \<Rightarrow> step_node list \<Rightarrow> step_dag \<Rightarrow> step_dag" where
  "add_steps_to plan_iteration steps sd =
     foldl (\<lambda>sd step. add_step (step\<lparr>sn_plan_iteration := plan_iteration\<rparr>) sd) sd steps"

definition ce_add_steps :: "ident \<Rightarrow> step_node list \<Rightarrow> int \<Rightarrow> unit goal_op" where
  "ce_add_steps gid steps plan_iteration d =
     (case get_goal d gid of
        None \<Rightarrow> (Inl (KeyError (goal_missing gid)), d)
      | Some _ \<Rightarrow> (Inr (), modify_steps gid (add_steps_to plan_iteration steps) d))"

definition activate_step :: "time \<Rightarrow> ident \<Rightarrow> ident \<Rightarrow> unit goal_op" where
  "activate_step now gid step_id d =
     (case get_goal d gid of
        None \<Rightarrow> (Inr (), d)
      | Some goal \<Rightarrow>
          if step_id \<notin> set (dict_keys (nodes (g_steps goal))) then (Inr (), d)
          else (Inr (), modify_goal gid (\<lambda>g. g\<lparr>g_steps := mark_active step_id (g_steps g), g_updated_at := now\<rparr>) d))"

definition account :: "step_execution \<Rightarrow> goal_node \<Rightarrow> goal_node" where
  "account ex g = g\<lparr>g_total_duration_ms := g_total_duration_ms g + se_duration_ms ex,
                    g_total_tokens_used := g_total_tokens_used g + se_tokens_used ex\<rparr>"

definition complete_step :: "time \<Rightarrow> ident \<Rightarrow> ident \<Rightarrow> step_execution \<Rightarrow> unit goal_op" where
  "complete_step now gid step_id ex d =
     (Inr (), modify_goal gid (\<lambda>g. touch now (account ex (g\<lparr>g_steps := mark_completed step_id ex (g_steps g)\<rparr>))) d)"

definition fail_step :: "time \<Rightarrow> ident \<Rightarrow> ident \<Rightarrow> step_execution \<Rightarrow> unit goal_op" where
  "fail_step now gid step_id ex d =
     (Inr (), modify_goal gid (\<lambda>g. touch now (account ex (g\<lparr>g_steps := mark_failed step_id ex (g_steps g)\<rparr>))) d)"

definition skip_step :: "time \<Rightarrow> ident \<Rightarrow> ident \<Rightarrow> unit goal_op" where
  "skip_step now gid step_id d =
     (Inr (), modify_goal gid (\<lambda>g. touch now (g\<lparr>g_steps := mark_skipped step_id (g_steps g)\<rparr>)) d)"

section \<open>Crash recovery\<close>

text \<open>The loop over the recovered ids, failing those over budget; an exception would end it.\<close>

fun fail_exhausted :: "time \<Rightarrow> ident list \<Rightarrow> ident list \<Rightarrow> goal_dag \<Rightarrow> ident list outcome \<times> goal_dag" where
  "fail_exhausted now [] failed d = (Inr failed, d)"
| "fail_exhausted now (gid # rest) failed d =
     (case get_goal d gid of
        None \<Rightarrow> fail_exhausted now rest failed d
      | Some goal \<Rightarrow>
          if g_attempts_after_crash goal > g_max_retries goal then
            (case fail_goal now gid (Some (''crash recovery budget exhausted ('' @
                     show_int (g_attempts_after_crash goal) @ ''/'' @ show_int (g_max_retries goal) @ '')'')) None d of
               (Inl e, d') \<Rightarrow> (Inl e, d')
             | (Inr _, d') \<Rightarrow> fail_exhausted now rest (failed @ [gid]) d')
          else fail_exhausted now rest failed d)"

definition recover :: "time \<Rightarrow> ident list goal_op" where
  "recover now d =
     (let (recovered, d1) = recover_active_goals now d in
      case fail_exhausted now recovered [] d1 of
        (Inl e, d2) \<Rightarrow> (Inl e, d2)
      | (Inr failed, d2) \<Rightarrow> (Inr (filter (\<lambda>gid. gid \<notin> set failed) recovered), d2))"

end
