(* ===== verification/Reconcile_Commit.thy ===== *)
theory Reconcile_Commit
  imports Reconcile_Properties Context_Engine
begin

text \<open>
  \<open>reconcile_proposals_deterministic\<close> (\<open>sloop/decompose/reconcile.py\<close>): planning a batch on the
  goal's step DAG, adding it through the engine and marking the parents as decomposed.
\<close>

section \<open>The commit\<close>

record reconcile_result =
  rr_committed_step_ids :: "ident list"
  rr_decomposed_parent_ids :: "ident list"
  rr_rejected :: "reconcile_rejection list"
  rr_plan_id :: "string option"

definition plan_iteration_of :: "step_dag \<Rightarrow> ident list \<Rightarrow> int" where
  "plan_iteration_of sd parents =
     foldl (\<lambda>it pid. case dict_get (nodes sd) pid of None \<Rightarrow> it | Some p \<Rightarrow> max it (sn_plan_iteration p)) 0 parents"

definition mark_parents :: "ident list \<Rightarrow> step_dag \<Rightarrow> step_dag" where
  "mark_parents parents sd =
     foldl (\<lambda>sd pid. if pid \<in> set (dict_keys (nodes sd)) then mark_decomposed pid sd else sd) sd parents"

definition commit_batch :: "commit_plan \<Rightarrow> step_dag \<Rightarrow> step_dag" where
  "commit_batch cp sd =
     mark_parents (cp_parents cp) (add_steps_to (plan_iteration_of sd (cp_parents cp)) (cp_new_nodes cp) sd)"

text \<open>\<open>None\<close> would mean that the cycle search does not return.\<close>

definition reconcile_proposals ::
  "(ident list \<Rightarrow> ident list) \<Rightarrow> string \<Rightarrow> time \<Rightarrow> ident \<Rightarrow> decomposition_proposal list \<Rightarrow>
   decompose_loop_config \<Rightarrow> string option \<Rightarrow> goal_dag \<Rightarrow> (reconcile_result \<times> goal_dag) option" where
  "reconcile_proposals set_order fresh now gid proposals cfg plan_id d =
     (case get_goal d gid of
        None \<Rightarrow>
          Some (\<lparr>rr_committed_step_ids = [], rr_decomposed_parent_ids = [],
                 rr_rejected = [\<lparr>rj_parent_step_id = ''*'', rj_reason = ''goal_not_found:'' @ gid\<rparr>],
                 rr_plan_id = None\<rparr>, d)
      | Some goal \<Rightarrow>
          (case plan_commit_from_proposals set_order fresh (g_steps goal) proposals cfg plan_id of
             None \<Rightarrow> None
           | Some cp \<Rightarrow>
               if cp_new_nodes cp = [] then
                 Some (\<lparr>rr_committed_step_ids = [], rr_decomposed_parent_ids = [],
                        rr_rejected = cp_rejections cp, rr_plan_id = Some (cp_plan_id cp)\<rparr>, d)
               else
                 (let d1 = snd (ce_add_steps gid (cp_new_nodes cp) (plan_iteration_of (g_steps goal) (cp_parents cp)) d);
                      d2 = modify_goal gid (\<lambda>g. g\<lparr>g_steps := mark_parents (cp_parents cp) (g_steps g), g_updated_at := now\<rparr>) d1
                  in Some (\<lparr>rr_committed_step_ids = map sn_id (cp_new_nodes cp),
                            rr_decomposed_parent_ids = cp_parents cp, rr_rejected = cp_rejections cp,
                            rr_plan_id = Some (cp_plan_id cp)\<rparr>, d2))))"

section \<open>What the commit does to the step DAG\<close>

lemma find_no_node: "k \<notin> set (map sn_id ns) \<Longrightarrow> find (\<lambda>m. sn_id m = k) ns = None"
  by (auto simp: find_None_iff)

lemma add_steps_get:
  "distinct (map sn_id ns) \<Longrightarrow>
   dict_get (nodes (add_steps_to it ns sd)) k =
     (case find (\<lambda>n. sn_id n = k) ns of
        Some n \<Rightarrow> Some (n\<lparr>sn_plan_iteration := it\<rparr>) | None \<Rightarrow> dict_get (nodes sd) k)"
  unfolding add_steps_to_def
proof (induction ns arbitrary: sd)
  case (Cons n ns)
  have new: "find (\<lambda>m. sn_id m = sn_id n) ns = None" by (rule find_no_node) (use Cons.prems in simp)
  have IH: "dict_get (nodes (foldl (\<lambda>sd step. add_step (step\<lparr>sn_plan_iteration := it\<rparr>) sd)
        (add_step (n\<lparr>sn_plan_iteration := it\<rparr>) sd) ns)) k =
      (case find (\<lambda>n. sn_id n = k) ns of
         Some n \<Rightarrow> Some (n\<lparr>sn_plan_iteration := it\<rparr>)
       | None \<Rightarrow> dict_get (nodes (add_step (n\<lparr>sn_plan_iteration := it\<rparr>) sd)) k)"
    by (rule Cons.IH) (use Cons.prems in simp)
  show ?case
  proof (cases "sn_id n = k")
    case True
    with new have "find (\<lambda>m. sn_id m = k) ns = None" by simp
    with IH True show ?thesis by (simp add: add_step_def)
  next
    case False
    with IH show ?thesis by (cases "find (\<lambda>m. sn_id m = k) ns") (simp_all add: add_step_def)
  qed
qed simp

lemma mark_parents_get:
  "dict_get (nodes (mark_parents ps sd)) k =
     (if k \<in> set ps then map_option (\<lambda>n. n\<lparr>sn_status := SDecomposed\<rparr>) (dict_get (nodes sd) k)
      else dict_get (nodes sd) k)"
  unfolding mark_parents_def
proof (induction ps arbitrary: sd)
  case (Cons p ps)
  have none: "p \<notin> set (dict_keys (nodes sd)) \<Longrightarrow> dict_get (nodes sd) p = None"
    unfolding dict_get_None .
  show ?case
  proof (cases "p \<in> set (dict_keys (nodes sd))")
    case True
    then show ?thesis
      using Cons.IH [of "mark_decomposed p sd"]
      by (simp add: mark_decomposed_def option.map_comp comp_def del: set_map)
  next
    case False
    then show ?thesis using Cons.IH [of sd] none by (simp del: set_map)
  qed
qed simp

lemma commit_batch_get:
  assumes "distinct (map sn_id (cp_new_nodes cp))"
  shows "dict_get (nodes (commit_batch cp sd)) k =
     map_option (\<lambda>n. if k \<in> set (cp_parents cp) then n\<lparr>sn_status := SDecomposed\<rparr> else n)
       (case find (\<lambda>n. sn_id n = k) (cp_new_nodes cp) of
          Some n \<Rightarrow> Some (n\<lparr>sn_plan_iteration := plan_iteration_of sd (cp_parents cp)\<rparr>)
        | None \<Rightarrow> dict_get (nodes sd) k)"
  unfolding commit_batch_def mark_parents_get add_steps_get [OF assms]
  by (simp add: option.map_ident)

section \<open>Depth and frame of the commit\<close>

definition closed_parents :: "step_dag \<Rightarrow> bool" where
  "closed_parents sd \<longleftrightarrow>
     (\<forall>k n q. dict_get (nodes sd) k = Some n \<longrightarrow> sn_parent_step_id n = Some q \<longrightarrow> q \<in> set (dict_keys (nodes sd)))"

lemma commit_distinct_ids:
  assumes "\<forall>xs. set (set_order xs) = set xs"
    and "plan_commit_from_proposals set_order fresh sd proposals cfg plan_id = Some cp"
  shows "distinct (map sn_id (cp_new_nodes cp))"
proof -
  from commit_cases [OF assms(2)] consider "cp_new_nodes cp = []"
    | acc merged lk where "commit_source set_order sd proposals cfg acc merged lk cp" by blast
  then show ?thesis
  proof cases
    case (2 acc merged lk)
    show ?thesis unfolding commit_new_ids(1) [OF assms(1) 2]
      by (simp add: distinct_map distinct_next_local_ids inj_on_def)
  qed simp
qed

lemma find_node:
  assumes "distinct (map sn_id ns)" "n \<in> set ns"
  shows "find (\<lambda>m. sn_id m = sn_id n) ns = Some n"
  using assms by (induction ns) auto

lemma commit_batch_node:
  assumes "distinct (map sn_id (cp_new_nodes cp))" "n \<in> set (cp_new_nodes cp)"
  shows "\<exists>n'. dict_get (nodes (commit_batch cp sd)) (sn_id n) = Some n' \<and> sn_parent_step_id n' = sn_parent_step_id n"
  unfolding commit_batch_get [OF assms(1)] find_node [OF assms] by simp

lemma commit_batch_parent:
  assumes "distinct (map sn_id (cp_new_nodes cp))" "k \<notin> set (map sn_id (cp_new_nodes cp))"
  shows "map_option sn_parent_step_id (dict_get (nodes (commit_batch cp sd)) k) =
     map_option sn_parent_step_id (dict_get (nodes sd) k)"
  unfolding commit_batch_get [OF assms(1)] find_no_node [OF assms(2)] option.case
  by (simp add: option.map_comp comp_def if_distrib [of sn_parent_step_id] cong: if_cong)

lemma commit_batch_depth:
  assumes ord: "\<forall>xs. set (set_order xs) = set xs"
    and cp: "plan_commit_from_proposals set_order fresh sd proposals cfg plan_id = Some cp"
    and closed: "closed_parents sd"
    and new: "set (map sn_id (cp_new_nodes cp)) \<inter> set (dict_keys (nodes sd)) = {}"
    and n: "n \<in> set (cp_new_nodes cp)"
  shows "lineage_depth (commit_batch cp sd) (sn_id n) \<le> dc_max_depth cfg"
proof -
  note dist = commit_distinct_ids [OF ord cp]
  obtain p where p: "p \<in> set (cp_parents cp)" "sn_parent_step_id n = Some p"
    using commit_parents_lemma [OF ord cp] n by blast
  then obtain parent where "dict_get (nodes sd) p = Some parent" "lineage_depth sd p < dc_max_depth cfg"
    using commit_parents_lemma [OF ord cp] by blast
  then have pk: "p \<in> set (dict_keys (nodes sd))" by (blast intro: dict_get_key)
  obtain n' where n': "dict_get (nodes (commit_batch cp sd)) (sn_id n) = Some n'"
    "sn_parent_step_id n' = sn_parent_step_id n" using commit_batch_node [OF dist n] by blast
  have old_parents: "q \<notin> set (map sn_id (cp_new_nodes cp))"
    if "dict_get (nodes sd) k = Some m" "sn_parent_step_id m = Some q" for k m q
  proof -
    from closed that have "q \<in> set (dict_keys (nodes sd))" unfolding closed_parents_def by blast
    with new show ?thesis by blast
  qed
  have "lineage_depth (commit_batch cp sd) (sn_id n) = Suc (lineage_depth sd p)"
  proof (rule lineage_depth_child [where fresh = "set (map sn_id (cp_new_nodes cp))"])
    show "set (dict_keys (nodes sd)) \<inter> set (map sn_id (cp_new_nodes cp)) = {}" using new by blast
    show "sn_id n \<in> set (map sn_id (cp_new_nodes cp))" using n by simp
  qed (use commit_batch_parent [OF dist] old_parents n' p(2) pk in \<open>simp_all del: set_map\<close>)
  with \<open>lineage_depth sd p < dc_max_depth cfg\<close> show ?thesis by simp
qed

lemma reconcile_commits:
  assumes "get_goal d gid = Some goal"
    and "plan_commit_from_proposals set_order fresh (g_steps goal) proposals cfg plan_id = Some cp"
    and "cp_new_nodes cp \<noteq> []"
    and "reconcile_proposals set_order fresh now gid proposals cfg plan_id d = Some (r, d')"
  shows "rr_committed_step_ids r = map sn_id (cp_new_nodes cp)" "rr_decomposed_parent_ids r = cp_parents cp"
    "get_goal d' gid = Some (goal\<lparr>g_steps := commit_batch cp (g_steps goal), g_updated_at := now\<rparr>)"
  using assms by (auto simp: reconcile_proposals_def Let_def ce_add_steps_def modify_steps_def commit_batch_def)

text \<open>Claim C24. A committed batch respects the depth limit and touches nothing else: when its ids are
  new, every committed step ends up at depth at most \<open>max_depth\<close> below its root, every decomposed
  parent carries that status, and every other step of the goal is exactly what it was.\<close>

theorem commit_respects_depth:
  assumes ord: "\<forall>xs. set (set_order xs) = set xs"
    and goal: "get_goal d gid = Some goal" and closed: "closed_parents (g_steps goal)"
    and run: "reconcile_proposals set_order fresh now gid proposals cfg plan_id d = Some (r, d')"
    and new: "set (rr_committed_step_ids r) \<inter> set (dict_keys (nodes (g_steps goal))) = {}"
  shows "\<exists>goal'. get_goal d' gid = Some goal' \<and>
     (\<forall>c \<in> set (rr_committed_step_ids r). lineage_depth (g_steps goal') c \<le> dc_max_depth cfg) \<and>
     (\<forall>p \<in> set (rr_decomposed_parent_ids r).
        map_option sn_status (dict_get (nodes (g_steps goal')) p) = Some SDecomposed) \<and>
     (\<forall>k. k \<notin> set (rr_committed_step_ids r) \<longrightarrow> k \<notin> set (rr_decomposed_parent_ids r) \<longrightarrow>
        dict_get (nodes (g_steps goal')) k = dict_get (nodes (g_steps goal)) k)"
proof -
  from run goal obtain cp where
    cp: "plan_commit_from_proposals set_order fresh (g_steps goal) proposals cfg plan_id = Some cp"
    by (auto simp: reconcile_proposals_def split: option.splits)
  show ?thesis
  proof (cases "cp_new_nodes cp = []")
    case True
    then have "rr_committed_step_ids r = []" "rr_decomposed_parent_ids r = []" "d' = d"
      using run by (auto simp: reconcile_proposals_def goal cp)
    then show ?thesis by (simp add: goal)
  next
    case False
    note res = reconcile_commits [OF goal cp False run]
    note dist = commit_distinct_ids [OF ord cp]
    note new' = new [unfolded res(1)]
    show ?thesis
    proof (rule exI, rule conjI [OF res(3)], intro conjI)
      show "\<forall>c \<in> set (rr_committed_step_ids r). lineage_depth (g_steps (goal\<lparr>g_steps := commit_batch cp (g_steps goal), g_updated_at := now\<rparr>)) c \<le> dc_max_depth cfg"
        unfolding res(1) using commit_batch_depth [OF ord cp closed new'] by auto
      show "\<forall>p \<in> set (rr_decomposed_parent_ids r).
          map_option sn_status (dict_get (nodes (g_steps (goal\<lparr>g_steps := commit_batch cp (g_steps goal), g_updated_at := now\<rparr>))) p) = Some SDecomposed"
      proof
        fix p assume p: "p \<in> set (rr_decomposed_parent_ids r)"
        then have p: "p \<in> set (cp_parents cp)" using res(2) by simp
        then obtain parent where parent: "dict_get (nodes (g_steps goal)) p = Some parent"
          using commit_parents_lemma [OF ord cp] by blast
        then have "p \<notin> set (map sn_id (cp_new_nodes cp))" using new' by (blast dest: dict_get_key)
        then show "map_option sn_status (dict_get (nodes (g_steps (goal\<lparr>g_steps := commit_batch cp (g_steps goal), g_updated_at := now\<rparr>))) p) = Some SDecomposed"
          by (simp add: commit_batch_get [OF dist] find_no_node parent p del: set_map)
      qed
      show "\<forall>k. k \<notin> set (rr_committed_step_ids r) \<longrightarrow> k \<notin> set (rr_decomposed_parent_ids r) \<longrightarrow>
          dict_get (nodes (g_steps (goal\<lparr>g_steps := commit_batch cp (g_steps goal), g_updated_at := now\<rparr>))) k = dict_get (nodes (g_steps goal)) k"
        unfolding res(1,2) by (simp add: commit_batch_get [OF dist] find_no_node option.map_ident del: set_map)
    qed
  qed
qed

section \<open>Samples\<close>

definition goal_with_steps :: "step_dag \<Rightarrow> goal_dag" where
  "goal_with_steps sd = \<lparr>goals = [(''g1'', (new_goal ''g1'' ''goal'' 0)\<lparr>g_steps := sd\<rparr>)]\<rparr>"

definition statuses_after :: "(reconcile_result \<times> goal_dag) option \<Rightarrow> (ident \<times> string \<times> step_status) list" where
  "statuses_after res =
     (case res of None \<Rightarrow> []
      | Some (_, d) \<Rightarrow> concat (map (\<lambda>g. map (\<lambda>n. (sn_id n, sn_description n, sn_status n)) (step_nodes (g_steps g))) (goal_nodes d)))"

definition sample_commit :: "(reconcile_result \<times> goal_dag) option" where
  "sample_commit = reconcile_proposals id ''ABC'' 1 ''g1'' sample_proposals default_decompose_config None
     (goal_with_steps (one_step KAction))"

lemma sample_commit_ids: "map_option (\<lambda>(r, _). rr_committed_step_ids r) sample_commit = Some [''ABC-01'', ''ABC-02'']"
  unfolding sample_commit_def by code_simp

lemma commit_respects_depth_witness:
  "\<exists>r d' g. sample_commit = Some (r, d') \<and> get_goal d' ''g1'' = Some g \<and> lineage_depth (g_steps g) ''ABC-01'' \<le> 3"
proof -
  from sample_commit_ids obtain r d' where run: "sample_commit = Some (r, d')"
    and ids: "rr_committed_step_ids r = [''ABC-01'', ''ABC-02'']" by auto
  have goal: "get_goal (goal_with_steps (one_step KAction)) ''g1'' =
      Some ((new_goal ''g1'' ''goal'' 0)\<lparr>g_steps := one_step KAction\<rparr>)"
    by (simp add: goal_with_steps_def get_goal_def)
  have closed: "closed_parents (g_steps ((new_goal ''g1'' ''goal'' 0)\<lparr>g_steps := one_step KAction\<rparr>))"
    by (auto simp: closed_parents_def one_step_def new_step_def split: if_splits)
  have new: "set (rr_committed_step_ids r) \<inter>
      set (dict_keys (nodes (g_steps ((new_goal ''g1'' ''goal'' 0)\<lparr>g_steps := one_step KAction\<rparr>)))) = {}"
    by (simp add: ids one_step_def)
  from commit_respects_depth [OF id_order goal closed run [unfolded sample_commit_def] new]
  obtain g where "get_goal d' ''g1'' = Some g"
    "lineage_depth (g_steps g) ''ABC-01'' \<le> dc_max_depth default_decompose_config"
    unfolding ids by auto
  with run show ?thesis by (intro exI [of _ r] exI [of _ d'] exI [of _ g]) (simp add: default_decompose_config_def)
qed

section \<open>A plan id that was used before\<close>

text \<open>Nothing compares the new ids with the steps the goal already has: when the plan id (three
  random letters in the code) was used before, the commit overwrites the steps of the earlier
  batch, and a completed step becomes a pending one with another description.\<close>

theorem plan_id_collision_overwrites:
  "statuses_after (reconcile_proposals id ''ABC'' 1 ''g1''
      [\<lparr>dp_parent_step_id = ''R-01'', dp_subtasks = [subtask ''deploy'' None], dp_wave_seq = 1\<rparr>]
      default_decompose_config None
      (goal_with_steps (add_step ((new_step ''ABC-01'' ''write code'')\<lparr>sn_status := SCompleted\<rparr>) (one_step KAction))))
   = [(''R-01'', ''task'', SDecomposed), (''ABC-01'', ''deploy'', SPending)]"
  by code_simp

end
