(* ===== verification/Loop_Stations.thy ===== *)
theory Loop_Stations
  imports Reconcile_Commit
begin

text \<open>
  The work-queue stations of the loop graph: DISPATCH (\<open>sloop/stations/decompose/dispatch.py\<close>) with
  its budget gate (\<open>stations/execute/loop_budget.py\<close>) and the grounding of an approved plan
  (\<open>sloop/plans/grounding.py\<close>), RECONCILE (\<open>reconcile_node.py\<close>) and ROOT_EVAL
  (\<open>root_eval.py\<close>). A station is a function of the loop context; plan ids that would be drawn are
  arguments \<open>fresh\<close>. The text of the Eval prompt and the model's verdict on a simple task are
  arguments; logging, events and the deferred save are left out.
\<close>

section \<open>The loop context\<close>

datatype intake_label = LblChitchat | LblMinimal | LblSimple | LblComplex

record step_action =
  sa_id :: ident
  sa_description :: string
  sa_full_description :: "string option"
  sa_expected_output :: string
  sa_dependencies :: "ident list option"
  sa_execution_hint :: execution_hint
  sa_kind :: step_kind
  sa_is_dag_root :: bool
  sa_task_complexity :: "string option"

record dispatch_plan =
  dpl_plan_action :: string
  dpl_terminal_after_execute :: bool
  dpl_decision :: "step_action list"
  dpl_next_action :: string

record loop_config =
  lc_decompose :: "decompose_loop_config option"
  lc_max_eval_rounds :: int
  lc_max_step_retries :: int
  lc_rate_limit_threshold :: int

text \<open>\<open>lx_proposal_sinks\<close> are the queues that RECONCILE drains, in the order in which it does.
  \<open>lx_auto_fallback\<close> is \<open>None\<close> unless an automatic clarification policy with an interactive
  fallback is set, and then tells whether the switch to the manual mode succeeds.\<close>

record loop_ctx =
  lx_ce :: "goal_dag option"
  lx_ce_goal_id :: ident
  lx_iteration :: int
  lx_max_iterations :: int
  lx_resumed :: bool
  lx_rate_limit_errors :: int
  lx_interaction_mode :: "string option"
  lx_intake_label :: "intake_label option"
  lx_user_submission :: "string option"
  lx_goal :: string
  lx_task_short_description :: "string option"
  lx_task_complexity :: "string option"
  lx_approved_plan :: "(string option \<times> string option)"
  lx_current_decision :: "step_action list option"
  lx_plan_id :: "string option"
  lx_plan_result :: "dispatch_plan option"
  lx_proposal_sinks :: "decomposition_proposal list list"
  lx_auto_fallback :: "bool option"
  lx_config :: loop_config

definition resolve_user_request :: "loop_ctx \<Rightarrow> string" where
  "resolve_user_request x =
     py_strip (if truthy (lx_user_submission x) then opt_str (lx_user_submission x) else lx_goal x)"

definition goal_text_of :: "loop_ctx \<Rightarrow> string" where
  "goal_text_of x = str_or (resolve_user_request x) (str_or (lx_goal x) ''Execute task'')"

definition positive_config_int :: "int \<Rightarrow> int \<Rightarrow> int \<Rightarrow> int" where
  "positive_config_int value fallback minimum = (if value \<ge> minimum then value else fallback)"

definition ce_goal :: "loop_ctx \<Rightarrow> goal_node option" where
  "ce_goal x =
     (case lx_ce x of None \<Rightarrow> None
      | Some d \<Rightarrow> if lx_ce_goal_id x = [] then None else get_goal d (lx_ce_goal_id x))"

definition has_ce :: "loop_ctx \<Rightarrow> bool" where
  "has_ce x \<longleftrightarrow> lx_ce x \<noteq> None \<and> lx_ce_goal_id x \<noteq> []"

text \<open>Changing the step DAG of the current goal.\<close>

definition on_steps :: "(step_dag \<Rightarrow> step_dag) \<Rightarrow> loop_ctx \<Rightarrow> loop_ctx" where
  "on_steps f x = x\<lparr>lx_ce := map_option (modify_steps (lx_ce_goal_id x) f) (lx_ce x)\<rparr>"

section \<open>Budget gate\<close>

definition enforce_loop_budget :: "loop_ctx \<Rightarrow> string option" where
  "enforce_loop_budget x =
     (if lx_max_iterations x > 0 \<and> \<not> lx_resumed x \<and> lx_iteration x \<ge> lx_max_iterations x
      then Some ''max_iterations''
      else if lx_rate_limit_errors x \<ge> lc_rate_limit_threshold (lx_config x) then Some ''rate_limited''
      else None)"

section \<open>Grounding an approved plan\<close>

definition approved_plan_marker :: string where
  "approved_plan_marker = ''<!-- soothe:approved-plan -->''"

definition newline :: string where
  "newline = [char_of (10 :: nat)]"

text \<open>\<open>hint\<close> is the prompt text \<open>APPROVED_PLAN_EXECUTE_HINT\<close>.\<close>

definition approved_plan_section_body :: "string \<Rightarrow> string \<Rightarrow> string option \<Rightarrow> string" where
  "approved_plan_section_body hint markdown path =
     (let body = py_strip markdown; p = py_strip (opt_str path) in
      if body = [] then []
      else py_join newline ((if p = [] then [] else [''path: '' @ p]) @ [hint, [], body]))"

definition compose_root_full_description :: "string \<Rightarrow> string \<Rightarrow> string \<Rightarrow> string option \<Rightarrow> string" where
  "compose_root_full_description hint goal_text markdown path =
     str_or (py_strip goal_text) ''Execute task'' @ newline @ newline @ approved_plan_marker @ newline @
     ''## APPROVED PLAN'' @ newline @ newline @ approved_plan_section_body hint markdown path"

definition root_already_grounded :: "string option \<Rightarrow> bool" where
  "root_already_grounded full \<longleftrightarrow> contains approved_plan_marker (opt_str full)"

text \<open>The plan fields of the loop state, after the attempt to reload the body from disk.\<close>

definition peek_approved_plan :: "loop_ctx \<Rightarrow> string option \<times> string option" where
  "peek_approved_plan x =
     (let (body, path) = lx_approved_plan x;
          b = py_strip (opt_str body); p = py_strip (opt_str path)
      in ((if b = [] then None else Some b), (if p = [] then None else Some p)))"

definition ground_root :: "string \<Rightarrow> ident \<Rightarrow> loop_ctx \<Rightarrow> loop_ctx" where
  "ground_root hint root_id x =
     (let (body, path) = peek_approved_plan x in
      case body of
        None \<Rightarrow> x
      | Some markdown \<Rightarrow>
          (case ce_goal x of
             None \<Rightarrow> x
           | Some goal \<Rightarrow>
               (case dict_get (nodes (g_steps goal)) root_id of
                  None \<Rightarrow> x
                | Some n \<Rightarrow>
                    if root_already_grounded (sn_full_description n) then x\<lparr>lx_approved_plan := (None, None)\<rparr>
                    else
                      (let goal_text = str_or (py_strip (sn_description n)) (goal_text_of x) in
                       (on_steps (modify_step root_id (\<lambda>n. n\<lparr>sn_full_description :=
                           Some (compose_root_full_description hint goal_text markdown path)\<rparr>)) x)
                         \<lparr>lx_approved_plan := (None, None)\<rparr>))))"

section \<open>DISPATCH\<close>

definition existing_root :: "step_dag \<Rightarrow> ident option" where
  "existing_root sd =
     (case find (\<lambda>n. sn_parent_step_id n = None \<and> sn_status n \<notin> {SSuperseded, SSkipped}) (step_nodes sd) of
        Some n \<Rightarrow> Some (sn_id n)
      | None \<Rightarrow> (case nodes sd of [] \<Rightarrow> None | (k, _) # _ \<Rightarrow> Some k))"

definition root_step :: "string \<Rightarrow> loop_ctx \<Rightarrow> step_node" where
  "root_step fresh x =
     (new_step (fresh @ ''-01'') (str_or (py_strip (opt_str (lx_task_short_description x))) (goal_text_of x)))
       \<lparr>sn_full_description := Some (goal_text_of x),
        sn_task_complexity := Some (case lx_task_complexity x of None \<Rightarrow> ''simple'' | Some c \<Rightarrow> c)\<rparr>"

definition ensure_root_step :: "string \<Rightarrow> string \<Rightarrow> loop_ctx \<Rightarrow> loop_ctx" where
  "ensure_root_step hint fresh x =
     (case ce_goal x of
        None \<Rightarrow> x
      | Some goal \<Rightarrow>
          (case existing_root (g_steps goal) of
             Some rid \<Rightarrow> ground_root hint rid x
           | None \<Rightarrow> ground_root hint (fresh @ ''-01'') (on_steps (add_step (root_step fresh x)) x)))"

text \<open>Building a \<open>StepAction\<close> runs its validator: an \<open>ask_user\<close> action must carry questions, and
  this function passes none.\<close>

definition step_action_from_node :: "step_node \<Rightarrow> step_action outcome" where
  "step_action_from_node n =
     (if sn_kind n = KAskUser then Inl (ValueError ''ask_user step requires non-empty questions'')
      else Inr
        \<lparr>sa_id = sn_id n,
         sa_description = str_or (py_strip (sn_description n)) (sn_id n),
         sa_full_description = Some (str_or (py_strip
             (if truthy (sn_full_description n) then opt_str (sn_full_description n) else sn_description n)) (sn_id n)),
         sa_expected_output = (if truthy (sn_expected_output n) then opt_str (sn_expected_output n)
                               else ''Step completed successfully''),
         sa_dependencies = (if sn_dependencies n = [] then None else Some (sn_dependencies n)),
         sa_execution_hint = (case sn_execution_hint n of None \<Rightarrow> HintAuto | Some h \<Rightarrow> h),
         sa_kind = sn_kind n,
         sa_is_dag_root = (sn_parent_step_id n = None),
         sa_task_complexity = sn_task_complexity n\<rparr>)"

fun claim_steps :: "time \<Rightarrow> ident \<Rightarrow> ident list \<Rightarrow> goal_dag \<Rightarrow> step_action list outcome \<times> goal_dag" where
  "claim_steps now gid [] d = (Inr [], d)"
| "claim_steps now gid (sid # sids) d =
     (let d1 = snd (activate_step now gid sid d) in
      case (case get_goal d1 gid of None \<Rightarrow> None | Some g \<Rightarrow> dict_get (nodes (g_steps g)) sid) of
        None \<Rightarrow> (Inl (KeyError sid), d1)
      | Some n \<Rightarrow>
          (case step_action_from_node n of
             Inl e \<Rightarrow> (Inl e, d1)
           | Inr a \<Rightarrow>
               (case claim_steps now gid sids d1 of
                  (Inl e, d2) \<Rightarrow> (Inl e, d2)
                | (Inr as, d2) \<Rightarrow> (Inr (a # as), d2))))"

record dispatch_payload =
  dsp_route :: string
  dsp_claimed :: "ident list"
  dsp_max_waves :: bool
  dsp_budget_terminal :: "string option"

definition routed :: "string \<Rightarrow> dispatch_payload" where
  "routed route = \<lparr>dsp_route = route, dsp_claimed = [], dsp_max_waves = False, dsp_budget_terminal = None\<rparr>"

definition waves_exhausted :: "loop_ctx \<Rightarrow> bool" where
  "waves_exhausted x \<longleftrightarrow>
     (let max_waves = positive_config_int
            (case lc_decompose (lx_config x) of None \<Rightarrow> 10 | Some c \<Rightarrow> int (dc_max_waves c)) 10 1
      in positive_config_int (lx_iteration x) 0 0 \<ge> max_waves)"

definition fallback_action :: "string \<Rightarrow> loop_ctx \<Rightarrow> step_action" where
  "fallback_action fresh x =
     \<lparr>sa_id = fresh @ ''-01'',
      sa_description = str_or (py_strip (opt_str (lx_task_short_description x))) (goal_text_of x),
      sa_full_description = Some (goal_text_of x), sa_expected_output = ''Step completed successfully'',
      sa_dependencies = None, sa_execution_hint = HintAuto, sa_kind = KAction, sa_is_dag_root = True,
      sa_task_complexity = Some (case lx_task_complexity x of None \<Rightarrow> ''simple'' | Some c \<Rightarrow> c)\<rparr>"

definition merge_decision :: "step_action list option \<Rightarrow> step_action list \<Rightarrow> step_action list" where
  "merge_decision prior claimed =
     (case prior of
        None \<Rightarrow> claimed
      | Some steps \<Rightarrow>
          if steps = [] then claimed
          else steps @ filter (\<lambda>s. sa_id s \<notin> set (map sa_id steps)) claimed)"

text \<open>Staging the claimed steps: decision, plan result and plan id of the loop.\<close>

definition stage_claimed :: "step_action list \<Rightarrow> loop_ctx \<Rightarrow> loop_ctx" where
  "stage_claimed claimed x =
     (let decision = merge_decision (lx_current_decision x) claimed;
          first = (case claimed of [] \<Rightarrow> [] | a # _ \<Rightarrow> take 300 (sa_description a));
          rid = (case claimed of [] \<Rightarrow> [] | a # _ \<Rightarrow> sa_id a)
      in x\<lparr>lx_plan_result := Some \<lparr>dpl_plan_action = (if lx_current_decision x = None then ''new'' else ''keep''),
                                   dpl_terminal_after_execute = False, dpl_decision = decision, dpl_next_action = first\<rparr>,
           lx_current_decision := Some decision,
           lx_plan_id := (if lx_plan_id x = None \<and> claimed \<noteq> [] \<and> CHR ''-'' \<in> set rid
                          then Some (takeWhile (\<lambda>c. c \<noteq> CHR ''-'') rid) else lx_plan_id x)\<rparr>)"

definition dispatch_ready :: "loop_ctx \<Rightarrow> step_dag \<Rightarrow> ident list" where
  "dispatch_ready x sd =
     (let ready = sorted_list_of_set (ready_steps sd) in
      if waves_exhausted x
      then filter (\<lambda>sid. map_option sn_kind (dict_get (nodes sd) sid) = Some KEval) ready
      else ready)"

definition dispatch_process ::
  "time \<Rightarrow> string \<Rightarrow> string \<Rightarrow> loop_ctx \<Rightarrow> dispatch_payload outcome \<times> loop_ctx" where
  "dispatch_process now hint fresh x0 =
     (case enforce_loop_budget x0 of
        Some t \<Rightarrow> (Inr ((routed ''fatal'')\<lparr>dsp_budget_terminal := Some t\<rparr>), x0)
      | None \<Rightarrow>
          (let x = ensure_root_step hint fresh (x0\<lparr>lx_resumed := False\<rparr>) in
           if \<not> has_ce x then
             if waves_exhausted x then (Inr ((routed ''root_eval'')\<lparr>dsp_max_waves := True\<rparr>), x)
             else (let a = fallback_action fresh x in
                   (Inr ((routed ''execute'')\<lparr>dsp_claimed := [sa_id a]\<rparr>),
                    x\<lparr>lx_plan_result := Some \<lparr>dpl_plan_action = ''new'', dpl_terminal_after_execute = True,
                                             dpl_decision = [a], dpl_next_action = take 300 (goal_text_of x)\<rparr>,
                      lx_current_decision := Some [a], lx_plan_id := Some fresh\<rparr>))
           else
             (case ce_goal x of
                None \<Rightarrow> (Inr (routed ''fatal''), x)
              | Some goal \<Rightarrow>
                  (let ready = dispatch_ready x (g_steps goal) in
                   if ready = [] then
                     (Inr ((routed ''root_eval'')\<lparr>dsp_max_waves := waves_exhausted x\<rparr>), x)
                   else
                     (case claim_steps now (lx_ce_goal_id x) ready (the (lx_ce x)) of
                        (Inl e, d) \<Rightarrow> (Inl e, x\<lparr>lx_ce := Some d\<rparr>)
                      | (Inr claimed, d) \<Rightarrow>
                          (Inr ((routed ''execute'')\<lparr>dsp_claimed := map sa_id claimed\<rparr>),
                           stage_claimed claimed (x\<lparr>lx_ce := Some d\<rparr>)))))))"

section \<open>RECONCILE\<close>

definition proposal_key :: "decomposition_proposal \<Rightarrow> string \<times> int \<times> string" where
  "proposal_key p = (dp_parent_step_id p, dp_wave_seq p, py_join ''|'' (map ps_description (dp_subtasks p)))"

fun first_by_key :: "(string \<times> int \<times> string) list \<Rightarrow> decomposition_proposal list \<Rightarrow> decomposition_proposal list" where
  "first_by_key seen [] = []"
| "first_by_key seen (p # ps) =
     (if proposal_key p \<in> set seen then first_by_key seen ps
      else p # first_by_key (proposal_key p # seen) ps)"

definition collect_proposals :: "loop_ctx \<Rightarrow> decomposition_proposal list \<times> loop_ctx" where
  "collect_proposals x =
     (first_by_key [] (concat (lx_proposal_sinks x)), x\<lparr>lx_proposal_sinks := map (\<lambda>_. []) (lx_proposal_sinks x)\<rparr>)"

definition plain_execution :: step_execution where
  "plain_execution =
     \<lparr>se_input_messages = [], se_output_messages = [], se_tokens_used = 0, se_duration_ms = 0, se_error = None,
      se_error_type = None, se_thread_id = None, se_outcome = None, se_tool_call_count = 0,
      se_subagent_task_completions = 0, se_hit_subagent_cap = False, se_hit_tool_budget = False\<rparr>"

text \<open>Closing an Eval step whose proposals were all rejected.\<close>

definition close_rejected_eval :: "reconcile_rejection list \<Rightarrow> ident \<Rightarrow> step_dag \<Rightarrow> step_dag" where
  "close_rejected_eval rejected pid sd =
     (case dict_get (nodes sd) pid of
        None \<Rightarrow> sd
      | Some parent \<Rightarrow>
          if sn_kind parent \<noteq> KEval then sd
          else
            (let reasons = map rj_reason (filter (\<lambda>r. rj_parent_step_id r = pid) rejected);
                 repeated = ''identical_eval_continuation'' \<in> set reasons;
                 ex = plain_execution\<lparr>se_outcome := Some (JObj
                        [(''kind'', JStr ''eval''),
                         (''coverage'', JStr (if repeated then ''failed'' else ''complete'')),
                         (''rejected_proposals'', JList (map JStr reasons))])\<rparr>
             in if repeated then mark_failed pid ex sd else mark_completed pid ex sd))"

definition close_rejected_evals :: "reconcile_rejection list \<Rightarrow> step_dag \<Rightarrow> step_dag" where
  "close_rejected_evals rejected sd =
     foldl (\<lambda>sd pid. close_rejected_eval rejected pid sd) sd (remdups (map rj_parent_step_id rejected))"

definition reconcile_route_of :: "loop_ctx \<Rightarrow> string" where
  "reconcile_route_of x =
     (case ce_goal x of
        None \<Rightarrow> ''root_eval''
      | Some goal \<Rightarrow> if ready_steps (g_steps goal) \<noteq> {} then ''dispatch'' else ''root_eval'')"

text \<open>The route and the new context; \<open>None\<close> would mean that planning the commit does not return.\<close>

definition reconcile_process ::
  "(ident list \<Rightarrow> ident list) \<Rightarrow> string \<Rightarrow> time \<Rightarrow> loop_ctx \<Rightarrow> (string \<times> loop_ctx) option" where
  "reconcile_process set_order fresh now x0 =
     (let (proposals, x) = collect_proposals x0 in
      case (lx_ce x, lc_decompose (lx_config x)) of
        (Some d, Some cfg) \<Rightarrow>
          if proposals \<noteq> [] \<and> lx_ce_goal_id x \<noteq> [] then
            (case reconcile_proposals set_order fresh now (lx_ce_goal_id x) proposals cfg None d of
               None \<Rightarrow> None
             | Some (r, d') \<Rightarrow>
                 (let x1 = x\<lparr>lx_ce := Some d'\<rparr>;
                      x2 = (if rr_committed_step_ids r = [] then on_steps (close_rejected_evals (rr_rejected r)) x1 else x1)
                  in Some (reconcile_route_of x2, x2)))
          else Some (reconcile_route_of x, x)
      | _ \<Rightarrow> Some (reconcile_route_of x, x))"

section \<open>ROOT_EVAL\<close>

definition failed_nodes :: "step_dag \<Rightarrow> step_node list" where
  "failed_nodes sd = filter (\<lambda>n. sn_status n = SFailed) (step_nodes sd)"

text \<open>The automatic clarification policy gives way to the manual one, and every failed step is
  reset; \<open>None\<close> when this does not apply.\<close>

definition try_auto_to_manual :: "loop_ctx \<Rightarrow> step_dag \<Rightarrow> (string \<times> loop_ctx) option" where
  "try_auto_to_manual x sd =
     (case lx_auto_fallback x of
        None \<Rightarrow> None
      | Some swapped \<Rightarrow>
          if failed_nodes sd = [] then None
          else if \<not> swapped then None
          else Some (''dispatch'',
                 on_steps (\<lambda>steps. foldl (\<lambda>steps n. snd (reset_failed_step (sn_id n) steps)) steps (failed_nodes sd))
                   (x\<lparr>lx_auto_fallback := None\<rparr>)))"

definition retry_step :: "ident \<Rightarrow> step_dag \<Rightarrow> step_dag" where
  "retry_step sid sd = modify_step sid (\<lambda>n. n\<lparr>sn_retry_count := sn_retry_count n + 1\<rparr>) (snd (reset_failed_step sid sd))"

definition retryable :: "int \<Rightarrow> step_dag \<Rightarrow> step_node list" where
  "retryable max_retries sd = filter (\<lambda>n. sn_retry_count n < max_retries) (failed_nodes sd)"

definition try_readonly_retry :: "loop_ctx \<Rightarrow> step_dag \<Rightarrow> (string \<times> loop_ctx) option" where
  "try_readonly_retry x sd =
     (let max_retries = lc_max_step_retries (lx_config x) in
      if max_retries \<le> 0 then None
      else if retryable max_retries sd = [] then None
      else Some (''dispatch'',
             on_steps (\<lambda>steps. foldl (\<lambda>steps n. retry_step (sn_id n) steps) steps (retryable max_retries sd)) x))"

definition eval_step :: "string \<Rightarrow> (string \<Rightarrow> step_node list \<Rightarrow> string) \<Rightarrow> string \<Rightarrow> nat \<Rightarrow> step_dag \<Rightarrow> step_node" where
  "eval_step fresh envelope goal_text eval_round sd =
     (new_step (fresh @ ''-EVAL'') ''Evaluate user-goal coverage'')
       \<lparr>sn_full_description := Some (envelope goal_text (step_nodes sd)),
        sn_expected_output := Some ''Coverage verdict or necessary in-scope continuation tasks'',
        sn_parent_step_id := map_option sn_id (find (\<lambda>n. sn_parent_step_id n = None) (step_nodes sd)),
        sn_plan_iteration := int eval_round + 1,
        sn_kind := KEval\<rparr>"

definition eval_rounds :: "step_dag \<Rightarrow> nat" where
  "eval_rounds sd = length (filter (\<lambda>n. sn_kind n = KEval) (step_nodes sd))"

text \<open>Whether the label and the structure of the tree ask for an Eval; \<open>decide\<close> is the verdict of the
  model on a simple task.\<close>

definition wants_eval :: "(step_node list \<Rightarrow> bool) \<Rightarrow> intake_label option \<Rightarrow> step_dag \<Rightarrow> bool" where
  "wants_eval decide label sd =
     (if label = Some LblMinimal then False
      else if label = Some LblSimple then decide (step_nodes sd)
      else eval_required sd)"

definition insert_eval ::
  "string \<Rightarrow> (string \<Rightarrow> step_node list \<Rightarrow> string) \<Rightarrow> goal_node \<Rightarrow> loop_ctx \<Rightarrow> string \<times> loop_ctx" where
  "insert_eval fresh envelope goal x =
     (let sd = g_steps goal;
          max_rounds = positive_config_int (lc_max_eval_rounds (lx_config x)) 10 1;
          goal_text = str_or (resolve_user_request x) (g_description goal)
      in if int (eval_rounds sd) \<ge> max_rounds then (''fatal'', x)
         else (''dispatch'', on_steps (add_step (eval_step fresh envelope goal_text (eval_rounds sd) sd)) x))"

definition root_eval_process ::
  "(step_node list \<Rightarrow> bool) \<Rightarrow> string \<Rightarrow> (string \<Rightarrow> step_node list \<Rightarrow> string) \<Rightarrow> loop_ctx \<Rightarrow> string \<times> loop_ctx" where
  "root_eval_process decide fresh envelope x =
     (if lx_interaction_mode x = Some ''plan'' \<or> lx_interaction_mode x = Some ''ask'' then
        (case ce_goal x of
           None \<Rightarrow> (''finalize'', x)
         | Some goal \<Rightarrow>
             (case try_readonly_retry x (g_steps goal) of Some r \<Rightarrow> r | None \<Rightarrow> (''finalize'', x)))
      else
        (case ce_goal x of
           None \<Rightarrow> (''finalize'', x)
         | Some goal \<Rightarrow>
             (let sd = g_steps goal in
              if failed_nodes sd \<noteq> [] then
                (case try_auto_to_manual x sd of Some r \<Rightarrow> r | None \<Rightarrow> (''fatal'', x))
              else if \<not> action_tree_green sd then
                (if ready_steps sd \<noteq> {} then (''dispatch'', x) else (''fatal'', x))
              else
                (case latest_eval sd of
                   Some latest \<Rightarrow>
                     if sn_status latest \<in> {SPending, SActive} then (''dispatch'', x)
                     else if sn_status latest = SCompleted then (''finalize'', x)
                     else if wants_eval decide (lx_intake_label x) sd then insert_eval fresh envelope goal x
                     else (''finalize'', x)
                 | None \<Rightarrow>
                     if wants_eval decide (lx_intake_label x) sd then insert_eval fresh envelope goal x
                     else (''finalize'', x)))))"

end
