(* ===== verification/Loop_Graph.thy ===== *)
theory Loop_Graph
  imports Loop_Stations
begin

text \<open>
  The loop graph: the routers of \<open>sloop/orchestrator/routing.py\<close>, the resume stations of
  \<open>sloop/relay/router.py\<close>, the edges that \<open>sloop/orchestrator/builder.py\<close> declares, and the steps
  that the three work-queue stations take on it.
\<close>

section \<open>Stations and channels\<close>

datatype station =
    Intake | EnterLoop | Execute | RecordProgress | Dispatch | Reconcile | RootEval
  | Finalize | PlanReview | AwaitUser | Delegate | End

text \<open>The \<open>relay_state\<close> channel: for each entry of the inbox the origin of its request, whether an
  answer is present, and the active origin.\<close>

record relay_state =
  rs_inbox :: "string option list"
  rs_answered :: bool
  rs_active_origin :: "string option"

record graph_state =
  gs_last_outcome :: "string option"
  gs_intent_route :: "string option"
  gs_dispatch_route :: "string option"
  gs_reconcile_route :: "string option"
  gs_root_eval_route :: "string option"
  gs_relay_state :: "relay_state option"
  gs_after_record_route :: "string option"
  gs_interaction_mode :: "string option"
  gs_plan_approved_follow_on :: bool
  gs_plan_rejected_terminal :: bool

definition empty_graph_state :: graph_state where
  "empty_graph_state =
     \<lparr>gs_last_outcome = None, gs_intent_route = None, gs_dispatch_route = None, gs_reconcile_route = None,
      gs_root_eval_route = None, gs_relay_state = None, gs_after_record_route = None,
      gs_interaction_mode = None, gs_plan_approved_follow_on = False, gs_plan_rejected_terminal = False\<rparr>"

section \<open>Routers\<close>

definition pending_clarification :: "graph_state \<Rightarrow> bool" where
  "pending_clarification gs =
     (case gs_relay_state gs of None \<Rightarrow> False
      | Some r \<Rightarrow> if rs_inbox r = [] then False else \<not> rs_answered r)"

definition route_after_preprocess :: "graph_state \<Rightarrow> station" where
  "route_after_preprocess gs =
     (if gs_intent_route gs = Some ''fast_path'' then End
      else if gs_intent_route gs = Some ''wired_subagent'' then Delegate
      else Dispatch)"

definition route_after_dispatch :: "graph_state \<Rightarrow> station" where
  "route_after_dispatch gs =
     (if gs_dispatch_route gs = Some ''root_eval'' then RootEval
      else if gs_dispatch_route gs = Some ''fatal'' \<or> gs_last_outcome gs = Some ''fatal'' then End
      else Execute)"

definition route_after_reconcile :: "graph_state \<Rightarrow> station" where
  "route_after_reconcile gs = (if gs_reconcile_route gs = Some ''dispatch'' then Dispatch else RootEval)"

definition route_after_root_eval :: "graph_state \<Rightarrow> station" where
  "route_after_root_eval gs =
     (if gs_root_eval_route gs = Some ''fatal'' \<or> gs_last_outcome gs = Some ''fatal'' then Finalize
      else if gs_root_eval_route gs = Some ''dispatch'' then Dispatch
      else if gs_interaction_mode gs = Some ''plan'' then PlanReview
      else Finalize)"

definition route_after_wired_subagent :: "graph_state \<Rightarrow> station" where
  "route_after_wired_subagent gs =
     (if gs_last_outcome gs = Some ''fatal'' then End
      else if pending_clarification gs then AwaitUser
      else Finalize)"

definition route_after_execute :: "graph_state \<Rightarrow> station" where
  "route_after_execute gs = (if pending_clarification gs then AwaitUser else RecordProgress)"

definition route_after_record_iteration :: "graph_state \<Rightarrow> station" where
  "route_after_record_iteration gs =
     (if gs_after_record_route gs \<in> {Some ''goal_completion'', Some ''finalize''} then Finalize else Reconcile)"

definition route_after_plan_review :: "graph_state \<Rightarrow> station" where
  "route_after_plan_review gs =
     (if gs_plan_approved_follow_on gs then Finalize
      else if gs_plan_rejected_terminal gs then Finalize
      else if pending_clarification gs then AwaitUser
      else End)"

definition active_origin :: "graph_state \<Rightarrow> string option" where
  "active_origin gs =
     (case gs_relay_state gs of None \<Rightarrow> None
      | Some r \<Rightarrow>
          if truthy (rs_active_origin r) then rs_active_origin r
          else (case rs_inbox r of [] \<Rightarrow> None | origin # _ \<Rightarrow> origin))"

definition resume_node_for_clarification_origin :: "string option \<Rightarrow> station option" where
  "resume_node_for_clarification_origin origin =
     (if \<not> truthy origin \<or> opt_str origin \<notin> {''execute'', ''plan_mode_review'', ''rail_pause'', ''tool_approval''}
      then None
      else if origin = Some ''rail_pause'' then None
      else if origin = Some ''plan_mode_review'' then Some PlanReview
      else Some Execute)"

definition route_after_clarification :: "graph_state \<Rightarrow> station" where
  "route_after_clarification gs =
     (if gs_last_outcome gs = Some ''deferred'' then End
      else if active_origin gs = Some ''plan_mode_review'' then
        (if gs_plan_approved_follow_on gs then Finalize
         else if pending_clarification gs then PlanReview
         else End)
      else (case resume_node_for_clarification_origin (active_origin gs) of None \<Rightarrow> End | Some st \<Rightarrow> st))"

text \<open>The router of each station; an unconditional edge ignores the channels.\<close>

fun route_from :: "station \<Rightarrow> graph_state \<Rightarrow> station" where
  "route_from Intake gs = EnterLoop"
| "route_from EnterLoop gs = route_after_preprocess gs"
| "route_from Delegate gs = route_after_wired_subagent gs"
| "route_from Dispatch gs = route_after_dispatch gs"
| "route_from Execute gs = route_after_execute gs"
| "route_from RecordProgress gs = route_after_record_iteration gs"
| "route_from Reconcile gs = route_after_reconcile gs"
| "route_from RootEval gs = route_after_root_eval gs"
| "route_from PlanReview gs = route_after_plan_review gs"
| "route_from Finalize gs = End"
| "route_from AwaitUser gs = route_after_clarification gs"
| "route_from End gs = End"

fun declared_edges :: "station \<Rightarrow> station list" where
  "declared_edges Intake = [EnterLoop]"
| "declared_edges EnterLoop = [Dispatch, Delegate, End]"
| "declared_edges Delegate = [Finalize, AwaitUser, Dispatch, End]"
| "declared_edges Dispatch = [Execute, RootEval, End]"
| "declared_edges Execute = [RecordProgress, AwaitUser]"
| "declared_edges RecordProgress = [Reconcile, Finalize]"
| "declared_edges Reconcile = [Dispatch, RootEval]"
| "declared_edges RootEval = [Finalize, PlanReview, Dispatch]"
| "declared_edges PlanReview = [Finalize, AwaitUser, End]"
| "declared_edges Finalize = [End]"
| "declared_edges AwaitUser = [Execute, Dispatch, Delegate, PlanReview, Finalize, End]"
| "declared_edges End = [End]"

section \<open>Routers and edges agree\<close>

lemmas router_defs =
  route_after_preprocess_def route_after_dispatch_def route_after_reconcile_def route_after_root_eval_def
  route_after_wired_subagent_def route_after_execute_def route_after_record_iteration_def
  route_after_plan_review_def route_after_clarification_def resume_node_for_clarification_origin_def
  pending_clarification_def active_origin_def

lemma route_declared: "route_from st gs \<in> set (declared_edges st)"
  by (cases st) (simp_all add: router_defs split: option.split list.split)

lemma dead_edges:
  "route_from Delegate gs \<noteq> Dispatch" "route_from AwaitUser gs \<noteq> Dispatch" "route_from AwaitUser gs \<noteq> Delegate"
  by (simp_all add: router_defs split: option.split list.split)

definition relay :: "string option \<Rightarrow> relay_state" where
  "relay origin = \<lparr>rs_inbox = [origin], rs_answered = False, rs_active_origin = None\<rparr>"

lemma live_edge:
  assumes "t \<in> set (declared_edges st)"
    and "(st, t) \<notin> {(Delegate, Dispatch), (AwaitUser, Dispatch), (AwaitUser, Delegate)}"
  shows "\<exists>gs. route_from st gs = t"
proof -
  let ?e = empty_graph_state
  have "\<exists>gs \<in> {?e, ?e\<lparr>gs_intent_route := Some ''fast_path''\<rparr>, ?e\<lparr>gs_intent_route := Some ''wired_subagent''\<rparr>,
      ?e\<lparr>gs_dispatch_route := Some ''root_eval''\<rparr>, ?e\<lparr>gs_last_outcome := Some ''fatal''\<rparr>,
      ?e\<lparr>gs_reconcile_route := Some ''dispatch''\<rparr>, ?e\<lparr>gs_root_eval_route := Some ''dispatch''\<rparr>,
      ?e\<lparr>gs_interaction_mode := Some ''plan''\<rparr>, ?e\<lparr>gs_after_record_route := Some ''finalize''\<rparr>,
      ?e\<lparr>gs_relay_state := Some (relay (Some ''execute''))\<rparr>,
      ?e\<lparr>gs_relay_state := Some (relay (Some ''plan_mode_review''))\<rparr>,
      ?e\<lparr>gs_relay_state := Some (relay (Some ''plan_mode_review'')), gs_plan_approved_follow_on := True\<rparr>}.
      route_from st gs = t"
    using assms
    by (cases st)
      (auto simp: router_defs empty_graph_state_def relay_def)
  then show ?thesis by blast
qed

text \<open>Claim C40. The routers and the declared edges agree: whatever the channels hold, a router answers with
  a target that its station declares, so that the graph never fails on an unknown target; and
  every declared edge is taken for some channels, except from the delegate to dispatch and from
  the user's answer to dispatch or to the delegate, which no router ever takes.\<close>

theorem routers_match_declared_edges:
  "(\<exists>gs. route_from st gs = t) \<longleftrightarrow>
   t \<in> set (declared_edges st) \<and>
   (st, t) \<notin> {(Delegate, Dispatch), (AwaitUser, Dispatch), (AwaitUser, Delegate)}"
  using route_declared [of st] dead_edges live_edge [of t st] by blast

section \<open>The work queue\<close>

text \<open>What the stations write to the channels (their \<open>post\<close>).\<close>

definition dispatch_post :: "dispatch_payload \<Rightarrow> graph_state \<Rightarrow> graph_state" where
  "dispatch_post p gs =
     (if truthy (dsp_budget_terminal p)
      then gs\<lparr>gs_dispatch_route := Some ''fatal'', gs_last_outcome := dsp_budget_terminal p\<rparr>
      else gs\<lparr>gs_dispatch_route := Some (str_or (dsp_route p) ''execute'')\<rparr>)"

definition reconcile_post :: "string \<Rightarrow> graph_state \<Rightarrow> graph_state" where
  "reconcile_post route gs = gs\<lparr>gs_reconcile_route := Some (str_or route ''root_eval'')\<rparr>"

definition root_eval_post :: "string \<Rightarrow> graph_state \<Rightarrow> graph_state" where
  "root_eval_post route gs =
     (let r = str_or route ''finalize'';
          gs' = gs\<lparr>gs_root_eval_route := Some r\<rparr>
      in if r = ''fatal'' then gs'\<lparr>gs_last_outcome := Some ''fatal''\<rparr> else gs')"

text \<open>What the code gets from outside: the clock, drawn plan ids, prompt texts, the verdict on simple
  tasks, and the order in which a set of ids is visited.\<close>

record queue_env =
  qe_now :: time
  qe_fresh :: string
  qe_hint :: string
  qe_envelope :: "string \<Rightarrow> step_node list \<Rightarrow> string"
  qe_decide :: "step_node list \<Rightarrow> bool"
  qe_set_order :: "ident list \<Rightarrow> ident list"

type_synonym queue_config = "station \<times> graph_state \<times> loop_ctx"

text \<open>One step of a work-queue station; \<open>None\<close> at the other stations and when a station raises.\<close>

fun queue_step :: "queue_env \<Rightarrow> queue_config \<Rightarrow> queue_config option" where
  "queue_step e (Dispatch, gs, x) =
     (case dispatch_process (qe_now e) (qe_hint e) (qe_fresh e) x of
        (Inl _, _) \<Rightarrow> None
      | (Inr p, x') \<Rightarrow> (let gs' = dispatch_post p gs in Some (route_after_dispatch gs', gs', x')))"
| "queue_step e (Reconcile, gs, x) =
     (case reconcile_process (qe_set_order e) (qe_fresh e) (qe_now e) x of
        None \<Rightarrow> None
      | Some (route, x') \<Rightarrow> (let gs' = reconcile_post route gs in Some (route_after_reconcile gs', gs', x')))"
| "queue_step e (RootEval, gs, x) =
     (let (route, x') = root_eval_process (qe_decide e) (qe_fresh e) (qe_envelope e) x;
          gs' = root_eval_post route gs
      in Some (route_after_root_eval gs', gs', x'))"
| "queue_step e (st, gs, x) = None"

text \<open>\<open>n\<close> steps, each with an environment of its own.\<close>

fun queue_run :: "(nat \<Rightarrow> queue_env) \<Rightarrow> nat \<Rightarrow> queue_config \<Rightarrow> queue_config option" where
  "queue_run e 0 c = Some c"
| "queue_run e (Suc n) c =
     (case queue_run e n c of None \<Rightarrow> None | Some c' \<Rightarrow> queue_step (e n) c')"

end
