(* ===== verification/Step_Chain.thy ===== *)
theory Step_Chain
  imports Step_Dag
begin

text \<open>
  \<open>StepDAG.chain_depth\<close> (\<open>context/models.py\<close>): a breadth-first pass that relaxes the
  depth of every node along the dependency edges that no completed step satisfies. The
  model keeps the code's dictionaries (as functions on the node ids), its queue and its
  two loops. The queue loop takes fuel; \<open>kahn_terminates\<close> shows that one unit per node
  is enough on every DAG, cyclic or not. \<open>chain_depth_longest\<close> relates the result to
  chains of dependent steps.
\<close>

section \<open>The algorithm\<close>

text \<open>The edge loop: \<open>dependents\<close> and \<open>in_degree\<close> for one node's dependencies.\<close>

fun scan_deps ::
  "ident set \<Rightarrow> ident set \<Rightarrow> ident \<Rightarrow> ident list \<Rightarrow> (ident \<Rightarrow> ident list) \<times> (ident \<Rightarrow> int) \<Rightarrow>
   (ident \<Rightarrow> ident list) \<times> (ident \<Rightarrow> int)" where
  "scan_deps satisfied keys cid [] (dependents, in_degree) = (dependents, in_degree)"
| "scan_deps satisfied keys cid (dep # deps) (dependents, in_degree) =
     (if dep \<in> satisfied then scan_deps satisfied keys cid deps (dependents, in_degree)
      else if dep \<in> keys then
        scan_deps satisfied keys cid deps
          (dependents(dep := dependents dep @ [cid]), in_degree(cid := in_degree cid + 1))
      else scan_deps satisfied keys cid deps (dependents, in_degree))"

fun scan_nodes ::
  "ident set \<Rightarrow> ident set \<Rightarrow> (ident \<times> step_node) list \<Rightarrow> (ident \<Rightarrow> ident list) \<times> (ident \<Rightarrow> int) \<Rightarrow>
   (ident \<Rightarrow> ident list) \<times> (ident \<Rightarrow> int)" where
  "scan_nodes satisfied keys [] st = st"
| "scan_nodes satisfied keys ((cid, node) # rest) st =
     scan_nodes satisfied keys rest (scan_deps satisfied keys cid (sn_dependencies node) st)"

text \<open>The inner loop over the dependents of the node just taken from the queue.\<close>

fun relax ::
  "nat \<Rightarrow> ident list \<Rightarrow> (ident \<Rightarrow> nat) \<times> (ident \<Rightarrow> int) \<times> ident list \<Rightarrow>
   (ident \<Rightarrow> nat) \<times> (ident \<Rightarrow> int) \<times> ident list" where
  "relax cd [] st = st"
| "relax cd (dep # deps) (depth, in_degree, queue) =
     (let depth' = depth(dep := max (depth dep) (cd + 1));
          in_degree' = in_degree(dep := in_degree dep - 1);
          queue' = (if in_degree' dep = 0 then queue @ [dep] else queue)
      in relax cd deps (depth', in_degree', queue'))"

text \<open>The \<open>while queue\<close> loop; \<open>None\<close> when the fuel runs out.\<close>

fun kahn ::
  "nat \<Rightarrow> (ident \<Rightarrow> ident list) \<Rightarrow> (ident \<Rightarrow> nat) \<times> (ident \<Rightarrow> int) \<times> ident list \<Rightarrow> nat \<Rightarrow> nat option" where
  "kahn fuel dependents (depth, in_degree, []) max_depth = Some max_depth"
| "kahn 0 dependents (depth, in_degree, current # queue) max_depth = None"
| "kahn (Suc fuel) dependents (depth, in_degree, current # queue) max_depth =
     (let current_depth = depth current in
      kahn fuel dependents (relax current_depth (dependents current) (depth, in_degree, queue))
        (max max_depth current_depth))"

definition chain_tables :: "step_dag \<Rightarrow> (ident \<Rightarrow> ident list) \<times> (ident \<Rightarrow> int)" where
  "chain_tables d =
     scan_nodes (satisfied_ids d) (set (dict_keys (nodes d))) (nodes d) (\<lambda>_. [], \<lambda>_. 0)"

definition chain_depth_fuel :: "nat \<Rightarrow> step_dag \<Rightarrow> nat option" where
  "chain_depth_fuel fuel d =
     (if nodes d = [] then Some 0
      else (let (dependents, in_degree) = chain_tables d;
                queue = filter (\<lambda>cid. in_degree cid = 0) (dict_keys (nodes d))
            in kahn fuel dependents (\<lambda>_. 1, in_degree, queue) 1))"

definition chain_depth :: "step_dag \<Rightarrow> nat" where
  "chain_depth d = (case chain_depth_fuel (length (nodes d)) d of Some k \<Rightarrow> k | None \<Rightarrow> 0)"

section \<open>The tables\<close>

text \<open>The dependencies of \<open>n\<close> that the algorithm counts, with their multiplicity.\<close>

definition open_deps :: "step_dag \<Rightarrow> ident \<Rightarrow> ident list" where
  "open_deps d n =
     (case dict_get (nodes d) n of
        None \<Rightarrow> []
      | Some node \<Rightarrow> filter (\<lambda>dep. dep \<notin> satisfied_ids d \<and> dep \<in> set (dict_keys (nodes d)))
                       (sn_dependencies node))"

lemma scan_deps_eq:
  "scan_deps sat keys cid deps (dependents, in_degree) =
     (let open' = filter (\<lambda>dep. dep \<notin> sat \<and> dep \<in> keys) deps in
      (\<lambda>m. dependents m @ replicate (count_list open' m) cid,
       in_degree(cid := in_degree cid + int (length open'))))"
  by (induction deps arbitrary: dependents in_degree)
    (auto simp: fun_eq_iff Let_def replicate_append_same)

lemma scan_nodes_in_degree:
  assumes "distinct (map fst ns)"
  shows "snd (scan_nodes sat keys ns st) n =
     snd st n + (case map_of ns n of None \<Rightarrow> 0
       | Some node \<Rightarrow> int (length (filter (\<lambda>dep. dep \<notin> sat \<and> dep \<in> keys) (sn_dependencies node))))"
  using assms
proof (induction ns arbitrary: st)
  case (Cons p ns)
  obtain cid node where p: "p = (cid, node)" by (cases p)
  obtain a b where st: "st = (a, b)" by (cases st)
  have "map_of ns cid = None" using Cons.prems p by (simp add: map_of_eq_None_iff)
  with Cons p st show ?case by (simp add: scan_deps_eq Let_def)
qed simp

lemma scan_nodes_dependents:
  "count_list (fst (scan_nodes sat keys ns st) m) n =
     count_list (fst st m) n +
     sum_list (map (\<lambda>(cid, node). if cid = n
       then count_list (filter (\<lambda>dep. dep \<notin> sat \<and> dep \<in> keys) (sn_dependencies node)) m else 0) ns)"
proof (induction ns arbitrary: st)
  case (Cons p ns)
  obtain cid node where p: "p = (cid, node)" by (cases p)
  obtain a b where st: "st = (a, b)" by (cases st)
  have "count_list (replicate k cid) n = (if cid = n then k else 0)" for k
    by (induction k) auto
  with Cons p st show ?case by (simp add: scan_deps_eq Let_def)
qed simp

lemma sum_list_single_key:
  "distinct (map fst ns) \<Longrightarrow>
     sum_list (map (\<lambda>(k, v). if k = n then f v else (0 :: nat)) ns) =
     (case map_of ns n of None \<Rightarrow> 0 | Some v \<Rightarrow> f v)"
proof (induction ns)
  case (Cons p ns)
  obtain k v where p: "p = (k, v)" by (cases p)
  have "map_of ns k = None" using Cons.prems p by (simp add: map_of_eq_None_iff)
  with Cons p show ?case by auto
qed simp

lemma chain_tables_in_degree:
  "wf_step_dag d \<Longrightarrow> snd (chain_tables d) n = int (length (open_deps d n))"
  using wf_step_dag_dict [of d]
  by (simp add: chain_tables_def scan_nodes_in_degree wf_dict_def open_deps_def split: option.split)

lemma chain_tables_dependents:
  "wf_step_dag d \<Longrightarrow> count_list (fst (chain_tables d) m) n = count_list (open_deps d n) m"
  using wf_step_dag_dict [of d]
  by (simp add: chain_tables_def scan_nodes_dependents wf_dict_def sum_list_single_key open_deps_def
      split: option.split)

lemma open_deps_keys: "m \<in> set (open_deps d n) \<Longrightarrow> m \<in> set (dict_keys (nodes d))"
  by (auto simp: open_deps_def split: option.splits)

lemma open_deps_node: "m \<in> set (open_deps d n) \<Longrightarrow> n \<in> set (dict_keys (nodes d))"
  by (cases "dict_get (nodes d) n") (auto simp: open_deps_def dest: dict_get_key simp del: set_map)

section \<open>One round of relaxation\<close>

lemma relax_depth:
  "fst (relax cd deps (depth, indeg, queue)) n =
     (if n \<in> set deps then max (depth n) (cd + 1) else depth n)"
  by (induction deps arbitrary: depth indeg queue) (auto simp: Let_def)

lemma relax_in_degree:
  "fst (snd (relax cd deps (depth, indeg, queue))) n = indeg n - int (count_list deps n)"
  by (induction deps arbitrary: depth indeg queue) (auto simp: Let_def)

lemma relax_queue:
  assumes "\<And>n. int (count_list deps n) \<le> indeg n"
  shows "\<exists>new. snd (snd (relax cd deps (depth, indeg, queue))) = queue @ new \<and> distinct new \<and>
     set new = {n \<in> set deps. indeg n = int (count_list deps n)}"
  using assms
proof (induction deps arbitrary: depth indeg queue)
  case (Cons x deps)
  define indeg' where "indeg' = indeg(x := indeg x - 1)"
  define queue' where "queue' = (if indeg' x = 0 then queue @ [x] else queue)"
  have le: "int (count_list deps n) \<le> indeg' n" for n
    using Cons.prems [of n] by (auto simp: indeg'_def split: if_splits)
  obtain new where new:
    "snd (snd (relax cd deps (depth(x := max (depth x) (cd + 1)), indeg', queue'))) = queue' @ new"
    "distinct new" "set new = {n \<in> set deps. indeg' n = int (count_list deps n)}"
    using Cons.IH [OF le] by blast
  have run: "snd (snd (relax cd (x # deps) (depth, indeg, queue))) = queue' @ new"
    using new(1) by (simp add: Let_def indeg'_def queue'_def)
  have zero: "x \<notin> set deps" if "indeg' x = 0"
    using le [of x] that by (simp add: count_list_0_iff)
  have mem: "{n \<in> set (x # deps). indeg n = int (count_list (x # deps) n)} =
      set new \<union> (if indeg' x = 0 then {x} else {})"
  proof (rule set_eqI)
    fix n
    show "n \<in> {n \<in> set (x # deps). indeg n = int (count_list (x # deps) n)} \<longleftrightarrow>
        n \<in> set new \<union> (if indeg' x = 0 then {x} else {})"
    proof (cases "n = x")
      case True
      have "x \<in> set deps \<or> count_list deps x = 0" by (simp add: count_list_0_iff)
      with True zero show ?thesis by (auto simp: new(3) indeg'_def)
    next
      case False
      then show ?thesis by (simp add: new(3) indeg'_def)
    qed
  qed
  show ?case
  proof (cases "indeg' x = 0")
    case True
    have "distinct (x # new)" using new zero [OF True] by auto
    moreover have "snd (snd (relax cd (x # deps) (depth, indeg, queue))) = queue @ (x # new)"
      using run True by (simp add: queue'_def)
    ultimately show ?thesis using mem True by (intro exI [of _ "x # new"]) auto
  next
    case False
    then show ?thesis using run mem new by (intro exI [of _ new]) (auto simp: queue'_def)
  qed
qed auto

section \<open>Chains of dependent steps\<close>

text \<open>\<open>p\<close> is a chain: each step is an unsatisfied dependency of the next one.\<close>

definition is_chain :: "step_dag \<Rightarrow> ident list \<Rightarrow> bool" where
  "is_chain d p \<longleftrightarrow> p \<noteq> [] \<and> set p \<subseteq> set (dict_keys (nodes d)) \<and>
     successively (\<lambda>m n. m \<in> set (open_deps d n)) p"

definition dep_rel :: "step_dag \<Rightarrow> (ident \<times> ident) set" where
  "dep_rel d = {(m, n). m \<in> set (open_deps d n)}"

lemma is_chain_snoc:
  "is_chain d p \<Longrightarrow> last p \<in> set (open_deps d n) \<Longrightarrow> is_chain d (p @ [n])"
  using open_deps_node [of "last p" d n] by (auto simp: is_chain_def successively_append_iff)

lemma dep_rel_finite: "finite (dep_rel d)"
proof (rule finite_subset)
  show "dep_rel d \<subseteq> set (dict_keys (nodes d)) \<times> set (dict_keys (nodes d))"
    by (auto simp: dep_rel_def simp del: set_map dest: open_deps_keys open_deps_node)
qed simp

section \<open>The invariant of the queue loop\<close>

definition kahn_inv ::
  "step_dag \<Rightarrow> ident set \<Rightarrow> (ident \<Rightarrow> nat) \<times> (ident \<Rightarrow> int) \<times> ident list \<Rightarrow> nat \<Rightarrow> bool" where
  "kahn_inv d P st maxd \<longleftrightarrow> (case st of (depth, indeg, queue) \<Rightarrow>
     P \<subseteq> set (dict_keys (nodes d)) \<and> set queue \<subseteq> set (dict_keys (nodes d)) \<and>
     P \<inter> set queue = {} \<and> distinct queue \<and>
     (\<forall>n. indeg n = int (length (filter (\<lambda>m. m \<notin> P) (open_deps d n)))) \<and>
     (\<forall>n \<in> set (dict_keys (nodes d)). n \<in> P \<union> set queue \<longleftrightarrow> indeg n = 0) \<and>
     (\<forall>m \<in> P. \<forall>n. m \<in> set (open_deps d n) \<longrightarrow> depth m + 1 \<le> depth n) \<and>
     (\<forall>n \<in> set (dict_keys (nodes d)). \<exists>p. is_chain d p \<and> last p = n \<and> length p = depth n) \<and>
     (\<forall>m \<in> P. depth m \<le> maxd) \<and> (\<exists>p. is_chain d p \<and> length p = maxd))"

lemma kahn_inv_init:
  assumes wf: "wf_step_dag d" and ne: "nodes d \<noteq> []"
  shows "kahn_inv d {} (\<lambda>_. 1, snd (chain_tables d),
           filter (\<lambda>cid. snd (chain_tables d) cid = 0) (dict_keys (nodes d))) 1"
proof -
  have single: "is_chain d [n]" if "n \<in> set (dict_keys (nodes d))" for n
    using that by (simp add: is_chain_def)
  have "dict_keys (nodes d) \<noteq> []" using ne by simp
  then obtain k where "k \<in> set (dict_keys (nodes d))" by (meson last_in_set)
  then have "\<exists>p. is_chain d p \<and> length p = 1" using single by force
  moreover have "\<forall>n \<in> set (dict_keys (nodes d)). \<exists>p. is_chain d p \<and> last p = n \<and> length p = 1"
    using single by force
  ultimately show ?thesis
    using wf_step_dag_dict [OF wf]
    by (simp add: kahn_inv_def chain_tables_in_degree [OF wf] wf_dict_def del: set_map)
qed

lemma length_filter_insert:
  "length (filter (\<lambda>m. m \<notin> P) xs) =
     length (filter (\<lambda>m. m \<notin> insert c P) xs) + (if c \<in> P then 0 else count_list xs c)"
  by (induction xs) auto

lemma kahn_inv_step:
  assumes wf: "wf_step_dag d"
    and inv: "kahn_inv d P (depth, indeg, c # queue) maxd"
  shows "kahn_inv d (insert c P)
           (relax (depth c) (fst (chain_tables d) c) (depth, indeg, queue)) (max maxd (depth c))"
proof -
  let ?K = "set (dict_keys (nodes d))" and ?D = "fst (chain_tables d) c"
  have D: "count_list ?D n = count_list (open_deps d n) c" for n
    by (rule chain_tables_dependents [OF wf])
  then have Dset: "n \<in> set ?D \<longleftrightarrow> c \<in> set (open_deps d n)" for n
    by (metis count_list_0_iff)
  from inv have c: "c \<in> ?K" "c \<notin> P" "c \<notin> set queue"
    and P: "P \<subseteq> ?K" and Q: "set queue \<subseteq> ?K" "P \<inter> set queue = {}" "distinct queue"
    and I: "\<And>n. indeg n = int (length (filter (\<lambda>m. m \<notin> P) (open_deps d n)))"
    and Z: "\<And>n. n \<in> ?K \<Longrightarrow> n \<in> P \<union> set (c # queue) \<longleftrightarrow> indeg n = 0"
    and mono: "\<And>m n. m \<in> P \<Longrightarrow> m \<in> set (open_deps d n) \<Longrightarrow> depth m + 1 \<le> depth n"
    and ex: "\<And>n. n \<in> ?K \<Longrightarrow> \<exists>p. is_chain d p \<and> last p = n \<and> length p = depth n"
    and mx: "\<And>m. m \<in> P \<Longrightarrow> depth m \<le> maxd" and mxe: "\<exists>p. is_chain d p \<and> length p = maxd"
    unfolding kahn_inv_def by auto
  have le: "int (count_list ?D n) \<le> indeg n" for n
    using length_filter_insert [of P "open_deps d n" c] c(2) by (simp add: I D)
  obtain new where new: "snd (snd (relax (depth c) ?D (depth, indeg, queue))) = queue @ new"
    "distinct new" "set new = {n \<in> set ?D. indeg n = int (count_list ?D n)}"
    using relax_queue [OF le] by blast
  define depth' where "depth' = fst (relax (depth c) ?D (depth, indeg, queue))"
  define indeg' where "indeg' = fst (snd (relax (depth c) ?D (depth, indeg, queue)))"
  have rel: "relax (depth c) ?D (depth, indeg, queue) = (depth', indeg', queue @ new)"
    using new(1) by (simp add: depth'_def indeg'_def prod_eq_iff)
  have d': "depth' n = (if c \<in> set (open_deps d n) then max (depth n) (depth c + 1) else depth n)" for n
    by (simp add: depth'_def relax_depth Dset)
  have i': "indeg' n = int (length (filter (\<lambda>m. m \<notin> insert c P) (open_deps d n)))" for n
    using length_filter_insert [of P "open_deps d n" c] c(2)
    by (simp add: indeg'_def relax_in_degree I D)
  have i'': "indeg' n = indeg n - int (count_list ?D n)" for n
    by (simp add: indeg'_def relax_in_degree)
  have zero: "c \<notin> set (open_deps d n)" if "indeg n = 0" for n
    using le [of n] that by (simp add: D count_list_0_iff)
  have dP: "depth' m = depth m" if "m \<in> P \<union> set (c # queue)" for m
    using that Z [of m] zero [of m] P Q c(1) by (auto simp: d' simp del: set_map)
  have newK: "set new \<subseteq> ?K"
    unfolding new(3) Dset using open_deps_node by (auto simp del: set_map)
  have newD: "set new \<inter> (P \<union> set (c # queue)) = {}"
  proof -
    have "n \<notin> P \<union> set (c # queue)" if n: "n \<in> set new" for n
    proof -
      from n have "n \<in> ?K" "c \<in> set (open_deps d n)" using newK unfolding new(3) Dset by auto
      then show ?thesis using Z [of n] zero [of n] by blast
    qed
    then show ?thesis by blast
  qed
  have Z': "n \<in> insert c P \<union> set (queue @ new) \<longleftrightarrow> indeg' n = 0" if n: "n \<in> ?K" for n
  proof (cases "c \<in> set (open_deps d n)")
    case True
    then have "n \<notin> P \<union> set (c # queue)" using Z [OF n] zero [of n] by blast
    moreover have "n \<in> set new \<longleftrightarrow> indeg' n = 0" using True by (auto simp: new(3) Dset i'')
    ultimately show ?thesis by auto
  next
    case False
    then have "count_list ?D n = 0" "n \<notin> set new" by (auto simp: D count_list_0_iff new(3) Dset)
    then show ?thesis using Z [OF n] by (auto simp: i'')
  qed
  have mono': "depth' m + 1 \<le> depth' n" if "m \<in> insert c P" "m \<in> set (open_deps d n)" for m n
    using that mono [of m n] dP [of m] by (auto simp: d' [of n])
  have ex': "\<exists>p. is_chain d p \<and> last p = n \<and> length p = depth' n" if n: "n \<in> ?K" for n
  proof (cases "c \<in> set (open_deps d n) \<and> depth n < depth c + 1")
    case True
    obtain p where "is_chain d p" "last p = c" "length p = depth c" using ex [OF c(1)] by blast
    with True show ?thesis
      by (intro exI [of _ "p @ [n]"]) (auto simp: d' is_chain_snoc)
  next
    case False
    then have "depth' n = depth n" by (auto simp: d')
    with ex [OF n] show ?thesis by simp
  qed
  have mx': "depth' m \<le> max maxd (depth c)" if "m \<in> insert c P" for m
    using that mx [of m] dP [of m] by auto
  have mxe': "\<exists>p. is_chain d p \<and> length p = max maxd (depth c)"
    using mxe ex [OF c(1)] by (metis max_def)
  show ?thesis
    unfolding kahn_inv_def rel prod.case
    using P Q c newK newD new(2) i' Z' mono' ex' mx' mxe'
    by (intro conjI) (auto simp del: set_map)
qed

lemma kahn_terminates_inv:
  assumes wf: "wf_step_dag d"
  shows "kahn_inv d P (depth, indeg, queue) maxd \<Longrightarrow>
     card (set (dict_keys (nodes d))) \<le> card P + fuel \<Longrightarrow>
     \<exists>r P' depth' indeg'. kahn fuel (fst (chain_tables d)) (depth, indeg, queue) maxd = Some r \<and>
       kahn_inv d P' (depth', indeg', []) r"
proof (induction fuel arbitrary: P depth indeg queue maxd)
  case 0
  show ?case
  proof (cases queue)
    case Nil
    with 0 show ?thesis by auto
  next
    case (Cons c q)
    with 0 have "c \<in> set (dict_keys (nodes d))" "c \<notin> P" "P \<subseteq> set (dict_keys (nodes d))"
      by (auto simp: kahn_inv_def simp del: set_map)
    then have "P \<subset> set (dict_keys (nodes d))" by blast
    then have "card P < card (set (dict_keys (nodes d)))" by (rule psubset_card_mono [rotated]) simp
    with 0 show ?thesis by simp
  qed
next
  case (Suc fuel)
  show ?case
  proof (cases queue)
    case Nil
    with Suc show ?thesis by auto
  next
    case (Cons c q)
    obtain depth' indeg' queue' where rel:
      "relax (depth c) (fst (chain_tables d) c) (depth, indeg, q) = (depth', indeg', queue')"
      by (metis prod_cases3)
    have inv: "kahn_inv d (insert c P) (depth', indeg', queue') (max maxd (depth c))"
      using kahn_inv_step [OF wf] Suc.prems(1) Cons rel by metis
    have "c \<notin> P" "finite P"
      using Suc.prems(1) Cons by (auto simp: kahn_inv_def simp del: set_map intro: finite_subset)
    then have "card (set (dict_keys (nodes d))) \<le> card (insert c P) + fuel"
      using Suc.prems(2) by simp
    from Suc.IH [OF inv this] rel Cons show ?thesis by simp
  qed
qed

section \<open>The result\<close>

lemma chain_depth_run:
  assumes wf: "wf_step_dag d" and ne: "nodes d \<noteq> []"
  shows "\<exists>P depth indeg. chain_depth_fuel (length (nodes d)) d = Some (chain_depth d) \<and>
           kahn_inv d P (depth, indeg, []) (chain_depth d)"
proof -
  have "card (set (dict_keys (nodes d))) \<le> card ({} :: ident set) + length (nodes d)"
    by (metis add_0 card.empty card_length length_map)
  from kahn_terminates_inv [OF wf kahn_inv_init [OF wf ne] this]
  obtain r P depth indeg where run: "kahn (length (nodes d)) (fst (chain_tables d))
      (\<lambda>_. 1, snd (chain_tables d),
        filter (\<lambda>cid. snd (chain_tables d) cid = 0) (dict_keys (nodes d))) 1 = Some r"
    and inv: "kahn_inv d P (depth, indeg, []) r" by blast
  from run ne have "chain_depth_fuel (length (nodes d)) d = Some r"
    by (cases "chain_tables d") (simp add: chain_depth_fuel_def)
  with inv show ?thesis by (auto simp: chain_depth_def)
qed

lemma kahn_inv_done:
  assumes inv: "kahn_inv d P (depth, indeg, []) maxd" and acyc: "acyclic (dep_rel d)"
  shows "P = set (dict_keys (nodes d))"
proof (rule ccontr)
  let ?K = "set (dict_keys (nodes d))"
  assume "P \<noteq> ?K"
  moreover have "P \<subseteq> ?K" using inv by (simp add: kahn_inv_def)
  ultimately obtain k where k: "k \<in> ?K - P" by blast
  have "wf (dep_rel d)" using acyc dep_rel_finite by (simp add: finite_acyclic_wf)
  from wfE_min [OF this k] obtain n where n: "n \<in> ?K - P"
    and min: "\<And>m. (m, n) \<in> dep_rel d \<Longrightarrow> m \<notin> ?K - P" by blast
  have "filter (\<lambda>m. m \<notin> P) (open_deps d n) = []"
    using min by (auto simp: filter_empty_conv dep_rel_def simp del: set_map dest: open_deps_keys)
  then have "indeg n = 0" using inv by (simp add: kahn_inv_def)
  moreover have "\<forall>n \<in> ?K. n \<in> P \<longleftrightarrow> indeg n = 0"
    using inv by (simp add: kahn_inv_def del: set_map)
  ultimately show False using n by blast
qed

lemma is_chain_depth:
  assumes inv: "kahn_inv d (set (dict_keys (nodes d))) (depth, indeg, queue) maxd"
  shows "is_chain d p \<Longrightarrow> length p \<le> depth (last p)"
proof (induction p rule: rev_induct)
  case (snoc n p)
  have n: "n \<in> set (dict_keys (nodes d))" using snoc.prems by (simp add: is_chain_def)
  have "\<exists>q. is_chain d q \<and> last q = n \<and> length q = depth n"
    using inv n by (simp add: kahn_inv_def del: set_map)
  then have one: "1 \<le> depth n" by (metis is_chain_def length_0_conv less_one not_le)
  show ?case
  proof (cases "p = []")
    case True
    with one show ?thesis by simp
  next
    case False
    with snoc.prems have p: "is_chain d p" and e: "last p \<in> set (open_deps d n)"
      by (auto simp: is_chain_def successively_append_iff)
    have "last p \<in> set (dict_keys (nodes d))" using e by (rule open_deps_keys)
    then have "depth (last p) + 1 \<le> depth n"
      using inv e by (simp add: kahn_inv_def del: set_map)
    with snoc.IH [OF p] show ?thesis by simp
  qed
qed (simp add: is_chain_def)

lemma chain_depth_upper:
  assumes "wf_step_dag d" "acyclic (dep_rel d)" "is_chain d p"
  shows "length p \<le> chain_depth d"
proof -
  have ne: "nodes d \<noteq> []" using assms(3) by (cases p) (auto simp: is_chain_def)
  obtain P depth indeg where inv: "kahn_inv d P (depth, indeg, []) (chain_depth d)"
    using chain_depth_run [OF assms(1) ne] by blast
  then have K: "P = set (dict_keys (nodes d))" by (rule kahn_inv_done [OF _ assms(2)])
  have "last p \<in> P" using assms(3) K by (auto simp: is_chain_def simp del: set_map)
  then have "depth (last p) \<le> chain_depth d" using inv by (simp add: kahn_inv_def)
  moreover have "length p \<le> depth (last p)"
    using is_chain_depth inv assms(3) K by blast
  ultimately show ?thesis by simp
qed

lemma chain_depth_attained:
  "wf_step_dag d \<Longrightarrow> nodes d \<noteq> [] \<Longrightarrow> \<exists>p. is_chain d p \<and> length p = chain_depth d"
  using chain_depth_run [of d] by (auto simp: kahn_inv_def)

lemma kahn_fuel_mono:
  "kahn fuel D (depth, indeg, queue) m = Some r \<Longrightarrow> kahn (fuel + k) D (depth, indeg, queue) m = Some r"
proof (induction fuel arbitrary: depth indeg queue m)
  case 0
  then show ?case by (cases queue) auto
next
  case (Suc fuel)
  show ?case
  proof (cases queue)
    case (Cons c q)
    obtain a b e where "relax (depth c) (D c) (depth, indeg, q) = (a, b, e)" by (metis prod_cases3)
    with Suc Cons show ?thesis by (simp add: Let_def)
  qed (use Suc in simp)
qed

lemma chain_depth_enough_fuel:
  assumes "wf_step_dag d" "length (nodes d) \<le> fuel"
  shows "chain_depth_fuel fuel d = Some (chain_depth d)"
proof (cases "nodes d = []")
  case True
  then show ?thesis by (simp add: chain_depth_fuel_def chain_depth_def)
next
  case False
  obtain k where k: "fuel = length (nodes d) + k" using assms(2) le_Suc_ex by blast
  have "chain_depth_fuel (length (nodes d)) d = Some (chain_depth d)"
    using chain_depth_run [OF assms(1) False] by blast
  then show ?thesis
    using False by (auto simp: chain_depth_fuel_def k kahn_fuel_mono split: prod.splits)
qed

lemma chain_depth_positive: "wf_step_dag d \<Longrightarrow> nodes d \<noteq> [] \<Longrightarrow> 0 < chain_depth d"
  using chain_depth_attained [of d] by (metis is_chain_def length_greater_0_conv)

lemma chain_depth_empty: "nodes d = [] \<Longrightarrow> chain_depth d = 0"
  by (simp add: chain_depth_def chain_depth_fuel_def)

section \<open>Progress\<close>

text \<open>Where every dependency of a pending step is a pending or completed node and nothing
  waits for itself, some pending step is ready.\<close>

lemma ready_progress:
  assumes wf: "wf_step_dag d" and acyc: "acyclic (dep_rel d)"
    and deps: "\<And>k n m. dict_get (nodes d) k = Some n \<Longrightarrow> sn_status n = SPending \<Longrightarrow>
      m \<in> set (sn_dependencies n) \<Longrightarrow>
      m \<in> satisfied_ids d \<or> (\<exists>n'. dict_get (nodes d) m = Some n' \<and> sn_status n' \<in> {SPending, SCompleted})"
    and pend: "k \<in> pending_step_ids d"
  shows "ready_steps d \<noteq> {}"
proof -
  have pend_iff: "m \<in> pending_step_ids d \<longleftrightarrow>
      (\<exists>n. dict_get (nodes d) m = Some n \<and> sn_status n = SPending)" for m
    unfolding pending_step_ids_def by (rule ids_with_status_iff [OF wf])
  have "wf (dep_rel d)" using acyc dep_rel_finite by (simp add: finite_acyclic_wf)
  from wfE_min [OF this pend] obtain z where z: "z \<in> pending_step_ids d"
    and min: "\<And>m. (m, z) \<in> dep_rel d \<Longrightarrow> m \<notin> pending_step_ids d" by blast
  from z pend_iff obtain n where n: "dict_get (nodes d) z = Some n" "sn_status n = SPending" by blast
  have "m \<in> satisfied_ids d" if m: "m \<in> set (sn_dependencies n)" for m
  proof (rule ccontr)
    assume un: "m \<notin> satisfied_ids d"
    then obtain n' where n': "dict_get (nodes d) m = Some n'" "sn_status n' \<in> {SPending, SCompleted}"
      using deps [OF n m] by blast
    have "(m, z) \<in> dep_rel d"
      using m n un dict_get_key [OF n'(1)] by (simp add: dep_rel_def open_deps_def del: set_map)
    then have "m \<notin> pending_step_ids d" by (rule min)
    then have "sn_status n' = SCompleted" using n' pend_iff by blast
    then have "m \<in> set (ids_with_status SCompleted d)"
      using n' ids_with_status_iff [OF wf] by blast
    then show False using un satisfied_completed by blast
  qed
  then have "z \<in> ready_steps d" using n ready_steps_iff [OF wf] by blast
  then show ?thesis by blast
qed

section \<open>Properties\<close>

text \<open>\<open>chain_depth\<close> terminates on every well-formed step DAG, cyclic or not: one
  unit of fuel per node is enough for the queue to empty, and more never changes the result.\<close>

theorem chain_depth_terminates:
  assumes "wf_step_dag d" "length (nodes d) \<le> fuel"
  shows "chain_depth_fuel fuel d = Some (chain_depth d)"
  using assms by (rule chain_depth_enough_fuel)

text \<open>A three-step chain with a completed step beside it, for the witnesses.\<close>

definition sample_chain :: step_dag where
  "sample_chain = \<lparr>nodes =
     [(''A-01'', (new_step ''A-01'' ''a'')\<lparr>sn_status := SCompleted\<rparr>),
      (''A-02'', (new_step ''A-02'' ''b'')\<lparr>sn_dependencies := [''A-01'']\<rparr>),
      (''A-03'', (new_step ''A-03'' ''c'')\<lparr>sn_dependencies := [''A-02'', ''A-01'']\<rparr>)]\<rparr>"

lemma sample_chain_wf: "wf_step_dag sample_chain"
  by (auto simp: wf_step_dag_def keyed_by_def wf_dict_def sample_chain_def new_step_def split: if_splits)

theorem chain_depth_terminates_witness: "chain_depth_fuel 3 sample_chain = Some (chain_depth sample_chain)"
  by (rule chain_depth_terminates [OF sample_chain_wf]) (simp add: sample_chain_def)

text \<open>Claim C11. On a step DAG without dependency cycles \<open>chain_depth\<close> is the length of the
  longest chain of steps in which each waits for the one before: some chain has that length and
  none is longer (dependencies already satisfied by completed steps do not count).\<close>

theorem chain_depth_longest:
  assumes "wf_step_dag d" "nodes d \<noteq> []" "acyclic (dep_rel d)"
  shows "(\<exists>p. is_chain d p \<and> length p = chain_depth d) \<and>
         (\<forall>p. is_chain d p \<longrightarrow> length p \<le> chain_depth d)"
  using assms by (blast intro: chain_depth_attained chain_depth_upper)

lemma sample_chain_satisfied: "satisfied_ids sample_chain = {''A-01'', ''01'', ''1''}"
  by (simp add: satisfied_ids_def sample_chain_def new_step_def ids_with_status_def
      expand_dependency_satisfaction_ids_def add_owner_def has_numeric_tail_def id_tail_def
      tail_value_def py_isdigit_def is_digit_def parse_digits_def digit_value_def show_nat.simps
      digit_char_def dict_set_def insert_commute)

lemma sample_chain_deps: "dep_rel sample_chain = {(''A-02'', ''A-03'')}"
  by (auto simp: dep_rel_def open_deps_def sample_chain_satisfied)
    (auto simp: sample_chain_def new_step_def split: if_splits)

theorem chain_depth_longest_witness:
  "\<exists>p. is_chain sample_chain p \<and> length p = chain_depth sample_chain"
proof -
  have "acyclic (dep_rel sample_chain)"
    by (simp add: sample_chain_deps acyclic_insert wf_acyclic)
  then show ?thesis
    using chain_depth_longest [OF sample_chain_wf] by (simp add: sample_chain_def)
qed

end
