(* ===== verification/Step_Progress.thy ===== *)
theory Step_Progress
  imports Step_Chain
begin

text \<open>
  Dispatch of steps: when \<open>ready_steps\<close> is sure to offer something, and the two ways in which
  it does not: a step that depends on a decomposed step, and an alias that a second completed
  step makes ambiguous.
\<close>

text \<open>A completed step satisfies its own id and, when no other completed id ends in the
  same number, the number it ends in, written as in the id or in shortest form; nothing else
  satisfies a dependency.\<close>

theorem dependency_tokens_correct:
  "d \<in> expand_dependency_satisfaction_ids completed \<longleftrightarrow>
     d \<in> set completed \<or>
     (\<exists>own \<in> set completed. has_numeric_tail own \<and>
        (\<forall>s \<in> set completed. has_numeric_tail s \<and> tail_value s = tail_value own \<longrightarrow> s = own) \<and>
        (d = id_tail own \<or> d = show_nat (tail_value own)))"
  unfolding expand_iff sole_owner_def by blast

lemma dependency_tokens_correct_witness:
  "''7'' \<in> expand_dependency_satisfaction_ids [''KFA-07'', ''KFA-08''] \<and>
   ''7'' \<notin> expand_dependency_satisfaction_ids [''KFA-07'', ''QRS-7'']"
  unfolding dependency_tokens_correct
  by (simp add: has_numeric_tail_def id_tail_def tail_value_def py_isdigit_def is_digit_def
      parse_digits_def digit_value_def show_nat.simps digit_char_def)

text \<open>Claim C14. Dispatch progress: on an acyclic step DAG in which every unsatisfied dependency of
  a pending step is itself a pending step, some pending step is ready as long as one is left.\<close>

theorem dispatch_progress:
  assumes wf: "wf_step_dag d" and acyc: "acyclic (dep_rel d)"
    and deps: "\<forall>k n m. dict_get (nodes d) k = Some n \<and> sn_status n = SPending \<and>
      m \<in> set (sn_dependencies n) \<longrightarrow> m \<in> satisfied_ids d \<or> m \<in> pending_step_ids d"
    and pend: "pending_step_ids d \<noteq> {}"
  shows "ready_steps d \<noteq> {}"
proof -
  have pend_iff: "m \<in> pending_step_ids d \<longleftrightarrow>
      (\<exists>n. dict_get (nodes d) m = Some n \<and> sn_status n = SPending)" for m
    unfolding pending_step_ids_def by (rule ids_with_status_iff [OF wf])
  obtain k where k: "k \<in> pending_step_ids d" using pend by blast
  show ?thesis
  proof (rule ready_progress [OF wf acyc _ k])
    fix k n m
    assume "dict_get (nodes d) k = Some n" "sn_status n = SPending" "m \<in> set (sn_dependencies n)"
    with deps have "m \<in> satisfied_ids d \<or> m \<in> pending_step_ids d" by blast
    then show "m \<in> satisfied_ids d \<or>
        (\<exists>n'. dict_get (nodes d) m = Some n' \<and> sn_status n' \<in> {SPending, SCompleted})"
      unfolding pend_iff by blast
  qed
qed

lemma sample_chain_pending: "pending_step_ids sample_chain = {''A-02'', ''A-03''}"
  by (simp add: pending_step_ids_def ids_with_status_def sample_chain_def new_step_def)

lemma dispatch_progress_witness: "ready_steps sample_chain \<noteq> {}"
proof (rule dispatch_progress [OF sample_chain_wf])
  show "acyclic (dep_rel sample_chain)"
    by (simp add: sample_chain_deps acyclic_insert wf_acyclic)
  have "m = ''A-01'' \<or> m = ''A-02''"
    if "dict_get (nodes sample_chain) k = Some n" "m \<in> set (sn_dependencies n)" for k n m
    using that by (simp add: sample_chain_def new_step_def split: if_splits) auto
  then show "\<forall>k n m. dict_get (nodes sample_chain) k = Some n \<and> sn_status n = SPending \<and>
      m \<in> set (sn_dependencies n) \<longrightarrow> m \<in> satisfied_ids sample_chain \<or> m \<in> pending_step_ids sample_chain"
    unfolding sample_chain_satisfied sample_chain_pending by blast
qed (simp add: sample_chain_pending)

text \<open>A decomposed step satisfies no dependency on its own: marking the only provider of
  a dependency as decomposed leaves its dependents unready, and the tree not green, for as long
  as no step of that id (or alias) completes, even when every child of the decomposed step has.\<close>

theorem decomposed_dependency_blocks:
  assumes wf: "wf_step_dag d" and n: "dict_get (nodes d) s = Some n" "sn_status n = SPending" "s \<noteq> k"
    and dep: "k \<in> set (sn_dependencies n)"
    and unaliased: "\<forall>own \<in> completed_step_ids d. own \<noteq> k \<longrightarrow> id_tail own \<noteq> k \<and> show_nat (tail_value own) \<noteq> k"
    and k: "dict_get (nodes d) k \<noteq> None"
  shows "s \<notin> ready_steps (mark_decomposed k d) \<and> \<not> tree_green (mark_decomposed k d)"
proof
  let ?d = "mark_decomposed k d"
  obtain nk where nk: "dict_get (nodes d) k = Some nk" using k by blast
  have wf': "wf_step_dag ?d" by (rule wf_marks [OF wf])
  have get: "dict_get (nodes ?d) j =
      (if j = k then Some (nk\<lparr>sn_status := SDecomposed\<rparr>) else dict_get (nodes d) j)" for j
    by (simp add: mark_decomposed_def nk)
  have comp: "own \<in> completed_step_ids d \<and> own \<noteq> k" if own: "own \<in> set (ids_with_status SCompleted ?d)" for own
  proof -
    obtain m where m: "dict_get (nodes ?d) own = Some m" "sn_status m = SCompleted"
      using own unfolding ids_with_status_iff [OF wf'] by blast
    have "own \<noteq> k"
    proof
      assume "own = k"
      with m(1) have "m = nk\<lparr>sn_status := SDecomposed\<rparr>" by (simp add: get)
      with m(2) show False by simp
    qed
    with m show ?thesis
      by (simp add: get completed_step_ids_def ids_with_status_iff [OF wf])
  qed
  have "k \<notin> satisfied_ids ?d"
    unfolding satisfied_ids_def expand_iff sole_owner_def using comp unaliased by blast
  then show "s \<notin> ready_steps ?d"
    using n dep unfolding ready_steps_iff [OF wf'] get by (simp add: subset_iff) blast
  have "n \<in> set (step_nodes ?d)"
    using n wf_step_dag_get [OF wf n(1)] by (simp add: step_nodes_get [OF wf'] get)
  then show "\<not> tree_green ?d" using n(2) unfolding tree_green_iff by force
qed

lemma decomposed_dependency_blocks_witness:
  "''A-03'' \<notin> ready_steps (mark_decomposed ''A-02'' sample_chain) \<and>
   \<not> tree_green (mark_decomposed ''A-02'' sample_chain)"
proof (rule decomposed_dependency_blocks [OF sample_chain_wf])
  show "dict_get (nodes sample_chain) ''A-03'' =
      Some ((new_step ''A-03'' ''c'')\<lparr>sn_dependencies := [''A-02'', ''A-01'']\<rparr>)"
    by (simp add: sample_chain_def)
  have "completed_step_ids sample_chain = {''A-01''}"
    by (simp add: completed_step_ids_def ids_with_status_def sample_chain_def new_step_def)
  then show "\<forall>own \<in> completed_step_ids sample_chain. own \<noteq> ''A-02'' \<longrightarrow>
      id_tail own \<noteq> ''A-02'' \<and> show_nat (tail_value own) \<noteq> ''A-02''"
    by (simp add: id_tail_def tail_value_def parse_digits_def digit_value_def show_nat.simps digit_char_def)
qed (simp_all add: new_step_def, simp add: sample_chain_def)

text \<open>Completion is not monotone: completing one more step can make a ready step
  unready, because a second completed id with the same number makes the alias ambiguous.\<close>

theorem completion_can_unready:
  "let d = \<lparr>nodes =
       [(''A-01'', (new_step ''A-01'' ''a'')\<lparr>sn_status := SCompleted\<rparr>),
        (''B-01'', new_step ''B-01'' ''b''),
        (''A-02'', (new_step ''A-02'' ''c'')\<lparr>sn_dependencies := [''01'']\<rparr>)]\<rparr>
   in ''A-02'' \<in> ready_steps d \<and> ''A-02'' \<notin> ready_steps (mark_completed ''B-01'' ex d)"
  by (simp add: Let_def ready_steps_def satisfied_ids_def ids_with_status_def mark_completed_def
      modify_step_def dict_modify_def new_step_def expand_dependency_satisfaction_ids_def
      add_owner_def has_numeric_tail_def id_tail_def tail_value_def py_isdigit_def is_digit_def
      parse_digits_def digit_value_def show_nat.simps digit_char_def dict_set_def
      del: set_map set_filter)

end
