(* ===== verification/Work_Queue.thy ===== *)
theory Work_Queue
  imports Loop_Graph Step_Progress
begin

text \<open>
  What the work-queue stations guarantee: DISPATCH claims exactly the ready steps, ROOT_EVAL ends
  a goal only when its tree is done, read-only retries are bounded. And where they do not: the
  wave limit can make DISPATCH and ROOT_EVAL hand the goal to each other for ever, and a step that waits
  for a decomposed one ends its goal as fatal.
\<close>

section \<open>Facts about the stations\<close>

lemma ce_goal_has_ce: "ce_goal x = Some g \<Longrightarrow> has_ce x \<and> (\<exists>d. lx_ce x = Some d \<and> get_goal d (lx_ce_goal_id x) = Some g)"
  by (auto simp: ce_goal_def has_ce_def split: option.splits if_splits)

lemma ground_root_no_plan: "fst (peek_approved_plan x) = None \<Longrightarrow> ground_root hint rid x = x"
  by (auto simp: ground_root_def split: prod.split)

lemma ensure_root_unchanged:
  assumes "ce_goal x = Some g" "nodes (g_steps g) \<noteq> []" "fst (peek_approved_plan x) = None"
  shows "ensure_root_step hint fresh x = x"
proof -
  have "existing_root (g_steps g) \<noteq> None"
    using assms(2) by (auto simp: existing_root_def split: option.split list.split)
  with assms show ?thesis
    by (auto simp: ensure_root_step_def ground_root_no_plan)
qed

lemma failed_nodes_iff: "failed_nodes sd = [] \<longleftrightarrow> failed_step_ids sd = {}"
  unfolding failed_nodes_def failed_step_ids_def ids_with_status_def step_nodes_def
  by (auto simp: filter_empty_conv)

lemma ready_pending:
  assumes "wf_step_dag sd" "sid \<in> ready_steps sd"
  obtains n where "dict_get (nodes sd) sid = Some n" "sn_status n = SPending" "n \<in> set (step_nodes sd)"
proof -
  from assms obtain n where n: "dict_get (nodes sd) sid = Some n" "sn_status n = SPending"
    unfolding ready_steps_iff [OF assms(1)] by blast
  from n(1) have "n \<in> set (step_nodes sd)" unfolding step_nodes_def by (rule dict_get_value)
  with n show thesis by (rule that)
qed

lemma pending_action_not_green:
  "n \<in> set (step_nodes sd) \<Longrightarrow> sn_status n = SPending \<Longrightarrow> sn_kind n \<noteq> KEval \<Longrightarrow> \<not> action_tree_green sd"
  by (auto simp: action_tree_green_def Let_def action_green_iff)

text \<open>The conditions under which DISPATCH and ROOT_EVAL work on a goal as it is.\<close>

definition plain_queue :: "loop_ctx \<Rightarrow> goal_node \<Rightarrow> bool" where
  "plain_queue x g \<longleftrightarrow>
     ce_goal x = Some g \<and> wf_step_dag (g_steps g) \<and> nodes (g_steps g) \<noteq> [] \<and>
     enforce_loop_budget x = None \<and> \<not> lx_resumed x \<and> fst (peek_approved_plan x) = None \<and>
     lx_interaction_mode x \<noteq> Some ''plan'' \<and> lx_interaction_mode x \<noteq> Some ''ask''"

lemma plain_dispatch_idle:
  assumes "plain_queue x g" "dispatch_ready x (g_steps g) = []"
  shows "dispatch_process now hint fresh x = (Inr ((routed ''root_eval'')\<lparr>dsp_max_waves := waves_exhausted x\<rparr>), x)"
proof -
  have x: "x\<lparr>lx_resumed := False\<rparr> = x" using assms(1) by (simp add: plain_queue_def)
  have "ensure_root_step hint fresh x = x"
    using assms(1) by (intro ensure_root_unchanged [where g = g]) (simp_all add: plain_queue_def)
  moreover have "has_ce x" using assms(1) ce_goal_has_ce by (auto simp: plain_queue_def)
  ultimately show ?thesis
    using assms unfolding dispatch_process_def x by (simp add: plain_queue_def)
qed

section \<open>The wave limit\<close>

lemma livelock_dispatch:
  assumes q: "plain_queue x g" and exh: "waves_exhausted x"
    and action: "\<forall>sid \<in> ready_steps (g_steps g). map_option sn_kind (dict_get (nodes (g_steps g)) sid) \<noteq> Some KEval"
  shows "queue_step e (Dispatch, gs, x) = Some (RootEval, gs\<lparr>gs_dispatch_route := Some ''root_eval''\<rparr>, x)"
proof -
  have "finite (ready_steps (g_steps g))" by (simp add: ready_steps_def Let_def)
  then have "dispatch_ready x (g_steps g) = []"
    using exh action by (simp add: dispatch_ready_def filter_empty_conv)
  from plain_dispatch_idle [OF q this] show ?thesis
    by (simp add: routed_def dispatch_post_def str_or_def route_after_dispatch_def)
qed

lemma livelock_root_eval:
  assumes q: "plain_queue x g" and failed: "failed_step_ids (g_steps g) = {}"
    and ready: "sid \<in> ready_steps (g_steps g)"
    and action: "map_option sn_kind (dict_get (nodes (g_steps g)) sid) \<noteq> Some KEval"
    and out: "gs_last_outcome gs \<noteq> Some ''fatal''"
  shows "queue_step e (RootEval, gs, x) = Some (Dispatch, gs\<lparr>gs_root_eval_route := Some ''dispatch''\<rparr>, x)"
proof -
  have wf: "wf_step_dag (g_steps g)" using q by (simp add: plain_queue_def)
  obtain n where n: "dict_get (nodes (g_steps g)) sid = Some n" "sn_status n = SPending" "n \<in> set (step_nodes (g_steps g))"
    by (rule ready_pending [OF wf ready])
  with action have "\<not> action_tree_green (g_steps g)" by (intro pending_action_not_green [of n]) simp_all
  moreover have "ready_steps (g_steps g) \<noteq> {}" using ready by blast
  ultimately have "root_eval_process d f v x = (''dispatch'', x)" for d f v
    using q failed by (simp add: root_eval_process_def plain_queue_def failed_nodes_iff)
  then show ?thesis using out by (simp add: root_eval_post_def str_or_def route_after_root_eval_def)
qed

text \<open>The wave limit livelocks: once the iteration count has reached \<open>max_waves\<close> while an action step
  is ready and nothing has failed, DISPATCH refuses the step and routes to ROOT_EVAL, which sees a
  ready step and routes back to DISPATCH. Neither station changes the goal or the iteration count,
  so that they alternate for ever.\<close>

theorem max_waves_livelock:
  assumes q: "plain_queue x g" and exh: "waves_exhausted x"
    and failed: "failed_step_ids (g_steps g) = {}" and ready: "ready_steps (g_steps g) \<noteq> {}"
    and action: "\<forall>sid \<in> ready_steps (g_steps g). map_option sn_kind (dict_get (nodes (g_steps g)) sid) \<noteq> Some KEval"
    and out: "gs_last_outcome gs \<noteq> Some ''fatal''"
  shows "\<exists>gs'. queue_run e n (Dispatch, gs, x) = Some (if even n then Dispatch else RootEval, gs', x)"
proof -
  obtain sid where sid: "sid \<in> ready_steps (g_steps g)" using ready by blast
  have "\<exists>gs'. queue_run e n (Dispatch, gs, x) = Some (if even n then Dispatch else RootEval, gs', x) \<and>
      gs_last_outcome gs' \<noteq> Some ''fatal''"
  proof (induction n)
    case 0
    then show ?case using out by simp
  next
    case (Suc n)
    then obtain gs' where gs': "queue_run e n (Dispatch, gs, x) = Some (if even n then Dispatch else RootEval, gs', x)"
      "gs_last_outcome gs' \<noteq> Some ''fatal''" by blast
    show ?case
    proof (cases "even n")
      case True
      with gs' show ?thesis by (simp add: livelock_dispatch [OF q exh action] del: queue_step.simps)
    next
      case False
      with gs' livelock_root_eval [OF q failed sid action [rule_format, OF sid] gs'(2)] show ?thesis
        by (simp del: queue_step.simps)
    qed
  qed
  then show ?thesis by blast
qed

section \<open>A step that waits for a decomposed step\<close>

lemma blocked_not_ready:
  assumes wf: "wf_step_dag sd" and n: "dict_get (nodes sd) s = Some n" and dep: "k \<in> set (sn_dependencies n)"
    and status: "map_option sn_status (dict_get (nodes sd) k) \<noteq> Some SCompleted"
    and unaliased: "\<forall>own \<in> completed_step_ids sd. id_tail own \<noteq> k \<and> show_nat (tail_value own) \<noteq> k"
  shows "s \<notin> ready_steps sd"
proof
  assume "s \<in> ready_steps sd"
  with n dep have "k \<in> satisfied_ids sd" unfolding ready_steps_iff [OF wf] by auto
  then have "k \<in> completed_step_ids sd"
    using unaliased unfolding satisfied_ids_def expand_iff sole_owner_def completed_step_ids_def by blast
  then show False using status unfolding completed_step_ids_def ids_with_status_iff [OF wf] by auto
qed

text \<open>A step that waits for a decomposed step ends its goal: when everything else is finished
  (completed, decomposed, superseded or skipped) and one action step waits for a dependency that
  was decomposed rather than completed, DISPATCH finds nothing to do and ROOT_EVAL gives the goal up as
  fatal, although no step failed.\<close>

theorem decomposed_dependency_ends_fatal:
  assumes q: "plain_queue x g"
    and n: "dict_get (nodes (g_steps g)) s = Some n" "sn_status n = SPending" "sn_kind n \<noteq> KEval"
    and dep: "k \<in> set (sn_dependencies n)"
    and k: "map_option sn_status (dict_get (nodes (g_steps g)) k) = Some SDecomposed"
    and unaliased: "\<forall>own \<in> completed_step_ids (g_steps g). id_tail own \<noteq> k \<and> show_nat (tail_value own) \<noteq> k"
    and rest: "\<forall>k' n'. dict_get (nodes (g_steps g)) k' = Some n' \<longrightarrow> k' \<noteq> s \<longrightarrow>
      sn_status n' \<in> {SCompleted, SDecomposed, SSuperseded, SSkipped}"
  shows "\<exists>gs'. queue_run e 2 (Dispatch, gs, x) = Some (Finalize, gs', x) \<and>
     gs_root_eval_route gs' = Some ''fatal'' \<and> gs_last_outcome gs' = Some ''fatal''"
proof -
  let ?sd = "g_steps g"
  have wf: "wf_step_dag ?sd" using q by (simp add: plain_queue_def)
  have "sid \<notin> ready_steps ?sd" for sid
  proof (cases "sid = s")
    case True
    with blocked_not_ready [OF wf n(1) dep _ unaliased] k show ?thesis by simp
  next
    case False
    show ?thesis
    proof
      assume "sid \<in> ready_steps ?sd"
      then obtain m where "dict_get (nodes ?sd) sid = Some m" "sn_status m = SPending"
        by (rule ready_pending [OF wf])
      with rest False show False by fastforce
    qed
  qed
  then have ready: "ready_steps ?sd = {}" by blast
  then have "dispatch_ready x ?sd = []" by (simp add: dispatch_ready_def)
  note idle = plain_dispatch_idle [OF q this]
  let ?gs1 = "gs\<lparr>gs_dispatch_route := Some ''root_eval''\<rparr>"
  have step1: "queue_step (e 0) (Dispatch, gs, x) = Some (RootEval, ?gs1, x)"
    by (simp add: idle routed_def dispatch_post_def str_or_def route_after_dispatch_def)
  have "n \<in> set (step_nodes ?sd)" using n(1) unfolding step_nodes_def by (rule dict_get_value)
  with n(2,3) have green: "\<not> action_tree_green ?sd" by (intro pending_action_not_green)
  have "\<not> (\<exists>k' n'. dict_get (nodes ?sd) k' = Some n' \<and> sn_status n' = SFailed)"
  proof
    assume "\<exists>k' n'. dict_get (nodes ?sd) k' = Some n' \<and> sn_status n' = SFailed"
    then obtain k' n' where f: "dict_get (nodes ?sd) k' = Some n'" "sn_status n' = SFailed" by blast
    with n(1,2) have "k' \<noteq> s" by auto
    with rest f show False by fastforce
  qed
  then have "failed_step_ids ?sd = {}"
    unfolding failed_step_ids_def set_eq_iff ids_with_status_iff [OF wf] by blast
  with q green ready have "root_eval_process d f v x = (''fatal'', x)" for d f v
    by (simp add: root_eval_process_def plain_queue_def failed_nodes_iff)
  then have step2: "queue_step (e 1) (RootEval, ?gs1, x) =
      Some (Finalize, (?gs1\<lparr>gs_root_eval_route := Some ''fatal''\<rparr>)\<lparr>gs_last_outcome := Some ''fatal''\<rparr>, x)"
    by (simp add: root_eval_post_def str_or_def route_after_root_eval_def Let_def)
  show ?thesis
    using step1 step2 by (simp add: numeral_2_eq_2 del: queue_step.simps)
qed

section \<open>What DISPATCH claims\<close>

lemma activate_step_steps:
  assumes "get_goal d gid = Some g"
  shows "\<exists>g'. get_goal (snd (activate_step now gid sid d)) gid = Some g' \<and> g_steps g' = mark_active sid (g_steps g)"
proof (cases "sid \<in> set (dict_keys (nodes (g_steps g)))")
  case True
  then show ?thesis using assms by (simp add: activate_step_def)
next
  case False
  have "mark_active sid (g_steps g) = g_steps g"
    unfolding mark_active_def modify_step_def dict_modify_missing [OF False] by simp
  with False assms show ?thesis by (simp add: activate_step_def)
qed

lemma mark_active_get:
  "dict_get (nodes (mark_active sid sd)) k =
     (if k = sid then map_option (\<lambda>n. if sn_status n = SPending then n\<lparr>sn_status := SActive\<rparr> else n) (dict_get (nodes sd) k)
      else dict_get (nodes sd) k)"
  by (simp add: mark_active_def)

lemma mark_active_attrs:
  assumes "dict_get (nodes (mark_active sid sd)) k = Some n'"
  obtains n where "dict_get (nodes sd) k = Some n" "sn_id n' = sn_id n" "sn_kind n' = sn_kind n"
    "sn_status n' = (if k = sid \<and> sn_status n = SPending then SActive else sn_status n)"
  using assms by (cases "dict_get (nodes sd) k") (auto simp: mark_active_get split: if_splits)

text \<open>A claim list that names existing steps with no \<open>ask_user\<close> step among them.\<close>

definition claimable :: "step_dag \<Rightarrow> ident list \<Rightarrow> bool" where
  "claimable sd sids \<longleftrightarrow>
     (\<forall>sid \<in> set sids. \<exists>n. dict_get (nodes sd) sid = Some n \<and> sn_id n = sid \<and> sn_kind n \<noteq> KAskUser)"

lemma mark_active_keeps:
  assumes "dict_get (nodes sd) k = Some n"
  shows "\<exists>n'. dict_get (nodes (mark_active s sd)) k = Some n' \<and> sn_id n' = sn_id n \<and> sn_kind n' = sn_kind n"
proof (cases "k = s")
  case True
  with assms have "dict_get (nodes sd) s = Some n" by simp
  with True show ?thesis by (cases "sn_status n = SPending") (simp_all add: mark_active_get)
next
  case False
  with assms show ?thesis by (simp add: mark_active_get)
qed

lemma claimable_active:
  assumes "claimable sd sids"
  shows "claimable (mark_active s sd) sids"
  unfolding claimable_def
proof
  fix sid assume "sid \<in> set sids"
  with assms obtain n where n: "dict_get (nodes sd) sid = Some n" "sn_id n = sid" "sn_kind n \<noteq> KAskUser"
    unfolding claimable_def by blast
  with mark_active_keeps [OF n(1), of s]
  show "\<exists>n. dict_get (nodes (mark_active s sd)) sid = Some n \<and> sn_id n = sid \<and> sn_kind n \<noteq> KAskUser" by auto
qed

lemma claim_steps_spec:
  "get_goal d gid = Some g \<Longrightarrow> claimable (g_steps g) sids \<Longrightarrow>
   \<exists>as d' g'. claim_steps now gid sids d = (Inr as, d') \<and> map sa_id as = sids \<and>
     get_goal d' gid = Some g' \<and> g_steps g' = foldl (\<lambda>sd sid. mark_active sid sd) (g_steps g) sids"
proof (induction sids arbitrary: d g)
  case Nil
  then show ?case by simp
next
  case (Cons sid sids)
  let ?d1 = "snd (activate_step now gid sid d)"
  obtain g1 where g1: "get_goal ?d1 gid = Some g1" "g_steps g1 = mark_active sid (g_steps g)"
    using activate_step_steps [OF Cons.prems(1)] by blast
  have cl: "claimable (g_steps g1) (sid # sids)"
    unfolding g1(2) by (rule claimable_active [OF Cons.prems(2)])
  then obtain n where n: "dict_get (nodes (g_steps g1)) sid = Some n" "sn_id n = sid" "sn_kind n \<noteq> KAskUser"
    unfolding claimable_def by auto
  then obtain a where a: "step_action_from_node n = Inr a" "sa_id a = sid"
    by (simp add: step_action_from_node_def)
  from cl have "claimable (g_steps g1) sids" unfolding claimable_def by simp
  from Cons.IH [OF g1(1) this] obtain as d' g' where ih: "claim_steps now gid sids ?d1 = (Inr as, d')"
    "map sa_id as = sids" "get_goal d' gid = Some g'"
    "g_steps g' = foldl (\<lambda>sd sid. mark_active sid sd) (g_steps g1) sids" by blast
  show ?case
    using ih a n(1) g1
    by (intro exI [of _ "a # as"] exI [of _ d'] exI [of _ g']) (simp add: Let_def)
qed

lemma claim_steps_ask_user:
  "get_goal d gid = Some g \<Longrightarrow> \<forall>sid \<in> set sids. dict_get (nodes (g_steps g)) sid \<noteq> None \<Longrightarrow>
   sid \<in> set sids \<Longrightarrow> map_option sn_kind (dict_get (nodes (g_steps g)) sid) = Some KAskUser \<Longrightarrow>
   fst (claim_steps now gid sids d) = Inl (ValueError ''ask_user step requires non-empty questions'')"
proof (induction sids arbitrary: d g)
  case Nil
  then show ?case by simp
next
  case (Cons s sids)
  let ?d1 = "snd (activate_step now gid s d)"
  obtain g1 where g1: "get_goal ?d1 gid = Some g1" "g_steps g1 = mark_active s (g_steps g)"
    using activate_step_steps [OF Cons.prems(1)] by blast
  have kinds: "map_option sn_kind (dict_get (nodes (g_steps g1)) k) = map_option sn_kind (dict_get (nodes (g_steps g)) k)" for k
    unfolding g1(2) mark_active_get by (simp add: option.map_comp comp_def if_distrib [of sn_kind] cong: if_cong)
  have some: "(dict_get (nodes (g_steps g1)) k = None) = (dict_get (nodes (g_steps g)) k = None)" for k
    unfolding g1(2) mark_active_get by simp
  obtain n where n: "dict_get (nodes (g_steps g1)) s = Some n" using Cons.prems(2) some by fastforce
  show ?case
  proof (cases "sn_kind n = KAskUser")
    case True
    then show ?thesis using g1(1) n by (simp add: Let_def step_action_from_node_def)
  next
    case False
    then obtain a where a: "step_action_from_node n = Inr a" by (simp add: step_action_from_node_def)
    have "sid \<noteq> s" using Cons.prems(4) kinds [of s] n False by auto
    with Cons.prems(3) have "sid \<in> set sids" by simp
    moreover have "\<forall>sid \<in> set sids. dict_get (nodes (g_steps g1)) sid \<noteq> None" using Cons.prems(2) some by simp
    ultimately have "fst (claim_steps now gid sids ?d1) = Inl (ValueError ''ask_user step requires non-empty questions'')"
      using Cons.IH [OF g1(1)] Cons.prems(4) kinds by simp
    then show ?thesis
      using g1(1) n a by (cases "claim_steps now gid sids ?d1") (simp add: Let_def)
  qed
qed

lemma mark_active_status:
  "map_option sn_status (dict_get (nodes (mark_active s sd)) k) =
     (if k = s \<and> map_option sn_status (dict_get (nodes sd) k) = Some SPending then Some SActive
      else map_option sn_status (dict_get (nodes sd) k))"
proof (cases "k = s")
  case True
  then show ?thesis by (cases "dict_get (nodes sd) s") (simp_all add: mark_active_get)
next
  case False
  then show ?thesis by (simp add: mark_active_get)
qed

lemma mark_active_list_get:
  "map_option sn_status (dict_get (nodes (foldl (\<lambda>sd sid. mark_active sid sd) sd sids)) k) =
     (if k \<in> set sids \<and> map_option sn_status (dict_get (nodes sd) k) = Some SPending then Some SActive
      else map_option sn_status (dict_get (nodes sd) k))"
proof (induction sids arbitrary: sd)
  case Nil
  then show ?case by simp
next
  case (Cons s sids)
  define st where "st = map_option sn_status (dict_get (nodes sd) k)"
  show ?case unfolding foldl.simps Cons.IH mark_active_status st_def [symmetric] by auto
qed

lemma dispatch_ready_facts:
  assumes "wf_step_dag sd" "sid \<in> set (dispatch_ready x sd)"
  obtains n where "dict_get (nodes sd) sid = Some n" "sn_status n = SPending" "sn_id n = sid"
proof -
  have "finite (ready_steps sd)" by (simp add: ready_steps_def Let_def)
  then have "sid \<in> ready_steps sd" using assms(2) by (auto simp: dispatch_ready_def Let_def split: if_splits)
  then obtain n where n: "dict_get (nodes sd) sid = Some n" "sn_status n = SPending" by (rule ready_pending [OF assms(1)])
  with wf_step_dag_get [OF assms(1)] show thesis by (intro that [of n]) simp_all
qed

lemma plain_dispatch_ready:
  assumes q: "plain_queue x g" and ready: "dispatch_ready x (g_steps g) \<noteq> []"
  shows "dispatch_process now hint fresh x =
     (case claim_steps now (lx_ce_goal_id x) (dispatch_ready x (g_steps g)) (the (lx_ce x)) of
        (Inl e, d) \<Rightarrow> (Inl e, x\<lparr>lx_ce := Some d\<rparr>)
      | (Inr claimed, d) \<Rightarrow>
          (Inr ((routed ''execute'')\<lparr>dsp_claimed := map sa_id claimed\<rparr>), stage_claimed claimed (x\<lparr>lx_ce := Some d\<rparr>)))"
proof -
  have x: "x\<lparr>lx_resumed := False\<rparr> = x" using q by (simp add: plain_queue_def)
  have "ensure_root_step hint fresh x = x"
    using q by (intro ensure_root_unchanged [where g = g]) (simp_all add: plain_queue_def)
  moreover have "has_ce x" using q ce_goal_has_ce by (auto simp: plain_queue_def)
  ultimately show ?thesis
    using q ready unfolding dispatch_process_def x by (simp add: plain_queue_def Let_def)
qed

lemma stage_claimed_goal [simp]: "ce_goal (stage_claimed as x) = ce_goal x"
proof -
  have "lx_ce (stage_claimed as x) = lx_ce x" "lx_ce_goal_id (stage_claimed as x) = lx_ce_goal_id x"
    unfolding stage_claimed_def Let_def by simp_all
  then show ?thesis by (simp only: ce_goal_def)
qed

lemma ce_goal_update:
  "ce_goal x = Some g \<Longrightarrow> get_goal d (lx_ce_goal_id x) = Some g' \<Longrightarrow> ce_goal (x\<lparr>lx_ce := Some d\<rparr>) = Some g'"
  by (auto simp: ce_goal_def split: option.splits if_splits)


text \<open>An \<open>ask_user\<close> step cannot be dispatched: as soon as one is ready, DISPATCH raises the
  validation error of an action without questions, because the action it builds never carries any.\<close>

theorem ask_user_step_raises:
  assumes q: "plain_queue x g" and sid: "sid \<in> set (dispatch_ready x (g_steps g))"
    and kind: "map_option sn_kind (dict_get (nodes (g_steps g)) sid) = Some KAskUser"
  shows "fst (dispatch_process now hint fresh x) = Inl (ValueError ''ask_user step requires non-empty questions'')"
proof -
  let ?ready = "dispatch_ready x (g_steps g)"
  have wf: "wf_step_dag (g_steps g)" and goal: "ce_goal x = Some g" using q by (simp_all add: plain_queue_def)
  from ce_goal_has_ce [OF goal] obtain d where d: "lx_ce x = Some d" "get_goal d (lx_ce_goal_id x) = Some g" by blast
  have "\<forall>sid \<in> set ?ready. dict_get (nodes (g_steps g)) sid \<noteq> None"
  proof
    fix k assume "k \<in> set ?ready"
    then obtain n where "dict_get (nodes (g_steps g)) k = Some n" by (rule dispatch_ready_facts [OF wf])
    then show "dict_get (nodes (g_steps g)) k \<noteq> None" by simp
  qed
  from claim_steps_ask_user [OF d(2) this sid kind, of now]
  obtain d' where c: "claim_steps now (lx_ce_goal_id x) ?ready d = (Inl (ValueError ''ask_user step requires non-empty questions''), d')"
    by (cases "claim_steps now (lx_ce_goal_id x) ?ready d") simp
  have "?ready \<noteq> []" using sid by auto
  then show ?thesis unfolding plain_dispatch_ready [OF q \<open>?ready \<noteq> []\<close>] d(1) option.sel c by simp
qed

section \<open>Samples\<close>

definition sample_ctx :: "int \<Rightarrow> step_dag \<Rightarrow> loop_ctx" where
  "sample_ctx iteration sd =
     \<lparr>lx_ce = Some (goal_with_steps sd), lx_ce_goal_id = ''g1'', lx_iteration = iteration,
      lx_max_iterations = 99, lx_resumed = False, lx_rate_limit_errors = 0, lx_interaction_mode = Some ''agent'',
      lx_intake_label = Some LblComplex, lx_user_submission = None, lx_goal = ''goal'',
      lx_task_short_description = None, lx_task_complexity = None, lx_approved_plan = (None, None),
      lx_current_decision = None, lx_plan_id = None, lx_plan_result = None, lx_proposal_sinks = [],
      lx_auto_fallback = None,
      lx_config = \<lparr>lc_decompose = Some default_decompose_config, lc_max_eval_rounds = 10,
                   lc_max_step_retries = 2, lc_rate_limit_threshold = 3\<rparr>\<rparr>"

definition sample_goal :: "step_dag \<Rightarrow> goal_node" where
  "sample_goal sd = (new_goal ''g1'' ''goal'' 0)\<lparr>g_steps := sd\<rparr>"

lemma sample_ctx_goal: "ce_goal (sample_ctx it sd) = Some (sample_goal sd)"
  by (simp add: sample_ctx_def sample_goal_def ce_goal_def goal_with_steps_def get_goal_def)

lemma sample_plain_queue:
  "wf_step_dag sd \<Longrightarrow> nodes sd \<noteq> [] \<Longrightarrow> it < 99 \<Longrightarrow> plain_queue (sample_ctx it sd) (sample_goal sd)"
  by (simp add: plain_queue_def sample_ctx_goal)
    (simp add: sample_ctx_def sample_goal_def enforce_loop_budget_def peek_approved_plan_def)

definition steps_of :: "step_node list \<Rightarrow> step_dag" where
  "steps_of ns = \<lparr>nodes = map (\<lambda>n. (sn_id n, n)) ns\<rparr>"

lemma wf_steps_of: "distinct (map sn_id ns) \<Longrightarrow> wf_step_dag (steps_of ns)"
  by (auto simp: wf_step_dag_def steps_of_def keyed_by_def wf_dict_def comp_def dest: map_of_SomeD)

definition sample_env :: queue_env where
  "sample_env = \<lparr>qe_now = 1, qe_fresh = ''NEW'', qe_hint = [], qe_envelope = (\<lambda>t ns. t),
     qe_decide = (\<lambda>_. True), qe_set_order = id\<rparr>"

lemma sample_ready: "ready_steps (steps_of [new_step ''P-01'' ''work'']) = {''P-01''}"
  by (simp add: ready_steps_def steps_of_def new_step_def)

lemma max_waves_livelock_witness:
  "\<exists>gs'. queue_run (\<lambda>_. sample_env) 1000 (Dispatch, empty_graph_state, sample_ctx 10 (steps_of [new_step ''P-01'' ''work''])) =
     Some (Dispatch, gs', sample_ctx 10 (steps_of [new_step ''P-01'' ''work'']))"
proof -
  let ?sd = "steps_of [new_step ''P-01'' ''work'']" and ?x = "sample_ctx 10 (steps_of [new_step ''P-01'' ''work''])"
  have "plain_queue ?x (sample_goal ?sd)"
    by (rule sample_plain_queue) (simp_all add: wf_steps_of, simp add: steps_of_def)
  moreover have "waves_exhausted ?x"
    by (simp add: waves_exhausted_def sample_ctx_def default_decompose_config_def positive_config_int_def)
  moreover have "g_steps (sample_goal ?sd) = ?sd" by (simp add: sample_goal_def)
  moreover have "failed_step_ids ?sd = {}" by (simp add: failed_step_ids_def ids_with_status_def steps_of_def new_step_def)
  moreover have "map_option sn_kind (dict_get (nodes ?sd) ''P-01'') \<noteq> Some KEval" by (simp add: steps_of_def new_step_def)
  moreover have "gs_last_outcome empty_graph_state \<noteq> Some ''fatal''" by (simp add: empty_graph_state_def)
  ultimately show ?thesis
    using max_waves_livelock [of ?x "sample_goal ?sd" empty_graph_state "\<lambda>_. sample_env" 1000]
    by (simp add: sample_ready)
qed

definition waiting_steps :: step_dag where
  "waiting_steps = steps_of
     [(new_step ''P-01'' ''build'')\<lparr>sn_status := SDecomposed\<rparr>,
      (new_step ''Q-03'' ''compile'')\<lparr>sn_status := SCompleted, sn_parent_step_id := Some ''P-01''\<rparr>,
      (new_step ''P-02'' ''deploy'')\<lparr>sn_dependencies := [''P-01'']\<rparr>]"

lemma wf_waiting: "wf_step_dag waiting_steps" "nodes waiting_steps \<noteq> []"
  unfolding waiting_steps_def by (rule wf_steps_of) (simp_all add: new_step_def steps_of_def)

lemma decomposed_dependency_ends_fatal_witness:
  "\<exists>gs'. queue_run (\<lambda>_. sample_env) 2 (Dispatch, empty_graph_state, sample_ctx 3 waiting_steps) =
     Some (Finalize, gs', sample_ctx 3 waiting_steps) \<and> gs_last_outcome gs' = Some ''fatal''"
proof -
  let ?x = "sample_ctx 3 waiting_steps" and ?g = "sample_goal waiting_steps"
  have sd: "g_steps ?g = waiting_steps" by (simp add: sample_goal_def)
  have q: "plain_queue ?x ?g" by (rule sample_plain_queue [OF wf_waiting]) simp
  have get: "dict_get (nodes (g_steps ?g)) k =
      (if k = ''P-01'' then Some ((new_step ''P-01'' ''build'')\<lparr>sn_status := SDecomposed\<rparr>)
       else if k = ''Q-03'' then Some ((new_step ''Q-03'' ''compile'')\<lparr>sn_status := SCompleted, sn_parent_step_id := Some ''P-01''\<rparr>)
       else if k = ''P-02'' then Some ((new_step ''P-02'' ''deploy'')\<lparr>sn_dependencies := [''P-01'']\<rparr>) else None)" for k
    unfolding sd by (simp add: waiting_steps_def steps_of_def new_step_def)
  have comp: "completed_step_ids (g_steps ?g) = {''Q-03''}"
    unfolding sd by (simp add: completed_step_ids_def ids_with_status_def waiting_steps_def steps_of_def new_step_def)
  have "\<exists>gs'. queue_run (\<lambda>_. sample_env) 2 (Dispatch, empty_graph_state, ?x) = Some (Finalize, gs', ?x) \<and>
     gs_root_eval_route gs' = Some ''fatal'' \<and> gs_last_outcome gs' = Some ''fatal''"
  proof (rule decomposed_dependency_ends_fatal [OF q, where s = "''P-02''" and k = "''P-01''"
        and n = "(new_step ''P-02'' ''deploy'')\<lparr>sn_dependencies := [''P-01'']\<rparr>"])
    show "\<forall>own \<in> completed_step_ids (g_steps ?g). id_tail own \<noteq> ''P-01'' \<and> show_nat (tail_value own) \<noteq> ''P-01''"
      unfolding comp by (simp add: id_tail_def tail_value_def parse_digits_def digit_value_def show_nat.simps digit_char_def)
    show "\<forall>k' n'. dict_get (nodes (g_steps ?g)) k' = Some n' \<longrightarrow> k' \<noteq> ''P-02'' \<longrightarrow>
        sn_status n' \<in> {SCompleted, SDecomposed, SSuperseded, SSkipped}"
      by (intro allI impI) (simp add: get split: if_splits, auto)
  qed (simp_all add: get, simp_all add: new_step_def)
  then show ?thesis by blast
qed


lemma ask_user_step_raises_witness:
  "fst (dispatch_process 1 [] ''NEW'' (sample_ctx 0 (steps_of [(new_step ''P-01'' ''which?'')\<lparr>sn_kind := KAskUser\<rparr>]))) =
     Inl (ValueError ''ask_user step requires non-empty questions'')"
proof -
  let ?sd = "steps_of [(new_step ''P-01'' ''which?'')\<lparr>sn_kind := KAskUser\<rparr>]"
  have q: "plain_queue (sample_ctx 0 ?sd) (sample_goal ?sd)"
    by (rule sample_plain_queue) (simp_all add: wf_steps_of, simp add: steps_of_def)
  have "ready_steps ?sd = {''P-01''}" by (simp add: ready_steps_def steps_of_def new_step_def)
  then have "''P-01'' \<in> set (dispatch_ready (sample_ctx 0 ?sd) (g_steps (sample_goal ?sd)))"
    by (simp add: dispatch_ready_def sample_goal_def waves_exhausted_def sample_ctx_def
        default_decompose_config_def positive_config_int_def)
  moreover have "map_option sn_kind (dict_get (nodes (g_steps (sample_goal ?sd))) ''P-01'') = Some KAskUser"
    by (simp add: sample_goal_def steps_of_def new_step_def)
  ultimately show ?thesis by (rule ask_user_step_raises [OF q])
qed

end
