(* ===== verification/Root_Eval.thy ===== *)
theory Root_Eval
  imports Work_Queue
begin

text \<open>
  The gate at the end of a goal (\<open>sloop/stations/decompose/root_eval.py\<close>): when ROOT_EVAL lets a goal
  finish, how often it retries in the read-only modes and how many Eval rounds it inserts; and
  how RECONCILE closes an Eval step whose proposals were rejected.
\<close>

section \<open>When a goal may finish\<close>

lemma ce_goal_cong: "lx_ce x = lx_ce y \<Longrightarrow> lx_ce_goal_id x = lx_ce_goal_id y \<Longrightarrow> ce_goal x = ce_goal y"
  by (simp only: ce_goal_def)

lemma on_steps_goal:
  "ce_goal x = Some g \<Longrightarrow> ce_goal (on_steps f x) = Some (g\<lparr>g_steps := f (g_steps g)\<rparr>)"
  by (auto simp: ce_goal_def on_steps_def modify_steps_def split: option.splits if_splits)

lemma insert_eval_not_finalize: "fst (insert_eval fresh envelope g x) \<noteq> ''finalize''"
  by (simp add: insert_eval_def Let_def)

lemma action_tree_green_iff:
  "action_tree_green sd \<longleftrightarrow>
     (\<exists>n \<in> set (step_nodes sd). sn_kind n \<noteq> KEval) \<and>
     (\<forall>n \<in> set (step_nodes sd). sn_kind n \<noteq> KEval \<longrightarrow> sn_status n \<in> {SCompleted, SDecomposed, SSuperseded, SSkipped})"
  by (auto simp: action_tree_green_def Let_def action_green_iff filter_empty_conv)


section \<open>Read-only retries\<close>

lemma reset_failed_get:
  "dict_get (nodes (snd (reset_failed_step sid sd))) k =
     map_option (\<lambda>n. if k = sid \<and> sn_status n = SFailed then n\<lparr>sn_status := SPending, sn_execution := None\<rparr> else n)
       (dict_get (nodes sd) k)"
proof (cases "dict_get (nodes sd) sid")
  case None
  then show ?thesis by (cases "k = sid") (simp_all add: reset_failed_step_def option.map_ident)
next
  case (Some n)
  then show ?thesis
    by (cases "k = sid"; cases "sn_status n = SFailed") (simp_all add: reset_failed_step_def option.map_ident)
qed

definition retried :: "step_node \<Rightarrow> step_node" where
  "retried n = n\<lparr>sn_status := SPending, sn_execution := None, sn_retry_count := sn_retry_count n + 1\<rparr>"

lemma retry_step_get:
  assumes "dict_get (nodes sd) sid = Some n" "sn_status n = SFailed"
  shows "dict_get (nodes (retry_step sid sd)) k = (if k = sid then Some (retried n) else dict_get (nodes sd) k)"
  using assms by (simp add: retry_step_def reset_failed_get retried_def option.map_ident)

lemma retry_steps_get:
  "distinct (map sn_id ns) \<Longrightarrow>
   \<forall>n \<in> set ns. dict_get (nodes sd) (sn_id n) = Some n \<and> sn_status n = SFailed \<Longrightarrow>
   dict_get (nodes (foldl (\<lambda>sd n. retry_step (sn_id n) sd) sd ns)) k =
     (if k \<in> set (map sn_id ns) then map_option retried (dict_get (nodes sd) k) else dict_get (nodes sd) k)"
proof (induction ns arbitrary: sd)
  case Nil
  then show ?case by simp
next
  case (Cons m ns)
  let ?sd = "retry_step (sn_id m) sd"
  have m: "dict_get (nodes sd) (sn_id m) = Some m" "sn_status m = SFailed" using Cons.prems(2) by simp_all
  have new: "sn_id m \<notin> set (map sn_id ns)" using Cons.prems(1) by simp
  have "dict_get (nodes ?sd) (sn_id n) = Some n \<and> sn_status n = SFailed" if n: "n \<in> set ns" for n
  proof -
    have "sn_id n \<noteq> sn_id m" using new n by (metis image_eqI set_map)
    then show ?thesis using Cons.prems(2) n by (simp add: retry_step_get [OF m])
  qed
  then have IH: "dict_get (nodes (foldl (\<lambda>sd n. retry_step (sn_id n) sd) ?sd ns)) k =
      (if k \<in> set (map sn_id ns) then map_option retried (dict_get (nodes ?sd) k) else dict_get (nodes ?sd) k)"
    using Cons.IH [of ?sd] Cons.prems(1) by simp
  show ?case
  proof (cases "k = sn_id m")
    case True
    with IH new m show ?thesis by (simp add: retry_step_get [OF m])
  next
    case False
    with IH show ?thesis by (simp add: retry_step_get [OF m])
  qed
qed

lemma retryable_facts:
  assumes "wf_step_dag sd"
  shows "distinct (map sn_id (retryable m sd))"
    "n \<in> set (retryable m sd) \<longleftrightarrow> dict_get (nodes sd) (sn_id n) = Some n \<and> sn_status n = SFailed \<and> sn_retry_count n < m"
proof -
  have "map sn_id (step_nodes sd) = dict_keys (nodes sd)"
    using assms unfolding step_nodes_def wf_step_dag_def by (rule keyed_by_keys)
  then have "distinct (map sn_id (step_nodes sd))"
    using wf_step_dag_dict [OF assms] by (simp add: wf_dict_def)
  then show "distinct (map sn_id (retryable m sd))"
    unfolding retryable_def failed_nodes_def by (simp add: distinct_map_filter)
  show "n \<in> set (retryable m sd) \<longleftrightarrow> dict_get (nodes sd) (sn_id n) = Some n \<and> sn_status n = SFailed \<and> sn_retry_count n < m"
    unfolding retryable_def failed_nodes_def using step_nodes_get [OF assms, of n] by auto
qed

text \<open>Claim C39. Read-only retries are bounded: in the modes \<open>plan\<close> and \<open>ask\<close> ROOT_EVAL routes back to DISPATCH only by
  resetting each failed step that has used fewer than \<open>max_step_retries\<close> retries, counting the
  retry and changing no other step; once no failed step has a retry left it finalizes, failed
  steps and all.\<close>

theorem readonly_retry_bounded:
  assumes goal: "ce_goal x = Some g" and wf: "wf_step_dag (g_steps g)"
    and mode: "lx_interaction_mode x \<in> {Some ''plan'', Some ''ask''}"
    and run: "root_eval_process decide fresh envelope x = (route, x')"
  shows "(route = ''finalize'' \<and> x' = x \<and>
       (\<forall>n \<in> set (step_nodes (g_steps g)). sn_status n = SFailed \<longrightarrow>
          lc_max_step_retries (lx_config x) \<le> 0 \<or> sn_retry_count n \<ge> lc_max_step_retries (lx_config x))) \<or>
     (route = ''dispatch'' \<and>
       (\<exists>g'. ce_goal x' = Some g' \<and>
          (\<exists>n \<in> set (step_nodes (g_steps g)). sn_status n = SFailed \<and> sn_retry_count n < lc_max_step_retries (lx_config x)) \<and>
          (\<forall>k n. dict_get (nodes (g_steps g)) k = Some n \<longrightarrow>
             dict_get (nodes (g_steps g')) k =
               Some (if sn_status n = SFailed \<and> sn_retry_count n < lc_max_step_retries (lx_config x)
                     then n\<lparr>sn_status := SPending, sn_execution := None, sn_retry_count := sn_retry_count n + 1\<rparr>
                     else n))))"
proof -
  let ?sd = "g_steps g" and ?m = "lc_max_step_retries (lx_config x)"
  have run': "(case try_readonly_retry x ?sd of Some r \<Rightarrow> r | None \<Rightarrow> (''finalize'', x)) = (route, x')"
    using run goal mode by (auto simp: root_eval_process_def)
  show ?thesis
  proof (cases "?m \<le> 0 \<or> retryable ?m ?sd = []")
    case True
    then have "try_readonly_retry x ?sd = None" by (auto simp: try_readonly_retry_def Let_def)
    with run' have "route = ''finalize''" "x' = x" by simp_all
    moreover have "?m \<le> 0 \<or> sn_retry_count n \<ge> ?m" if "n \<in> set (step_nodes ?sd)" "sn_status n = SFailed" for n
      using True that by (auto simp: retryable_def failed_nodes_def filter_empty_conv)
    ultimately show ?thesis by blast
  next
    case False
    let ?f = "\<lambda>sd. foldl (\<lambda>sd n. retry_step (sn_id n) sd) sd (retryable ?m ?sd)"
    have "try_readonly_retry x ?sd = Some (''dispatch'', on_steps ?f x)"
      using False by (simp add: try_readonly_retry_def Let_def)
    with run' have r: "route = ''dispatch''" "x' = on_steps ?f x" by simp_all
    note facts = retryable_facts [OF wf, where m = "?m"]
    have get: "dict_get (nodes (?f ?sd)) k =
        (if k \<in> set (map sn_id (retryable ?m ?sd)) then map_option retried (dict_get (nodes ?sd) k) else dict_get (nodes ?sd) k)" for k
      by (rule retry_steps_get [OF facts(1)]) (simp add: facts(2))
    have "dict_get (nodes (?f ?sd)) k = Some (if sn_status n = SFailed \<and> sn_retry_count n < ?m then retried n else n)"
      if n: "dict_get (nodes ?sd) k = Some n" for k n
    proof -
      have id: "sn_id n = k" by (rule wf_step_dag_get [OF wf n])
      have "k \<in> set (map sn_id (retryable ?m ?sd)) \<longleftrightarrow> n \<in> set (retryable ?m ?sd)"
      proof
        assume "k \<in> set (map sn_id (retryable ?m ?sd))"
        then obtain n' where "n' \<in> set (retryable ?m ?sd)" "sn_id n' = k" by auto
        with facts(2) [of n'] n show "n \<in> set (retryable ?m ?sd)" by simp
      next
        assume "n \<in> set (retryable ?m ?sd)"
        then show "k \<in> set (map sn_id (retryable ?m ?sd))" using id by (metis image_eqI set_map)
      qed
      then show ?thesis unfolding get using n id facts(2) [of n] by simp
    qed
    moreover have "ce_goal x' = Some (g\<lparr>g_steps := ?f ?sd\<rparr>)" unfolding r(2) by (rule on_steps_goal [OF goal])
    moreover obtain n where "n \<in> set (retryable ?m ?sd)" using False by (cases "retryable ?m ?sd") auto
    moreover have "n \<in> set (step_nodes ?sd) \<and> sn_status n = SFailed \<and> sn_retry_count n < ?m"
      using \<open>n \<in> set (retryable ?m ?sd)\<close> by (auto simp: retryable_def failed_nodes_def)
    ultimately show ?thesis using r(1) unfolding retried_def by (intro disjI2 conjI exI [of _ "g\<lparr>g_steps := ?f ?sd\<rparr>"]) auto
  qed
qed

section \<open>Eval rounds\<close>

lemma eval_rounds_modify:
  assumes "\<forall>n. sn_kind (f n) = sn_kind n"
  shows "eval_rounds (modify_step sid f sd) = eval_rounds sd"
proof -
  have "length (filter (\<lambda>n. sn_kind n = KEval) (dict_values (dict_modify sid f ns))) =
      length (filter (\<lambda>n. sn_kind n = KEval) (dict_values ns))" for ns
    using assms unfolding dict_modify_def by (induction ns) (auto split: prod.splits if_splits)
  then show ?thesis by (simp add: eval_rounds_def step_nodes_def modify_step_def)
qed

lemma eval_rounds_reset: "eval_rounds (snd (reset_failed_step sid sd)) = eval_rounds sd"
  by (simp add: reset_failed_step_def eval_rounds_modify split: option.split)

lemma eval_rounds_retry: "eval_rounds (retry_step sid sd) = eval_rounds sd"
  by (simp add: retry_step_def eval_rounds_modify eval_rounds_reset)

lemma eval_rounds_fold:
  "\<forall>n sd. eval_rounds (f n sd) = eval_rounds sd \<Longrightarrow> eval_rounds (foldl (\<lambda>sd n. f n sd) sd ns) = eval_rounds sd"
  by (induction ns arbitrary: sd) simp_all

lemma eval_rounds_add: "eval_rounds (add_step n sd) \<le> eval_rounds sd + 1"
proof -
  have "length (filter (\<lambda>n. sn_kind n = KEval) (dict_values (dict_set k n ns))) \<le>
      length (filter (\<lambda>n. sn_kind n = KEval) (dict_values ns)) + 1" for k ns
    unfolding dict_set_def by (induction ns) (auto simp: le_SucI)
  then show ?thesis by (simp add: eval_rounds_def step_nodes_def add_step_def)
qed

text \<open>The number of Eval steps is bounded: whatever ROOT_EVAL does to a goal with at most
  \<open>max_eval_rounds\<close> Eval steps leaves it with at most that many.\<close>

theorem eval_rounds_bounded:
  assumes goal: "ce_goal x = Some g"
    and bound: "int (eval_rounds (g_steps g)) \<le> positive_config_int (lc_max_eval_rounds (lx_config x)) 10 1"
    and run: "root_eval_process decide fresh envelope x = (route, x')"
  shows "\<exists>g'. ce_goal x' = Some g' \<and>
     int (eval_rounds (g_steps g')) \<le> positive_config_int (lc_max_eval_rounds (lx_config x)) 10 1"
proof -
  let ?max = "positive_config_int (lc_max_eval_rounds (lx_config x)) 10 1"
  have same: ?thesis if "x' = x" using that goal bound by blast
  have kept: "\<exists>g'. ce_goal (on_steps f y) = Some g' \<and> int (eval_rounds (g_steps g')) \<le> ?max"
    if f: "\<forall>sd. eval_rounds (f sd) = eval_rounds sd" and y: "ce_goal y = Some g" for f y
    using on_steps_goal [OF y, of f] f bound by simp
  have retry: ?thesis if h: "try_readonly_retry x (g_steps g) = Some (route, x')"
  proof -
    from h have x': "x' = on_steps (\<lambda>sd. foldl (\<lambda>sd n. retry_step (sn_id n) sd) sd
        (retryable (lc_max_step_retries (lx_config x)) (g_steps g))) x"
      by (auto simp: try_readonly_retry_def Let_def split: if_splits)
    show ?thesis unfolding x'
      by (rule kept [OF _ goal]) (intro allI eval_rounds_fold, simp add: eval_rounds_retry)
  qed
  have auto_case: ?thesis if h: "try_auto_to_manual x (g_steps g) = Some (route, x')"
  proof -
    have y: "ce_goal (x\<lparr>lx_auto_fallback := None\<rparr>) = Some g"
      using ce_goal_cong [of "x\<lparr>lx_auto_fallback := None\<rparr>" x] goal by simp
    from h have x': "x' = on_steps (\<lambda>sd. foldl (\<lambda>sd n. snd (reset_failed_step (sn_id n) sd)) sd
        (failed_nodes (g_steps g))) (x\<lparr>lx_auto_fallback := None\<rparr>)"
      by (auto simp: try_auto_to_manual_def split: if_splits option.splits)
    show ?thesis unfolding x'
      by (rule kept [OF _ y]) (intro allI eval_rounds_fold, simp add: eval_rounds_reset)
  qed
  have insert: ?thesis if h: "insert_eval fresh envelope g x = (route, x')"
  proof (cases "int (eval_rounds (g_steps g)) \<ge> ?max")
    case True
    with h have "x' = x" by (simp add: insert_eval_def Let_def)
    then show ?thesis by (rule same)
  next
    case False
    define n where "n = eval_step fresh envelope (str_or (resolve_user_request x) (g_description g))
      (eval_rounds (g_steps g)) (g_steps g)"
    from h False have x': "x' = on_steps (add_step n) x" by (simp add: insert_eval_def Let_def n_def)
    show ?thesis
      using on_steps_goal [OF goal, of "add_step n"] eval_rounds_add [of n "g_steps g"] False
      unfolding x' by (intro exI [of _ "g\<lparr>g_steps := add_step n (g_steps g)\<rparr>"]) simp
  qed
  from run goal consider "x' = x" | "try_readonly_retry x (g_steps g) = Some (route, x')"
    | "try_auto_to_manual x (g_steps g) = Some (route, x')" | "insert_eval fresh envelope g x = (route, x')"
    by (auto simp: root_eval_process_def Let_def split: if_splits option.splits)
  then show ?thesis using same retry auto_case insert by cases blast+
qed

section \<open>Samples\<close>

definition done_steps :: step_dag where
  "done_steps = steps_of [(new_step ''P-01'' ''work'')\<lparr>sn_status := SCompleted\<rparr>]"

lemma done_goal: "ce_goal (sample_ctx 1 done_steps) = Some (sample_goal done_steps)"
  by (rule sample_ctx_goal)


definition failed_steps_sample :: step_dag where
  "failed_steps_sample = steps_of [(new_step ''P-01'' ''work'')\<lparr>sn_status := SFailed, sn_retry_count := 1\<rparr>]"

definition plan_ctx :: loop_ctx where
  "plan_ctx = (sample_ctx 1 failed_steps_sample)\<lparr>lx_interaction_mode := Some ''plan''\<rparr>"

lemma plan_ctx_goal: "ce_goal plan_ctx = Some (sample_goal failed_steps_sample)"
proof -
  have "ce_goal plan_ctx = ce_goal (sample_ctx 1 failed_steps_sample)"
    unfolding plan_ctx_def by (rule ce_goal_cong) simp_all
  then show ?thesis by (simp add: sample_ctx_goal)
qed

lemma readonly_retry_bounded_witness:
  "fst (root_eval_process (\<lambda>_. True) ''NEW'' (\<lambda>t ns. t) plan_ctx) = ''dispatch''"
proof -
  obtain route x' where run: "root_eval_process (\<lambda>_. True) ''NEW'' (\<lambda>t ns. t) plan_ctx = (route, x')"
    by (rule prod.exhaust)
  have wf: "wf_step_dag (g_steps (sample_goal failed_steps_sample))"
    unfolding sample_goal_def failed_steps_sample_def by (simp add: wf_steps_of)
  have mode: "lx_interaction_mode plan_ctx \<in> {Some ''plan'', Some ''ask''}" by (simp add: plan_ctx_def)
  have "\<exists>n \<in> set (step_nodes (g_steps (sample_goal failed_steps_sample))).
      sn_status n = SFailed \<and> \<not> (lc_max_step_retries (lx_config plan_ctx) \<le> 0 \<or>
        sn_retry_count n \<ge> lc_max_step_retries (lx_config plan_ctx))"
    by (simp add: sample_goal_def failed_steps_sample_def steps_of_def step_nodes_def plan_ctx_def sample_ctx_def new_step_def)
  with readonly_retry_bounded [OF plan_ctx_goal wf mode run] have "route = ''dispatch''" by blast
  with run show ?thesis by simp
qed

lemma eval_rounds_bounded_witness:
  "\<exists>g'. ce_goal (snd (root_eval_process (\<lambda>_. True) ''NEW'' (\<lambda>t ns. t) (sample_ctx 1 done_steps))) = Some g' \<and>
     eval_rounds (g_steps g') \<le> 10"
proof -
  obtain route x' where run: "root_eval_process (\<lambda>_. True) ''NEW'' (\<lambda>t ns. t) (sample_ctx 1 done_steps) = (route, x')"
    by (rule prod.exhaust)
  have "int (eval_rounds (g_steps (sample_goal done_steps))) \<le>
      positive_config_int (lc_max_eval_rounds (lx_config (sample_ctx 1 done_steps))) 10 1"
    by (simp add: sample_goal_def done_steps_def steps_of_def eval_rounds_def step_nodes_def sample_ctx_def
        positive_config_int_def new_step_def)
  from eval_rounds_bounded [OF done_goal this run] obtain g' where "ce_goal x' = Some g'"
    "int (eval_rounds (g_steps g')) \<le> positive_config_int (lc_max_eval_rounds (lx_config (sample_ctx 1 done_steps))) 10 1"
    by blast
  with run show ?thesis by (simp add: sample_ctx_def positive_config_int_def)
qed

section \<open>A failed Eval step\<close>

definition eval_failed_steps :: step_dag where
  "eval_failed_steps = steps_of
     [(new_step ''P-01'' ''work'')\<lparr>sn_status := SCompleted\<rparr>,
      (new_step ''Q-EVAL'' ''Evaluate'')\<lparr>sn_status := SFailed, sn_kind := KEval, sn_parent_step_id := Some ''P-01''\<rparr>]"

definition queue_outcome :: "queue_config option \<Rightarrow> (station \<times> string option \<times> string option) option" where
  "queue_outcome c = map_option (\<lambda>(st, gs, _). (st, gs_root_eval_route gs, gs_last_outcome gs)) c"

definition eval_failed_ctx :: "decomposition_proposal list \<Rightarrow> loop_ctx" where
  "eval_failed_ctx ps = (sample_ctx 2 eval_failed_steps)\<lparr>lx_proposal_sinks := [ps]\<rparr>"

text \<open>A failed Eval step is turned into a completed one: when an Eval step fails after it queued a
  proposal, RECONCILE rejects the proposal because of the status of its parent, and then closes that
  parent as completed with full coverage, so that ROOT_EVAL finalizes the goal. The same goal without
  the proposal ends as fatal.\<close>

theorem failed_eval_with_proposal_finalizes:
  "queue_outcome (queue_run (\<lambda>_. sample_env) 2 (Reconcile, empty_graph_state, eval_failed_ctx
      [\<lparr>dp_parent_step_id = ''Q-EVAL'', dp_subtasks = [subtask ''fix the gap'' None], dp_wave_seq = 1\<rparr>]))
     = Some (Finalize, Some ''finalize'', None) \<and>
   queue_outcome (queue_run (\<lambda>_. sample_env) 2 (Reconcile, empty_graph_state, eval_failed_ctx []))
     = Some (Finalize, Some ''fatal'', Some ''fatal'')"
  by code_simp

end
