(* ===== verification/Completion.thy ===== *)
theory Completion
  imports Goal_Dag
begin

text \<open>
  \<open>context/planning_completion.py\<close> and \<open>context/planning_step_planner.py\<close>: how a finished
  goal is answered (from its ledger, or by a synthesis call), and the step-level bookkeeping
  of a plan. A success rate is a rational number. The last message of the ledger, which the
  planner reads from the loop state, is an argument.
\<close>

section \<open>The completion rules\<close>

record completion_rules =
  cr_dag_dependency_threshold :: nat
  cr_low_success_rate_threshold :: rat
  cr_simple_ledger_direct_max_steps :: nat
  cr_ledger_direct_max_tool_calls :: nat

definition default_rules :: completion_rules where
  "default_rules =
     \<lparr>cr_dag_dependency_threshold = 3, cr_low_success_rate_threshold = 6 / 10,
      cr_simple_ledger_direct_max_steps = 1, cr_ledger_direct_max_tool_calls = 50\<rparr>"

definition rules_or_default :: "completion_rules option \<Rightarrow> completion_rules" where
  "rules_or_default r = (case r of None \<Rightarrow> default_rules | Some x \<Rightarrow> x)"

definition normalize_final_response_mode :: "string \<Rightarrow> string" where
  "normalize_final_response_mode value = (if value = ''adaptive'' then ''auto'' else value)"

datatype completion_strategy = LedgerDirect | Synthesize

definition ledger_direct_eligible ::
  "nat \<Rightarrow> bool \<Rightarrow> nat \<Rightarrow> nat \<Rightarrow> int \<Rightarrow> completion_rules option \<Rightarrow> bool" where
  "ledger_direct_eligible plan_wave_count has_dag_dependencies failed step_count tool_calls completion_rules =
     (let rules = rules_or_default completion_rules in
      if \<not> (plan_wave_count \<le> 1 \<and> \<not> has_dag_dependencies \<and> failed = 0 \<and>
             step_count \<le> cr_simple_ledger_direct_max_steps rules) then False
      else if cr_ledger_direct_max_tool_calls rules > 0 \<and>
              tool_calls > int (cr_ledger_direct_max_tool_calls rules) then False
      else True)"

text \<open>The steps of the current decision are given by their dependency lists.\<close>

definition dag_requires_synthesis ::
  "nat \<Rightarrow> nat \<Rightarrow> nat \<Rightarrow> nat \<Rightarrow> bool \<Rightarrow> bool \<Rightarrow> ident list list option \<Rightarrow> completion_rules option \<Rightarrow> bool \<Rightarrow> bool" where
  "dag_requires_synthesis plan_wave_count failed completed depth hit_subagent_cap parallel_multi_step
       decision_steps completion_rules assessment_terminal =
     (let rules = rules_or_default completion_rules in
      if plan_wave_count \<ge> 2 \<and> assessment_terminal then True
      else if failed > 0 then True
      else if depth \<ge> 3 then True
      else if hit_subagent_cap then True
      else if parallel_multi_step then True
      else if failed > 0 \<and>
              (let executed = completed + failed;
                   rate = (if executed > 0 then of_nat completed / of_nat executed else 0 :: rat)
               in rate < cr_low_success_rate_threshold rules) then True
      else (case decision_steps of
              None \<Rightarrow> False
            | Some steps \<Rightarrow>
                list_ex (\<lambda>deps. deps \<noteq> [] \<and> length deps \<ge> cr_dag_dependency_threshold rules) steps))"

record completion_inputs =
  ci_require_goal_completion :: bool
  ci_plan_wave_count :: nat
  ci_has_dag_dependencies :: bool
  ci_failed_steps :: nat
  ci_total_steps :: nat
  ci_completed_steps :: nat
  ci_chain_depth :: nat
  ci_hit_subagent_cap :: bool
  ci_parallel_multi_step :: bool
  ci_tool_call_count :: int
  ci_decision_steps :: "ident list list option"
  ci_ledger_text :: "string option"
  ci_mode :: string
  ci_rules :: "completion_rules option"
  ci_assessment_terminal :: bool

definition determine_completion_strategy :: "completion_inputs \<Rightarrow> completion_strategy" where
  "determine_completion_strategy i =
     (let mode = normalize_final_response_mode (ci_mode i) in
      if mode = ''always_synthesize'' then Synthesize
      else if ci_require_goal_completion i then Synthesize
      else if dag_requires_synthesis (ci_plan_wave_count i) (ci_failed_steps i) (ci_completed_steps i)
                (ci_chain_depth i) (ci_hit_subagent_cap i) (ci_parallel_multi_step i)
                (ci_decision_steps i) (ci_rules i) (ci_assessment_terminal i) then Synthesize
      else if py_strip (opt_str (ci_ledger_text i)) = [] then Synthesize
      else if ledger_direct_eligible (ci_plan_wave_count i) (ci_has_dag_dependencies i) (ci_failed_steps i)
                (ci_total_steps i) (ci_tool_call_count i) (ci_rules i) then LedgerDirect
      else Synthesize)"

section \<open>When the ledger answers directly\<close>

text \<open>The exact condition for answering from the ledger: completion is not forced, at most one plan
  wave, no dependency and no failed step, at most the allowed number of steps and tool calls,
  a chain below 3, no parallel wave, no capped subagent, no decision step at the dependency
  threshold and a ledger text that is not blank. Everything else is synthesised.\<close>

theorem ledger_direct_exactly_when:
  "determine_completion_strategy i = LedgerDirect \<longleftrightarrow>
     (let r = rules_or_default (ci_rules i) in
      ci_mode i \<noteq> ''always_synthesize'' \<and> \<not> ci_require_goal_completion i \<and>
      ci_plan_wave_count i \<le> 1 \<and> \<not> ci_has_dag_dependencies i \<and> ci_failed_steps i = 0 \<and>
      ci_total_steps i \<le> cr_simple_ledger_direct_max_steps r \<and> ci_chain_depth i < 3 \<and>
      \<not> ci_hit_subagent_cap i \<and> \<not> ci_parallel_multi_step i \<and>
      \<not> (\<exists>steps deps. ci_decision_steps i = Some steps \<and> deps \<in> set steps \<and> deps \<noteq> [] \<and>
           length deps \<ge> cr_dag_dependency_threshold r) \<and>
      py_strip (opt_str (ci_ledger_text i)) \<noteq> [] \<and>
      (cr_ledger_direct_max_tool_calls r = 0 \<or> ci_tool_call_count i \<le> int (cr_ledger_direct_max_tool_calls r)))"
proof -
  have mode: "(normalize_final_response_mode m = ''always_synthesize'') = (m = ''always_synthesize'')" for m
    by (simp add: normalize_final_response_mode_def)
  show ?thesis
    by (cases "ci_decision_steps i")
      (auto simp: determine_completion_strategy_def dag_requires_synthesis_def ledger_direct_eligible_def
        Let_def mode list_ex_iff)
qed

text \<open>Two inputs never matter: whatever the assessment says and however many steps completed, the
  strategy is the same. A second plan wave whose assessment is not terminal passes the
  synthesis check, only to fail the one-wave gate of the ledger answer; and the success-rate
  rule is guarded by a failed step, which the rule above it has already caught.\<close>

theorem assessment_never_matters:
  "determine_completion_strategy (i\<lparr>ci_assessment_terminal := a, ci_completed_steps := c\<rparr>) =
   determine_completion_strategy i"
  by (simp add: determine_completion_strategy_def dag_requires_synthesis_def ledger_direct_eligible_def Let_def)

end
