(* ===== verification/Step_Planner.thy ===== *)
theory Step_Planner
  imports Completion Step_Chain
begin

text \<open>
  \<open>StepPlanningSubengine\<close> (\<open>context/planning_step_planner.py\<close>) with its models in
  \<open>context/planning_models.py\<close>: ingesting a plan into the step DAG of a goal, recording the
  outcomes of executed steps, the planning context and the choice of a completion strategy.
  The report formatting of the class is not modelled.
\<close>

section \<open>Data\<close>

record plan_wave =
  pw_plan_id :: "string option"
  pw_iteration :: int
  pw_step_count :: nat
  pw_timestamp :: time

record planned_step =
  pl_id :: ident
  pl_description :: string
  pl_dependencies :: "ident list option"

record plan_result =
  pr_status :: string
  pr_goal_progress :: string
  pr_require_goal_completion :: bool
  pr_decision :: "planned_step list option"

record step_outcome =
  so_step_id :: ident
  so_success :: bool
  so_outcome :: obj
  so_error :: "string option"
  so_error_type :: "string option"
  so_duration_ms :: int
  so_thread_id :: string
  so_tool_call_count :: int
  so_subagent_task_completions :: int
  so_hit_subagent_cap :: bool
  so_hit_tool_budget :: bool

record step_planner =
  sp_dag :: goal_dag
  sp_plan_waves :: "plan_wave list"

record dag_planning_context =
  pc_pending_step_ids :: "ident set"
  pc_failed_step_ids :: "ident set"
  pc_ready_step_ids :: "ident set"
  pc_chain_depth :: nat
  pc_success_rate :: rat
  pc_replan_count :: nat
  pc_total_steps :: nat
  pc_completed_steps :: nat

definition has_prior_state :: "dag_planning_context \<Rightarrow> bool" where
  "has_prior_state c \<longleftrightarrow> pc_total_steps c > 0"

section \<open>Ingesting a plan\<close>

definition steps_of_goal :: "ident \<Rightarrow> (step_dag \<Rightarrow> step_dag) \<Rightarrow> step_planner \<Rightarrow> step_planner" where
  "steps_of_goal gid f p = p\<lparr>sp_dag := modify_goal gid (\<lambda>g. g\<lparr>g_steps := f (g_steps g)\<rparr>) (sp_dag p)\<rparr>"

definition planned_deps_of :: "planned_step \<Rightarrow> ident list" where
  "planned_deps_of s = (case pl_dependencies s of None \<Rightarrow> [] | Some l \<Rightarrow> l)"

definition ingest_step :: "int \<Rightarrow> planned_step \<Rightarrow> step_dag \<Rightarrow> step_dag" where
  "ingest_step iteration s sd =
     (case dict_get (nodes sd) (pl_id s) of
        Some existing \<Rightarrow>
          if sn_status existing = SPending \<and> planned_deps_of s \<noteq> []
          then modify_step (pl_id s) (\<lambda>n. n\<lparr>sn_dependencies := planned_deps_of s\<rparr>) sd
          else sd
      | None \<Rightarrow>
          add_step ((new_step (pl_id s) (pl_description s))
            \<lparr>sn_dependencies := planned_deps_of s, sn_plan_iteration := iteration\<rparr>) sd)"

definition ingest_plan ::
  "time \<Rightarrow> ident \<Rightarrow> plan_result \<Rightarrow> string option \<Rightarrow> int \<Rightarrow> step_planner \<Rightarrow> step_planner" where
  "ingest_plan now gid plan plan_id iteration p =
     (let count = (case pr_decision plan of None \<Rightarrow> 0 | Some steps \<Rightarrow> length steps);
          wave = \<lparr>pw_plan_id = plan_id, pw_iteration = iteration, pw_step_count = count, pw_timestamp = now\<rparr>;
          p1 = p\<lparr>sp_plan_waves := sp_plan_waves p @ [wave]\<rparr>
      in case get_goal (sp_dag p1) gid of
           None \<Rightarrow> p1
         | Some goal \<Rightarrow>
             (case pr_decision plan of
                None \<Rightarrow> p1
              | Some steps \<Rightarrow> steps_of_goal gid (\<lambda>sd. foldl (\<lambda>sd s. ingest_step iteration s sd) sd steps) p1))"

section \<open>Recording outcomes\<close>

definition execution_of :: "step_outcome \<Rightarrow> step_execution" where
  "execution_of r =
     \<lparr>se_input_messages = [], se_output_messages = [], se_tokens_used = 0,
      se_duration_ms = so_duration_ms r, se_error = so_error r, se_error_type = so_error_type r,
      se_thread_id = Some (so_thread_id r),
      se_outcome = (if so_outcome r = [] then None else Some (JObj (so_outcome r))),
      se_tool_call_count = so_tool_call_count r,
      se_subagent_task_completions = so_subagent_task_completions r,
      se_hit_subagent_cap = so_hit_subagent_cap r, se_hit_tool_budget = so_hit_tool_budget r\<rparr>"

definition record_outcome :: "step_outcome \<Rightarrow> step_dag \<Rightarrow> step_dag" where
  "record_outcome r sd =
     (if so_success r then mark_completed (so_step_id r) (execution_of r) sd
      else mark_failed (so_step_id r) (execution_of r) sd)"

definition record_step_outcomes :: "ident \<Rightarrow> step_outcome list \<Rightarrow> step_planner \<Rightarrow> step_planner" where
  "record_step_outcomes gid rs p =
     (case get_goal (sp_dag p) gid of
        None \<Rightarrow> p
      | Some goal \<Rightarrow> steps_of_goal gid (\<lambda>sd. foldl (\<lambda>sd r. record_outcome r sd) sd rs) p)"

section \<open>Context and strategy\<close>

definition empty_planning_context :: dag_planning_context where
  "empty_planning_context =
     \<lparr>pc_pending_step_ids = {}, pc_failed_step_ids = {}, pc_ready_step_ids = {}, pc_chain_depth = 0,
      pc_success_rate = 1, pc_replan_count = 0, pc_total_steps = 0, pc_completed_steps = 0\<rparr>"

definition get_planning_context :: "ident \<Rightarrow> step_planner \<Rightarrow> dag_planning_context" where
  "get_planning_context gid p =
     (case get_goal (sp_dag p) gid of
        None \<Rightarrow> empty_planning_context
      | Some goal \<Rightarrow>
          (let sd = g_steps goal in
           \<lparr>pc_pending_step_ids = pending_step_ids sd, pc_failed_step_ids = failed_step_ids sd,
            pc_ready_step_ids = ready_steps sd, pc_chain_depth = chain_depth sd,
            pc_success_rate = success_rate sd, pc_replan_count = length (sp_plan_waves p) - 1,
            pc_total_steps = total_steps sd, pc_completed_steps = completed_steps sd\<rparr>))"

text \<open>What the planner reads from the loop state; an absent state has these at their defaults.\<close>

record loop_view =
  lv_ledger_text :: "string option"
  lv_hit_subagent_cap :: bool
  lv_parallel_multi_step :: bool
  lv_decision_steps :: "ident list list option"
  lv_tool_call_count :: int

definition planner_inputs :: "goal_node \<Rightarrow> nat \<Rightarrow> loop_view \<Rightarrow> plan_result option \<Rightarrow> string \<Rightarrow> completion_inputs" where
  "planner_inputs goal waves view plan mode =
     (let sd = g_steps goal in
      \<lparr>ci_require_goal_completion = (case plan of None \<Rightarrow> True | Some r \<Rightarrow> pr_require_goal_completion r),
       ci_plan_wave_count = waves,
       ci_has_dag_dependencies = list_ex (\<lambda>n. sn_dependencies n \<noteq> []) (step_nodes sd),
       ci_failed_steps = failed_steps sd, ci_total_steps = total_steps sd,
       ci_completed_steps = completed_steps sd, ci_chain_depth = chain_depth sd,
       ci_hit_subagent_cap = lv_hit_subagent_cap view,
       ci_parallel_multi_step = lv_parallel_multi_step view,
       ci_tool_call_count = lv_tool_call_count view,
       ci_decision_steps = lv_decision_steps view, ci_ledger_text = lv_ledger_text view,
       ci_mode = mode, ci_rules = None,
       ci_assessment_terminal =
         (case plan of None \<Rightarrow> False | Some r \<Rightarrow> pr_status r = ''done'' \<or> pr_goal_progress r = ''complete'')\<rparr>)"

definition planner_completion_strategy ::
  "ident \<Rightarrow> loop_view \<Rightarrow> plan_result option \<Rightarrow> string \<Rightarrow> step_planner \<Rightarrow> completion_strategy" where
  "planner_completion_strategy gid view plan mode p =
     (case get_goal (sp_dag p) gid of
        None \<Rightarrow> Synthesize
      | Some goal \<Rightarrow>
          determine_completion_strategy (planner_inputs goal (length (sp_plan_waves p)) view plan mode))"

section \<open>What a plan changes\<close>

abbreviation ingest_steps :: "int \<Rightarrow> planned_step list \<Rightarrow> step_dag \<Rightarrow> step_dag" where
  "ingest_steps iteration steps sd \<equiv> foldl (\<lambda>sd s. ingest_step iteration s sd) sd steps"

abbreviation record_outcomes :: "step_outcome list \<Rightarrow> step_dag \<Rightarrow> step_dag" where
  "record_outcomes rs sd \<equiv> foldl (\<lambda>sd r. record_outcome r sd) sd rs"

lemma add_step_get: "dict_get (nodes (add_step n sd)) k = (if k = sn_id n then Some n else dict_get (nodes sd) k)"
  by (simp add: add_step_def)

lemma ingest_step_key: "\<exists>n. dict_get (nodes (ingest_step it s sd)) (pl_id s) = Some n"
  by (simp add: ingest_step_def add_step_get new_step_def split: option.split)

text \<open>An existing step only ever gets new dependencies, and only while it is pending.\<close>

definition only_deps_changed :: "step_node \<Rightarrow> step_node \<Rightarrow> bool" where
  "only_deps_changed n n' \<longleftrightarrow>
     n' = n\<lparr>sn_dependencies := sn_dependencies n'\<rparr> \<and> (sn_status n \<noteq> SPending \<longrightarrow> n' = n)"

lemma only_deps_refl [simp]: "only_deps_changed n n"
  by (simp add: only_deps_changed_def)

lemma only_deps_status: "only_deps_changed n n' \<Longrightarrow> sn_status n' = sn_status n"
  unfolding only_deps_changed_def by (metis step_node.select_convs(3) step_node.surjective step_node.update_convs(4))

lemma only_deps_trans: "only_deps_changed a b \<Longrightarrow> only_deps_changed b c \<Longrightarrow> only_deps_changed a c"
  using only_deps_status [of a b] unfolding only_deps_changed_def
  by (metis step_node.surjective step_node.update_convs(4))

lemma ingest_step_existing:
  assumes "dict_get (nodes sd) k = Some n"
  shows "\<exists>n'. dict_get (nodes (ingest_step it s sd)) k = Some n' \<and> only_deps_changed n n'"
proof (cases "dict_get (nodes sd) (pl_id s)")
  case None
  with assms have "k \<noteq> pl_id s" by auto
  with None assms show ?thesis by (simp add: ingest_step_def add_step_get new_step_def)
next
  case (Some e)
  show ?thesis
  proof (cases "k = pl_id s \<and> sn_status e = SPending \<and> planned_deps_of s \<noteq> []")
    case True
    with Some assms have "e = n" by simp
    with Some True show ?thesis by (simp add: ingest_step_def only_deps_changed_def)
  next
    case False
    with Some assms show ?thesis by (auto simp: ingest_step_def)
  qed
qed

lemma ingest_steps_existing:
  "dict_get (nodes sd) k = Some n \<Longrightarrow>
   \<exists>n'. dict_get (nodes (ingest_steps it ss sd)) k = Some n' \<and> only_deps_changed n n'"
proof (induction ss arbitrary: sd n)
  case Nil
  then show ?case by simp
next
  case (Cons s ss)
  from ingest_step_existing [OF Cons.prems] obtain m where
    m: "dict_get (nodes (ingest_step it s sd)) k = Some m" "only_deps_changed n m" by blast
  from Cons.IH [OF m(1)] obtain n' where
    "dict_get (nodes (ingest_steps it ss (ingest_step it s sd))) k = Some n'" "only_deps_changed m n'" by blast
  with only_deps_trans [OF m(2)] show ?case by (intro exI [of _ n']) simp
qed

lemma ingest_steps_keys:
  "s \<in> set ss \<Longrightarrow> \<exists>n. dict_get (nodes (ingest_steps it ss sd)) (pl_id s) = Some n"
proof (induction ss arbitrary: sd)
  case Nil
  then show ?case by simp
next
  case (Cons t ss)
  show ?case
  proof (cases "s = t")
    case True
    from ingest_step_key [of it t sd] obtain n where
      "dict_get (nodes (ingest_step it t sd)) (pl_id t) = Some n" by blast
    from ingest_steps_existing [OF this, of it ss] True show ?thesis by auto
  next
    case False
    with Cons show ?thesis by simp
  qed
qed

text \<open>Ingesting a plan never rewrites history: afterwards every step of the decision is on the DAG,
  no step is lost, an existing step keeps everything but its dependencies, and a step that has
  left the pending status keeps those too; one plan wave is recorded.\<close>

theorem ingest_plan_keeps_history:
  assumes goal: "get_goal (sp_dag p) gid = Some goal" and steps: "pr_decision plan = Some steps"
  shows "\<exists>goal'. get_goal (sp_dag (ingest_plan now gid plan pid it p)) gid = Some goal' \<and>
     (\<forall>s \<in> set steps. \<exists>n. dict_get (nodes (g_steps goal')) (pl_id s) = Some n) \<and>
     (\<forall>k n. dict_get (nodes (g_steps goal)) k = Some n \<longrightarrow>
        (\<exists>n'. dict_get (nodes (g_steps goal')) k = Some n' \<and>
           n' = n\<lparr>sn_dependencies := sn_dependencies n'\<rparr> \<and> (sn_status n \<noteq> SPending \<longrightarrow> n' = n))) \<and>
     length (sp_plan_waves (ingest_plan now gid plan pid it p)) = length (sp_plan_waves p) + 1"
proof -
  let ?goal' = "goal\<lparr>g_steps := ingest_steps it steps (g_steps goal)\<rparr>"
  have "get_goal (sp_dag (ingest_plan now gid plan pid it p)) gid = Some ?goal'"
    by (simp add: ingest_plan_def steps_of_goal_def Let_def goal steps)
  moreover have "length (sp_plan_waves (ingest_plan now gid plan pid it p)) = length (sp_plan_waves p) + 1"
    by (simp add: ingest_plan_def steps_of_goal_def Let_def goal steps)
  moreover have "\<forall>s \<in> set steps. \<exists>n. dict_get (nodes (g_steps ?goal')) (pl_id s) = Some n"
    using ingest_steps_keys [of _ steps it "g_steps goal"] by simp
  moreover have "\<exists>n'. dict_get (nodes (g_steps ?goal')) k = Some n' \<and>
      n' = n\<lparr>sn_dependencies := sn_dependencies n'\<rparr> \<and> (sn_status n \<noteq> SPending \<longrightarrow> n' = n)"
    if "dict_get (nodes (g_steps goal)) k = Some n" for k n
    using ingest_steps_existing [OF that, of it steps] unfolding only_deps_changed_def by simp
  ultimately show ?thesis by (intro exI [of _ ?goal']) blast
qed

section \<open>Outcomes\<close>

lemma record_outcome_get:
  "dict_get (nodes (record_outcome r sd)) k =
     (if k = so_step_id r
      then map_option (\<lambda>n. n\<lparr>sn_status := (if so_success r then SCompleted else SFailed),
                             sn_execution := Some (execution_of r)\<rparr>) (dict_get (nodes sd) k)
      else dict_get (nodes sd) k)"
  by (simp add: record_outcome_def mark_completed_def mark_failed_def)

definition with_outcome :: "step_outcome \<Rightarrow> step_node \<Rightarrow> step_node" where
  "with_outcome r n = n\<lparr>sn_status := (if so_success r then SCompleted else SFailed), sn_execution := Some (execution_of r)\<rparr>"

lemma with_outcome_twice [simp]: "with_outcome r (with_outcome q n) = with_outcome r n"
  by (simp add: with_outcome_def)

lemma record_outcomes_get:
  "dict_get (nodes (record_outcomes rs sd)) k =
     map_option (\<lambda>n. case find (\<lambda>r. so_step_id r = k) (rev rs) of None \<Rightarrow> n | Some r \<Rightarrow> with_outcome r n)
       (dict_get (nodes sd) k)"
proof (induction rs rule: rev_induct)
  case Nil
  then show ?case by (simp add: option.map_ident)
next
  case (snoc r rs)
  show ?case
  proof (cases "so_step_id r = k")
    case True
    then show ?thesis
      using snoc by (cases "dict_get (nodes sd) k"; cases "find (\<lambda>r. so_step_id r = k) (rev rs)")
        (simp_all add: record_outcome_get with_outcome_def)
  next
    case False
    then show ?thesis using snoc by (simp add: record_outcome_get)
  qed
qed

text \<open>Recording outcomes has no guard on the status a step is in: whatever it was, a step ends up as
  its last record says, completed or failed with that record's execution; a step without a
  record is untouched, and a record for an unknown step is ignored.\<close>

theorem record_step_outcomes_last_wins:
  assumes "get_goal (sp_dag p) gid = Some goal"
  shows "\<exists>goal'. get_goal (sp_dag (record_step_outcomes gid rs p)) gid = Some goal' \<and>
     dict_get (nodes (g_steps goal')) k =
       (case find (\<lambda>r. so_step_id r = k) (rev rs) of
          None \<Rightarrow> dict_get (nodes (g_steps goal)) k
        | Some r \<Rightarrow> map_option (\<lambda>n. n\<lparr>sn_status := (if so_success r then SCompleted else SFailed),
                                       sn_execution := Some (execution_of r)\<rparr>)
                      (dict_get (nodes (g_steps goal)) k))"
proof -
  let ?goal' = "goal\<lparr>g_steps := record_outcomes rs (g_steps goal)\<rparr>"
  have "get_goal (sp_dag (record_step_outcomes gid rs p)) gid = Some ?goal'"
    by (simp add: record_step_outcomes_def steps_of_goal_def assms)
  moreover have "dict_get (nodes (g_steps ?goal')) k =
      (case find (\<lambda>r. so_step_id r = k) (rev rs) of
         None \<Rightarrow> dict_get (nodes (g_steps goal)) k
       | Some r \<Rightarrow> map_option (with_outcome r) (dict_get (nodes (g_steps goal)) k))"
    by (cases "find (\<lambda>r. so_step_id r = k) (rev rs)") (simp_all add: record_outcomes_get option.map_ident)
  ultimately show ?thesis
    by (intro exI [of _ ?goal'], cases "find (\<lambda>r. so_step_id r = k) (rev rs)")
      (simp_all add: with_outcome_def [abs_def])
qed

section \<open>The strategy on a real step DAG\<close>

text \<open>On a goal of the DAG the ledger answers directly only for the simplest of runs: at most one
  ingested plan, at most one step on the DAG, no dependency, no failure and a plan result that
  does not ask for a completion call. An unknown goal, or no plan result, is synthesised.\<close>

theorem planner_ledger_direct_single_step:
  assumes "planner_completion_strategy gid view plan mode p = LedgerDirect"
  shows "\<exists>goal r. get_goal (sp_dag p) gid = Some goal \<and> plan = Some r \<and> \<not> pr_require_goal_completion r \<and>
     length (sp_plan_waves p) \<le> 1 \<and> length (nodes (g_steps goal)) \<le> 1 \<and> failed_step_ids (g_steps goal) = {} \<and>
     (\<forall>n \<in> set (step_nodes (g_steps goal)). sn_dependencies n = []) \<and> lv_tool_call_count view \<le> 50"
proof -
  obtain goal where goal: "get_goal (sp_dag p) gid = Some goal"
    using assms by (cases "get_goal (sp_dag p) gid") (simp_all add: planner_completion_strategy_def)
  let ?i = "planner_inputs goal (length (sp_plan_waves p)) view plan mode"
  have direct: "determine_completion_strategy ?i = LedgerDirect"
    using assms by (simp add: planner_completion_strategy_def goal)
  have elig: "ledger_direct_eligible (ci_plan_wave_count ?i) (ci_has_dag_dependencies ?i) (ci_failed_steps ?i)
      (ci_total_steps ?i) (ci_tool_call_count ?i) (ci_rules ?i)" "\<not> ci_require_goal_completion ?i"
    using direct unfolding determine_completion_strategy_def Let_def by (auto split: if_splits)
  from elig(2) obtain r where r: "plan = Some r" "\<not> pr_require_goal_completion r"
    by (cases plan) (simp_all add: planner_inputs_def Let_def)
  have "failed_steps (g_steps goal) = 0" "total_steps (g_steps goal) \<le> 1" "length (sp_plan_waves p) \<le> 1"
    "\<not> list_ex (\<lambda>n. sn_dependencies n \<noteq> []) (step_nodes (g_steps goal))" "lv_tool_call_count view \<le> 50"
    using elig(1) unfolding ledger_direct_eligible_def planner_inputs_def Let_def rules_or_default_def default_rules_def
    by (simp_all split: if_splits)
  moreover have "failed_step_ids (g_steps goal) = {}" if h: "failed_steps (g_steps goal) = 0"
    using h unfolding failed_steps_def failed_step_ids_def ids_with_status_def step_nodes_def
    by (auto simp: filter_empty_conv)
  ultimately show ?thesis
    using goal r by (intro exI [of _ goal] exI [of _ r]) (simp add: total_steps_def list_ex_iff)
qed

section \<open>Samples\<close>

definition sample_planner :: step_planner where
  "sample_planner =
     \<lparr>sp_dag = \<lparr>goals = [(''g1'', (new_goal ''g1'' ''goal'' 0)\<lparr>g_steps :=
         add_step ((new_step ''P-01'' ''first'')\<lparr>sn_status := SCompleted\<rparr>) empty_step_dag\<rparr>)]\<rparr>,
      sp_plan_waves = []\<rparr>"

definition sample_view :: loop_view where
  "sample_view = \<lparr>lv_ledger_text = Some ''answer'', lv_hit_subagent_cap = False,
     lv_parallel_multi_step = False, lv_decision_steps = None, lv_tool_call_count = 2\<rparr>"

definition sample_result :: plan_result where
  "sample_result = \<lparr>pr_status = ''done'', pr_goal_progress = ''complete'', pr_require_goal_completion = False,
     pr_decision = Some [\<lparr>pl_id = ''P-01'', pl_description = ''again'', pl_dependencies = Some [''P-02'']\<rparr>,
                         \<lparr>pl_id = ''P-02'', pl_description = ''second'', pl_dependencies = None\<rparr>]\<rparr>"

lemma sample_planner_goal:
  "get_goal (sp_dag sample_planner) ''g1'' = Some ((new_goal ''g1'' ''goal'' 0)\<lparr>g_steps :=
     add_step ((new_step ''P-01'' ''first'')\<lparr>sn_status := SCompleted\<rparr>) empty_step_dag\<rparr>)"
  by (simp add: sample_planner_def get_goal_def)

lemma ingest_plan_keeps_history_witness:
  "\<exists>goal'. get_goal (sp_dag (ingest_plan 1 ''g1'' sample_result None 0 sample_planner)) ''g1'' = Some goal' \<and>
     (\<exists>n. dict_get (nodes (g_steps goal')) ''P-02'' = Some n) \<and>
     dict_get (nodes (g_steps goal')) ''P-01'' = Some ((new_step ''P-01'' ''first'')\<lparr>sn_status := SCompleted\<rparr>)"
proof -
  have steps: "pr_decision sample_result = Some [\<lparr>pl_id = ''P-01'', pl_description = ''again'', pl_dependencies = Some [''P-02'']\<rparr>,
      \<lparr>pl_id = ''P-02'', pl_description = ''second'', pl_dependencies = None\<rparr>]" by (simp add: sample_result_def)
  let ?first = "(new_step ''P-01'' ''first'')\<lparr>sn_status := SCompleted\<rparr>"
  from ingest_plan_keeps_history [OF sample_planner_goal steps, of 1 None 0] obtain goal' where
    g: "get_goal (sp_dag (ingest_plan 1 ''g1'' sample_result None 0 sample_planner)) ''g1'' = Some goal'"
    and s: "\<forall>s \<in> set [\<lparr>pl_id = ''P-01'', pl_description = ''again'', pl_dependencies = Some [''P-02'']\<rparr>,
        \<lparr>pl_id = ''P-02'', pl_description = ''second'', pl_dependencies = None\<rparr>].
        \<exists>n. dict_get (nodes (g_steps goal')) (pl_id s) = Some n"
    and k: "\<forall>k n. dict_get (nodes (g_steps ((new_goal ''g1'' ''goal'' 0)\<lparr>g_steps := add_step ?first empty_step_dag\<rparr>))) k = Some n \<longrightarrow>
        (\<exists>n'. dict_get (nodes (g_steps goal')) k = Some n' \<and>
           n' = n\<lparr>sn_dependencies := sn_dependencies n'\<rparr> \<and> (sn_status n \<noteq> SPending \<longrightarrow> n' = n))"
    by blast
  have "dict_get (nodes (g_steps ((new_goal ''g1'' ''goal'' 0)\<lparr>g_steps := add_step ?first empty_step_dag\<rparr>))) ''P-01'' = Some ?first"
    by (simp add: add_step_get new_step_def)
  from k [rule_format, OF this] obtain n' where
    n': "dict_get (nodes (g_steps goal')) ''P-01'' = Some n'" "sn_status ?first \<noteq> SPending \<longrightarrow> n' = ?first" by blast
  have "sn_status ?first \<noteq> SPending" by simp
  with n' have "dict_get (nodes (g_steps goal')) ''P-01'' = Some ?first" by blast
  moreover from s have "\<exists>n. dict_get (nodes (g_steps goal')) ''P-02'' = Some n" by simp
  ultimately show ?thesis using g by blast
qed

definition sample_outcome :: "bool \<Rightarrow> step_outcome" where
  "sample_outcome ok = \<lparr>so_step_id = ''P-01'', so_success = ok, so_outcome = [], so_error = None, so_error_type = None,
     so_duration_ms = 5, so_thread_id = ''t'', so_tool_call_count = 1, so_subagent_task_completions = 0,
     so_hit_subagent_cap = False, so_hit_tool_budget = False\<rparr>"

lemma record_step_outcomes_last_wins_witness:
  "\<exists>goal'. get_goal (sp_dag (record_step_outcomes ''g1'' [sample_outcome True, sample_outcome False] sample_planner)) ''g1'' = Some goal' \<and>
     map_option sn_status (dict_get (nodes (g_steps goal')) ''P-01'') = Some SFailed"
proof -
  from record_step_outcomes_last_wins [OF sample_planner_goal, of "[sample_outcome True, sample_outcome False]" "''P-01''"]
  obtain goal' where
    goal': "get_goal (sp_dag (record_step_outcomes ''g1'' [sample_outcome True, sample_outcome False] sample_planner)) ''g1'' = Some goal'"
    "dict_get (nodes (g_steps goal')) ''P-01'' =
      (case find (\<lambda>r. so_step_id r = ''P-01'') (rev [sample_outcome True, sample_outcome False]) of
         None \<Rightarrow> dict_get (nodes (add_step ((new_step ''P-01'' ''first'')\<lparr>sn_status := SCompleted\<rparr>) empty_step_dag)) ''P-01''
       | Some r \<Rightarrow> map_option (\<lambda>n. n\<lparr>sn_status := (if so_success r then SCompleted else SFailed), sn_execution := Some (execution_of r)\<rparr>)
           (dict_get (nodes (add_step ((new_step ''P-01'' ''first'')\<lparr>sn_status := SCompleted\<rparr>) empty_step_dag)) ''P-01''))"
    by auto
  have "map_option sn_status (dict_get (nodes (g_steps goal')) ''P-01'') = Some SFailed"
    unfolding goal'(2) by (simp add: sample_outcome_def add_step_get new_step_def)
  with goal'(1) show ?thesis by blast
qed

lemma planner_ledger_direct_single_step_witness:
  "planner_completion_strategy ''g1'' sample_view (Some sample_result) ''auto'' sample_planner = LedgerDirect \<and>
   length (sp_plan_waves sample_planner) \<le> 1"
proof
  show direct: "planner_completion_strategy ''g1'' sample_view (Some sample_result) ''auto'' sample_planner = LedgerDirect"
    by code_simp
  from planner_ledger_direct_single_step [OF direct] show "length (sp_plan_waves sample_planner) \<le> 1" by blast
qed

end
