(* ===== verification/Goal_Tree.thy ===== *)
theory Goal_Tree
  imports Goal_Dag
begin

text \<open>
  The parent relation of the goal DAG: the depth limit that \<open>add_goal\<close> enforces, and the
  post-order walk \<open>collect_subtree_ids\<close> that a cascading cancel follows.
\<close>

section \<open>Depth\<close>

text \<open>The length of the parent chain without the cut-off of \<open>_goal_depth\<close>.\<close>

function walk_len :: "(ident, goal_node) dict \<Rightarrow> ident option \<Rightarrow> ident set \<Rightarrow> nat" where
  "walk_len gs current visited =
     (case current of
        None \<Rightarrow> 0
      | Some c \<Rightarrow>
          if c = [] \<or> c \<in> visited then 0
          else (case dict_get gs c of
                  None \<Rightarrow> 0
                | Some g \<Rightarrow> Suc (walk_len gs (g_parent_id g) (insert c visited))))"
  by pat_completeness auto
termination
proof (relation "measure (\<lambda>(gs, _, visited). card (set (dict_keys gs) - visited))", goal_cases)
  case (2 gs current visited c g)
  then have "c \<in> set (dict_keys gs)" by (auto dest: dict_get_key)
  with 2 have "set (dict_keys gs) - insert c visited \<subset> set (dict_keys gs) - visited" by auto
  then show ?case by (simp add: psubset_card_mono)
qed simp

declare walk_len.simps [simp del]

text \<open>The walk goes on exactly where the next id names a stored goal not yet visited.\<close>

definition walk_next :: "(ident, goal_node) dict \<Rightarrow> ident option \<Rightarrow> ident set \<Rightarrow> bool" where
  "walk_next gs current visited \<longleftrightarrow>
     (\<exists>c g. current = Some c \<and> c \<noteq> [] \<and> c \<notin> visited \<and> dict_get gs c = Some g)"

lemma walk_nextE:
  assumes "walk_next gs current visited"
  obtains c g where "current = Some c" "c \<noteq> []" "c \<notin> visited" "dict_get gs c = Some g"
  using assms unfolding walk_next_def by blast

lemma walk_stop:
  assumes "\<not> walk_next gs current visited"
  shows "walk_len gs current visited = 0" "depth_walk gs current visited depth = depth"
proof -
  have "current = None \<or> (\<exists>c. current = Some c \<and> (c = [] \<or> c \<in> visited \<or> dict_get gs c = None))"
    using assms unfolding walk_next_def by (cases current) auto
  then show "walk_len gs current visited = 0" "depth_walk gs current visited depth = depth"
    by (auto simp: walk_len.simps [of gs current] depth_walk.simps [of gs current])
qed

lemma walk_len_step:
  "c \<noteq> [] \<Longrightarrow> c \<notin> visited \<Longrightarrow> dict_get gs c = Some g \<Longrightarrow>
   walk_len gs (Some c) visited = Suc (walk_len gs (g_parent_id g) (insert c visited))"
  by (simp add: walk_len.simps [of gs "Some c" visited])

lemma depth_walk_step:
  "c \<noteq> [] \<Longrightarrow> c \<notin> visited \<Longrightarrow> dict_get gs c = Some g \<Longrightarrow>
   depth_walk gs (Some c) visited depth =
     (if Suc depth > MAX_GOAL_DEPTH + 1 then Suc depth
      else depth_walk gs (g_parent_id g) (insert c visited) (Suc depth))"
  by (simp add: depth_walk.simps [of gs "Some c" visited])

lemma depth_walk_cut_off:
  "depth \<le> MAX_GOAL_DEPTH + 1 \<Longrightarrow>
   depth_walk gs current visited depth = min (depth + walk_len gs current visited) (MAX_GOAL_DEPTH + 2)"
proof (induction gs current visited depth rule: depth_walk.induct)
  case (1 gs current visited depth)
  show ?case
  proof (cases "walk_next gs current visited")
    case False
    with 1(2) show ?thesis by (simp add: walk_stop)
  next
    case True
    then obtain c g where c: "current = Some c" "c \<noteq> []" "c \<notin> visited" "dict_get gs c = Some g"
      by (rule walk_nextE)
    show ?thesis
    proof (cases "Suc depth > MAX_GOAL_DEPTH + 1")
      case True
      then show ?thesis using c 1(2) by (simp add: depth_walk_step walk_len_step)
    next
      case False
      then show ?thesis
        using c 1(1) [of c g] by (simp add: depth_walk_step walk_len_step)
    qed
  qed
qed

lemma goal_depth_eq: "goal_depth d k = min (walk_len (goals d) (Some k) {}) (MAX_GOAL_DEPTH + 2)"
  by (simp add: goal_depth_def depth_walk_cut_off)

text \<open>Storing a new goal that no stored goal names as its parent changes no old chain.\<close>

lemma walk_len_extend:
  assumes "\<And>k. k \<noteq> c \<Longrightarrow> dict_get gs' k = dict_get gs k"
    and "\<And>k g. dict_get gs k = Some g \<Longrightarrow> g_parent_id g \<noteq> Some c"
    and "current \<noteq> Some c"
  shows "walk_len gs' current visited = walk_len gs current visited
    \<and> walk_len gs' current (insert c visited) = walk_len gs current visited"
  using assms
proof (induction gs current visited rule: walk_len.induct)
  case (1 gs current visited)
  show ?case
  proof (cases "walk_next gs current visited")
    case True
    then obtain k g where k: "current = Some k" "k \<noteq> []" "k \<notin> visited" "dict_get gs k = Some g"
      by (rule walk_nextE)
    then have "k \<noteq> c" using 1(4) by blast
    then have k': "k \<notin> insert c visited" "dict_get gs' k = Some g" using k 1(2) [of k] by simp_all
    have "walk_len gs' (g_parent_id g) (insert k visited) = walk_len gs (g_parent_id g) (insert k visited)
      \<and> walk_len gs' (g_parent_id g) (insert c (insert k visited)) = walk_len gs (g_parent_id g) (insert k visited)"
      by (rule 1(1) [OF k(1) _ k(4)]) (use 1(2,3) k in \<open>simp_all\<close>)
    then show ?thesis
      using k k' by (simp add: walk_len_step insert_commute)
  next
    case False
    moreover have "\<not> walk_next gs' current visited"
    proof
      assume "walk_next gs' current visited"
      then obtain k g where k: "current = Some k" "k \<noteq> []" "k \<notin> visited" "dict_get gs' k = Some g"
        by (rule walk_nextE)
      with 1(2) [of k] 1(4) have "dict_get gs k = Some g" by auto
      with k False show False unfolding walk_next_def by blast
    qed
    moreover from this have "\<not> walk_next gs' current (insert c visited)"
      unfolding walk_next_def by blast
    ultimately show ?thesis by (simp add: walk_stop)
  qed
qed

text \<open>No goal is deeper than the limit.\<close>

definition depth_ok :: "goal_dag \<Rightarrow> bool" where
  "depth_ok d \<longleftrightarrow> (\<forall>k. get_goal d k \<noteq> None \<longrightarrow> goal_depth d k \<le> MAX_GOAL_DEPTH)"

lemma add_goal_InrE:
  assumes "add_goal g d = Inr d'"
  obtains "\<not> truthy (g_parent_id g)" "d' = put_goal g d"
  | p parent where "g_parent_id g = Some p" "p \<noteq> []" "get_goal d p = Some parent"
      "goal_depth d p < MAX_GOAL_DEPTH" "d' = put_goal g d"
proof (cases "truthy (g_parent_id g)")
  case False
  with assms that(1) show thesis by (simp add: add_goal_def)
next
  case True
  then obtain p where p: "g_parent_id g = Some p" "p \<noteq> []" by (cases "g_parent_id g") simp_all
  with assms obtain parent where "get_goal d p = Some parent"
    by (cases "get_goal d p") (simp_all add: add_goal_def)
  with assms p that(2) [of p parent] show thesis
    by (simp add: add_goal_def Let_def not_le split: if_splits)
qed

text \<open>Claim C26. \<open>add_goal\<close> enforces the depth limit: from a DAG no goal of which is deeper than
  \<open>MAX_GOAL_DEPTH\<close>, adding a fresh goal either fails and stores nothing, or leaves every goal
  within the limit and puts the new one exactly one level below its parent.\<close>

theorem add_goal_keeps_depth:
  assumes ok: "depth_ok d" and fresh: "get_goal d (g_id g) = None" "g_id g \<noteq> []"
    and unnamed: "\<forall>k h. get_goal d k = Some h \<longrightarrow> g_parent_id h \<noteq> Some (g_id g)"
    and add: "add_goal g d = Inr d'"
  shows "depth_ok d' \<and> goal_depth d' (g_id g) =
    (if truthy (g_parent_id g) then Suc (goal_depth d (opt_str (g_parent_id g))) else 1)"
proof -
  have d': "d' = put_goal g d" using add by (rule add_goal_InrE)
  have agree: "\<And>k. k \<noteq> g_id g \<Longrightarrow> dict_get (goals d') k = dict_get (goals d) k"
    and stored: "dict_get (goals d') (g_id g) = Some g"
    unfolding d' by (simp_all add: put_goal_def)
  have unn: "\<And>k h. dict_get (goals d) k = Some h \<Longrightarrow> g_parent_id h \<noteq> Some (g_id g)"
    using unnamed by (simp add: get_goal_def)
  have ext: "walk_len (goals d') current {} = walk_len (goals d) current {}
      \<and> walk_len (goals d') current {g_id g} = walk_len (goals d) current {}"
    if "current \<noteq> Some (g_id g)" for current
    by (rule walk_len_extend [OF agree unn that])
  have old: "goal_depth d' k = goal_depth d k" if "k \<noteq> g_id g" for k
    using ext [of "Some k"] that by (simp add: goal_depth_eq)
  have new: "walk_len (goals d') (Some (g_id g)) {} = Suc (walk_len (goals d') (g_parent_id g) {g_id g})"
    using fresh stored by (simp add: walk_len_step)
  have depth: "goal_depth d' (g_id g) =
      (if truthy (g_parent_id g) then Suc (goal_depth d (opt_str (g_parent_id g))) else 1)
      \<and> goal_depth d' (g_id g) \<le> MAX_GOAL_DEPTH"
    using add
  proof (rule add_goal_InrE)
    assume root: "\<not> truthy (g_parent_id g)"
    then have "\<not> walk_next (goals d') (g_parent_id g) {g_id g}"
      by (cases "g_parent_id g") (simp_all add: walk_next_def)
    with new root show ?thesis by (simp add: goal_depth_eq walk_stop MAX_GOAL_DEPTH_def)
  next
    fix p parent
    assume p: "g_parent_id g = Some p" "p \<noteq> []" "get_goal d p = Some parent"
      "goal_depth d p < MAX_GOAL_DEPTH"
    then have "p \<noteq> g_id g" using fresh by auto
    then have "walk_len (goals d') (Some p) {g_id g} = walk_len (goals d) (Some p) {}"
      using ext [of "Some p"] by simp
    with new p show ?thesis by (simp add: goal_depth_eq)
  qed
  have "depth_ok d'" unfolding depth_ok_def
  proof (intro allI impI)
    fix k assume k: "get_goal d' k \<noteq> None"
    show "goal_depth d' k \<le> MAX_GOAL_DEPTH"
    proof (cases "k = g_id g")
      case False
      with k have "get_goal d k \<noteq> None" by (simp add: d')
      with ok False show ?thesis by (simp add: depth_ok_def old)
    qed (use depth in simp)
  qed
  with depth show ?thesis by blast
qed

lemma add_goal_keeps_depth_witness:
  "depth_ok (put_goal (new_goal ''r'' ''root goal'' 1) \<lparr>goals = []\<rparr>)"
proof -
  have "add_goal (new_goal ''r'' ''root goal'' 1) \<lparr>goals = []\<rparr>
      = Inr (put_goal (new_goal ''r'' ''root goal'' 1) \<lparr>goals = []\<rparr>)"
    by (simp add: add_goal_def new_goal_def)
  from add_goal_keeps_depth [OF _ _ _ _ this] show ?thesis
    by (simp add: depth_ok_def get_goal_def new_goal_def)
qed

section \<open>Subtrees\<close>

text \<open>\<open>(c, p)\<close> when goal \<open>c\<close> names \<open>p\<close> as its parent.\<close>

definition parent_rel :: "goal_dag \<Rightarrow> (ident \<times> ident) set" where
  "parent_rel d = {(c, p). p \<noteq> [] \<and> (\<exists>g. get_goal d c = Some g \<and> g_parent_id g = Some p)}"

definition children_of :: "goal_dag \<Rightarrow> ident \<Rightarrow> ident list" where
  "children_of d p = (if p = [] then [] else map fst (filter (\<lambda>(c, g). g_parent_id g = Some p) (goals d)))"

lemma collect_children_get:
  "(case dict_get (collect_children gs ch) p of None \<Rightarrow> [] | Some l \<Rightarrow> l) =
     (case dict_get ch p of None \<Rightarrow> [] | Some l \<Rightarrow> l) @
     (if p = [] then [] else map fst (filter (\<lambda>(c, g). g_parent_id g = Some p) gs))"
proof (induction gs ch rule: collect_children.induct)
  case (2 gid g rest children)
  show ?case
  proof (cases "truthy (g_parent_id g)")
    case True
    then obtain q where "g_parent_id g = Some q" "q \<noteq> []" by (cases "g_parent_id g") simp_all
    then show ?thesis using 2(1) [OF True] by (simp split: option.split)
  next
    case False
    then have "p \<noteq> [] \<Longrightarrow> g_parent_id g \<noteq> Some p" by auto
    then show ?thesis using 2(2) False by simp
  qed
qed simp

lemma children_table:
  "(case dict_get (collect_children (goals d) []) p of None \<Rightarrow> [] | Some l \<Rightarrow> l) = children_of d p"
  by (simp add: collect_children_get children_of_def)

lemma children_of_iff: "wf_goal_dag d \<Longrightarrow> c \<in> set (children_of d p) \<longleftrightarrow> (c, p) \<in> parent_rel d"
  unfolding children_of_def parent_rel_def get_goal_def
  using wf_dict_filter_keys [OF wf_goal_dict, of d c "\<lambda>g. g_parent_id g = Some p"] by simp

lemma distinct_children: "wf_goal_dag d \<Longrightarrow> distinct (children_of d p)"
  using wf_goal_dict [of d] by (simp add: children_of_def wf_dict_def distinct_map_filter)

lemma parent_rel_unique: "single_valued (parent_rel d)"
  unfolding parent_rel_def single_valued_def by auto

lemma finite_parent_rel: "finite (parent_rel d)"
proof (rule finite_subset)
  show "parent_rel d \<subseteq> (\<lambda>(c, g). (c, opt_str (g_parent_id g))) ` set (goals d)"
    unfolding parent_rel_def get_goal_def by (force dest: map_of_SomeD)
qed simp

text \<open>Two goals in different subtrees of one parent have no common descendant.\<close>

lemma subtrees_disjoint:
  assumes acyc: "acyclic r" and uniq: "single_valued r"
    and "(a, p) \<in> r" "(b, p) \<in> r" "a \<noteq> b" "(k, a) \<in> r\<^sup>*" "(k, b) \<in> r\<^sup>*"
  shows False
proof -
  have up: "(x, y) \<in> r\<^sup>* \<or> (y, x) \<in> r\<^sup>*" if "(k, x) \<in> r\<^sup>*" "(k, y) \<in> r\<^sup>*" for x y
    using that(1)
  proof (induction rule: rtrancl_induct)
    case base
    show ?case using that(2) by simp
  next
    case (step u v)
    from step.IH show ?case
    proof
      assume "(u, y) \<in> r\<^sup>*"
      then show ?thesis
      proof (cases rule: converse_rtranclE)
        case base
        with step.hyps(2) show ?thesis by blast
      next
        case (step w)
        with single_valuedD [OF uniq \<open>(u, v) \<in> r\<close>] show ?thesis by blast
      qed
    next
      assume "(y, u) \<in> r\<^sup>*"
      with step.hyps(2) show ?thesis by (meson rtrancl.rtrancl_into_rtrancl)
    qed
  qed
  have no: False if "(x, p) \<in> r" "(y, p) \<in> r" "x \<noteq> y" "(x, y) \<in> r\<^sup>*" for x y
    using that(4)
  proof (cases rule: converse_rtranclE)
    case base
    with that(3) show ?thesis by simp
  next
    case (step w)
    with single_valuedD [OF uniq that(1)] have "(p, y) \<in> r\<^sup>*" by blast
    then have "(p, p) \<in> r\<^sup>+" using that(2) by (rule rtrancl_into_trancl1)
    with acyc show False unfolding acyclic_def by blast
  qed
  from up [OF assms(6,7)] show False
    using no [OF assms(3,4,5)] no [OF assms(4,3) assms(5) [symmetric]] by blast
qed

text \<open>What the post-order walk below \<open>p\<close> has to return.\<close>

definition post_order :: "(ident \<times> ident) set \<Rightarrow> ident \<Rightarrow> ident list \<Rightarrow> bool" where
  "post_order r p l \<longleftrightarrow> distinct l \<and> set l = {k. (k, p) \<in> r\<^sup>*} \<and>
     sorted_wrt (\<lambda>a b. (b, a) \<notin> r\<^sup>+) l \<and> last l = p"

lemma post_orderD:
  assumes "post_order r p l"
  shows "distinct l" "k \<in> set l \<longleftrightarrow> (k, p) \<in> r\<^sup>*" "sorted_wrt (\<lambda>a b. (b, a) \<notin> r\<^sup>+) l"
  using assms unfolding post_order_def by simp_all

lemma concat_post_orders:
  assumes acyc: "acyclic r" and uniq: "single_valued r"
    and "distinct cs" "\<And>c. c \<in> set cs \<Longrightarrow> (c, p) \<in> r" "\<And>c. c \<in> set cs \<Longrightarrow> post_order r c (f c)"
  shows "distinct (concat (map f cs)) \<and> set (concat (map f cs)) = {k. \<exists>c \<in> set cs. (k, c) \<in> r\<^sup>*}
    \<and> sorted_wrt (\<lambda>a b. (b, a) \<notin> r\<^sup>+) (concat (map f cs))"
  using assms(3-5)
proof (induction cs)
  case (Cons c cs)
  let ?rest = "concat (map f cs)"
  have IH: "distinct ?rest" "set ?rest = {k. \<exists>c \<in> set cs. (k, c) \<in> r\<^sup>*}"
    "sorted_wrt (\<lambda>a b. (b, a) \<notin> r\<^sup>+) ?rest"
    using Cons by simp_all
  have po: "post_order r c (f c)" using Cons.prems(3) by simp
  note f = post_orderD [OF po]
  have disj: False if "k \<in> set (f c)" "k \<in> set ?rest" for k
  proof -
    obtain c' where c': "c' \<in> set cs" "(k, c') \<in> r\<^sup>*" using \<open>k \<in> set ?rest\<close> IH(2) by blast
    have "c \<noteq> c'" using Cons.prems(1) c'(1) by auto
    moreover have "(c, p) \<in> r" "(c', p) \<in> r" using Cons.prems(2) c'(1) by simp_all
    moreover have "(k, c) \<in> r\<^sup>*" using \<open>k \<in> set (f c)\<close> f(2) by blast
    ultimately show False using subtrees_disjoint [OF acyc uniq, of c p c' k] c'(2) by blast
  qed
  have "(b, a) \<notin> r\<^sup>+" if "a \<in> set (f c)" "b \<in> set ?rest" for a b
  proof
    assume "(b, a) \<in> r\<^sup>+"
    with that(1) f(2) have "b \<in> set (f c)" by (meson trancl_into_rtrancl rtrancl_trans)
    with that(2) disj show False by blast
  qed
  then have "sorted_wrt (\<lambda>a b. (b, a) \<notin> r\<^sup>+) (f c @ ?rest)"
    using f(3) IH(3) by (simp add: sorted_wrt_append)
  moreover have "set (f c) \<inter> set ?rest = {}" using disj by blast
  moreover have "set (f c) = {k. (k, c) \<in> r\<^sup>*}" using f(2) by blast
  ultimately show ?case using f(1) IH by auto
qed simp

lemma visit_children_all:
  "(\<And>c. c \<in> set cs \<Longrightarrow> visit_subtree n ch c = Some (f c)) \<Longrightarrow>
   visit_children n ch cs = Some (concat (map f cs))"
  by (induction cs) simp_all

text \<open>Fuel above the number of proper descendants is enough.\<close>

lemma visit_subtree_post_order:
  assumes wf: "wf_goal_dag d" and acyc: "acyclic (parent_rel d)"
    and "card {k. (k, p) \<in> (parent_rel d)\<^sup>+} < n"
  shows "\<exists>l. visit_subtree n (collect_children (goals d) []) p = Some l \<and> post_order (parent_rel d) p l"
  using assms(3)
proof (induction n arbitrary: p)
  case (Suc n)
  let ?r = "parent_rel d" and ?ch = "collect_children (goals d) []"
  have fin: "finite {k. (k, q) \<in> ?r\<^sup>+}" for q
    by (rule finite_subset [of _ "Domain ?r"])
      (auto dest: tranclD intro: finite_Domain [OF finite_parent_rel])
  have child: "\<exists>l. visit_subtree n ?ch c = Some l \<and> post_order ?r c l" if c: "(c, p) \<in> ?r" for c
  proof (rule Suc.IH)
    have "{k. (k, c) \<in> ?r\<^sup>+} \<subset> {k. (k, p) \<in> ?r\<^sup>+}"
    proof
      show "{k. (k, c) \<in> ?r\<^sup>+} \<subseteq> {k. (k, p) \<in> ?r\<^sup>+}"
        using c by (blast intro: trancl_into_trancl)
      have "(c, c) \<notin> ?r\<^sup>+" using acyc by (simp add: acyclic_def)
      then show "{k. (k, c) \<in> ?r\<^sup>+} \<noteq> {k. (k, p) \<in> ?r\<^sup>+}" using c by blast
    qed
    then have "card {k. (k, c) \<in> ?r\<^sup>+} < card {k. (k, p) \<in> ?r\<^sup>+}"
      by (rule psubset_card_mono [OF fin])
    with Suc.prems show "card {k. (k, c) \<in> ?r\<^sup>+} < n" by simp
  qed
  define f where "f c = the (visit_subtree n ?ch c)" for c
  have f: "visit_subtree n ?ch c = Some (f c)" "post_order ?r c (f c)" if "(c, p) \<in> ?r" for c
    using child [OF that] unfolding f_def by auto
  let ?cs = "children_of d p"
  have cs: "c \<in> set ?cs \<Longrightarrow> (c, p) \<in> ?r" for c by (simp add: children_of_iff [OF wf])
  have "visit_children n ?ch ?cs = Some (concat (map f ?cs))"
    by (rule visit_children_all) (use cs f(1) in blast)
  then have visit: "visit_subtree (Suc n) ?ch p = Some (concat (map f ?cs) @ [p])"
    by (simp add: children_table)
  have below: "distinct (concat (map f ?cs))" "set (concat (map f ?cs)) = {k. \<exists>c \<in> set ?cs. (k, c) \<in> ?r\<^sup>*}"
    "sorted_wrt (\<lambda>a b. (b, a) \<notin> ?r\<^sup>+) (concat (map f ?cs))"
    using concat_post_orders [OF acyc parent_rel_unique distinct_children [OF wf] cs f(2) [OF cs]]
    by blast+
  have kids: "set (concat (map f ?cs)) = {k. (k, p) \<in> ?r\<^sup>+}"
    unfolding below(2) trancl_unfold_right relcomp_unfold using children_of_iff [OF wf] by blast
  have "(p, p) \<notin> ?r\<^sup>+" using acyc by (simp add: acyclic_def)
  then have "\<forall>a \<in> set (concat (map f ?cs)). (p, a) \<notin> ?r\<^sup>+" "p \<notin> set (concat (map f ?cs))"
    unfolding kids by (blast intro: trancl_trans)+
  with below(1,3) have "distinct (concat (map f ?cs) @ [p])"
    "sorted_wrt (\<lambda>a b. (b, a) \<notin> ?r\<^sup>+) (concat (map f ?cs) @ [p])"
    by (simp_all add: sorted_wrt_append)
  moreover have "set (concat (map f ?cs) @ [p]) = {k. (k, p) \<in> ?r\<^sup>*}"
    unfolding set_append kids by (auto simp: rtrancl_eq_or_trancl)
  ultimately show ?case using visit unfolding post_order_def by simp
qed simp

text \<open>\<open>collect_subtree_ids\<close> terminates on acyclic parents and returns the root goal and all its
  descendants, each once, every goal after all of its own descendants and the root last, so a
  cascading cancel that follows the list never stops a parent before its children.\<close>

theorem collect_subtree_ids_correct:
  assumes wf: "wf_goal_dag d" and acyc: "acyclic (parent_rel d)" and p: "get_goal d p \<noteq> None"
  shows "\<exists>l. collect_subtree_ids d p = Some l \<and> distinct l \<and>
     set l = {k. (k, p) \<in> (parent_rel d)\<^sup>*} \<and>
     sorted_wrt (\<lambda>a b. (b, a) \<notin> (parent_rel d)\<^sup>+) l \<and> last l = p"
proof -
  have "{k. (k, p) \<in> (parent_rel d)\<^sup>+} \<subseteq> set (goal_ids d)"
  proof
    fix k assume "k \<in> {k. (k, p) \<in> (parent_rel d)\<^sup>+}"
    then have "k \<in> Domain (parent_rel d)" by (auto dest: tranclD)
    then show "k \<in> set (goal_ids d)" unfolding goal_ids_iff parent_rel_def by auto
  qed
  then have "card {k. (k, p) \<in> (parent_rel d)\<^sup>+} \<le> card (set (goal_ids d))"
    by (intro card_mono) simp_all
  also have "\<dots> \<le> length (goals d)" unfolding goal_ids_def by (metis card_length length_map)
  finally have "card {k. (k, p) \<in> (parent_rel d)\<^sup>+} < Suc (length (goals d))" by simp
  from visit_subtree_post_order [OF wf acyc this] p show ?thesis
    unfolding collect_subtree_ids_def goal_ids_iff post_order_def by simp
qed

text \<open>A root goal with two levels below it.\<close>

definition sample_tree :: goal_dag where
  "sample_tree =
     \<lparr>goals =
        [(''r'', new_goal ''r'' ''root goal'' 1),
         (''a'', new_goal ''a'' ''child'' 2\<lparr>g_parent_id := Some ''r''\<rparr>),
         (''b'', new_goal ''b'' ''grandchild'' 3\<lparr>g_parent_id := Some ''a''\<rparr>)]\<rparr>"

lemma sample_tree_rel: "parent_rel sample_tree = {(''a'', ''r''), (''b'', ''a'')}"
proof (rule set_eqI)
  fix x :: "ident \<times> ident"
  obtain c p where x: "x = (c, p)" by (cases x)
  show "x \<in> parent_rel sample_tree \<longleftrightarrow> x \<in> {(''a'', ''r''), (''b'', ''a'')}"
    by (auto simp: x parent_rel_def get_goal_def sample_tree_def new_goal_def)
qed

lemma collect_subtree_ids_correct_witness:
  "(\<exists>l. collect_subtree_ids sample_tree ''r'' = Some l \<and> last l = ''r'') \<and>
   collect_subtree_ids sample_tree ''r'' = Some [''b'', ''a'', ''r'']"
proof
  have wf: "wf_goal_dag sample_tree"
    by (simp add: sample_tree_def wf_goal_dag_def keyed_by_def wf_dict_def new_goal_def)
  have "acyclic (parent_rel sample_tree)"
    unfolding sample_tree_rel
  proof (rule acyclicI_order [where f = "\<lambda>k. if k = ''r'' then 0 else if k = ''a'' then 1 else (2::nat)"])
    fix a b :: ident
    assume "(a, b) \<in> {(''a'', ''r''), (''b'', ''a'')}"
    then show "(if b = ''r'' then 0 else if b = ''a'' then 1 else 2)
      < (if a = ''r'' then 0 else if a = ''a'' then 1 else (2::nat))" by auto
  qed
  then show "\<exists>l. collect_subtree_ids sample_tree ''r'' = Some l \<and> last l = ''r''"
    using collect_subtree_ids_correct [OF wf, of "''r''"]
    by (auto simp: get_goal_def sample_tree_def)
  show "collect_subtree_ids sample_tree ''r'' = Some [''b'', ''a'', ''r'']"
    by (simp add: collect_subtree_ids_def sample_tree_def goal_ids_def new_goal_def dict_set_def Let_def)
qed

end
