(* ===== verification/Goal_Scheduling.thy ===== *)
theory Goal_Scheduling
  imports Goal_Dag
begin

text \<open>
  What the scheduler of the goal DAG promises: \<open>peek_ready_goals\<close> offers exactly the goals
  that \<open>claim_goal\<close> accepts, in priority order; claiming keeps conflicting goals apart;
  acyclic dependencies never leave the scheduler with nothing to offer; and how a failed or
  a merged dependency affects its dependents.
\<close>

section \<open>Claims\<close>

text \<open>The goal a successful claim stores.\<close>

definition claimed :: "time \<Rightarrow> string option \<Rightarrow> goal_node \<Rightarrow> goal_node" where
  "claimed now loop_id g =
     (let g' = g\<lparr>g_status := GActive, g_started_at := Some now, g_updated_at := now\<rparr>
      in if truthy loop_id then g'\<lparr>g_assigned_loop_id := loop_id\<rparr> else g')"

lemma claimed_simps [simp]:
  "g_id (claimed now l g) = g_id g" "g_status (claimed now l g) = GActive"
  "g_conflicts_with (claimed now l g) = g_conflicts_with g"
  "g_depends_on (claimed now l g) = g_depends_on g"
  "g_priority (claimed now l g) = g_priority g"
  by (simp_all add: claimed_def Let_def)

lemma claim_goal_cases:
  assumes "wf_goal_dag d"
  shows "claim_goal now gid l d =
    (case get_goal d gid of None \<Rightarrow> (None, d)
     | Some g \<Rightarrow> if is_ready d g then (Some (claimed now l g), modify_goal gid (\<lambda>_. claimed now l g) d)
                else (None, d))"
proof (cases "get_goal d gid")
  case (Some g)
  show ?thesis
  proof (cases "g_status g = GPending")
    case True
    have "gid \<notin> set (active_goal_ids d)"
      using True Some by (simp add: active_goal_ids_iff [OF assms])
    then have "list_ex (\<lambda>k. k \<in> set (filter (\<lambda>i. i \<noteq> gid) (active_goal_ids d))) (g_conflicts_with g)
      \<longleftrightarrow> set (g_conflicts_with g) \<inter> set (active_goal_ids d) \<noteq> {}"
      unfolding list_ex_iff by auto
    with True Some show ?thesis
      by (simp add: claim_goal_def is_ready_iff claimed_def Let_def del: set_filter)
  qed (use Some in \<open>simp add: claim_goal_def is_ready_iff\<close>)
qed (simp add: claim_goal_def)

lemma claim_goal_SomeE:
  assumes "claim_goal now gid l d = (Some g', d')" and wf: "wf_goal_dag d"
  obtains g where "get_goal d gid = Some g" "is_ready d g" "g' = claimed now l g"
    "d' = modify_goal gid (\<lambda>_. claimed now l g) d"
proof (cases "get_goal d gid")
  case None
  with assms show thesis by (simp add: claim_goal_cases [OF wf])
next
  case (Some g)
  show thesis
  proof (cases "is_ready d g")
    case True
    show thesis
      by (rule that [OF Some True]) (use assms(1) Some True in \<open>auto simp: claim_goal_cases [OF wf]\<close>)
  qed (use assms(1) Some in \<open>simp add: claim_goal_cases [OF wf]\<close>)
qed

lemma wf_claim_goal: "wf_goal_dag d \<Longrightarrow> wf_goal_dag (snd (claim_goal now gid l d))"
  by (simp add: claim_goal_cases wf_replace_goal split: option.split)

text \<open>Claim C17. Peeking and claiming agree: a stored goal can be claimed exactly when the
  scheduler counts it as ready, and the claim then stores it as active with the given loop
  and leaves every other goal as it was; a refused claim changes nothing.\<close>

theorem claim_agrees_with_ready:
  assumes "wf_goal_dag d" "get_goal d gid = Some g"
  shows "if is_ready d g
         then claim_goal now gid l d = (Some (claimed now l g), modify_goal gid (\<lambda>_. claimed now l g) d)
            \<and> (\<forall>k. k \<noteq> gid \<longrightarrow> get_goal (snd (claim_goal now gid l d)) k = get_goal d k)
         else claim_goal now gid l d = (None, d)"
  using assms(2) by (simp add: claim_goal_cases [OF assms(1)])

text \<open>A two-goal DAG: \<open>b\<close> depends on \<open>a\<close>; \<open>a\<close> has completed.\<close>

definition sample_goals :: goal_dag where
  "sample_goals =
     \<lparr>goals =
        [(''a'', new_goal ''a'' ''first'' 1\<lparr>g_status := GCompleted\<rparr>),
         (''b'', new_goal ''b'' ''second'' 2\<lparr>g_depends_on := [''a'']\<rparr>)]\<rparr>"

lemma new_goal_simps [simp]:
  "g_id (new_goal k s t) = k" "g_status (new_goal k s t) = GPending"
  "g_depends_on (new_goal k s t) = []" "g_conflicts_with (new_goal k s t) = []"
  "g_parent_id (new_goal k s t) = None" "g_priority (new_goal k s t) = 50"
  "g_created_at (new_goal k s t) = t" "g_description (new_goal k s t) = s"
  by (simp_all add: new_goal_def)

lemma wf_sample_goals: "wf_goal_dag sample_goals"
  by (simp add: sample_goals_def wf_goal_dag_def keyed_by_def wf_dict_def)

lemma get_sample_goals:
  "get_goal sample_goals ''a'' = Some (new_goal ''a'' ''first'' 1\<lparr>g_status := GCompleted\<rparr>)"
  "get_goal sample_goals ''b'' = Some (new_goal ''b'' ''second'' 2\<lparr>g_depends_on := [''a'']\<rparr>)"
  by (simp_all add: sample_goals_def get_goal_def)

lemma ready_sample_goals:
  "is_ready sample_goals (new_goal ''b'' ''second'' 2\<lparr>g_depends_on := [''a'']\<rparr>)"
  by (simp add: is_ready_iff deps_met_iff get_sample_goals TERMINAL_STATES_def)

lemma claim_agrees_with_ready_witness:
  "fst (claim_goal 7 ''b'' None sample_goals)
     = Some (claimed 7 None (new_goal ''b'' ''second'' 2\<lparr>g_depends_on := [''a'']\<rparr>))"
  using claim_agrees_with_ready [OF wf_sample_goals get_sample_goals(2), of 7 None]
  by (simp add: ready_sample_goals)

section \<open>Conflicts\<close>

text \<open>No two active goals exclude each other.\<close>

definition exclusive :: "goal_dag \<Rightarrow> bool" where
  "exclusive d \<longleftrightarrow>
     (\<forall>a b g h. get_goal d a = Some g \<and> get_goal d b = Some h \<and> a \<noteq> b \<and>
        g_status g = GActive \<and> g_status h = GActive \<longrightarrow> b \<notin> set (g_conflicts_with g))"

text \<open>Each goal that names another as a conflict is named by it.\<close>

definition mutual_conflicts :: "goal_dag \<Rightarrow> bool" where
  "mutual_conflicts d \<longleftrightarrow>
     (\<forall>a b g h. get_goal d a = Some g \<and> get_goal d b = Some h \<and> b \<in> set (g_conflicts_with g)
        \<longrightarrow> a \<in> set (g_conflicts_with h))"

lemma exclusiveD:
  "exclusive d \<Longrightarrow> get_goal d a = Some g \<Longrightarrow> get_goal d b = Some h \<Longrightarrow> a \<noteq> b \<Longrightarrow>
   g_status g = GActive \<Longrightarrow> g_status h = GActive \<Longrightarrow> b \<notin> set (g_conflicts_with g)"
  unfolding exclusive_def by blast

lemma mutual_conflictsD:
  "mutual_conflicts d \<Longrightarrow> get_goal d a = Some g \<Longrightarrow> get_goal d b = Some h \<Longrightarrow>
   b \<in> set (g_conflicts_with g) \<Longrightarrow> a \<in> set (g_conflicts_with h)"
  unfolding mutual_conflicts_def by blast

lemma ready_no_active_conflict:
  assumes "wf_goal_dag d" "is_ready d g" "get_goal d k = Some h" "g_status h = GActive"
  shows "k \<notin> set (g_conflicts_with g)"
proof -
  have "k \<in> set (active_goal_ids d)"
    using assms(3,4) by (simp add: active_goal_ids_iff [OF assms(1)])
  with assms(2) show ?thesis unfolding is_ready_iff by blast
qed

text \<open>Claim C1. Where the \<open>conflicts_with\<close> relation is symmetric, claiming never makes two
  conflicting goals active at the same time: mutual exclusion is an invariant of
  \<open>claim_goal\<close>, whichever goal is claimed.\<close>

theorem claim_keeps_exclusion:
  assumes wf: "wf_goal_dag d" and sym: "mutual_conflicts d" and exc: "exclusive d"
  shows "exclusive (snd (claim_goal now gid l d))"
proof (cases "\<exists>g. get_goal d gid = Some g \<and> is_ready d g")
  case False
  then have "snd (claim_goal now gid l d) = d"
    by (simp add: claim_goal_cases [OF wf] split: option.split)
  with exc show ?thesis by simp
next
  case True
  then obtain c where c: "get_goal d gid = Some c" "is_ready d c" by blast
  let ?c = "claimed now l c" and ?d = "snd (claim_goal now gid l d)"
  have get: "get_goal ?d k = (if k = gid then Some ?c else get_goal d k)" for k
    using c by (simp add: claim_goal_cases [OF wf])
  have "b \<notin> set (g_conflicts_with g)"
    if ab: "get_goal ?d a = Some g" "get_goal ?d b = Some h" "a \<noteq> b"
      "g_status g = GActive" "g_status h = GActive" for a b g h
  proof (cases "a = gid")
    case True
    with ab get have "get_goal d b = Some h" "g = ?c" by simp_all
    with ready_no_active_conflict [OF wf c(2) _ ab(5)] show ?thesis by simp
  next
    case False
    with ab get have g: "get_goal d a = Some g" by simp
    show ?thesis
    proof (cases "b = gid")
      case True
      then show ?thesis
        using ready_no_active_conflict [OF wf c(2) g ab(4)] mutual_conflictsD [OF sym g c(1)] by blast
    next
      case False
      with ab get have "get_goal d b = Some h" by simp
      then show ?thesis by (rule exclusiveD [OF exc g _ ab(3-5)])
    qed
  qed
  then show ?thesis unfolding exclusive_def by blast
qed

lemma claim_keeps_exclusion_witness: "exclusive (snd (claim_goal 7 ''b'' None sample_goals))"
proof (rule claim_keeps_exclusion [OF wf_sample_goals])
  have none: "b \<notin> set (g_conflicts_with g)" if "get_goal sample_goals k = Some g" for k g b
    using that by (simp add: sample_goals_def get_goal_def split: if_splits) auto
  show "mutual_conflicts sample_goals" unfolding mutual_conflicts_def using none by blast
  show "exclusive sample_goals" unfolding exclusive_def using none by blast
qed

text \<open>A one-sided conflict: \<open>a\<close> names \<open>b\<close>, not the other way round.\<close>

definition one_sided :: goal_dag where
  "one_sided =
     \<lparr>goals =
        [(''a'', new_goal ''a'' ''first'' 1\<lparr>g_conflicts_with := [''b'']\<rparr>),
         (''b'', new_goal ''b'' ''second'' 2)]\<rparr>"

lemma exclusive_one_active:
  "(\<And>k g. get_goal d k = Some g \<Longrightarrow> g_status g = GActive \<Longrightarrow> k = a) \<Longrightarrow> exclusive d"
  unfolding exclusive_def by blast

lemma wf_one_sided: "wf_goal_dag one_sided"
  by (simp add: one_sided_def wf_goal_dag_def keyed_by_def wf_dict_def)

lemma get_one_sided:
  "get_goal one_sided k =
     (if k = ''a'' then Some (new_goal ''a'' ''first'' 1\<lparr>g_conflicts_with := [''b'']\<rparr>)
      else if k = ''b'' then Some (new_goal ''b'' ''second'' 2) else None)"
  by (simp add: one_sided_def get_goal_def)

lemma active_one_sided: "set (active_goal_ids one_sided) = {}"
  by (rule set_eqI) (simp add: active_goal_ids_iff [OF wf_one_sided] get_one_sided)

lemma claim_a_one_sided:
  "snd (claim_goal 5 ''a'' None one_sided)
     = modify_goal ''a'' (\<lambda>_. claimed 5 None (new_goal ''a'' ''first'' 1\<lparr>g_conflicts_with := [''b'']\<rparr>)) one_sided"
  by (simp add: claim_goal_cases [OF wf_one_sided] get_one_sided is_ready_iff active_one_sided deps_met_def)

text \<open>Without that symmetry exclusion is lost: \<open>conflicts_with\<close> is read only from the
  goal being claimed, so a goal whose conflict is declared on the other side alone is claimed
  beside the active goal that names it.\<close>

theorem one_sided_conflict_breaks_exclusion:
  "let d1 = snd (claim_goal 5 ''a'' None one_sided); d2 = snd (claim_goal 6 ''b'' None d1)
   in exclusive d1 \<and> fst (claim_goal 6 ''b'' None d1) \<noteq> None \<and> \<not> exclusive d2"
proof -
  let ?d1 = "snd (claim_goal 5 ''a'' None one_sided)"
  let ?b = "new_goal ''b'' ''second'' 2"
  have wf: "wf_goal_dag ?d1" by (rule wf_claim_goal [OF wf_one_sided])
  have b: "get_goal ?d1 ''b'' = Some ?b" by (simp add: claim_a_one_sided get_one_sided)
  have ready: "is_ready ?d1 ?b" by (simp add: is_ready_iff deps_met_def)
  have claim: "claim_goal 6 ''b'' None ?d1
      = (Some (claimed 6 None ?b), modify_goal ''b'' (\<lambda>_. claimed 6 None ?b) ?d1)"
    using b ready by (simp add: claim_goal_cases [OF wf])
  have "exclusive ?d1"
    by (rule exclusive_one_active [where a = "''a''"])
      (simp add: claim_a_one_sided get_one_sided split: if_splits, auto)
  moreover have "\<not> exclusive (modify_goal ''b'' (\<lambda>_. claimed 6 None ?b) ?d1)"
  proof
    assume "exclusive (modify_goal ''b'' (\<lambda>_. claimed 6 None ?b) ?d1)"
    from exclusiveD [OF this, of "''a''"
        "claimed 5 None (new_goal ''a'' ''first'' 1\<lparr>g_conflicts_with := [''b'']\<rparr>)"
        "''b''" "claimed 6 None ?b"] show False
      by (simp add: claim_a_one_sided get_one_sided)
  qed
  ultimately show ?thesis by (simp add: claim Let_def)
qed

section \<open>What the scheduler offers\<close>

lemma peek_subset:
  assumes "wf_goal_dag d" "g \<in> set (peek_ready_goals d limit)"
  shows "get_goal d (g_id g) = Some g \<and> is_ready d g"
proof -
  have "g \<in> set (sort_key ready_key (filter (is_ready d) (goal_nodes d)))"
    using assms(2) set_py_prefix unfolding peek_ready_goals_def by fast
  then show ?thesis by (simp add: goal_nodes_iff [OF assms(1)])
qed

lemma peek_complete:
  assumes wf: "wf_goal_dag d" and "int (length (peek_ready_goals d limit)) < limit"
    and "get_goal d k = Some h" "is_ready d h"
  shows "h \<in> set (peek_ready_goals d limit)"
proof -
  let ?all = "sort_key ready_key (filter (is_ready d) (goal_nodes d))"
  have "length (py_prefix limit ?all) < nat limit"
    using assms(2) unfolding peek_ready_goals_def by linarith
  then have "peek_ready_goals d limit = ?all"
    unfolding peek_ready_goals_def by (rule py_prefix_all)
  moreover have "h \<in> set (goal_nodes d)"
    using assms(3) wf_goal_get [OF wf] by (simp add: goal_nodes_iff [OF wf])
  ultimately show ?thesis using assms(4) by simp
qed

text \<open>Claim C18. \<open>peek_ready_goals\<close> offers only stored, ready goals, by descending priority and
  then by age; a ready goal left out ranks behind every offered one; and it leaves none out
  unless the limit is reached.\<close>

theorem peek_ready_goals_correct:
  assumes wf: "wf_goal_dag d"
  shows "(sorted_wrt (\<lambda>a b. g_priority b < g_priority a \<or>
             g_priority a = g_priority b \<and> g_created_at a \<le> g_created_at b) (peek_ready_goals d limit)) \<and>
    (\<forall>g \<in> set (peek_ready_goals d limit). get_goal d (g_id g) = Some g \<and> is_ready d g) \<and>
    (\<forall>g \<in> set (peek_ready_goals d limit). \<forall>k h. get_goal d k = Some h \<longrightarrow> is_ready d h \<longrightarrow>
           h \<notin> set (peek_ready_goals d limit) \<longrightarrow> ready_key g \<le> ready_key h) \<and>
    (int (length (peek_ready_goals d limit)) < limit \<longrightarrow>
           (\<forall>k h. get_goal d k = Some h \<and> is_ready d h \<longrightarrow> h \<in> set (peek_ready_goals d limit)))"
proof -
  let ?all = "sort_key ready_key (filter (is_ready d) (goal_nodes d))"
  have all: "h \<in> set ?all \<longleftrightarrow> get_goal d (g_id h) = Some h \<and> is_ready d h" for h
    by (simp add: goal_nodes_iff [OF wf])
  have stored: "get_goal d k = Some h \<Longrightarrow> get_goal d (g_id h) = Some h" for k h
    using wf_goal_get [OF wf] by simp
  obtain m where m: "peek_ready_goals d limit = take m ?all"
    using py_prefix_take unfolding peek_ready_goals_def by blast
  have "sorted_wrt (\<lambda>a b. ready_key a \<le> ready_key b) (take m ?all)"
    using sorted_sort_key [of ready_key] by (intro sorted_wrt_take) (simp add: sorted_map)
  moreover have "(ready_key a \<le> ready_key b) = (g_priority b < g_priority a \<or>
      g_priority a = g_priority b \<and> g_created_at a \<le> g_created_at b)" for a b
    by (simp add: ready_key_def) arith
  ultimately have sorted: "sorted_wrt (\<lambda>a b. g_priority b < g_priority a \<or>
             g_priority a = g_priority b \<and> g_created_at a \<le> g_created_at b) (peek_ready_goals d limit)"
    unfolding m by simp
  have sound: "\<forall>g \<in> set (peek_ready_goals d limit). get_goal d (g_id g) = Some g \<and> is_ready d g"
    using peek_subset [OF wf] by blast
  have least: "\<forall>g \<in> set (peek_ready_goals d limit). \<forall>k h. get_goal d k = Some h \<longrightarrow> is_ready d h \<longrightarrow>
           h \<notin> set (peek_ready_goals d limit) \<longrightarrow> ready_key g \<le> ready_key h"
    using sorted_prefix_least [OF sorted_sort_key [of ready_key]] all stored
    unfolding peek_ready_goals_def by blast
  have full: "int (length (peek_ready_goals d limit)) < limit \<longrightarrow>
           (\<forall>k h. get_goal d k = Some h \<and> is_ready d h \<longrightarrow> h \<in> set (peek_ready_goals d limit))"
    using peek_complete [OF wf] by blast
  show ?thesis using sorted sound least full by (intro conjI)
qed

lemma peek_ready_goals_correct_witness:
  "new_goal ''b'' ''second'' 2\<lparr>g_depends_on := [''a'']\<rparr> \<in> set (peek_ready_goals sample_goals 4)"
proof -
  have "length (peek_ready_goals sample_goals 4) \<le> length (filter (is_ready sample_goals) (goal_nodes sample_goals))"
    by (simp add: peek_ready_goals_def py_prefix_def)
  also have "\<dots> \<le> length (goal_nodes sample_goals)" by (rule length_filter_le)
  also have "\<dots> = 2" by (simp add: goal_nodes_def sample_goals_def)
  finally have "int (length (peek_ready_goals sample_goals 4)) < 4" by simp
  then show ?thesis
    using peek_ready_goals_correct [OF wf_sample_goals, of 4] get_sample_goals(2) ready_sample_goals by blast
qed

section \<open>Dependencies\<close>

text \<open>\<open>(k, i)\<close> is an edge when goal \<open>i\<close> depends on goal \<open>k\<close>.\<close>

definition goal_dep_edges :: "goal_dag \<Rightarrow> (ident \<times> ident) set" where
  "goal_dep_edges d = {(k, i). \<exists>g. get_goal d i = Some g \<and> k \<in> set (g_depends_on g)}"

definition closed_deps :: "goal_dag \<Rightarrow> bool" where
  "closed_deps d \<longleftrightarrow>
     (\<forall>i g k. get_goal d i = Some g \<and> k \<in> set (g_depends_on g) \<longrightarrow> get_goal d k \<noteq> None)"

definition open_goals :: "goal_dag \<Rightarrow> ident set" where
  "open_goals d = {i. \<exists>g. get_goal d i = Some g \<and> g_status g \<notin> TERMINAL_STATES}"

lemma finite_goal_ids: "finite {i. get_goal d i \<noteq> None}"
  by (rule finite_subset [of _ "set (goal_ids d)"]) (simp_all add: subset_iff goal_ids_iff)

lemma finite_open_goals: "finite (open_goals d)"
  by (rule finite_subset [OF _ finite_goal_ids [of d]]) (simp add: subset_iff open_goals_def, blast)

lemma is_dag_complete_iff: "wf_goal_dag d \<Longrightarrow> is_dag_complete d \<longleftrightarrow> open_goals d = {}"
proof -
  assume wf: "wf_goal_dag d"
  have "is_dag_complete d \<longleftrightarrow> (\<forall>g \<in> set (goal_nodes d). g_status g \<in> TERMINAL_STATES)"
    by (simp add: is_dag_complete_def list_all_iff goal_nodes_def)
  also have "\<dots> \<longleftrightarrow> (\<forall>i g. get_goal d i = Some g \<longrightarrow> g_status g \<in> TERMINAL_STATES)"
  proof -
    have "get_goal d i = Some g \<Longrightarrow> g \<in> set (goal_nodes d)" for i g
      using wf_goal_get [OF wf] by (simp add: goal_nodes_iff [OF wf])
    then show ?thesis using goal_nodes_iff [OF wf] by blast
  qed
  finally show ?thesis unfolding open_goals_def by blast
qed

text \<open>In an acyclic DAG an unfinished goal exists none of whose dependencies is unfinished.\<close>

lemma minimal_open_goal:
  assumes "acyclic (goal_dep_edges d)" "closed_deps d" "open_goals d \<noteq> {}"
  obtains i g where "get_goal d i = Some g" "i \<in> open_goals d" "deps_met d g"
proof -
  let ?r = "goal_dep_edges d \<inter> (open_goals d \<times> open_goals d)"
  have "finite ?r" using finite_open_goals by simp
  moreover have "acyclic ?r" by (rule acyclic_subset [OF assms(1)]) simp
  ultimately have "wf ?r" by (rule finite_acyclic_wf)
  then obtain i where i: "i \<in> open_goals d" "\<And>k. (k, i) \<in> ?r \<Longrightarrow> k \<notin> open_goals d"
    using assms(3) wfE_min [of ?r] by (metis all_not_in_conv)
  then obtain g where g: "get_goal d i = Some g" unfolding open_goals_def by blast
  have "\<exists>h. get_goal d k = Some h \<and> g_status h \<in> TERMINAL_STATES" if "k \<in> set (g_depends_on g)" for k
  proof -
    have "get_goal d k \<noteq> None" using assms(2) g that unfolding closed_deps_def by blast
    then obtain h where h: "get_goal d k = Some h" by blast
    have "(k, i) \<in> goal_dep_edges d" unfolding goal_dep_edges_def using g that by blast
    with i have "k \<notin> open_goals d" by blast
    with h show ?thesis unfolding open_goals_def by blast
  qed
  then have "deps_met d g" by (simp add: deps_met_iff)
  with g i(1) show thesis by (rule that)
qed


lemma sample_goals_edges: "goal_dep_edges sample_goals = {(''a'', ''b'')}"
proof (rule set_eqI)
  fix p :: "ident \<times> ident"
  obtain k i where p: "p = (k, i)" by (cases p)
  have none: "get_goal sample_goals i = None" if "i \<noteq> ''a''" "i \<noteq> ''b''"
    using that by (simp add: sample_goals_def get_goal_def)
  show "p \<in> goal_dep_edges sample_goals \<longleftrightarrow> p \<in> {(''a'', ''b'')}"
    by (cases "i = ''a''"; cases "i = ''b''")
      (simp_all add: p goal_dep_edges_def get_sample_goals none)
qed

lemma sample_goals_open: "open_goals sample_goals = {''b''}"
proof (rule set_eqI)
  fix i :: ident
  have none: "get_goal sample_goals i = None" if "i \<noteq> ''a''" "i \<noteq> ''b''"
    using that by (simp add: sample_goals_def get_goal_def)
  show "i \<in> open_goals sample_goals \<longleftrightarrow> i \<in> {''b''}"
    by (cases "i = ''a''"; cases "i = ''b''")
      (simp_all add: open_goals_def get_sample_goals none TERMINAL_STATES_def)
qed


text \<open>A failed dependency counts as met: once \<open>fail_goal\<close> has run on the last
  unfinished dependency of a pending goal that no active goal excludes, that dependent is
  ready and would be dispatched, exactly as if the dependency had completed.\<close>

theorem failed_dependency_releases_dependent:
  assumes wf: "wf_goal_dag d" and dep: "get_goal d k = Some f" and g: "get_goal d i = Some g" "i \<noteq> k"
    and pending: "g_status g = GPending"
    and others: "\<forall>j \<in> set (g_depends_on g) - {k}. \<exists>h. get_goal d j = Some h \<and> g_status h \<in> TERMINAL_STATES"
    and free: "set (g_conflicts_with g) \<inter> set (active_goal_ids d) = {}"
  shows "is_ready (dag_fail_goal now k err d) g \<and> is_ready (dag_complete_goal now k d) g"
proof -
  have shrink: "set (active_goal_ids (modify_goal k u d)) \<subseteq> set (active_goal_ids d)"
    if u: "\<And>x. g_id (u x) = g_id x" "\<And>x. g_status (u x) \<noteq> GActive" for u
  proof
    fix j assume "j \<in> set (active_goal_ids (modify_goal k u d))"
    then obtain x where x: "get_goal (modify_goal k u d) j = Some x" "g_status x = GActive"
      unfolding active_goal_ids_iff [OF wf_modify_goal [OF wf u(1)]] by blast
    then have "j \<noteq> k" using dep u(2) by auto
    with x show "j \<in> set (active_goal_ids d)" by (simp add: active_goal_ids_iff [OF wf])
  qed
  have met: "deps_met (modify_goal k u d) g" if "g_status (u f) \<in> TERMINAL_STATES" for u
    unfolding deps_met_iff using others dep that by auto
  have ready: "is_ready (modify_goal k u d) g"
    if "\<And>x. g_id (u x) = g_id x" "\<And>x. g_status (u x) \<noteq> GActive" "g_status (u f) \<in> TERMINAL_STATES" for u
    using shrink [OF that(1,2)] met [of u] that(3) pending free unfolding is_ready_iff by blast
  show ?thesis
    unfolding dag_fail_goal_def dag_complete_goal_def
    by (intro conjI ready) (simp_all add: TERMINAL_STATES_def)
qed

text \<open>The same two goals while \<open>a\<close> runs.\<close>

definition sample_running :: goal_dag where
  "sample_running =
     \<lparr>goals =
        [(''a'', new_goal ''a'' ''first'' 1\<lparr>g_status := GActive\<rparr>),
         (''b'', new_goal ''b'' ''second'' 2\<lparr>g_depends_on := [''a'']\<rparr>)]\<rparr>"

lemma wf_sample_running: "wf_goal_dag sample_running"
  by (simp add: sample_running_def wf_goal_dag_def keyed_by_def wf_dict_def)

lemma get_sample_running:
  "get_goal sample_running ''a'' = Some (new_goal ''a'' ''first'' 1\<lparr>g_status := GActive\<rparr>)"
  "get_goal sample_running ''b'' = Some (new_goal ''b'' ''second'' 2\<lparr>g_depends_on := [''a'']\<rparr>)"
  by (simp_all add: sample_running_def get_goal_def)

lemma failed_dependency_releases_dependent_witness:
  "\<not> is_ready sample_running (new_goal ''b'' ''second'' 2\<lparr>g_depends_on := [''a'']\<rparr>) \<and>
   is_ready (dag_fail_goal 3 ''a'' ''boom'' sample_running) (new_goal ''b'' ''second'' 2\<lparr>g_depends_on := [''a'']\<rparr>)"
  using failed_dependency_releases_dependent
    [OF wf_sample_running get_sample_running, of 3 "''boom''"]
  by (simp add: is_ready_iff deps_met_iff get_sample_running TERMINAL_STATES_def)

section \<open>Removing and merging\<close>

lemma wf_remove_goal: "wf_goal_dag d \<Longrightarrow> wf_goal_dag (snd (remove_goal gid d))"
  by (simp add: remove_goal_def wf_pop_goal split: option.split)

text \<open>\<open>remove_goal\<close> keeps referential integrity: when every dependency of every goal
  exists before the call, it does afterwards; the goal is deleted exactly when the call
  reports success, and a refused call leaves the DAG as it was.\<close>

theorem remove_goal_keeps_dependencies:
  assumes wf: "wf_goal_dag d" and closed: "closed_deps d"
  shows "closed_deps (snd (remove_goal gid d)) \<and>
         (if fst (remove_goal gid d)
          then get_goal (snd (remove_goal gid d)) gid = None \<and>
               (\<forall>k. k \<noteq> gid \<longrightarrow> get_goal (snd (remove_goal gid d)) k = get_goal d k)
          else snd (remove_goal gid d) = d)"
proof (cases "get_goal d gid = None \<or> get_goal_dependents d gid \<noteq> []")
  case True
  then have "remove_goal gid d = (False, d)"
    by (cases "get_goal d gid") (simp_all add: remove_goal_def)
  with closed show ?thesis by simp
next
  case False
  let ?d = "d\<lparr>goals := dict_pop gid (goals d)\<rparr>"
  have rm: "remove_goal gid d = (True, ?d)"
    using False by (simp add: remove_goal_def split: option.split)
  have free: "gid \<notin> set (g_depends_on h)" if "get_goal d i = Some h" for i h
  proof
    assume "gid \<in> set (g_depends_on h)"
    then have "i \<in> set (get_goal_dependents d gid)"
      unfolding dependents_iff [OF wf] using that by blast
    with False show False by simp
  qed
  have "get_goal ?d k \<noteq> None" if "get_goal ?d i = Some h" "k \<in> set (g_depends_on h)" for i h k
  proof -
    have h: "get_goal d i = Some h" using that(1) by (simp split: if_splits)
    then have "get_goal d k \<noteq> None" using closed that(2) unfolding closed_deps_def by blast
    moreover have "k \<noteq> gid" using free [OF h] that(2) by blast
    ultimately show ?thesis by simp
  qed
  then have "closed_deps ?d" unfolding closed_deps_def by blast
  then show ?thesis unfolding rm by simp
qed

lemma closed_sample_goals: "closed_deps sample_goals"
proof -
  have "get_goal sample_goals k \<noteq> None" if "(k, i) \<in> goal_dep_edges sample_goals" for i k
    using that by (simp add: sample_goals_edges get_sample_goals)
  then show ?thesis unfolding closed_deps_def goal_dep_edges_def by blast
qed

lemma remove_goal_keeps_dependencies_witness:
  "closed_deps (snd (remove_goal ''b'' sample_goals)) \<and> fst (remove_goal ''b'' sample_goals) \<and>
   \<not> fst (remove_goal ''a'' sample_goals)"
proof (intro conjI)
  show "closed_deps (snd (remove_goal ''b'' sample_goals))"
    using remove_goal_keeps_dependencies [OF wf_sample_goals closed_sample_goals, of "''b''"] by (rule conjunct1)
  show "fst (remove_goal ''b'' sample_goals)" "\<not> fst (remove_goal ''a'' sample_goals)"
    by (simp_all add: remove_goal_def get_goal_dependents_def sample_goals_def get_goal_def)
qed

lemma get_pop_all:
  "dict_get (foldl (\<lambda>gs gid. dict_pop gid gs) gs ids) k = (if k \<in> set ids then None else dict_get gs k)"
  by (induction ids arbitrary: gs) auto

lemma merged_goal_id [simp]:
  "g_id (merged_goal now fresh ids desc mid gs) = (if truthy mid then opt_str mid else fresh)"
  by (simp add: merged_goal_def)

lemma merge_goals_SomeE:
  assumes "merge_goals now fresh ids desc mid d = (Inr (Some m), d')"
  obtains "list_all (\<lambda>k. get_goal d k \<noteq> None) ids" "ids \<noteq> []"
    "m = merged_goal now fresh ids desc mid (map (\<lambda>k. the (get_goal d k)) ids)"
    "d' = put_goal m (d\<lparr>goals := foldl (\<lambda>gs gid. dict_pop gid gs) (goals d) ids\<rparr>)"
proof (cases "list_all (\<lambda>k. get_goal d k \<noteq> None) ids \<and> ids \<noteq> []")
  case True
  with assms show thesis
    by (intro that) (auto simp: merge_goals_def Let_def list.pred_map comp_def)
next
  case False
  with assms show thesis
    by (simp add: merge_goals_def Let_def list.pred_map comp_def split: if_splits)
qed

lemma merge_goals_get:
  assumes "merge_goals now fresh ids desc mid d = (Inr (Some m), d')"
  shows "get_goal d' k = (if k = g_id m then Some m else if k \<in> set ids then None else get_goal d k)"
proof -
  have "d' = put_goal m (d\<lparr>goals := foldl (\<lambda>gs gid. dict_pop gid gs) (goals d) ids\<rparr>)"
    using assms by (rule merge_goals_SomeE)
  then show ?thesis by (simp add: get_goal_def put_goal_def get_pop_all)
qed

text \<open>Merging strands the dependents of the merged goals: \<open>merge_goals\<close> deletes the
  goals without looking for dependents and leaves their ids in the other goals' dependency
  lists, so a goal that depended on one of them is not ready afterwards, whatever its
  status, and stays unready until a goal with that very id is added again.\<close>

theorem merge_goals_strands_dependents:
  assumes merge: "merge_goals now fresh ids desc mid d = (Inr (Some m), d')"
    and k: "k \<in> set ids" "k \<noteq> g_id m"
    and h: "get_goal d i = Some h" "i \<notin> set ids" "i \<noteq> g_id m" "k \<in> set (g_depends_on h)"
  shows "get_goal d' i = Some h \<and> \<not> is_ready d' h \<and>
         (\<forall>d''. get_goal d'' k = None \<longrightarrow> \<not> is_ready d'' h)"
proof -
  have i: "get_goal d' i = Some h" and gone: "get_goal d' k = None"
    unfolding merge_goals_get [OF merge] using k h by simp_all
  have "\<not> is_ready d'' h" if "get_goal d'' k = None" for d''
  proof
    assume "is_ready d'' h"
    then have "deps_met d'' h" by (simp add: is_ready_iff)
    with h(4) have "\<exists>x. get_goal d'' k = Some x" unfolding deps_met_iff by blast
    with that show False by simp
  qed
  with i gone show ?thesis by blast
qed

lemma merge_goals_strands_dependents_witness:
  "\<not> is_ready (snd (merge_goals 9 ''m'' [''a''] ''merged'' None sample_goals))
      (new_goal ''b'' ''second'' 2\<lparr>g_depends_on := [''a'']\<rparr>)"
proof -
  have "merge_goals 9 ''m'' [''a''] ''merged'' None sample_goals =
      (Inr (Some (merged_goal 9 ''m'' [''a''] ''merged'' None
         [new_goal ''a'' ''first'' 1\<lparr>g_status := GCompleted\<rparr>])),
       snd (merge_goals 9 ''m'' [''a''] ''merged'' None sample_goals))"
    by (simp add: merge_goals_def get_sample_goals Let_def)
  from merge_goals_strands_dependents [OF this, of "''a''" "''b''"
      "new_goal ''b'' ''second'' 2\<lparr>g_depends_on := [''a'']\<rparr>"]
  show ?thesis by (simp add: get_sample_goals)
qed

section \<open>Recovery and snapshots\<close>

lemma recover_loop_spec:
  "recover_loop now gs =
     (map (\<lambda>(k, g). g_id g) (filter (\<lambda>(k, g). g_status g = GActive) gs),
      map (\<lambda>(k, g). (k, if g_status g = GActive then recover_goal now g else g)) gs)"
proof (induction gs)
  case (Cons p gs)
  then show ?case by (cases p) simp
qed simp

lemma get_recovered:
  "get_goal (snd (recover_active_goals now d)) k =
     map_option (\<lambda>g. if g_status g = GActive then recover_goal now g else g) (get_goal d k)"
  by (simp add: recover_active_goals_def recover_loop_spec get_goal_def map_of_map)

lemma recover_ids:
  assumes wf: "wf_goal_dag d"
  shows "fst (recover_active_goals now d) = active_goal_ids d"
proof -
  have ids: "map (\<lambda>(k, g). g_id g) (filter (\<lambda>(k, g). g_status g = GActive) gs)
      = map fst (filter (\<lambda>(k, g). g_status g = GActive) gs)" if "\<forall>(k, g) \<in> set gs. g_id g = k" for gs
    using that by (induction gs) (simp_all add: case_prod_beta)
  have "\<forall>(k, g) \<in> set (goals d). g_id g = k"
    using wf unfolding wf_goal_dag_def keyed_by_def by (simp add: dict_get_in case_prod_beta)
  from ids [OF this] show ?thesis
    by (simp add: recover_active_goals_def recover_loop_spec active_goal_ids_def)
qed

text \<open>Crash recovery resets exactly the active goals: their ids are returned in
  storage order, each becomes pending with no assigned loop and one more crash attempt, every
  other goal is left alone, nothing is active afterwards, and running it again is a no-op.\<close>

theorem recover_active_goals_correct:
  assumes wf: "wf_goal_dag d"
  shows "fst (recover_active_goals now d) = active_goal_ids d \<and>
         (\<forall>k. get_goal (snd (recover_active_goals now d)) k =
            map_option (\<lambda>g. if g_status g = GActive
                            then g\<lparr>g_assigned_loop_id := None, g_status := GPending,
                                   g_attempts_after_crash := g_attempts_after_crash g + 1, g_updated_at := now\<rparr>
                            else g) (get_goal d k)) \<and>
         active_goal_ids (snd (recover_active_goals now d)) = [] \<and>
         recover_active_goals now' (snd (recover_active_goals now d)) = ([], snd (recover_active_goals now d))"
proof (intro conjI)
  show "fst (recover_active_goals now d) = active_goal_ids d" by (rule recover_ids [OF wf])
  show "\<forall>k. get_goal (snd (recover_active_goals now d)) k = map_option (\<lambda>g. if g_status g = GActive
      then g\<lparr>g_assigned_loop_id := None, g_status := GPending,
             g_attempts_after_crash := g_attempts_after_crash g + 1, g_updated_at := now\<rparr>
      else g) (get_goal d k)"
    unfolding get_recovered recover_goal_def by simp
  have none: "filter (\<lambda>(k, g). g_status g = GActive)
      (map (\<lambda>(k, g). (k, if g_status g = GActive then recover_goal now g else g)) gs) = []" for gs
    by (induction gs) (simp_all add: case_prod_beta recover_goal_def)
  then show "active_goal_ids (snd (recover_active_goals now d)) = []"
    by (simp add: recover_active_goals_def recover_loop_spec active_goal_ids_def)
  have same: "map (\<lambda>(k, g). (k, if g_status g = GActive then recover_goal now' g else g))
      (map (\<lambda>(k, g). (k, if g_status g = GActive then recover_goal now g else g)) gs)
    = map (\<lambda>(k, g). (k, if g_status g = GActive then recover_goal now g else g)) gs" for gs
    by (induction gs) (simp_all add: case_prod_beta recover_goal_def)
  show "recover_active_goals now' (snd (recover_active_goals now d)) = ([], snd (recover_active_goals now d))"
    unfolding recover_active_goals_def recover_loop_spec
    using none [of "goals d"] same [of "goals d"] by (simp del: map_map)
qed

lemma recover_active_goals_correct_witness:
  "fst (recover_active_goals 8 sample_running) = [''a'']"
proof -
  have "active_goal_ids sample_running = [''a'']"
    by (simp add: sample_running_def active_goal_ids_def)
  then show ?thesis using recover_active_goals_correct [OF wf_sample_running, of 8 0] by (elim conjE) simp
qed

lemma wf_recover_active_goals: "wf_goal_dag d \<Longrightarrow> wf_goal_dag (snd (recover_active_goals now d))"
  unfolding wf_goal_dag_def
  by (rule keyed_by_map_values [where g = "\<lambda>g. if g_status g = GActive then recover_goal now g else g"])
    (simp_all add: recover_active_goals_def recover_loop_spec recover_goal_def)

text \<open>Snapshot and restore are inverse: restoring a snapshot of a well-formed DAG
  rebuilds every goal under its id and in its order, whatever the target held before.\<close>

theorem snapshot_restore_roundtrip:
  assumes "wf_goal_dag d"
  shows "restore_from_snapshot (snapshot now d) d' = d"
proof -
  have put: "foldl (\<lambda>d g. put_goal g d) d0 gs = d0\<lparr>goals := goals d0 @ map (\<lambda>g. (g_id g, g)) gs\<rparr>"
    if "distinct (dict_keys (goals d0) @ map g_id gs)" for d0 gs
    using that
  proof (induction gs arbitrary: d0)
    case (Cons g gs)
    then have "put_goal g d0 = d0\<lparr>goals := goals d0 @ [(g_id g, g)]\<rparr>"
      unfolding put_goal_def by (subst dict_set_new) simp_all
    with Cons show ?case by simp
  qed simp
  have keys: "map g_id (goal_nodes d) = dict_keys (goals d)"
    using assms unfolding wf_goal_dag_def goal_nodes_def by (rule keyed_by_keys)
  then have "map (\<lambda>g. (g_id g, g)) (goal_nodes d) = zip (dict_keys (goals d)) (goal_nodes d)"
    by (simp only: map_with_key keys)
  also have "\<dots> = goals d" unfolding goal_nodes_def by (rule zip_dict)
  finally have "map (\<lambda>g. (g_id g, g)) (goal_nodes d) = goals d" .
  with put [of "d'\<lparr>goals := []\<rparr>" "goal_nodes d"] keys wf_goal_dict [OF assms] show ?thesis
    by (simp add: restore_from_snapshot_def snapshot_def wf_dict_def del: map_map)
qed

lemma snapshot_restore_roundtrip_witness:
  "restore_from_snapshot (snapshot 9 sample_goals) sample_running = sample_goals"
  by (rule snapshot_restore_roundtrip [OF wf_sample_goals])

end
