(* ===== verification/Lifecycle.thy ===== *)
theory Lifecycle
  imports Context_Engine Goal_Scheduling
begin

text \<open>
  The engine as a state machine: one rule of \<open>engine_step\<close> per operation of
  \<open>ContextEngine\<close> that changes goals, and what every run of such steps keeps. Removing and
  merging goals are not steps here: they delete goals, and are treated in
  \<open>Goal_Scheduling\<close>.
\<close>

section \<open>Status steps\<close>

inductive status_step :: "goal_status \<Rightarrow> goal_status \<Rightarrow> bool" where
  "t \<in> valid_goal_transitions s \<Longrightarrow> status_step s t"

inductive_simps completed_step_iff: "status_step GCompleted t"
inductive_simps status_step_iff: "status_step s t"

lemma no_step_from_completed [simp]: "\<not> status_step GCompleted t"
  by (simp add: completed_step_iff)

lemma one_move: "t \<in> valid_goal_transitions s \<Longrightarrow> status_step\<^sup>*\<^sup>* s t"
  by (rule r_into_rtranclp) (rule status_step.intros)

section \<open>The interface of a lifecycle\<close>

text \<open>What the callers of the engine rely on: a step moves the status of a goal along a table of
  allowed transitions and never loses the goal.\<close>

locale lifecycle =
  fixes step :: "'s \<Rightarrow> 's \<Rightarrow> bool"
    and stat :: "'s \<Rightarrow> ident \<Rightarrow> goal_status option"
    and move :: "goal_status \<Rightarrow> goal_status \<Rightarrow> bool"
  assumes step_moves: "step s s' \<Longrightarrow> stat s k = Some a \<Longrightarrow> \<exists>b. stat s' k = Some b \<and> move\<^sup>*\<^sup>* a b"
begin

lemma run_moves: "step\<^sup>*\<^sup>* s s' \<Longrightarrow> stat s k = Some a \<Longrightarrow> \<exists>b. stat s' k = Some b \<and> move\<^sup>*\<^sup>* a b"
proof (induction rule: rtranclp_induct)
  case (step t u)
  then obtain b where b: "stat t k = Some b" "move\<^sup>*\<^sup>* a b" by blast
  from step_moves [OF step.hyps(2) b(1)] obtain c where "stat u k = Some c" "move\<^sup>*\<^sup>* b c" by blast
  with b(2) show ?case by (meson rtranclp_trans)
qed blast

lemma run_keeps: "step\<^sup>*\<^sup>* s s' \<Longrightarrow> stat s k \<noteq> None \<Longrightarrow> stat s' k \<noteq> None"
  using run_moves by fastforce

lemma run_absorbed:
  assumes "\<And>b. \<not> move a b" "step\<^sup>*\<^sup>* s s'" "stat s k = Some a"
  shows "stat s' k = Some a"
proof -
  obtain b where b: "stat s' k = Some b" "move\<^sup>*\<^sup>* a b" using run_moves [OF assms(2,3)] by blast
  from b(2) have "b = a" using assms(1) by (cases rule: converse_rtranclpE) blast+
  with b(1) show ?thesis by simp
qed

end

section \<open>Lawful changes\<close>

text \<open>A change that keeps the DAG well formed and every goal in it, moving statuses along the table.\<close>

definition lawful :: "goal_dag \<Rightarrow> goal_dag \<Rightarrow> bool" where
  "lawful d d' \<longleftrightarrow> (wf_goal_dag d \<longrightarrow> wf_goal_dag d') \<and>
     (\<forall>k g. get_goal d k = Some g \<longrightarrow>
        (\<exists>g'. get_goal d' k = Some g' \<and> status_step\<^sup>*\<^sup>* (g_status g) (g_status g')))"

lemma lawful_refl [simp, intro]: "lawful d d"
  unfolding lawful_def by blast

lemma lawful_trans: "lawful a b \<Longrightarrow> lawful b c \<Longrightarrow> lawful a c"
  unfolding lawful_def by (meson rtranclp_trans)

lemma wf_modify_stored:
  assumes "wf_goal_dag d" "\<And>g. get_goal d k = Some g \<Longrightarrow> g_id (f g) = g_id g"
  shows "wf_goal_dag (modify_goal k f d)"
proof (cases "get_goal d k")
  case None
  then have "dict_modify k f (goals d) = goals d"
    unfolding get_goal_def by (intro dict_modify_ident wf_goal_dict assms(1)) simp
  with assms(1) show ?thesis by (simp add: modify_goal_def)
next
  case (Some g)
  then have "g_id (f g) = k" using assms wf_goal_get by simp
  with assms(1) Some show ?thesis
    unfolding wf_goal_dag_def modify_goal_def keyed_by_def get_goal_def
    by (simp add: map_option_case split: option.splits if_splits)
qed

lemma lawful_modify:
  assumes "\<And>g. get_goal d k = Some g \<Longrightarrow> g_id (f g) = g_id g \<and> status_step\<^sup>*\<^sup>* (g_status g) (g_status (f g))"
  shows "lawful d (modify_goal k f d)"
  unfolding lawful_def
proof (intro conjI impI allI)
  show "wf_goal_dag d \<Longrightarrow> wf_goal_dag (modify_goal k f d)"
    by (rule wf_modify_stored) (simp_all add: assms)
  fix j g assume "get_goal d j = Some g"
  then show "\<exists>g'. get_goal (modify_goal k f d) j = Some g' \<and> status_step\<^sup>*\<^sup>* (g_status g) (g_status g')"
    using assms by (cases "j = k") auto
qed

text \<open>The two uses: the status stays, or makes one step of the table.\<close>

lemma lawful_same_status:
  "(\<And>g. g_id (f g) = g_id g \<and> g_status (f g) = g_status g) \<Longrightarrow> lawful d (modify_goal k f d)"
  by (rule lawful_modify) simp

lemma lawful_move:
  assumes "get_goal d k = Some g" "t \<in> valid_goal_transitions (g_status g)"
    and "g_id (f g) = g_id g" "g_status (f g) = t"
  shows "lawful d (modify_goal k f d)"
  using assms by (intro lawful_modify) (simp add: status_step.intros r_into_rtranclp)

lemma validate_ok: "validate_transition gid s t = Inr u \<longleftrightarrow> t \<in> valid_goal_transitions s"
  by (simp add: validate_transition_def)

lemma lawful_put_new: "get_goal d (g_id g) = None \<Longrightarrow> lawful d (put_goal g d)"
  unfolding lawful_def by (auto simp: wf_put_goal)

section \<open>Every operation is lawful\<close>

lemma lawful_create:
  assumes "get_goal d (g_id g) = None"
  shows "lawful d (case add_goal g d of Inl e \<Rightarrow> d | Inr d' \<Rightarrow> d')"
proof (cases "add_goal g d")
  case (Inr d')
  then have "d' = put_goal g d" by (rule add_goal_result)
  with Inr assms show ?thesis by (simp add: lawful_put_new)
qed simp

lemma lawful_create_goal:
  assumes "get_goal d fresh = None" "\<And>g. g_id (extra g) = g_id g"
  shows "lawful d (snd (create_goal fresh now desc prio parent deps reasoning src iters extra d))"
proof -
  let ?g = "extra ((new_goal fresh desc now)\<lparr>g_priority := prio, g_parent_id := parent,
             g_depends_on := (case deps of None \<Rightarrow> [] | Some l \<Rightarrow> l),
             g_generating_reasoning := reasoning, g_source := src, g_max_iterations := iters\<rparr>)"
  have "g_id ?g = fresh" using assms(2) by (simp add: new_goal_def)
  with assms(1) lawful_create [of d ?g] show ?thesis
    unfolding create_goal_def Let_def by (cases "add_goal ?g d") simp_all
qed

lemma lawful_activate: "lawful d (snd (activate_goal now gid l d))"
  unfolding activate_goal_def
  by (cases "get_goal d gid") (simp_all add: lawful_move [where t = GActive])

lemma lawful_complete: "lawful d (snd (complete_goal now gid d))"
  unfolding complete_goal_def dag_complete_goal_def
  by (cases "get_goal d gid") (simp_all add: validate_transition_def lawful_move [where t = GCompleted])

lemma lawful_fail: "lawful d (snd (fail_goal now gid err ev d))"
  unfolding fail_goal_def dag_fail_goal_def
  by (cases "get_goal d gid") (simp_all add: validate_transition_def lawful_move [where t = GFailed])

lemma lawful_suspend: "lawful d (snd (suspend_goal now gid reason d))"
  unfolding suspend_goal_def dag_suspend_goal_def
  by (cases "get_goal d gid") (simp_all add: validate_transition_def Let_def lawful_move [where t = GSuspended])

lemma lawful_cancel: "lawful d (snd (cancel_goal now gid d))"
  unfolding cancel_goal_def dag_cancel_goal_def
  by (cases "get_goal d gid") (simp_all add: validate_transition_def lawful_move [where t = GCancelled])

lemma lawful_block: "lawful d (snd (block_goal now gid d))"
  unfolding block_goal_def dag_block_goal_def
  by (cases "get_goal d gid") (simp_all add: validate_transition_def lawful_move [where t = GBlocked])

lemma lawful_unblock: "lawful d (snd (unblock_goal now gid d))"
  unfolding unblock_goal_def dag_unblock_goal_def snd_conv
  by (rule lawful_modify) (simp add: status_step.intros r_into_rtranclp)

lemma lawful_finalize: "lawful d (snd (finalize_goal now gid st d))"
proof (cases "get_goal d gid")
  case (Some g)
  show ?thesis
  proof (cases "g_status g = st \<or> st \<in> valid_goal_transitions (g_status g)")
    case True
    have "lawful d (modify_goal gid (\<lambda>g. g\<lparr>g_status := st, g_updated_at := now\<rparr>) d)"
      using True Some by (intro lawful_modify) (auto intro: r_into_rtranclp status_step.intros)
    then show ?thesis using Some by (simp add: finalize_goal_def validate_transition_def)
  qed (use Some in \<open>simp add: finalize_goal_def validate_transition_def\<close>)
qed (simp add: finalize_goal_def)

lemma lawful_claim: "lawful d (snd (claim_goal now gid l d))"
proof (cases "fst (claim_goal now gid l d)")
  case None
  then have "snd (claim_goal now gid l d) = d"
    unfolding claim_goal_def by (cases "get_goal d gid") (simp_all add: Let_def split: if_splits)
  then show ?thesis by simp
next
  case (Some g')
  then obtain g where "get_goal d gid = Some g" "g_status g = GPending"
    "snd (claim_goal now gid l d) = modify_goal gid (\<lambda>_. claimed now l g) d"
    unfolding claim_goal_def by (cases "get_goal d gid") (simp_all add: Let_def claimed_def split: if_splits)
  then show ?thesis by (simp add: lawful_move [where t = GActive])
qed

lemma lawful_report: "lawful d (snd (commit_goal_report now gid r d))"
  unfolding commit_goal_report_def
  by (cases "get_goal d gid") (simp_all add: Let_def lawful_same_status)

lemma guidance_simps [simp]:
  "g_id (append_goal_guidance now t s c g) = g_id g" "g_status (append_goal_guidance now t s c g) = g_status g"
  "g_retry_count (append_goal_guidance now t s c g) = g_retry_count g"
  "g_max_retries (append_goal_guidance now t s c g) = g_max_retries g"
  "g_send_back_count (append_goal_guidance now t s c g) = g_send_back_count g"
  "g_max_send_backs (append_goal_guidance now t s c g) = g_max_send_backs g"
  "g_engine_recovery_count (append_goal_guidance now t s c g) = g_engine_recovery_count g"
  by (simp_all add: append_goal_guidance_def Let_def)

lemma failure_guidance_simps [simp]:
  "g_id (append_failure_guidance now r g) = g_id g" "g_status (append_failure_guidance now r g) = g_status g"
  "g_retry_count (append_failure_guidance now r g) = g_retry_count g"
  "g_max_retries (append_failure_guidance now r g) = g_max_retries g"
  "g_engine_recovery_count (append_failure_guidance now r g) = g_engine_recovery_count g"
  by (simp_all add: append_failure_guidance_def Let_def)

lemma lawful_replace:
  "get_goal d k = Some g \<Longrightarrow> g_id g' = g_id g \<Longrightarrow>
   g_status g' = g_status g \<or> g_status g' \<in> valid_goal_transitions (g_status g) \<Longrightarrow>
   lawful d (modify_goal k (\<lambda>_. g') d)"
  by (rule lawful_modify) (auto intro: r_into_rtranclp status_step.intros)

lemma lawful_absorb: "lawful d (snd (absorb_guidance now gid t sc src d))"
  unfolding absorb_guidance_def
  by (cases "get_goal d gid") (simp_all add: Let_def touch_def lawful_replace)

lemma lawful_retry: "lawful d (snd (retry_failed_goal now gid reason d))"
  unfolding retry_failed_goal_def
  by (cases "get_goal d gid") (simp_all add: Let_def validate_transition_def lawful_replace)

lemma lawful_recover_failed: "lawful d (snd (recover_failed_goal now mx gid reason d))"
  unfolding recover_failed_goal_def
  by (cases "get_goal d gid") (simp_all add: Let_def validate_transition_def lawful_replace)

lemma lawful_reactivate: "lawful d (snd (reactivate_goal now gid d))"
  unfolding reactivate_goal_def
  by (cases "get_goal d gid") (simp_all add: Let_def validate_transition_def lawful_replace)

lemma lawful_mark_awaiting: "lawful d (snd (mark_awaiting_clarification now gid p d))"
  unfolding mark_awaiting_clarification_def
  by (cases "get_goal d gid") (simp_all add: Let_def validate_transition_def lawful_replace)

lemma lawful_answer: "lawful d (snd (answer_clarification now gid ans d))"
  unfolding answer_clarification_def
  by (cases "get_goal d gid") (simp_all add: Let_def validate_transition_def lawful_replace)

lemma lawful_send_back: "lawful d (snd (send_back_goal now gid reason d))"
proof (cases "get_goal d gid")
  case (Some g)
  let ?g = "g\<lparr>g_send_back_count := g_send_back_count g + 1\<rparr>"
  let ?d = "modify_goal gid (\<lambda>_. ?g) d"
  have d1: "lawful d ?d" by (rule lawful_replace [OF Some]) simp_all
  show ?thesis
  proof (cases "g_send_back_count ?g \<ge> g_max_send_backs ?g")
    case True
    have "snd (send_back_goal now gid reason d) =
        snd (fail_goal now gid (Some (str_or reason ''send_back budget exhausted'')) None ?d)"
      using Some True unfolding send_back_goal_def Let_def
      by (simp add: case_prod_unfold split: sum.split)
    with lawful_trans [OF d1 lawful_fail] show ?thesis by simp
  next
    case False
    show ?thesis
    proof (cases "GPending \<in> valid_goal_transitions (g_status g)")
      case True
      let ?g' = "(if py_strip reason \<noteq> [] then append_goal_guidance now (''Send-back: '' @ py_strip reason)
                    ''report_commit_send_back'' ''goal'' ?g else ?g)
          \<lparr>g_status := GPending, g_assigned_loop_id := None, g_updated_at := now\<rparr>"
      have "snd (send_back_goal now gid reason d) = modify_goal gid (\<lambda>_. ?g') ?d"
        using Some False True unfolding send_back_goal_def Let_def by (simp add: validate_transition_def)
      moreover have "lawful ?d (modify_goal gid (\<lambda>_. ?g') ?d)"
        using Some True by (intro lawful_replace [where g = ?g]) simp_all
      ultimately show ?thesis using lawful_trans [OF d1] by simp
    qed (use Some False d1 in \<open>simp add: send_back_goal_def Let_def validate_transition_def\<close>)
  qed
qed (simp add: send_back_goal_def)

lemma reactivate_result:
  "reactivate_goal now gid d = (Inr g', d') \<Longrightarrow> get_goal d' gid = Some g' \<and> g_status g' = GPending"
  unfolding reactivate_goal_def
  by (cases "get_goal d gid") (auto simp: Let_def validate_transition_def split: if_splits)

lemma lawful_resume: "lawful d (snd (resume_interrupted_goal now gid l d))"
proof (cases "get_goal d gid")
  case (Some g)
  consider "g_status g = GActive" | "g_status g \<in> {GCompleted, GFailed, GValidated, GAwaitingClarification}"
    | "g_status g = GPending" | "g_status g \<in> {GSuspended, GBlocked, GCancelled}"
    by (cases "g_status g") simp_all
  then show ?thesis
  proof cases
    case 1
    then show ?thesis using Some by (simp add: resume_interrupted_goal_def Let_def lawful_replace)
  next
    case 2
    then show ?thesis using Some by (auto simp: resume_interrupted_goal_def)
  next
    case 3
    then have "snd (resume_interrupted_goal now gid l d) = snd (activate_goal now gid l d)"
      using Some by (simp add: resume_interrupted_goal_def case_prod_unfold split: sum.split option.split)
    then show ?thesis by (simp add: lawful_activate)
  next
    case 4
    obtain r d1 where r: "reactivate_goal now gid d = (r, d1)" by (rule prod.exhaust)
    have d1: "lawful d d1" using lawful_reactivate [of d now gid] r by simp
    have "snd (resume_interrupted_goal now gid l d) \<in> {d1, snd (activate_goal now gid l d1)}"
      using 4 Some r
      by (cases r) (auto simp: resume_interrupted_goal_def case_prod_unfold split: sum.split option.split)
    then show ?thesis using d1 lawful_trans [OF d1 lawful_activate] by auto
  qed
qed (simp add: resume_interrupted_goal_def)

lemma lawful_directive:
  assumes "get_goal d fresh = None"
  shows "lawful d (snd (apply_directive now fresh source dv d))"
proof (cases "dv_action dv")
  case DirCreate
  let ?p = "if truthy (dv_parent_id dv) then opt_str (dv_parent_id dv) else source"
  let ?ws = "case (if ?p \<noteq> [] then get_goal d ?p else None) of None \<Rightarrow> None | Some p \<Rightarrow> g_workspace p"
  let ?op = "create_goal fresh now (dv_description dv) (clamp 0 100 (priority_or (dv_priority dv) 50)) (Some ?p)
      (Some (dv_depends_on dv)) None SrcUser 0 (\<lambda>g. if ?ws = None then g else g\<lparr>g_workspace := ?ws\<rparr>) d"
  have "snd (apply_directive now fresh source dv d) = snd ?op"
    using DirCreate unfolding apply_directive_def directive_create_def Let_def
    by (simp add: case_prod_unfold split: sum.split)
  moreover have "lawful d (snd ?op)" by (rule lawful_create_goal [OF assms]) simp
  ultimately show ?thesis by simp
qed (simp_all add: apply_directive_def Let_def lawful_same_status lawful_fail lawful_complete)

lemma lawful_steps:
  "lawful d (snd (ce_add_step gid st d))" "lawful d (snd (ce_add_steps gid sts it d))"
  "lawful d (snd (activate_step now gid sid d))" "lawful d (snd (complete_step now gid sid ex d))"
  "lawful d (snd (fail_step now gid sid ex d))" "lawful d (snd (skip_step now gid sid d))"
  unfolding ce_add_step_def ce_add_steps_def activate_step_def complete_step_def fail_step_def skip_step_def
    modify_steps_def
  by (simp_all add: lawful_same_status touch_def account_def split: option.split)

lemma lawful_audit:
  "lawful d (snd (record_action gid a d))" "lawful d (snd (increment_iteration now gid d))"
  "lawful d (snd (set_previous_plan gid p d))" "lawful d (snd (set_last_assessment now gid p i d))"
  "lawful d (snd (set_last_gap_analysis now gid p d))"
  "lawful d (snd (update_dependencies now gid deps d))"
  unfolding record_action_def increment_iteration_def set_previous_plan_def set_last_assessment_def
    set_last_gap_analysis_def update_dependencies_def
  by (simp_all add: lawful_same_status touch_def split: option.split)

lemma lawful_recover_active: "lawful d (snd (recover_active_goals now d))"
  unfolding lawful_def get_recovered
  by (auto simp: wf_recover_active_goals recover_goal_def intro: one_move)

lemma lawful_fail_exhausted: "lawful d (snd (fail_exhausted now gids failed d))"
proof (induction now gids failed d rule: fail_exhausted.induct)
  case (2 now gid rest failed d)
  show ?case
  proof (cases "get_goal d gid")
    case (Some g)
    show ?thesis
    proof (cases "g_attempts_after_crash g > g_max_retries g")
      case True
      let ?m = "''crash recovery budget exhausted ('' @ show_int (g_attempts_after_crash g) @ ''/'' @
        show_int (g_max_retries g) @ '')''"
      obtain r d1 where f: "fail_goal now gid (Some ?m) None d = (r, d1)" by (rule prod.exhaust)
      have d1: "lawful d d1" using lawful_fail [of d now gid "Some ?m" None] f by simp
      show ?thesis
      proof (cases r)
        case (Inl e)
        with f d1 Some True show ?thesis by simp
      next
        case (Inr u)
        have "lawful d1 (snd (fail_exhausted now rest (failed @ [gid]) d1))"
          by (rule 2(2) [OF Some True f [symmetric] Inr])
        with f d1 Some True Inr show ?thesis by (simp add: lawful_trans [OF d1])
      qed
    next
      case False
      with 2(3) [OF Some] Some show ?thesis by simp
    qed
  qed (use 2(1) in simp)
qed simp

lemma lawful_recover: "lawful d (snd (recover now d))"
proof -
  obtain gids d1 where r: "recover_active_goals now d = (gids, d1)" by (rule prod.exhaust)
  have "lawful d d1" using lawful_recover_active [of d now] r by simp
  moreover have "snd (recover now d) = snd (fail_exhausted now gids [] d1)"
    unfolding recover_def r by (simp add: case_prod_unfold Let_def split: sum.split)
  ultimately show ?thesis using lawful_trans lawful_fail_exhausted by simp
qed

section \<open>The engine as a step relation\<close>

text \<open>A new goal draws an id that no stored goal has.\<close>

inductive engine_step :: "goal_dag \<Rightarrow> goal_dag \<Rightarrow> bool" where
  create: "get_goal d fresh = None \<Longrightarrow> (\<And>g. g_id (extra g) = g_id g) \<Longrightarrow>
    engine_step d (snd (create_goal fresh now desc prio parent deps reasoning src iters extra d))"
| activate: "engine_step d (snd (activate_goal now gid l d))"
| claim: "engine_step d (snd (claim_goal now gid l d))"
| complete: "engine_step d (snd (complete_goal now gid d))"
| fail: "engine_step d (snd (fail_goal now gid err ev d))"
| suspend: "engine_step d (snd (suspend_goal now gid reason d))"
| cancel: "engine_step d (snd (cancel_goal now gid d))"
| block: "engine_step d (snd (block_goal now gid d))"
| unblock: "engine_step d (snd (unblock_goal now gid d))"
| finalize: "engine_step d (snd (finalize_goal now gid st d))"
| report: "engine_step d (snd (commit_goal_report now gid r d))"
| send_back: "engine_step d (snd (send_back_goal now gid reason d))"
| retry: "engine_step d (snd (retry_failed_goal now gid reason d))"
| recover_failed: "engine_step d (snd (recover_failed_goal now mx gid reason d))"
| reactivate: "engine_step d (snd (reactivate_goal now gid d))"
| resume: "engine_step d (snd (resume_interrupted_goal now gid l d))"
| directive: "get_goal d fresh = None \<Longrightarrow> engine_step d (snd (apply_directive now fresh source dv d))"
| await: "engine_step d (snd (mark_awaiting_clarification now gid p d))"
| answer: "engine_step d (snd (answer_clarification now gid ans d))"
| guidance: "engine_step d (snd (absorb_guidance now gid t sc src d))"
| add_step: "engine_step d (snd (ce_add_step gid st d))"
| add_steps: "engine_step d (snd (ce_add_steps gid sts it d))"
| activate_step: "engine_step d (snd (activate_step now gid sid d))"
| complete_step: "engine_step d (snd (complete_step now gid sid ex d))"
| fail_step: "engine_step d (snd (fail_step now gid sid ex d))"
| skip_step: "engine_step d (snd (skip_step now gid sid d))"
| record_action: "engine_step d (snd (record_action gid a d))"
| iteration: "engine_step d (snd (increment_iteration now gid d))"
| previous_plan: "engine_step d (snd (set_previous_plan gid p d))"
| assessment: "engine_step d (snd (set_last_assessment now gid p i d))"
| gap_analysis: "engine_step d (snd (set_last_gap_analysis now gid p d))"
| dependencies: "engine_step d (snd (update_dependencies now gid deps d))"
| recover: "engine_step d (snd (recover now d))"

lemmas lawful_operations =
  lawful_create_goal lawful_activate lawful_claim lawful_complete lawful_fail lawful_suspend lawful_cancel
  lawful_block lawful_unblock lawful_finalize lawful_report lawful_send_back lawful_retry
  lawful_recover_failed lawful_reactivate lawful_resume lawful_directive lawful_mark_awaiting
  lawful_answer lawful_absorb lawful_steps lawful_audit lawful_recover

lemma engine_step_lawful: "engine_step d d' \<Longrightarrow> lawful d d'"
  by (induction rule: engine_step.induct) (simp_all add: lawful_operations)

interpretation engine: lifecycle engine_step "\<lambda>d k. map_option g_status (get_goal d k)" status_step
proof
  fix d d' k a
  assume "engine_step d d'" "map_option g_status (get_goal d k) = Some a"
  moreover from this(2) obtain g where "get_goal d k = Some g" "a = g_status g" by blast
  ultimately show "\<exists>b. map_option g_status (get_goal d' k) = Some b \<and> status_step\<^sup>*\<^sup>* a b"
    using engine_step_lawful unfolding lawful_def by fastforce
qed

lemma engine_run_wf: "engine_step\<^sup>*\<^sup>* d d' \<Longrightarrow> wf_goal_dag d \<Longrightarrow> wf_goal_dag d'"
proof (induction rule: rtranclp_induct)
  case (step d1 d2)
  then show ?case using engine_step_lawful unfolding lawful_def by blast
qed





end
