(* ===== verification/Budgets.thy ===== *)
theory Budgets
  imports Lifecycle
begin

text \<open>
  The budgets of a goal: retries, send-backs, engine recoveries and crash recoveries, with what
  each operation does on every branch; and the guidance, clarification and directive
  operations.
\<close>

section \<open>Retry\<close>

text \<open>\<open>retry_failed_goal\<close> re-queues a goal exactly when it is failed and its retry budget is
  not spent; it then counts one retry, stays within the budget, clears the error and the
  assigned loop, and keeps every earlier guidance entry; in every other case it raises and
  changes nothing.\<close>

theorem retry_failed_goal_correct:
  assumes g: "get_goal d gid = Some g"
  shows "if g_status g = GFailed \<and> g_retry_count g < g_max_retries g
    then (\<exists>g'. retry_failed_goal now gid reason d = (Inr g', modify_goal gid (\<lambda>_. g') d) \<and>
            g_status g' = GPending \<and> g_retry_count g' = g_retry_count g + 1 \<and>
            g_retry_count g' \<le> g_max_retries g' \<and> g_error g' = None \<and> g_assigned_loop_id g' = None \<and>
            (\<exists>new. g_guidance_accumulated g' = g_guidance_accumulated g @ new \<and> length new \<le> 1))
    else (\<exists>msg. retry_failed_goal now gid reason d = (Inl (ValueError msg), d))"
proof (cases "g_status g = GFailed \<and> g_retry_count g < g_max_retries g")
  case True
  let ?h = "append_failure_guidance now reason g"
  let ?g' = "?h\<lparr>g_retry_count := g_retry_count ?h + 1, g_status := GPending,
                g_assigned_loop_id := None, g_error := None, g_updated_at := now\<rparr>"
  have "retry_failed_goal now gid reason d = (Inr ?g', modify_goal gid (\<lambda>_. ?g') d)"
    using g True by (simp add: retry_failed_goal_def validate_transition_def Let_def)
  moreover have "\<exists>new. g_guidance_accumulated ?g' = g_guidance_accumulated g @ new \<and> length new \<le> 1"
    by (simp add: append_failure_guidance_def append_goal_guidance_def Let_def)
  ultimately show ?thesis using True by (simp del: Product_Type.prod.inject) force
next
  case False
  then show ?thesis using g by (auto simp: retry_failed_goal_def not_failed_def)
qed

text \<open>A failed worker with one retry left, and one without.\<close>

definition failed_goal :: "int \<Rightarrow> goal_node" where
  "failed_goal retries =
     new_goal ''w'' ''worker'' 1\<lparr>g_status := GFailed, g_error := Some ''boom'', g_retry_count := retries\<rparr>"

definition one_goal :: "goal_node \<Rightarrow> goal_dag" where
  "one_goal g = \<lparr>goals = [(g_id g, g)]\<rparr>"

lemma get_one_goal [simp]: "get_goal (one_goal g) k = (if k = g_id g then Some g else None)"
  by (simp add: one_goal_def get_goal_def)

lemma wf_one_goal [simp]: "wf_goal_dag (one_goal g)"
  by (simp add: one_goal_def wf_goal_dag_def keyed_by_def wf_dict_def)

lemma get_failed_goal: "get_goal (one_goal (failed_goal r)) ''w'' = Some (failed_goal r)"
  by (simp add: failed_goal_def new_goal_def)

lemma retry_failed_goal_correct_witness:
  "(\<exists>g'. fst (retry_failed_goal 5 ''w'' ''again'' (one_goal (failed_goal 1))) = Inr g' \<and> g_retry_count g' = 2) \<and>
   (\<exists>msg. fst (retry_failed_goal 5 ''w'' ''again'' (one_goal (failed_goal 2))) = Inl (ValueError msg))"
proof
  show "\<exists>g'. fst (retry_failed_goal 5 ''w'' ''again'' (one_goal (failed_goal 1))) = Inr g' \<and> g_retry_count g' = 2"
    using retry_failed_goal_correct [OF get_failed_goal [of 1], of 5 "''again''"]
    by (auto simp: failed_goal_def new_goal_def)
  show "\<exists>msg. fst (retry_failed_goal 5 ''w'' ''again'' (one_goal (failed_goal 2))) = Inl (ValueError msg)"
    using retry_failed_goal_correct [OF get_failed_goal [of 2], of 5 "''again''"]
    by (auto simp: failed_goal_def new_goal_def)
qed

section \<open>Send-back\<close>

lemma send_back_refused:
  "get_goal d gid = Some g \<Longrightarrow> g_send_back_count g + 1 < g_max_send_backs g \<Longrightarrow>
   GPending \<notin> valid_goal_transitions (g_status g) \<Longrightarrow>
   \<exists>msg. send_back_goal now gid reason d =
     (Inl (InvalidGoalTransitionError msg),
      modify_goal gid (\<lambda>_. g\<lparr>g_send_back_count := g_send_back_count g + 1\<rparr>) d)"
  by (simp add: send_back_goal_def Let_def validate_transition_def)

lemma send_back_exhausted:
  assumes g: "get_goal d gid = Some g" and ex: "g_max_send_backs g \<le> g_send_back_count g + 1"
    and ok: "g_status g = GFailed \<or> GFailed \<in> valid_goal_transitions (g_status g)"
  shows "\<exists>g' d'. send_back_goal now gid reason d = (Inr g', d') \<and> get_goal d' gid = Some g' \<and>
     g_status g' = GFailed \<and> g_send_back_count g' = g_send_back_count g + 1"
proof -
  let ?d1 = "modify_goal gid (\<lambda>_. g\<lparr>g_send_back_count := g_send_back_count g + 1\<rparr>) d"
  let ?f = "fail_goal now gid (Some (str_or reason ''send_back budget exhausted'')) None ?d1"
  obtain g' where f: "fst ?f = Inr ()" "get_goal (snd ?f) gid = Some g'" "g_status g' = GFailed"
    "g_send_back_count g' = g_send_back_count g + 1"
  proof (cases "g_status g = GFailed")
    case True
    with g that show thesis by (simp add: fail_goal_def)
  next
    case False
    with g ok that show thesis by (simp add: fail_goal_def validate_transition_def dag_fail_goal_def)
  qed
  have "send_back_goal now gid reason d = (Inr (the (get_goal (snd ?f) gid)), snd ?f)"
    using g ex f(1) unfolding send_back_goal_def Let_def by (simp add: case_prod_unfold)
  with f(2-4) show ?thesis by simp
qed

lemma send_back_returned:
  assumes g: "get_goal d gid = Some g" and budget: "g_send_back_count g + 1 < g_max_send_backs g"
    and ok: "GPending \<in> valid_goal_transitions (g_status g)"
  shows "\<exists>g' d'. send_back_goal now gid reason d = (Inr g', d') \<and> get_goal d' gid = Some g' \<and>
     g_status g' = GPending \<and> g_assigned_loop_id g' = None \<and> g_send_back_count g' = g_send_back_count g + 1"
  using assms by (simp add: send_back_goal_def Let_def validate_transition_def)

text \<open>\<open>send_back_goal\<close> on every branch. Each call counts, also one that raises. Within the
  budget a goal that may return to pending does so, without its loop; one more send-back than
  the budget allows leaves the goal failed, never suspended; and where the table forbids the
  move the call raises with the counter already raised.\<close>

theorem send_back_goal_correct:
  assumes g: "get_goal d gid = Some g"
  shows "(\<exists>g'. get_goal (snd (send_back_goal now gid reason d)) gid = Some g' \<and>
            g_send_back_count g' = g_send_back_count g + 1 \<and>
            (case fst (send_back_goal now gid reason d) of
               Inr r \<Rightarrow> r = g' \<and> g_status g' = (if g_send_back_count g + 1 < g_max_send_backs g then GPending else GFailed)
             | Inl e \<Rightarrow> is_value_error e \<and> g_status g' = g_status g)) \<and>
     ((\<exists>r. fst (send_back_goal now gid reason d) = Inr r) \<longleftrightarrow>
        (if g_send_back_count g + 1 < g_max_send_backs g then GPending \<in> valid_goal_transitions (g_status g)
         else g_status g = GFailed \<or> GFailed \<in> valid_goal_transitions (g_status g)))"
proof (cases "g_send_back_count g + 1 < g_max_send_backs g")
  case True
  show ?thesis
  proof (cases "GPending \<in> valid_goal_transitions (g_status g)")
    case ok: True
    from send_back_returned [OF g True ok, of now reason] True ok show ?thesis by auto
  next
    case no: False
    from send_back_refused [OF g True no, of now reason] g True no show ?thesis by auto
  qed
next
  case False
  show ?thesis
  proof (cases "g_status g = GFailed \<or> GFailed \<in> valid_goal_transitions (g_status g)")
    case ok: True
    have "g_max_send_backs g \<le> g_send_back_count g + 1" using False by simp
    from send_back_exhausted [OF g this ok, of now reason] False ok show ?thesis by auto
  next
    case no: False
    then have "\<exists>msg. send_back_goal now gid reason d =
        (Inl (InvalidGoalTransitionError msg),
         modify_goal gid (\<lambda>_. g\<lparr>g_send_back_count := g_send_back_count g + 1\<rparr>) d)"
      using g False by (simp add: send_back_goal_def Let_def fail_goal_def validate_transition_def)
    then show ?thesis using g False no by auto
  qed
qed

lemma send_back_goal_correct_witness:
  "\<exists>g'. get_goal (snd (send_back_goal 5 ''a'' ''weak'' (one_goal (new_goal ''a'' ''first'' 1\<lparr>g_status := GActive\<rparr>)))) ''a''
     = Some g' \<and> g_send_back_count g' = 1"
proof -
  have "get_goal (one_goal (new_goal ''a'' ''first'' 1\<lparr>g_status := GActive\<rparr>)) ''a'' =
      Some (new_goal ''a'' ''first'' 1\<lparr>g_status := GActive\<rparr>)" by simp
  from send_back_goal_correct [OF this, of 5 "''weak''"] show ?thesis by (auto simp: new_goal_def)
qed

section \<open>Crash recovery\<close>

definition crash_exhausted :: "goal_node \<Rightarrow> bool" where
  "crash_exhausted g \<longleftrightarrow> g_attempts_after_crash g > g_max_retries g"

definition crash_message :: "goal_node \<Rightarrow> string" where
  "crash_message g = ''crash recovery budget exhausted ('' @ show_int (g_attempts_after_crash g) @
     ''/'' @ show_int (g_max_retries g) @ '')''"

text \<open>What \<open>recover\<close> makes of a stored goal.\<close>

definition after_crash :: "time \<Rightarrow> goal_node \<Rightarrow> goal_node" where
  "after_crash now g =
     (if g_status g \<noteq> GActive then g
      else (let h = recover_goal now g in
            if crash_exhausted h
            then h\<lparr>g_status := GFailed, g_error := Some (crash_message h), g_updated_at := now\<rparr> else h))"

lemma fail_exhausted_correct:
  assumes "distinct gids" "\<And>k. k \<in> set gids \<Longrightarrow> \<exists>g. get_goal d k = Some g \<and> g_status g = GPending"
  shows "\<exists>d'. fail_exhausted now gids failed d =
      (Inr (failed @ filter (\<lambda>k. crash_exhausted (the (get_goal d k))) gids), d') \<and>
    (\<forall>k. get_goal d' k =
       (if k \<in> set gids then map_option (\<lambda>h. if crash_exhausted h
            then h\<lparr>g_status := GFailed, g_error := Some (crash_message h), g_updated_at := now\<rparr> else h) (get_goal d k)
        else get_goal d k))"
  using assms
proof (induction gids arbitrary: failed d)
  case (Cons k gids)
  obtain g where g: "get_goal d k = Some g" "g_status g = GPending" using Cons.prems(2) [of k] by auto
  show ?case
  proof (cases "crash_exhausted g")
    case True
    let ?u = "\<lambda>h. h\<lparr>g_status := GFailed, g_error := Some (crash_message g), g_updated_at := now\<rparr>"
    let ?d = "modify_goal k ?u d"
    have step: "fail_exhausted now (k # gids) failed d = fail_exhausted now gids (failed @ [k]) ?d"
      using g True by (simp add: crash_exhausted_def crash_message_def fail_goal_def validate_transition_def
          dag_fail_goal_def failure_message_def)
    have same: "get_goal ?d j = get_goal d j" if "j \<in> set gids" for j
      using that Cons.prems(1) by auto
    from Cons.IH [of ?d "failed @ [k]"] Cons.prems same
    obtain d' where d': "fail_exhausted now gids (failed @ [k]) ?d =
        (Inr ((failed @ [k]) @ filter (\<lambda>k. crash_exhausted (the (get_goal ?d k))) gids), d')"
      "\<forall>j. get_goal d' j = (if j \<in> set gids then map_option (\<lambda>h. if crash_exhausted h
            then h\<lparr>g_status := GFailed, g_error := Some (crash_message h), g_updated_at := now\<rparr> else h) (get_goal ?d j)
        else get_goal ?d j)" by (metis (no_types, lifting) distinct.simps(2) list.set_intros(2))
    have "filter (\<lambda>k. crash_exhausted (the (get_goal ?d k))) gids = filter (\<lambda>k. crash_exhausted (the (get_goal d k))) gids"
      by (rule filter_cong [OF refl]) (simp only: same)
    with step d' g True Cons.prems(1) show ?thesis by (intro exI [of _ d']) simp
  next
    case False
    have step: "fail_exhausted now (k # gids) failed d = fail_exhausted now gids failed d"
      using g False by (simp add: crash_exhausted_def)
    from Cons.IH [of d failed] Cons.prems obtain d' where d': "fail_exhausted now gids failed d =
        (Inr (failed @ filter (\<lambda>k. crash_exhausted (the (get_goal d k))) gids), d')"
      "\<forall>j. get_goal d' j = (if j \<in> set gids then map_option (\<lambda>h. if crash_exhausted h
            then h\<lparr>g_status := GFailed, g_error := Some (crash_message h), g_updated_at := now\<rparr> else h) (get_goal d j)
        else get_goal d j)" by (metis (no_types, lifting) distinct.simps(2) list.set_intros(2))
    with step g False show ?thesis by (intro exI [of _ d']) simp
  qed
qed simp

text \<open>Recovery after a crash never raises. Every active goal is taken off its loop with one more
  crash attempt and is pending again, unless that exceeds its retries, in which case it is
  failed with the budget named in its error; no other goal changes; and the ids returned are
  exactly those of the goals that are pending again.\<close>

theorem recover_correct:
  assumes wf: "wf_goal_dag d"
  shows "\<exists>gids d'. recover now d = (Inr gids, d') \<and>
     (\<forall>k. get_goal d' k = map_option (after_crash now) (get_goal d k)) \<and>
     (\<forall>k. k \<in> set gids \<longleftrightarrow>
        (\<exists>g. get_goal d k = Some g \<and> g_status g = GActive \<and> g_attempts_after_crash g + 1 \<le> g_max_retries g))"
proof -
  obtain ids d1 where r: "recover_active_goals now d = (ids, d1)" by (rule prod.exhaust)
  have ids: "ids = active_goal_ids d"
    using r recover_ids [OF wf, of now] by simp
  have get1: "get_goal d1 k = map_option (\<lambda>g. if g_status g = GActive then recover_goal now g else g) (get_goal d k)" for k
    using get_recovered [of now d k] r by simp
  have dist: "distinct ids"
    using wf_goal_dict [OF wf] unfolding ids active_goal_ids_def by (simp add: wf_dict_def distinct_map_filter)
  have pend: "\<exists>g. get_goal d1 k = Some g \<and> g_status g = GPending" if k: "k \<in> set ids" for k
    using k unfolding ids active_goal_ids_iff [OF wf] by (auto simp: get1 recover_goal_def)
  from fail_exhausted_correct [OF dist pend, of now "[]"] obtain d' where
    f: "fail_exhausted now ids [] d1 = (Inr (filter (\<lambda>k. crash_exhausted (the (get_goal d1 k))) ids), d')"
    and get': "\<forall>k. get_goal d' k = (if k \<in> set ids then map_option (\<lambda>h. if crash_exhausted h
            then h\<lparr>g_status := GFailed, g_error := Some (crash_message h), g_updated_at := now\<rparr> else h) (get_goal d1 k)
        else get_goal d1 k)" by auto
  let ?gids = "filter (\<lambda>k. k \<notin> set (filter (\<lambda>k. crash_exhausted (the (get_goal d1 k))) ids)) ids"
  have "recover now d = (Inr ?gids, d')" unfolding recover_def r Let_def prod.case f by simp
  moreover have "get_goal d' k = map_option (after_crash now) (get_goal d k)" for k
  proof (cases "get_goal d k")
    case (Some g)
    then show ?thesis
      using active_goal_ids_iff [OF wf, of k]
      by (cases "g_status g = GActive") (simp_all add: get' get1 ids after_crash_def Let_def)
  qed (simp add: get' get1)
  moreover have "k \<in> set ?gids \<longleftrightarrow>
      (\<exists>g. get_goal d k = Some g \<and> g_status g = GActive \<and> g_attempts_after_crash g + 1 \<le> g_max_retries g)" for k
  proof -
    have "k \<in> set ?gids \<longleftrightarrow> k \<in> set ids \<and> \<not> crash_exhausted (the (get_goal d1 k))" by auto
    also have "\<dots> \<longleftrightarrow> (\<exists>g. get_goal d k = Some g \<and> g_status g = GActive \<and> \<not> crash_exhausted (recover_goal now g))"
      unfolding ids active_goal_ids_iff [OF wf] by (auto simp: get1)
    also have "\<dots> \<longleftrightarrow> (\<exists>g. get_goal d k = Some g \<and> g_status g = GActive \<and> g_attempts_after_crash g + 1 \<le> g_max_retries g)"
      unfolding crash_exhausted_def not_less by (simp add: recover_goal_def)
    finally show ?thesis .
  qed
  ultimately show ?thesis by blast
qed

lemma recover_correct_witness:
  "\<exists>gids d'. recover 9 sample_running = (Inr gids, d') \<and> ''a'' \<in> set gids"
  using recover_correct [OF wf_sample_running, of 9] get_sample_running(1) by (auto simp: new_goal_def)

section \<open>Engine recovery\<close>

text \<open>\<open>recover_failed_goal\<close> re-queues only failed goals that are not rail job roots and whose
  recovery budget is not spent; the recovery is counted, never beyond the given cap, and the
  send-back budget starts afresh; otherwise it raises and changes nothing.\<close>

theorem recover_failed_goal_correct:
  assumes g: "get_goal d gid = Some g"
  shows "if g_status g = GFailed \<and> (g_parent_id g \<noteq> None \<or> \<not> truthy (g_rail_id g)) \<and> g_engine_recovery_count g < mx
    then (\<exists>g'. recover_failed_goal now mx gid reason d = (Inr g', modify_goal gid (\<lambda>_. g') d) \<and>
            g_status g' = GPending \<and> g_engine_recovery_count g' = g_engine_recovery_count g + 1 \<and>
            g_engine_recovery_count g' \<le> mx \<and> g_send_back_count g' = 0 \<and> g_error g' = None \<and>
            g_retry_count g' = g_retry_count g)
    else (\<exists>msg. recover_failed_goal now mx gid reason d = (Inl (ValueError msg), d))"
proof (cases "g_status g = GFailed \<and> (g_parent_id g \<noteq> None \<or> \<not> truthy (g_rail_id g)) \<and> g_engine_recovery_count g < mx")
  case True
  let ?h = "append_failure_guidance now reason g"
  let ?g' = "?h\<lparr>g_engine_recovery_count := g_engine_recovery_count ?h + 1, g_send_back_count := 0,
                g_status := GPending, g_assigned_loop_id := None, g_error := None, g_updated_at := now\<rparr>"
  have "recover_failed_goal now mx gid reason d = (Inr ?g', modify_goal gid (\<lambda>_. ?g') d)"
    using g True by (auto simp: recover_failed_goal_def validate_transition_def Let_def)
  then show ?thesis using True by (intro if_P [THEN iffD2] exI [of _ ?g']) simp_all
next
  case False
  then show ?thesis using g by (auto simp: recover_failed_goal_def not_failed_def)
qed

lemma recover_failed_goal_correct_witness:
  "\<exists>g'. fst (recover_failed_goal 5 2 ''w'' ''deadlock'' (one_goal (failed_goal 2))) = Inr g' \<and> g_engine_recovery_count g' = 1"
  using recover_failed_goal_correct [OF get_failed_goal [of 2], of 2 5 "''deadlock''"]
  by (auto simp: failed_goal_def new_goal_def)

section \<open>Resuming\<close>

text \<open>\<open>resume_interrupted_goal\<close> succeeds exactly on active, pending, suspended, blocked and
  cancelled goals and leaves the goal active; a completed, failed, validated or waiting goal
  makes it raise without any change.\<close>

theorem resume_interrupted_goal_correct:
  assumes g: "get_goal d gid = Some g"
  shows "if g_status g \<in> {GActive, GPending, GSuspended, GBlocked, GCancelled}
    then (\<exists>g' d'. resume_interrupted_goal now gid l d = (Inr g', d') \<and> get_goal d' gid = Some g' \<and>
            g_status g' = GActive \<and> g_steps g' = g_steps g \<and>
            g_assigned_loop_id g' = (if g_status g = GActive \<and> l = None then g_assigned_loop_id g else l))
    else (\<exists>msg. resume_interrupted_goal now gid l d = (Inl (ValueError msg), d))"
  using g
  by (cases "g_status g")
    (simp_all add: resume_interrupted_goal_def reactivate_goal_def activate_goal_def validate_transition_def Let_def)

lemma resume_interrupted_goal_correct_witness:
  "\<exists>g' d'. resume_interrupted_goal 5 ''a'' (Some ''L1'') (one_goal (new_goal ''a'' ''first'' 1\<lparr>g_status := GCancelled\<rparr>))
     = (Inr g', d') \<and> g_assigned_loop_id g' = Some ''L1''"
proof -
  have "get_goal (one_goal (new_goal ''a'' ''first'' 1\<lparr>g_status := GCancelled\<rparr>)) ''a'' =
      Some (new_goal ''a'' ''first'' 1\<lparr>g_status := GCancelled\<rparr>)" by simp
  from resume_interrupted_goal_correct [OF this, of 5 "Some ''L1''"] show ?thesis by auto
qed

end
