(* ===== verification/Directives.thy ===== *)
theory Directives
  imports Budgets
begin

text \<open>
  Guidance, clarification and goal directives: what reaches the goal and what does not.
\<close>

section \<open>Guidance\<close>

text \<open>Every entry is non-blank, stripped, and differs from the one before it.\<close>

definition guidance_ok :: "guidance_entry list \<Rightarrow> bool" where
  "guidance_ok es \<longleftrightarrow> (\<forall>e \<in> set es. gd_text e \<noteq> [] \<and> py_strip (gd_text e) = gd_text e) \<and>
     successively (\<lambda>a b. gd_text a \<noteq> gd_text b) es"

lemma guidance_ok_append:
  assumes "guidance_ok (g_guidance_accumulated g)"
  shows "guidance_ok (g_guidance_accumulated (append_goal_guidance now text src scope g))"
proof (cases "py_strip text = [] \<or> g_guidance_accumulated g \<noteq> [] \<and>
      py_strip (gd_text (last (g_guidance_accumulated g))) = py_strip text")
  case True
  then show ?thesis using assms by (auto simp: append_goal_guidance_def Let_def)
next
  case False
  let ?es = "g_guidance_accumulated g"
  let ?e = "\<lparr>gd_text = py_strip text, gd_timestamp = now, gd_scope = scope, gd_source = src\<rparr>"
  have "g_guidance_accumulated (append_goal_guidance now text src scope g) = ?es @ [?e]"
    using False by (auto simp: append_goal_guidance_def Let_def)
  moreover have "gd_text (last ?es) \<noteq> py_strip text" if ne: "?es \<noteq> []"
  proof -
    have "py_strip (gd_text (last ?es)) = gd_text (last ?es)"
      using assms last_in_set [OF ne] unfolding guidance_ok_def by blast
    with False ne show ?thesis by auto
  qed
  ultimately show ?thesis
    using assms False unfolding guidance_ok_def by (auto simp: successively_append_iff)
qed

lemma guidance_last:
  assumes "guidance_ok (g_guidance_accumulated g)" "py_strip text \<noteq> []"
  shows "g_guidance_accumulated (append_goal_guidance now text src scope g) \<noteq> [] \<and>
     gd_text (last (g_guidance_accumulated (append_goal_guidance now text src scope g))) = py_strip text"
proof (cases "g_guidance_accumulated g \<noteq> [] \<and> py_strip (gd_text (last (g_guidance_accumulated g))) = py_strip text")
  case True
  then have "last (g_guidance_accumulated g) \<in> set (g_guidance_accumulated g)" by simp
  with assms(1) have "py_strip (gd_text (last (g_guidance_accumulated g))) = gd_text (last (g_guidance_accumulated g))"
    unfolding guidance_ok_def by blast
  with True assms(2) show ?thesis by (simp add: append_goal_guidance_def Let_def)
next
  case False
  then show ?thesis using assms(2) by (auto simp: append_goal_guidance_def Let_def)
qed

lemma guidance_repeated:
  "g_guidance_accumulated g \<noteq> [] \<Longrightarrow> gd_text (last (g_guidance_accumulated g)) = py_strip text \<Longrightarrow>
   append_goal_guidance now text src scope g = g"
  by (simp add: append_goal_guidance_def Let_def)

lemma absorb_found:
  assumes "get_goal d gid = Some g" "py_strip text \<noteq> []"
  shows "\<exists>src' g'. absorb_guidance now gid text scope src d = (Inr True, modify_goal gid (\<lambda>_. g') d) \<and>
    (g' = append_goal_guidance now (py_strip text) src' scope g \<or>
     g' = touch now (append_goal_guidance now (py_strip text) src' scope g) \<and>
       length (g_guidance_accumulated (append_goal_guidance now (py_strip text) src' scope g))
         \<noteq> length (g_guidance_accumulated g))"
  using assms by (simp add: absorb_guidance_def Let_def) blast

text \<open>\<open>absorb_guidance\<close> reports success exactly when the text is not blank; the text is then the
  last guidance of the goal, the guidance stays free of blank entries and of immediate
  repetitions, and absorbing the same text again reports success and changes nothing.\<close>

theorem absorb_guidance_correct:
  assumes g: "get_goal d gid = Some g" and ok: "guidance_ok (g_guidance_accumulated g)"
  shows "\<exists>g' d'. absorb_guidance now gid text scope src d = (Inr (py_strip text \<noteq> []), d') \<and>
     get_goal d' gid = Some g' \<and> guidance_ok (g_guidance_accumulated g') \<and> g_status g' = g_status g \<and>
     (if py_strip text = [] then g' = g
      else gd_text (last (g_guidance_accumulated g')) = py_strip text \<and>
           fst (absorb_guidance now' gid text scope src d') = Inr True \<and>
           get_goal (snd (absorb_guidance now' gid text scope src d')) gid = Some g')"
proof (cases "py_strip text = []")
  case True
  then show ?thesis using g ok by (simp add: absorb_guidance_def Let_def)
next
  case False
  from absorb_found [OF g False, of now scope src] obtain s1 g' where
    a: "absorb_guidance now gid text scope src d = (Inr True, modify_goal gid (\<lambda>_. g') d)"
    and g': "g' = append_goal_guidance now (py_strip text) s1 scope g \<or>
      g' = touch now (append_goal_guidance now (py_strip text) s1 scope g)" by blast
  let ?d = "modify_goal gid (\<lambda>_. g') d"
  have get': "get_goal ?d gid = Some g'" using g by simp
  have acc: "g_guidance_accumulated g' = g_guidance_accumulated (append_goal_guidance now (py_strip text) s1 scope g)"
    using g' by (auto simp: touch_def)
  have ok': "guidance_ok (g_guidance_accumulated g')" unfolding acc by (rule guidance_ok_append [OF ok])
  have strip: "py_strip (py_strip text) \<noteq> []" using False by simp
  have last: "g_guidance_accumulated g' \<noteq> []" "gd_text (last (g_guidance_accumulated g')) = py_strip text"
    using guidance_last [OF ok strip, of now s1 scope] unfolding acc by simp_all
  have st: "g_status g' = g_status g" using g' by (auto simp: touch_def)
  from absorb_found [OF get' False, of now' scope src] obtain s2 g'' where
    b: "absorb_guidance now' gid text scope src ?d = (Inr True, modify_goal gid (\<lambda>_. g'') ?d)"
    and g'': "g'' = append_goal_guidance now' (py_strip text) s2 scope g' \<or>
      length (g_guidance_accumulated (append_goal_guidance now' (py_strip text) s2 scope g'))
        \<noteq> length (g_guidance_accumulated g')" by blast
  have "append_goal_guidance now' (py_strip text) s2 scope g' = g'"
    using last by (intro guidance_repeated) simp_all
  with g'' have "g'' = g'" by simp
  with a b get' ok' last st False g show ?thesis by (intro exI [of _ g'] exI [of _ ?d]) simp
qed

lemma absorb_guidance_correct_witness:
  "\<exists>g' d'. absorb_guidance 5 ''a'' '' use tabs '' ''goal'' ''user'' (one_goal (new_goal ''a'' ''first'' 1)) = (Inr True, d') \<and>
     get_goal d' ''a'' = Some g' \<and> gd_text (last (g_guidance_accumulated g')) = ''use tabs''"
proof -
  have g: "get_goal (one_goal (new_goal ''a'' ''first'' 1)) ''a'' = Some (new_goal ''a'' ''first'' 1)" by simp
  have ok: "guidance_ok (g_guidance_accumulated (new_goal ''a'' ''first'' 1))"
    by (simp add: new_goal_def guidance_ok_def)
  have "py_strip '' use tabs '' = ''use tabs''" by code_simp
  with absorb_guidance_correct [OF g ok, of 5 "'' use tabs ''" "''goal''" "''user''" 6] show ?thesis by auto
qed

section \<open>Clarification\<close>

text \<open>Answering a clarification sends a waiting goal back to pending and records the answers, but
  it does not clear \<open>pending_clarification\<close> as its documentation says: the request is still
  there, with the answers added under the key \<open>answers\<close>.\<close>

theorem answer_clarification_keeps_request:
  assumes "get_goal d gid = Some g" "g_status g = GAwaitingClarification" "g_pending_clarification g = Some req"
  shows "\<exists>g' d'. answer_clarification now gid answers d = (Inr g', d') \<and> get_goal d' gid = Some g' \<and>
     g_status g' = GPending \<and>
     (\<exists>req'. g_pending_clarification g' = Some req' \<and> dict_get req' ''answers'' = Some (JList (map JStr answers)) \<and>
        (\<forall>k. k \<noteq> ''answers'' \<longrightarrow> dict_get req' k = dict_get req k))"
  using assms by (simp add: answer_clarification_def Let_def validate_transition_def)

lemma answer_clarification_keeps_request_witness:
  "\<exists>g' d'. answer_clarification 5 ''a'' [''yes''] (one_goal (new_goal ''a'' ''first'' 1\<lparr>g_status := GAwaitingClarification,
      g_pending_clarification := Some [(''question'', JStr ''sure?'')]\<rparr>)) = (Inr g', d') \<and> g_status g' = GPending"
proof -
  let ?g = "new_goal ''a'' ''first'' 1\<lparr>g_status := GAwaitingClarification,
      g_pending_clarification := Some [(''question'', JStr ''sure?'')]\<rparr>"
  have "get_goal (one_goal ?g) ''a'' = Some ?g" by simp
  from answer_clarification_keeps_request [OF this, of _ 5 "[''yes'']"] show ?thesis by auto
qed

section \<open>Directives\<close>

text \<open>A directive can set any priority from 1 to 100, and values outside 0..100 are clamped, but
  it cannot set the lowest priority 0: a goal created with 0 gets 50, and adjusting a goal to 0
  leaves its priority as it was.\<close>

theorem directive_priority:
  assumes g: "get_goal d gid = Some g" "gid \<noteq> []"
    and dv: "dv_action dv = DirAdjustPriority" "dv_goal_id dv = gid" "dv_priority dv = Some p"
  shows "\<exists>g'. get_goal (snd (apply_directive now fresh source dv d)) gid = Some g' \<and>
     g_priority g' = (if p = 0 then clamp 0 100 (g_priority g) else clamp 0 100 p)"
  using assms by (simp add: apply_directive_def Let_def priority_or_def)

definition adjust :: "ident \<Rightarrow> int \<Rightarrow> goal_directive" where
  "adjust gid p = \<lparr>dv_action = DirAdjustPriority, dv_goal_id = gid, dv_description = [], dv_priority = Some p,
     dv_parent_id = None, dv_depends_on = [], dv_rationale = []\<rparr>"

lemma directive_priority_witness:
  "\<exists>g'. get_goal (snd (apply_directive 5 ''n'' ''a'' (adjust ''a'' 0) (one_goal (new_goal ''a'' ''first'' 1)))) ''a'' = Some g' \<and>
     g_priority g' = 50"
proof -
  have g: "get_goal (one_goal (new_goal ''a'' ''first'' 1)) ''a'' = Some (new_goal ''a'' ''first'' 1)" by simp
  have dv: "dv_action (adjust ''a'' 0) = DirAdjustPriority" "dv_goal_id (adjust ''a'' 0) = ''a''"
    "dv_priority (adjust ''a'' 0) = Some 0" by (simp_all add: adjust_def)
  from directive_priority [OF g _ dv, of 5 "''n''" "''a''"] show ?thesis by (simp add: clamp_def)
qed

text \<open>\<open>add_dependency\<close> accepts any ids, so a directive can make a goal depend on itself: such a
  goal, pending when the directive is applied, is never ready again while it is not terminal.\<close>

theorem self_dependency_blocks:
  assumes g: "get_goal d gid = Some g" "gid \<noteq> []" "g_status g \<notin> TERMINAL_STATES"
    and dv: "dv_action dv = DirAddDependency" "dv_goal_id dv = gid" "gid \<in> set (dv_depends_on dv)"
  shows "\<exists>g'. get_goal (snd (apply_directive now fresh source dv d)) gid = Some g' \<and> gid \<in> set (g_depends_on g') \<and>
     \<not> is_ready (snd (apply_directive now fresh source dv d)) g'"
proof -
  have mem: "set (add_missing deps new) = set deps \<union> set new" for deps new
    by (induction deps new rule: add_missing.induct) auto
  let ?g = "g\<lparr>g_depends_on := add_missing (g_depends_on g) (dv_depends_on dv), g_updated_at := now\<rparr>"
  have get: "get_goal (snd (apply_directive now fresh source dv d)) gid = Some ?g"
    using g dv by (simp add: apply_directive_def Let_def)
  have self: "gid \<in> set (g_depends_on ?g)" using dv(3) by (simp add: mem)
  have "\<not> deps_met (snd (apply_directive now fresh source dv d)) ?g"
  proof
    assume "deps_met (snd (apply_directive now fresh source dv d)) ?g"
    with self get have "g_status ?g \<in> TERMINAL_STATES" unfolding deps_met_iff by (metis option.inject)
    with g(3) show False by simp
  qed
  with get self show ?thesis by (simp add: is_ready_iff)
qed

lemma self_dependency_blocks_witness:
  "\<exists>g'. get_goal (snd (apply_directive 5 ''n'' ''a'' ((adjust ''a'' 1)\<lparr>dv_action := DirAddDependency, dv_depends_on := [''a'']\<rparr>)
      (one_goal (new_goal ''a'' ''first'' 1)))) ''a'' = Some g' \<and> ''a'' \<in> set (g_depends_on g')"
proof -
  have g: "get_goal (one_goal (new_goal ''a'' ''first'' 1)) ''a'' = Some (new_goal ''a'' ''first'' 1)" by simp
  have st: "g_status (new_goal ''a'' ''first'' 1) \<notin> TERMINAL_STATES" by (simp add: TERMINAL_STATES_def)
  show ?thesis
    using self_dependency_blocks [OF g _ st, of "(adjust ''a'' 1)\<lparr>dv_action := DirAddDependency, dv_depends_on := [''a'']\<rparr>" 5 "''n''" "''a''"]
    by (auto simp: adjust_def)
qed

end
