(* ===== verification/Ledger.thy ===== *)
theory Ledger
  imports Prelude
begin

text \<open>
  The message ledger (\<open>context/ledger.py\<close>) and its persistence in \<open>ContextEngine\<close>
  (\<open>persistence_snapshot\<close>, \<open>_normalize_ledger_entry\<close>, \<open>_reconstruct_message\<close>, \<open>load\<close>). Messages are
  objects of an external library: their type is a parameter, and so are the library's
  \<open>model_dump\<close>, \<open>model_validate\<close> and constructors.
\<close>

section \<open>The ledger\<close>

record 'm ledger_entry =
  le_message :: 'm
  le_phase :: "string option"

record 'm ledger =
  lg_max_entries :: int
  lg_entries :: "'m ledger_entry list"
  lg_revision :: nat

text \<open>\<open>compact_fn\<close>: absent, or a function that raises or returns an optional summary.\<close>

type_synonym 'm compactor = "('m ledger_entry list \<Rightarrow> exn + string option) option"

definition empty_ledger :: "int \<Rightarrow> 'm ledger" where
  "empty_ledger n = \<lparr>lg_max_entries = n, lg_entries = [], lg_revision = 0\<rparr>"

definition compact :: "(string \<Rightarrow> 'm) \<Rightarrow> 'm compactor \<Rightarrow> 'm ledger \<Rightarrow> 'm ledger" where
  "compact system_message compact_fn l =
     (if lg_max_entries l \<le> 0 then l
      else if int (length (lg_entries l)) \<le> lg_max_entries l then l
      else
        (let excess = nat (int (length (lg_entries l)) - lg_max_entries l);
             dropped = l\<lparr>lg_entries := drop excess (lg_entries l), lg_revision := lg_revision l + 1\<rparr>
         in case compact_fn of
              None \<Rightarrow> dropped
            | Some f \<Rightarrow>
                (case f (take excess (lg_entries l)) of
                   Inl e \<Rightarrow> dropped
                 | Inr summary \<Rightarrow>
                     if truthy summary then
                       l\<lparr>lg_entries := \<lparr>le_message = system_message (opt_str summary), le_phase = Some ''compacted''\<rparr>
                                        # drop excess (lg_entries l),
                         lg_revision := lg_revision l + 1\<rparr>
                     else dropped)))"

definition record_message ::
  "(string \<Rightarrow> 'm) \<Rightarrow> 'm compactor \<Rightarrow> 'm \<Rightarrow> string \<Rightarrow> 'm ledger \<Rightarrow> 'm ledger" where
  "record_message system_message compact_fn m phase l =
     (let l' = l\<lparr>lg_entries := lg_entries l @ [\<lparr>le_message = m, le_phase = Some phase\<rparr>],
                 lg_revision := lg_revision l + 1\<rparr>
      in if lg_max_entries l' > 0 \<and> int (length (lg_entries l')) > lg_max_entries l'
         then compact system_message compact_fn l' else l')"

definition ledger_entries :: "string list option \<Rightarrow> 'm ledger \<Rightarrow> ('m \<times> string option) list" where
  "ledger_entries phases l =
     map (\<lambda>e. (le_message e, le_phase e))
       (case phases of
          None \<Rightarrow> lg_entries l
        | Some ps \<Rightarrow> filter (\<lambda>e. le_phase e \<in> Some ` set ps) (lg_entries l))"

definition get_messages :: "string list option \<Rightarrow> 'm ledger \<Rightarrow> 'm list" where
  "get_messages phases l =
     (case phases of
        None \<Rightarrow> map le_message (lg_entries l)
      | Some ps \<Rightarrow> map le_message (filter (\<lambda>e. le_phase e \<in> Some ` set ps) (lg_entries l)))"

definition clear_ledger :: "'m ledger \<Rightarrow> 'm ledger" where
  "clear_ledger l = l\<lparr>lg_entries := [], lg_revision := lg_revision l + 1\<rparr>"

text \<open>Recording a whole sequence.\<close>

definition record_all ::
  "(string \<Rightarrow> 'm) \<Rightarrow> 'm compactor \<Rightarrow> ('m \<times> string) list \<Rightarrow> 'm ledger \<Rightarrow> 'm ledger" where
  "record_all sm cf ms l = foldl (\<lambda>l (m, phase). record_message sm cf m phase l) l ms"

section \<open>Bounds\<close>

lemma compact_max [simp]: "lg_max_entries (compact sm cf l) = lg_max_entries l"
  by (simp add: compact_def Let_def split: option.split sum.split)

lemma record_max [simp]: "lg_max_entries (record_message sm cf m p l) = lg_max_entries l"
  by (simp add: record_message_def Let_def)

lemma compact_length:
  assumes "lg_max_entries l > 0"
  shows "int (length (lg_entries (compact sm cf l))) \<le> lg_max_entries l + (if cf = None then 0 else 1)"
  using assms by (auto simp: compact_def Let_def split: option.split sum.split)

text \<open>With a positive cap the ledger never holds more than the cap plus one entry, and without a
  compaction function never more than the cap. The one extra entry is the summary: a ledger
  compacted by a function that returns one is over its cap.\<close>

theorem ledger_bounded:
  assumes "lg_max_entries l > 0" "int (length (lg_entries l)) \<le> lg_max_entries l + (if cf = None then 0 else 1)"
  shows "int (length (lg_entries (record_all sm cf ms l))) \<le> lg_max_entries l + (if cf = None then 0 else 1)"
  using assms
proof (induction ms arbitrary: l)
  case (Cons p ms)
  obtain m phase where p: "p = (m, phase)" by (cases p)
  let ?l = "record_message sm cf m phase l"
  let ?l' = "l\<lparr>lg_entries := lg_entries l @ [\<lparr>le_message = m, le_phase = Some phase\<rparr>], lg_revision := lg_revision l + 1\<rparr>"
  have "int (length (lg_entries ?l)) \<le> lg_max_entries l + (if cf = None then 0 else 1)"
  proof (cases "int (length (lg_entries ?l')) > lg_max_entries l")
    case True
    then have "?l = compact sm cf ?l'" using Cons.prems(1) by (simp add: record_message_def Let_def)
    then show ?thesis using compact_length [of ?l' sm cf] Cons.prems(1) by simp
  next
    case False
    then have "?l = ?l'" by (simp add: record_message_def Let_def)
    with False show ?thesis by simp
  qed
  with Cons.IH [of ?l] Cons.prems(1) p show ?case by (simp add: record_all_def)
qed (simp add: record_all_def)

lemma ledger_bounded_witness:
  "int (length (lg_entries (record_all id None [(''a'', ''act''), (''b'', ''act''), (''c'', ''act'')] (empty_ledger 2)))) \<le> 2"
  using ledger_bounded [of "empty_ledger 2" None id] by (simp add: empty_ledger_def)

text \<open>Compaction with a summary overshoots: whenever a full ledger is compacted by a function that
  returns a summary, it ends up one entry over \<open>max_entries\<close>, so that the next message triggers
  compaction again, of the summary itself and one message more.\<close>

theorem compaction_exceeds_cap:
  assumes "lg_max_entries l > 0" "int (length (lg_entries l)) = lg_max_entries l"
    and "f (take 1 (lg_entries l)) = Inr (Some summary)" "summary \<noteq> []"
  shows "int (length (lg_entries (record_message sm (Some f) m phase l))) = lg_max_entries l + 1"
proof -
  have "take 1 (lg_entries l @ [e]) = take 1 (lg_entries l)" for e
    using assms(1,2) by (cases "lg_entries l") simp_all
  moreover have "nat (int (length (lg_entries l)) + 1 - lg_max_entries l) = 1" using assms(2) by simp
  ultimately show ?thesis
    using assms by (simp add: record_message_def compact_def Let_def)
qed

lemma compaction_exceeds_cap_witness:
  "int (length (lg_entries (record_message id (Some (\<lambda>_. Inr (Some ''summary''))) ''new'' ''act''
     \<lparr>lg_max_entries = 1, lg_entries = [\<lparr>le_message = ''old'', le_phase = Some ''act''\<rparr>], lg_revision = 1\<rparr>))) = 2"
  using compaction_exceeds_cap [of "\<lparr>lg_max_entries = 1, lg_entries = [\<lparr>le_message = ''old'', le_phase = Some ''act''\<rparr>], lg_revision = 1\<rparr>"
      "\<lambda>_. Inr (Some ''summary'')" "''summary''" id "''new''" "''act''"] by simp

lemma py_last_append: "0 < n \<Longrightarrow> py_last n (py_last n xs @ [x]) = py_last n (xs @ [x])"
proof (cases "length xs \<le> n")
  case True
  then show "0 < n \<Longrightarrow> py_last n (py_last n xs @ [x]) = py_last n (xs @ [x])" by (simp add: py_last_def)
next
  case False
  assume "0 < n"
  with False have "length xs + 1 - n = Suc (length xs - n)" "Suc (length xs - n) \<le> length xs" by simp_all
  with False \<open>0 < n\<close> show ?thesis by (simp add: py_last_def Suc_diff_le)
qed

lemma record_entries:
  "lg_entries (record_message sm None m phase l) =
     (let es = lg_entries l @ [\<lparr>le_message = m, le_phase = Some phase\<rparr>]
      in if lg_max_entries l > 0 then py_last (nat (lg_max_entries l)) es else es)"
proof -
  let ?es = "lg_entries l @ [\<lparr>le_message = m, le_phase = Some phase\<rparr>]"
  consider "lg_max_entries l \<le> 0" | "lg_max_entries l > 0" "int (length ?es) \<le> lg_max_entries l"
    | "lg_max_entries l > 0" "int (length ?es) > lg_max_entries l" by linarith
  then show ?thesis
  proof cases
    case 1
    then show ?thesis by (simp add: record_message_def Let_def)
  next
    case 2
    then have "length ?es - nat (lg_max_entries l) = 0" by linarith
    with 2 show ?thesis by (simp add: record_message_def Let_def py_last_def)
  next
    case 3
    then have "nat (int (length ?es) - lg_max_entries l) = length ?es - nat (lg_max_entries l)" by linarith
    with 3 show ?thesis by (simp add: record_message_def compact_def Let_def py_last_def)
  qed
qed

lemma empty_ledger_max [simp]: "lg_max_entries (empty_ledger n) = n"
  by (simp add: empty_ledger_def)

lemma record_all_max [simp]: "lg_max_entries (record_all sm cf ms l) = lg_max_entries l"
  unfolding record_all_def by (induction ms arbitrary: l) (auto simp: case_prod_beta)

lemma record_all_snoc: "record_all sm cf (ms @ [(m, p)]) l = record_message sm cf m p (record_all sm cf ms l)"
  by (simp add: record_all_def)

text \<open>Without a compaction function the ledger is exactly the latest messages: recording a
  sequence into an empty ledger keeps its last \<open>max_entries\<close> elements in order (all of them
  when the cap is 0), each under its phase.\<close>

theorem ledger_keeps_latest:
  assumes "n \<ge> 0"
  shows "ledger_entries None (record_all sm None ms (empty_ledger n)) =
     map (\<lambda>(m, p). (m, Some p)) (if n = 0 then ms else py_last (nat n) ms)"
proof -
  let ?e = "\<lambda>(m, p). \<lparr>le_message = m, le_phase = Some p\<rparr>"
  have "lg_entries (record_all sm None ms (empty_ledger n)) = map ?e (if n = 0 then ms else py_last (nat n) ms)"
  proof (induction ms rule: rev_induct)
    case Nil
    then show ?case by (simp add: record_all_def empty_ledger_def py_last_def)
  next
    case (snoc x ms)
    obtain m p where x: "x = (m, p)" by (cases x)
    have map_last: "map ?e (py_last k xs) = py_last k (map ?e xs)" for k xs
      by (simp add: py_last_def drop_map)
    show ?case
    proof (cases "n = 0")
      case True
      with snoc show ?thesis by (simp add: x record_all_snoc record_entries Let_def)
    next
      case False
      with assms have "0 < nat n" by simp
      from py_last_append [OF this, of "map ?e ms" "?e x"] False assms snoc show ?thesis
        by (simp add: x record_all_snoc record_entries map_last Let_def)
    qed
  qed
  then show ?thesis by (simp add: ledger_entries_def case_prod_beta comp_def)
qed

lemma ledger_keeps_latest_witness:
  "ledger_entries None (record_all id None [(''a'', ''act''), (''b'', ''act''), (''c'', ''plan'')] (empty_ledger 2)) =
     [(''b'', Some ''act''), (''c'', Some ''plan'')]"
  using ledger_keeps_latest [of 2 id] by (simp add: py_last_def)

section \<open>Persistence\<close>

definition message_types :: "string list" where
  "message_types = [''AIMessage'', ''HumanMessage'', ''SystemMessage'', ''ToolMessage'', ''AIMessageChunk'',
     ''LoopHumanMessage'', ''LoopAIMessage'', ''LoopAIMessageChunk'']"

type_synonym row = "(string, json) dict"

text \<open>The library's side: \<open>validate\<close> is \<open>model_validate\<close> of the named class (\<open>None\<close> when it raises) and
  \<open>of_content\<close> its constructor from the content alone.\<close>

definition reconstruct_message ::
  "(string \<Rightarrow> row \<Rightarrow> 'm option) \<Rightarrow> (string \<Rightarrow> json \<Rightarrow> 'm) \<Rightarrow> string \<Rightarrow> row \<Rightarrow> 'm option" where
  "reconstruct_message validate of_content type_name data =
     (if type_name \<notin> set message_types then None
      else (case validate type_name data of
              Some m \<Rightarrow> Some m
            | None \<Rightarrow> Some (of_content type_name
                        (case dict_get data ''content'' of None \<Rightarrow> JStr [] | Some c \<Rightarrow> c))))"

text \<open>Persisted phases are strings or null.\<close>

definition phase_value :: "json option \<Rightarrow> string option" where
  "phase_value j = (case j of Some (JStr p) \<Rightarrow> Some p | _ \<Rightarrow> None)"

definition or_default :: "json option \<Rightarrow> json \<Rightarrow> json" where
  "or_default j fallback = (case j of None \<Rightarrow> fallback | Some v \<Rightarrow> v)"

text \<open>\<open>str_of\<close> is the language's \<open>str\<close> on a stored value.\<close>

definition normalize_ledger_entry :: "(json \<Rightarrow> string) \<Rightarrow> row \<Rightarrow> string \<times> row \<times> string option" where
  "normalize_ledger_entry str_of entry =
     (case dict_get entry ''_msg_type'' of
        Some t \<Rightarrow>
          (let entry' = dict_pop ''_msg_type'' entry
           in (str_of t, dict_pop ''_phase'' entry', phase_value (dict_get entry' ''_phase'')))
      | None \<Rightarrow>
          (str_of (or_default (dict_get entry ''type'') (JStr ''HumanMessage'')),
           [(''content'', or_default (dict_get entry ''content'') (JStr []))],
           phase_value (dict_get entry ''phase'')))"

definition persist_row :: "('m \<Rightarrow> row) \<Rightarrow> ('m \<Rightarrow> string) \<Rightarrow> 'm ledger_entry \<Rightarrow> row" where
  "persist_row model_dump type_name e =
     dict_set ''_msg_type'' (JStr (type_name (le_message e)))
       (dict_set ''_phase'' (case le_phase e of None \<Rightarrow> JNull | Some p \<Rightarrow> JStr p) (model_dump (le_message e)))"

definition persistence_snapshot :: "('m \<Rightarrow> row) \<Rightarrow> ('m \<Rightarrow> string) \<Rightarrow> 'm ledger \<Rightarrow> row list" where
  "persistence_snapshot model_dump type_name l = map (persist_row model_dump type_name) (lg_entries l)"

definition load_row ::
  "(string \<Rightarrow> 'm) \<Rightarrow> 'm compactor \<Rightarrow> (json \<Rightarrow> string) \<Rightarrow> (string \<Rightarrow> row \<Rightarrow> 'm option) \<Rightarrow> (string \<Rightarrow> json \<Rightarrow> 'm) \<Rightarrow>
   row \<Rightarrow> 'm ledger \<Rightarrow> 'm ledger" where
  "load_row sm cf str_of validate of_content row l =
     (let (type_name, payload, phase) = normalize_ledger_entry str_of row
      in case reconstruct_message validate of_content type_name payload of
           None \<Rightarrow> l
         | Some m \<Rightarrow> record_message sm cf m (opt_str phase) l)"

definition load_ledger ::
  "(string \<Rightarrow> 'm) \<Rightarrow> 'm compactor \<Rightarrow> (json \<Rightarrow> string) \<Rightarrow> (string \<Rightarrow> row \<Rightarrow> 'm option) \<Rightarrow> (string \<Rightarrow> json \<Rightarrow> 'm) \<Rightarrow>
   row list \<Rightarrow> 'm ledger \<Rightarrow> 'm ledger" where
  "load_ledger sm cf str_of validate of_content rows l =
     (if rows = [] then l
      else foldl (\<lambda>l row. load_row sm cf str_of validate of_content row l) (clear_ledger l) rows)"

lemma dict_pop_set_new: "k \<notin> set (dict_keys d) \<Longrightarrow> dict_pop k (dict_set k v d) = d"
  unfolding dict_set_def dict_pop_def by (induction d) (auto simp: delete_id)

lemma dict_pop_other: "k \<notin> set (dict_keys d) \<Longrightarrow> dict_pop k d = d"
  unfolding dict_pop_def by (induction d) auto

text \<open>What a persisted row reads back as.\<close>

lemma normalize_persisted:
  assumes "''_msg_type'' \<notin> set (dict_keys (model_dump (le_message e)))" "''_phase'' \<notin> set (dict_keys (model_dump (le_message e)))"
    and "\<And>s. str_of (JStr s) = s"
  shows "normalize_ledger_entry str_of (persist_row model_dump type_name e) =
     (type_name (le_message e), model_dump (le_message e), le_phase e)"
proof -
  let ?d = "dict_set ''_phase'' (case le_phase e of None \<Rightarrow> JNull | Some p \<Rightarrow> JStr p) (model_dump (le_message e))"
  have "''_msg_type'' \<notin> set (dict_keys ?d)" using assms(1) by simp
  then have "dict_pop ''_msg_type'' (persist_row model_dump type_name e) = ?d"
    unfolding persist_row_def by (rule dict_pop_set_new)
  moreover have "dict_get (persist_row model_dump type_name e) ''_msg_type'' = Some (JStr (type_name (le_message e)))"
    by (simp add: persist_row_def)
  moreover have "dict_pop ''_phase'' ?d = model_dump (le_message e)" by (rule dict_pop_set_new [OF assms(2)])
  moreover have "phase_value (dict_get ?d ''_phase'') = le_phase e"
    by (simp add: phase_value_def split: option.split)
  ultimately show ?thesis using assms(3) by (simp add: normalize_ledger_entry_def Let_def)
qed

text \<open>Saving and loading the uncapped ledger of the engine is lossless but for one thing: every
  message comes back, in order, with its phase, except that an absent phase comes back as the
  empty string. The library's part is that a known message type validates its own dump, whose
  fields do not clash with the two bookkeeping keys.\<close>

theorem ledger_persistence_roundtrip:
  assumes lib: "\<forall>e \<in> set (lg_entries l). type_name (le_message e) \<in> set message_types \<and>
      validate (type_name (le_message e)) (model_dump (le_message e)) = Some (le_message e) \<and>
      ''_msg_type'' \<notin> set (dict_keys (model_dump (le_message e))) \<and>
      ''_phase'' \<notin> set (dict_keys (model_dump (le_message e)))"
    and str: "\<forall>s. str_of (JStr s) = s" and cap: "lg_max_entries l' = 0" and some: "lg_entries l \<noteq> []"
  shows "lg_entries (load_ledger sm cf str_of validate of_content (persistence_snapshot model_dump type_name l) l') =
     map (\<lambda>e. e\<lparr>le_phase := Some (opt_str (le_phase e))\<rparr>) (lg_entries l)"
proof -
  have load: "lg_entries (foldl (\<lambda>l row. load_row sm cf str_of validate of_content row l) l0
        (map (persist_row model_dump type_name) es)) =
      lg_entries l0 @ map (\<lambda>e. e\<lparr>le_phase := Some (opt_str (le_phase e))\<rparr>) es"
    if "set es \<subseteq> set (lg_entries l)" "lg_max_entries l0 = 0" for es and l0 :: "'a ledger"
    using that
  proof (induction es arbitrary: l0)
    case (Cons e es)
    have e: "type_name (le_message e) \<in> set message_types"
      "validate (type_name (le_message e)) (model_dump (le_message e)) = Some (le_message e)"
      "''_msg_type'' \<notin> set (dict_keys (model_dump (le_message e)))" "''_phase'' \<notin> set (dict_keys (model_dump (le_message e)))"
      using lib Cons.prems(1) by simp_all
    have norm: "normalize_ledger_entry str_of (persist_row model_dump type_name e) =
        (type_name (le_message e), model_dump (le_message e), le_phase e)"
      by (rule normalize_persisted) (use e(3,4) str in simp_all)
    have row: "load_row sm cf str_of validate of_content (persist_row model_dump type_name e) l0 =
        record_message sm cf (le_message e) (opt_str (le_phase e)) l0"
      unfolding load_row_def norm prod.case Let_def
      using e(1,2) by (simp add: reconstruct_message_def)
    have ents: "lg_entries (record_message sm cf (le_message e) (opt_str (le_phase e)) l0) =
        lg_entries l0 @ [e\<lparr>le_phase := Some (opt_str (le_phase e))\<rparr>]"
      using Cons.prems(2) by (simp add: record_message_def Let_def)
    have sub: "set es \<subseteq> set (lg_entries l)"
      and max: "lg_max_entries (record_message sm cf (le_message e) (opt_str (le_phase e)) l0) = 0"
      using Cons.prems by simp_all
    from Cons.IH [OF sub max] show ?case by (simp add: row ents)
  qed simp
  have "persistence_snapshot model_dump type_name l \<noteq> []" using some by (simp add: persistence_snapshot_def)
  then show ?thesis
    using load [of "lg_entries l" "clear_ledger l'"] cap
    by (simp add: load_ledger_def persistence_snapshot_def clear_ledger_def)
qed

text \<open>A library whose messages are their own content.\<close>

lemma ledger_persistence_roundtrip_witness:
  "lg_entries (load_ledger id None (\<lambda>j. case j of JStr s \<Rightarrow> s | _ \<Rightarrow> [])
      (\<lambda>t row. case dict_get row ''content'' of Some (JStr s) \<Rightarrow> Some s | _ \<Rightarrow> None) (\<lambda>t j. [])
      (persistence_snapshot (\<lambda>m. [(''content'', JStr m)]) (\<lambda>m. ''AIMessage'')
        \<lparr>lg_max_entries = 0, lg_entries = [\<lparr>le_message = ''hello'', le_phase = None\<rparr>], lg_revision = 1\<rparr>)
      (empty_ledger 0)) = [\<lparr>le_message = ''hello'', le_phase = Some []\<rparr>]"
  by (subst ledger_persistence_roundtrip) (simp_all add: message_types_def)

end
