(* ===== verification/Workspace_Reservation.thy ===== *)
theory Workspace_Reservation
  imports Prelude "HOL-Library.Sublist"
begin

text \<open>
  \<open>WorkspaceReservation\<close> (\<open>workers/workspace_reservation.py\<close> of the autopilot): the registry that keeps
  two active goals out of overlapping workspaces. Paths are POSIX paths; what the library does
  to them (\<open>PurePosixPath\<close> and \<open>os.path.normpath\<close>) is modelled, while the home directories and the
  working directory of the process are the argument \<open>path_env\<close>. Each operation holds the lock, so
  that threads interleave whole operations.
\<close>

section \<open>POSIX paths\<close>

abbreviation slash :: char where
  "slash \<equiv> CHR 0x2F"

record posix_path =
  pp_root :: string
  pp_parts :: "string list"

definition splitroot :: "string \<Rightarrow> string \<times> string" where
  "splitroot p =
     (if take 1 p \<noteq> [slash] then ([], p)
      else if take 1 (drop 1 p) \<noteq> [slash] \<or> take 1 (drop 2 p) = [slash] then ([slash], drop 1 p)
      else ([slash, slash], drop 2 p))"

definition parse_path :: "string \<Rightarrow> posix_path" where
  "parse_path p =
     (let (root, rel) = splitroot p
      in \<lparr>pp_root = root, pp_parts = filter (\<lambda>x. x \<noteq> [] \<and> x \<noteq> ''.'') (split_at (\<lambda>c. c = slash) rel)\<rparr>)"

definition path_str :: "posix_path \<Rightarrow> string" where
  "path_str p =
     (if pp_root p \<noteq> [] then pp_root p @ py_join [slash] (pp_parts p)
      else if pp_parts p = [] then ''.''
      else py_join [slash] (pp_parts p))"

text \<open>\<open>PurePosixPath(s).parts\<close>: the root, if any, is the first part.\<close>

definition path_parts :: "string \<Rightarrow> string list" where
  "path_parts s = (let p = parse_path s in (if pp_root p = [] then [] else [pp_root p]) @ pp_parts p)"

text \<open>\<open>os.path.expanduser\<close> of a first component, and \<open>os.getcwd()\<close> (\<open>None\<close> when it raises).\<close>

record path_env =
  pe_expanduser :: "string \<Rightarrow> string"
  pe_cwd :: "string option"

definition expanduser :: "path_env \<Rightarrow> posix_path \<Rightarrow> posix_path outcome" where
  "expanduser env p =
     (case pp_parts p of
        [] \<Rightarrow> Inr p
      | first # rest \<Rightarrow>
          if pp_root p = [] \<and> take 1 first = ''~'' then
            (let home = pe_expanduser env first in
             if take 1 home = ''~'' then Inl (RuntimeError ''Could not determine home directory.'')
             else (let h = parse_path home in Inr (h\<lparr>pp_parts := pp_parts h @ rest\<rparr>)))
          else Inr p)"

text \<open>The component loop of \<open>normpath\<close>, on a stack of kept components.\<close>

fun norm_components :: "bool \<Rightarrow> string list \<Rightarrow> string list \<Rightarrow> string list" where
  "norm_components absolute kept [] = rev kept"
| "norm_components absolute kept (c # cs) =
     (if c = [] \<or> c = ''.'' then norm_components absolute kept cs
      else if c \<noteq> ''..'' \<or> (\<not> absolute \<and> kept = []) \<or> (kept \<noteq> [] \<and> hd kept = ''..'')
           then norm_components absolute (c # kept) cs
      else norm_components absolute (tl kept) cs)"

definition normpath :: "string \<Rightarrow> string" where
  "normpath path =
     (if path = [] then ''.''
      else
        (let (root, rel) = splitroot path;
             comps = norm_components (root \<noteq> []) [] (split_at (\<lambda>c. c = slash) rel);
             s = root @ py_join [slash] comps
         in if s = [] then ''.'' else s))"

definition join_path :: "string \<Rightarrow> string \<Rightarrow> string" where
  "join_path a b =
     (if take 1 b = [slash] then b
      else if a = [] \<or> last a = slash then a @ b
      else a @ [slash] @ b)"

definition rstrip_slash :: "string \<Rightarrow> string" where
  "rstrip_slash s = rev (dropWhile (\<lambda>c. c = slash) (rev s))"

section \<open>Canonical workspaces\<close>

definition normalize :: "path_env \<Rightarrow> string \<Rightarrow> string outcome" where
  "normalize env workspace =
     (case expanduser env (parse_path workspace) of
        Inl e \<Rightarrow> Inl e
      | Inr p \<Rightarrow>
          (let abs_str =
                 (if pp_root p \<noteq> [] then normpath (path_str p)
                  else normpath (join_path (case pe_cwd env of None \<Rightarrow> [slash] | Some cwd \<Rightarrow> cwd) (path_str p)));
               stripped = rstrip_slash abs_str
           in Inr (if stripped = [] then [slash] else stripped)))"

definition overlaps :: "bool \<Rightarrow> string \<Rightarrow> string \<Rightarrow> bool" where
  "overlaps strict a_norm b_norm =
     (if a_norm = b_norm then True
      else if \<not> strict then False
      else
        (let a = path_parts a_norm; b = path_parts b_norm;
             (short, long) = (if length a < length b then (a, b) else (b, a))
         in short = take (length short) long))"

section \<open>The registry\<close>

record reservation =
  rv_strict :: bool
  rv_enabled :: bool
  rv_reservations :: "(ident, string) dict"

definition new_reservation :: "bool \<Rightarrow> bool \<Rightarrow> reservation" where
  "new_reservation strict enabled = \<lparr>rv_strict = strict, rv_enabled = enabled, rv_reservations = []\<rparr>"

definition reservation_count :: "reservation \<Rightarrow> nat" where
  "reservation_count r = length (rv_reservations r)"

definition first_conflict :: "reservation \<Rightarrow> ident option \<Rightarrow> string \<Rightarrow> ident option" where
  "first_conflict r excluded canonical =
     map_option fst (find (\<lambda>(g, held). Some g \<noteq> excluded \<and> overlaps (rv_strict r) canonical held) (rv_reservations r))"

definition conflicts_with_active ::
  "path_env \<Rightarrow> string \<Rightarrow> ident option \<Rightarrow> reservation \<Rightarrow> ident option outcome" where
  "conflicts_with_active env workspace excluded r =
     (if \<not> rv_enabled r then Inr None
      else (case normalize env workspace of
              Inl e \<Rightarrow> Inl e
            | Inr canonical \<Rightarrow> Inr (first_conflict r excluded canonical)))"

definition acquire :: "path_env \<Rightarrow> ident \<Rightarrow> string \<Rightarrow> reservation \<Rightarrow> bool outcome \<times> reservation" where
  "acquire env gid workspace r =
     (case normalize env workspace of
        Inl e \<Rightarrow> (Inl e, r)
      | Inr canonical \<Rightarrow>
          if \<not> rv_enabled r then (Inr True, r\<lparr>rv_reservations := dict_set gid canonical (rv_reservations r)\<rparr>)
          else if dict_get (rv_reservations r) gid = Some canonical then (Inr True, r)
          else if first_conflict r (Some gid) canonical \<noteq> None then (Inr False, r)
          else (Inr True, r\<lparr>rv_reservations := dict_set gid canonical (rv_reservations r)\<rparr>))"

definition release :: "ident \<Rightarrow> reservation \<Rightarrow> bool \<times> reservation" where
  "release gid r =
     (dict_get (rv_reservations r) gid \<noteq> None, r\<lparr>rv_reservations := dict_pop gid (rv_reservations r)\<rparr>)"

section \<open>Mutual exclusion\<close>

text \<open>A table whose entries are pairwise free of clashes, and the two ways a registry changes it.\<close>

definition clash_free :: "('w \<Rightarrow> 'w \<Rightarrow> bool) \<Rightarrow> ('k, 'w) dict \<Rightarrow> bool" where
  "clash_free clash d \<longleftrightarrow>
     (\<forall>g h v w. dict_get d g = Some v \<longrightarrow> dict_get d h = Some w \<longrightarrow> g \<noteq> h \<longrightarrow> \<not> clash v w)"

locale exclusive_registry =
  fixes clash :: "'w \<Rightarrow> 'w \<Rightarrow> bool"
  assumes clash_sym: "clash v w \<Longrightarrow> clash w v"
begin

lemma clash_free_empty: "clash_free clash []"
  by (simp add: clash_free_def)

lemma clash_free_set:
  assumes "clash_free clash d" and "\<forall>h w. dict_get d h = Some w \<longrightarrow> h \<noteq> g \<longrightarrow> \<not> clash v w"
  shows "clash_free clash (dict_set g v d)"
  using assms unfolding clash_free_def dict_get_set by (metis clash_sym option.inject)

lemma clash_free_pop: "clash_free clash d \<Longrightarrow> clash_free clash (dict_pop g d)"
  unfolding clash_free_def by auto

end

lemma overlaps_sym: "overlaps strict a b \<Longrightarrow> overlaps strict b a"
  by (auto simp: overlaps_def Let_def split: if_splits)

interpretation workspaces: exclusive_registry "overlaps strict" for strict
  by unfold_locales (rule overlaps_sym)

lemma overlaps_iff_prefix:
  "overlaps True a b \<longleftrightarrow> prefix (path_parts a) (path_parts b) \<or> prefix (path_parts b) (path_parts a)"
proof -
  have "prefix xs ys \<longleftrightarrow> xs = take (length xs) ys" for xs ys :: "string list"
    by (metis append_eq_conv_conj append_take_drop_id prefix_def)
  then show ?thesis
    by (auto simp: overlaps_def Let_def)
qed

lemma first_conflict_None:
  "wf_dict (rv_reservations r) \<Longrightarrow>
   first_conflict r excluded w = None \<longleftrightarrow>
     (\<forall>h v. dict_get (rv_reservations r) h = Some v \<longrightarrow> Some h \<noteq> excluded \<longrightarrow> \<not> overlaps (rv_strict r) w v)"
  by (auto simp: first_conflict_def find_None_iff dict_get_in)

text \<open>What a caller does with the registry: whole operations, in any order.\<close>

datatype reservation_op = Acquire ident string | Release ident

fun apply_op :: "path_env \<Rightarrow> reservation_op \<Rightarrow> reservation \<Rightarrow> reservation" where
  "apply_op env (Acquire gid ws) r = snd (acquire env gid ws r)"
| "apply_op env (Release gid) r = snd (release gid r)"

definition reserved_ok :: "bool \<Rightarrow> reservation \<Rightarrow> bool" where
  "reserved_ok strict r \<longleftrightarrow>
     rv_strict r = strict \<and> rv_enabled r \<and> wf_dict (rv_reservations r) \<and> clash_free (overlaps strict) (rv_reservations r)"

lemma acquire_keeps: "reserved_ok strict r \<Longrightarrow> reserved_ok strict (snd (acquire env gid ws r))"
  by (auto simp: acquire_def reserved_ok_def first_conflict_None intro: workspaces.clash_free_set split: sum.split)

lemma release_keeps: "reserved_ok strict r \<Longrightarrow> reserved_ok strict (snd (release gid r))"
  by (simp add: release_def reserved_ok_def workspaces.clash_free_pop)

lemma ops_keep: "reserved_ok strict r \<Longrightarrow> reserved_ok strict (foldl (\<lambda>r op. apply_op env op r) r ops)"
proof (induction ops arbitrary: r)
  case (Cons op ops)
  then show ?case by (cases op) (simp_all add: acquire_keeps release_keeps)
qed simp

text \<open>Claim C15. Reservations exclude each other: whatever sequence of acquisitions and releases an enabled
  registry runs, no two goals ever hold overlapping workspaces (equal ones, or with the strict
  setting one a path prefix of the other, component by component).\<close>

theorem reservations_exclusive:
  "clash_free (overlaps strict)
     (rv_reservations (foldl (\<lambda>r op. apply_op env op r) (new_reservation strict True) ops))"
proof -
  have "reserved_ok strict (new_reservation strict True)"
    by (simp add: reserved_ok_def new_reservation_def workspaces.clash_free_empty)
  from ops_keep [OF this, of env ops] show ?thesis by (simp add: reserved_ok_def)
qed

text \<open>An acquisition succeeds exactly when no other goal holds an overlapping workspace, which is also
  when \<open>conflicts_with_active\<close> without that goal finds nothing; it then stores the canonical path under
  the goal and changes no other entry, and a refused one changes nothing.\<close>

theorem acquire_correct:
  assumes ok: "reserved_ok strict r" and w: "normalize env ws = Inr w"
  shows "fst (acquire env gid ws r) \<in> {Inr True, Inr False} \<and>
     (fst (acquire env gid ws r) = Inr True \<longleftrightarrow>
       (\<forall>h v. dict_get (rv_reservations r) h = Some v \<longrightarrow> h \<noteq> gid \<longrightarrow> \<not> overlaps strict w v)) \<and>
     (conflicts_with_active env ws (Some gid) r = Inr None \<longleftrightarrow> fst (acquire env gid ws r) = Inr True) \<and>
     (\<forall>h. dict_get (rv_reservations (snd (acquire env gid ws r))) h =
        (if fst (acquire env gid ws r) = Inr True \<and> h = gid then Some w else dict_get (rv_reservations r) h))"
proof -
  have wf: "wf_dict (rv_reservations r)" and en: "rv_enabled r" "rv_strict r = strict"
    and free: "clash_free (overlaps strict) (rv_reservations r)" using ok by (simp_all add: reserved_ok_def)
  have none: "first_conflict r (Some gid) w = None \<longleftrightarrow>
      (\<forall>h v. dict_get (rv_reservations r) h = Some v \<longrightarrow> h \<noteq> gid \<longrightarrow> \<not> overlaps strict w v)"
    using first_conflict_None [OF wf, of "Some gid" w] by (simp add: en)
  have conf: "(conflicts_with_active env ws (Some gid) r = Inr None) \<longleftrightarrow> first_conflict r (Some gid) w = None"
    by (simp add: conflicts_with_active_def en w)
  show ?thesis
  proof (cases "dict_get (rv_reservations r) gid = Some w")
    case True
    then have "first_conflict r (Some gid) w = None" using free unfolding none clash_free_def by blast
    then have "\<forall>h v. dict_get (rv_reservations r) h = Some v \<longrightarrow> h \<noteq> gid \<longrightarrow> \<not> overlaps strict w v"
      "conflicts_with_active env ws (Some gid) r = Inr None" unfolding none [symmetric] conf by assumption+
    moreover have "acquire env gid ws r = (Inr True, r)" using True by (simp add: acquire_def w en)
    ultimately show ?thesis using True by simp
  next
    case other: False
    show ?thesis
    proof (cases "first_conflict r (Some gid) w = None")
      case True
      then have "\<forall>h v. dict_get (rv_reservations r) h = Some v \<longrightarrow> h \<noteq> gid \<longrightarrow> \<not> overlaps strict w v"
        "conflicts_with_active env ws (Some gid) r = Inr None" unfolding none [symmetric] conf by assumption+
      moreover have "acquire env gid ws r = (Inr True, r\<lparr>rv_reservations := dict_set gid w (rv_reservations r)\<rparr>)"
        using True other by (simp add: acquire_def w en)
      ultimately show ?thesis by simp
    next
      case False
      then have "\<not> (\<forall>h v. dict_get (rv_reservations r) h = Some v \<longrightarrow> h \<noteq> gid \<longrightarrow> \<not> overlaps strict w v)"
        "conflicts_with_active env ws (Some gid) r \<noteq> Inr None" unfolding none [symmetric] conf by assumption+
      moreover have "acquire env gid ws r = (Inr False, r)"
        using False other by (simp add: acquire_def w en)
      ultimately show ?thesis by simp
    qed
  qed
qed

section \<open>Canonical paths\<close>

definition clean_part :: "string \<Rightarrow> bool" where
  "clean_part c \<longleftrightarrow> c \<noteq> [] \<and> c \<noteq> ''.'' \<and> c \<noteq> ''..'' \<and> list_all (\<lambda>x. x \<noteq> slash) c"

lemma norm_components_clean:
  "\<forall>c \<in> set cs. list_all (\<lambda>x. x \<noteq> slash) c \<Longrightarrow> \<forall>c \<in> set kept. clean_part c \<Longrightarrow>
   \<forall>c \<in> set (norm_components True kept cs). clean_part c"
proof (induction cs arbitrary: kept)
  case (Cons c cs)
  have cs: "\<forall>c \<in> set cs. list_all (\<lambda>x. x \<noteq> slash) c" using Cons.prems(1) by simp
  show ?case
  proof (cases "c = [] \<or> c = ''.''")
    case True
    with Cons.IH [OF cs Cons.prems(2)] show ?thesis by simp
  next
    case nonempty: False
    show ?thesis
    proof (cases "c = ''..''")
      case True
      have "\<not> (kept \<noteq> [] \<and> hd kept = ''..'')" using Cons.prems(2) by (cases kept) (auto simp: clean_part_def)
      then have "norm_components True kept (c # cs) = norm_components True (tl kept) cs" by (auto simp: True)
      moreover have "\<forall>c \<in> set (tl kept). clean_part c" using Cons.prems(2) by (cases kept) simp_all
      ultimately show ?thesis using Cons.IH [OF cs, of "tl kept"] by simp
    next
      case False
      with nonempty Cons.prems(1) have "\<forall>c \<in> set (c # kept). clean_part c"
        using Cons.prems(2) by (simp add: clean_part_def)
      with Cons.IH [OF cs this] nonempty False show ?thesis by simp
    qed
  qed
qed simp

lemma norm_components_id:
  "\<forall>c \<in> set cs. clean_part c \<Longrightarrow> norm_components a kept cs = rev kept @ cs"
proof (induction cs arbitrary: kept)
  case (Cons c cs)
  then have "c \<noteq> []" "c \<noteq> ''.''" "c \<noteq> ''..''" by (simp_all add: clean_part_def)
  with Cons show ?case by simp
qed simp

text \<open>A canonical workspace: the root, or clean components after one slash or two.\<close>

definition joined :: "string \<Rightarrow> string list \<Rightarrow> bool" where
  "joined rt cs \<longleftrightarrow> (rt = [slash] \<or> rt = [slash, slash]) \<and> cs \<noteq> [] \<and> list_all clean_part cs"

definition canonical :: "string \<Rightarrow> bool" where
  "canonical w \<longleftrightarrow> w = [slash] \<or> (\<exists>rt cs. joined rt cs \<and> w = rt @ py_join [slash] cs)"

lemma split_slash_no_slash: "\<forall>c \<in> set (split_at (\<lambda>c. c = slash) s). list_all (\<lambda>x. x \<noteq> slash) c"
  using split_at_no_sep [of "\<lambda>c. c = slash" s] by simp

lemma split_join_slash:
  "joined rt cs \<Longrightarrow> split_at (\<lambda>c. c = slash) (py_join [slash] cs) = cs"
  by (rule split_join) (auto simp: joined_def clean_part_def list_all_iff)

lemma join_hd: "joined rt cs \<Longrightarrow> \<exists>x xs. py_join [slash] cs = x # xs \<and> x \<noteq> slash"
  by (cases cs rule: remdups_adj.cases; cases "hd cs") (auto simp: joined_def clean_part_def)

lemma join_last:
  "cs \<noteq> [] \<Longrightarrow> list_all clean_part cs \<Longrightarrow> py_join [slash] cs \<noteq> [] \<and> last (py_join [slash] cs) \<noteq> slash"
proof (induction cs rule: induct_list012)
  case (2 c)
  then show ?case by (auto simp: clean_part_def list_all_iff)
next
  case (3 c d cs)
  then show ?case by simp
qed simp

lemma rstrip_slash_id: "s \<noteq> [] \<Longrightarrow> last s \<noteq> slash \<Longrightarrow> rstrip_slash s = s"
  by (cases s rule: rev_cases) (simp_all add: rstrip_slash_def)

lemma rstrip_joined: "joined rt cs \<Longrightarrow> rstrip_slash (rt @ py_join [slash] cs) = rt @ py_join [slash] cs"
  using join_last [of cs] by (intro rstrip_slash_id) (simp_all add: joined_def)

lemma splitroot_joined:
  assumes "joined rt cs"
  shows "splitroot (rt @ py_join [slash] cs) = (rt, py_join [slash] cs)"
proof -
  obtain x xs where "py_join [slash] cs = x # xs" "x \<noteq> slash" using join_hd [OF assms] by blast
  then show ?thesis using assms by (auto simp: splitroot_def joined_def)
qed

lemma splitroot_absolute:
  "take 1 p = [slash] \<Longrightarrow> fst (splitroot p) = [slash] \<or> fst (splitroot p) = [slash, slash]"
  by (simp add: splitroot_def)

lemma parse_joined:
  assumes "joined rt cs"
  shows "parse_path (rt @ py_join [slash] cs) = \<lparr>pp_root = rt, pp_parts = cs\<rparr>"
proof -
  have "filter (\<lambda>x. x \<noteq> [] \<and> x \<noteq> ''.'') cs = cs"
    using assms by (simp add: joined_def clean_part_def filter_id_conv list_all_iff)
  then show ?thesis
    by (simp add: parse_path_def splitroot_joined [OF assms] split_join_slash [OF assms])
qed

lemma normpath_joined:
  assumes j: "joined rt cs"
  shows "normpath (rt @ py_join [slash] cs) = rt @ py_join [slash] cs"
proof -
  have "norm_components a [] cs = cs" for a
    using j by (simp add: norm_components_id joined_def list_all_iff)
  moreover have "rt \<noteq> []" using j by (auto simp: joined_def)
  ultimately show ?thesis
    by (simp add: normpath_def splitroot_joined [OF j] split_join_slash [OF j])
qed

lemma normpath_absolute:
  assumes "take 1 p = [slash]"
  shows "\<exists>rt cs. normpath p = rt @ py_join [slash] cs \<and> (rt = [slash] \<or> rt = [slash, slash]) \<and>
           list_all clean_part cs"
proof -
  obtain rt rel where r: "splitroot p = (rt, rel)" by (cases "splitroot p")
  then have rt: "rt = [slash] \<or> rt = [slash, slash]" using splitroot_absolute [OF assms] by simp
  then have ne: "rt \<noteq> []" by blast
  define cs where "cs = norm_components True [] (split_at (\<lambda>c. c = slash) rel)"
  have "list_all clean_part cs"
    using norm_components_clean [OF split_slash_no_slash, of "[]" rel] by (simp add: cs_def list_all_iff)
  moreover have "normpath p = rt @ py_join [slash] cs"
    using assms ne by (auto simp: normpath_def r cs_def)
  ultimately show ?thesis using rt by blast
qed

lemma strip_absolute:
  assumes "take 1 p = [slash]"
  shows "canonical (let s = rstrip_slash (normpath p) in if s = [] then [slash] else s)"
proof -
  obtain rt cs where p: "normpath p = rt @ py_join [slash] cs"
    and rt: "rt = [slash] \<or> rt = [slash, slash]" and cs: "list_all clean_part cs"
    using normpath_absolute [OF assms] by blast
  show ?thesis
  proof (cases "cs = []")
    case True
    then have "rstrip_slash (normpath p) = []" using rt by (auto simp: p rstrip_slash_def)
    then show ?thesis by (simp add: canonical_def)
  next
    case False
    then have j: "joined rt cs" using rt cs by (simp add: joined_def)
    moreover have "rt @ py_join [slash] cs \<noteq> []" using rt by auto
    ultimately show ?thesis by (auto simp: p rstrip_joined [OF j] Let_def canonical_def)
  qed
qed

lemma path_str_absolute:
  "pp_root p = [slash] \<or> pp_root p = [slash, slash] \<Longrightarrow> take 1 (path_str p) = [slash]"
  by (auto simp: path_str_def)

lemma parse_root: "pp_root (parse_path p) \<noteq> [] \<Longrightarrow> pp_root (parse_path p) = [slash] \<or> pp_root (parse_path p) = [slash, slash]"
  by (auto simp: parse_path_def splitroot_def split: if_splits)

lemma expanduser_root:
  "expanduser env (parse_path ws) = Inr p \<Longrightarrow> pp_root p \<noteq> [] \<Longrightarrow> pp_root p = [slash] \<or> pp_root p = [slash, slash]"
  using parse_root [of ws]
  by (cases "pp_parts (parse_path ws)")
    (auto simp: expanduser_def Let_def dest: parse_root split: if_splits)

lemma normalize_joined:
  assumes j: "joined rt cs"
  shows "normalize env (rt @ py_join [slash] cs) = Inr (rt @ py_join [slash] cs)"
proof -
  have rt: "rt \<noteq> []" "cs \<noteq> []" using j by (auto simp: joined_def)
  have "expanduser env \<lparr>pp_root = rt, pp_parts = cs\<rparr> = Inr \<lparr>pp_root = rt, pp_parts = cs\<rparr>"
    using rt by (simp add: expanduser_def split: list.split)
  then show ?thesis
    using rt by (simp add: normalize_def parse_joined [OF j] path_str_def normpath_joined [OF j]
      rstrip_joined [OF j] Let_def)
qed

lemma path_parts_joined: "joined rt cs \<Longrightarrow> path_parts (rt @ py_join [slash] cs) = rt # cs"
  by (auto simp: path_parts_def parse_joined joined_def)

lemma join_absolute: "take 1 a = [slash] \<Longrightarrow> take 1 (join_path a b) = [slash]"
  by (cases a) (simp_all add: join_path_def)

text \<open>What \<open>_normalize\<close> returns is canonical when the working directory is an absolute path: the
  rt, or nonempty components without \<open>.\<close> and \<open>..\<close> separated by single slashes and without a trailing
  one. Normalising a canonical path changes nothing, so equal workspaces compare equal.\<close>

theorem normalize_canonical:
  assumes cwd: "\<forall>d. pe_cwd env = Some d \<longrightarrow> take 1 d = [slash]"
    and w: "normalize env ws = Inr w"
  shows "canonical w \<and> normalize env w = Inr w"
proof -
  have rt_fix: "normalize env [slash] = Inr [slash]"
    by (simp add: normalize_def parse_path_def splitroot_def expanduser_def path_str_def normpath_def rstrip_slash_def)
  obtain p where p: "expanduser env (parse_path ws) = Inr p"
    using w by (cases "expanduser env (parse_path ws)") (simp_all add: normalize_def)
  define q where "q = (if pp_root p \<noteq> [] then path_str p
     else join_path (case pe_cwd env of None \<Rightarrow> [slash] | Some d \<Rightarrow> d) (path_str p))"
  have "take 1 q = [slash]"
    using expanduser_root [OF p] path_str_absolute [of p] cwd by (cases "pe_cwd env") (auto simp: q_def join_absolute simp del: One_nat_def)
  moreover have "w = (let s = rstrip_slash (normpath q) in if s = [] then [slash] else s)"
    using w by (auto simp: normalize_def p q_def Let_def split: if_splits)
  ultimately have canon: "canonical w" using strip_absolute by simp
  moreover have "normalize env w = Inr w"
  proof (cases "w = [slash]")
    case False
    then obtain rt cs where j: "joined rt cs" and w: "w = rt @ py_join [slash] cs"
      using canon by (auto simp: canonical_def)
    show ?thesis unfolding w by (rule normalize_joined [OF j])
  qed (simp add: rt_fix)
  ultimately show ?thesis by simp
qed

text \<open>A concrete environment: every user's home is unknown except one.\<close>

definition sample_env :: path_env where
  "sample_env = \<lparr>pe_expanduser = (\<lambda>c. if c = ''~'' then ''/home/u'' else c), pe_cwd = Some ''/srv/jobs''\<rparr>"

theorem normalize_canonical_witness:
  "normalize sample_env ''~/a//./b/../c/'' = Inr ''/home/u/a/c'' \<and>
   canonical ''/home/u/a/c'' \<and> normalize sample_env ''/home/u/a/c'' = Inr ''/home/u/a/c''"
proof -
  have n: "normalize sample_env ''~/a//./b/../c/'' = Inr ''/home/u/a/c''" by code_simp
  have "\<forall>d. pe_cwd sample_env = Some d \<longrightarrow> take 1 d = [slash]" by (simp add: sample_env_def)
  from normalize_canonical [OF this n] n show ?thesis by simp
qed

theorem acquire_correct_witness:
  "(let r = snd (acquire sample_env ''g1'' ''sub'' (new_reservation True True))
    in fst (acquire sample_env ''g2'' ''/srv'' r) \<noteq> Inr True)"
proof -
  define r where "r = snd (acquire sample_env ''g1'' ''sub'' (new_reservation True True))"
  have ok: "reserved_ok True r"
    unfolding r_def by (rule acquire_keeps) (simp add: reserved_ok_def new_reservation_def workspaces.clash_free_empty)
  have n: "normalize sample_env ''/srv'' = Inr ''/srv''" by code_simp
  have "dict_get (rv_reservations r) ''g1'' = Some ''/srv/jobs/sub''" unfolding r_def by code_simp
  moreover have "overlaps True ''/srv'' ''/srv/jobs/sub''" by code_simp
  ultimately have "\<not> (\<forall>h v. dict_get (rv_reservations r) h = Some v \<longrightarrow> h \<noteq> ''g2'' \<longrightarrow> \<not> overlaps True ''/srv'' v)"
    by (intro notI) (drule spec [of _ "''g1''"], simp)
  with acquire_correct [OF ok n, of "''g2''"] show ?thesis by (simp add: r_def Let_def)
qed

text \<open>POSIX keeps a leading double slash apart, so that two spellings of one directory are reserved twice.\<close>

theorem double_slash_escapes_reservation:
  "normalize env ''//srv/x'' = Inr ''//srv/x'' \<and> normalize env ''/srv/x'' = Inr ''/srv/x'' \<and>
   \<not> overlaps strict ''//srv/x'' ''/srv/x''"
proof -
  have j: "joined [slash, slash] [''srv'', ''x'']" "joined [slash] [''srv'', ''x'']"
    by (simp_all add: joined_def clean_part_def)
  have s: "''//srv/x'' = [slash, slash] @ py_join [slash] [''srv'', ''x'']"
    "''/srv/x'' = [slash] @ py_join [slash] [''srv'', ''x'']" by simp_all
  have "normalize env ''//srv/x'' = Inr ''//srv/x''" "normalize env ''/srv/x'' = Inr ''/srv/x''"
    using normalize_joined [OF j(1), of env] normalize_joined [OF j(2), of env] by simp_all
  moreover have "path_parts ''//srv/x'' = [[slash, slash], ''srv'', ''x'']" "path_parts ''/srv/x'' = [[slash], ''srv'', ''x'']"
    using path_parts_joined [OF j(1)] path_parts_joined [OF j(2)] by simp_all
  then have "\<not> overlaps strict ''//srv/x'' ''/srv/x''" by (simp add: overlaps_def)
  ultimately show ?thesis by simp
qed

end
