(* ===== verification/Worker_Pool.thy ===== *)
theory Worker_Pool
  imports Reconcile_Facts "HOL-Library.Sublist"
begin

text \<open>
  \<open>WorkerPool\<close> (\<open>workers/pool.py\<close> of the autopilot): the capacity slots the goals of all jobs run on.
  The runner factory, the random part of a loop id and the clock are arguments. Every operation
  holds the assignment lock, so that whole operations interleave.
\<close>

section \<open>Assignment loop ids\<close>

definition autopilot_prefix :: string where
  "autopilot_prefix = ''autopilot__''"

definition allocate_assignment_loop_id :: "string option \<Rightarrow> string \<Rightarrow> string outcome" where
  "allocate_assignment_loop_id job_id uuid =
     (let clean = py_strip (opt_str job_id)
      in if clean = [] then Inl (ValueError ''job_id is required to allocate an autopilot loop id'')
         else Inr (autopilot_prefix @ clean @ ''__'' @ uuid))"

text \<open>\<open>s.split(sep, 1)\<close>, \<open>None\<close> when \<open>sep\<close> does not occur.\<close>

fun split_once :: "string \<Rightarrow> string \<Rightarrow> (string \<times> string) option" where
  "split_once sep [] = (if sep = [] then Some ([], []) else None)"
| "split_once sep (c # cs) =
     (if take (length sep) (c # cs) = sep then Some ([], drop (length sep) (c # cs))
      else map_option (\<lambda>(a, b). (c # a, b)) (split_once sep cs))"

definition parse_job_id_from_loop_id :: "string \<Rightarrow> string option" where
  "parse_job_id_from_loop_id loop_id =
     (if \<not> prefix autopilot_prefix loop_id then None
      else (case split_once ''__'' (drop (length autopilot_prefix) loop_id) of
              None \<Rightarrow> None
            | Some (job_id, _) \<Rightarrow> if job_id = [] then None else Some job_id))"

definition is_autopilot_worker_loop_id :: "string \<Rightarrow> bool" where
  "is_autopilot_worker_loop_id loop_id = prefix autopilot_prefix loop_id"

section \<open>Slots\<close>

datatype slot_status = SlotIdle | SlotActive

record 'r worker_slot =
  ws_slot_id :: ident
  ws_runner :: 'r
  ws_loop_id :: ident
  ws_status :: slot_status
  ws_current_goal_id :: "ident option"
  ws_last_goal_ids :: "ident list"
  ws_active_task :: "ident option"
  ws_idle_since :: "time option"
  ws_created_at :: time
  ws_dispatch_started_at :: "time option"
  ws_last_dispatch_ok :: bool

definition LAST_GOALS_MAX :: nat where
  "LAST_GOALS_MAX = 16"

definition new_worker_slot :: "time \<Rightarrow> ident \<Rightarrow> 'r \<Rightarrow> ident \<Rightarrow> 'r worker_slot" where
  "new_worker_slot now slot_id runner loop_id =
     \<lparr>ws_slot_id = slot_id, ws_runner = runner, ws_loop_id = loop_id, ws_status = SlotIdle,
      ws_current_goal_id = None, ws_last_goal_ids = [], ws_active_task = None, ws_idle_since = Some now,
      ws_created_at = now, ws_dispatch_started_at = None, ws_last_dispatch_ok = True\<rparr>"

definition assign_slot :: "time \<Rightarrow> ident \<Rightarrow> ident \<Rightarrow> 'r \<Rightarrow> 'r worker_slot \<Rightarrow> 'r worker_slot" where
  "assign_slot now goal_id loop_id runner w =
     w\<lparr>ws_status := SlotActive, ws_current_goal_id := Some goal_id, ws_loop_id := loop_id, ws_runner := runner,
       ws_idle_since := None, ws_dispatch_started_at := Some now\<rparr>"

definition remember_goal :: "ident option \<Rightarrow> ident list \<Rightarrow> ident list" where
  "remember_goal current recent =
     (if truthy current
      then (let xs = recent @ [opt_str current] in if length xs > LAST_GOALS_MAX then tl xs else xs)
      else recent)"

definition release_to_idle :: "time \<Rightarrow> bool \<Rightarrow> 'r worker_slot \<Rightarrow> 'r worker_slot" where
  "release_to_idle now success w =
     w\<lparr>ws_last_goal_ids := remember_goal (ws_current_goal_id w) (ws_last_goal_ids w),
       ws_current_goal_id := None, ws_active_task := None, ws_dispatch_started_at := None,
       ws_last_dispatch_ok := success, ws_status := SlotIdle, ws_idle_since := Some now\<rparr>"

definition has_recently_run :: "ident \<Rightarrow> 'r worker_slot \<Rightarrow> bool" where
  "has_recently_run goal_id w \<longleftrightarrow> goal_id \<in> set (ws_last_goal_ids w) \<or> Some goal_id = ws_current_goal_id w"

section \<open>The pool\<close>

record 'r worker_pool =
  wp_max_loops :: int
  wp_workers :: "(ident, 'r worker_slot) dict"
  wp_by_loop_id :: "(ident, ident) dict"
  wp_idle :: "ident list"
  wp_next_seq :: nat

definition new_worker_pool :: "int \<Rightarrow> 'r worker_pool outcome" where
  "new_worker_pool max_loops =
     (if max_loops < 1 then Inl (ValueError (''max_loops must be >= 1; got '' @ show_int max_loops))
      else Inr \<lparr>wp_max_loops = max_loops, wp_workers = [], wp_by_loop_id = [], wp_idle = [], wp_next_seq = 0\<rparr>)"

definition total_count :: "'r worker_pool \<Rightarrow> nat" where
  "total_count p = length (wp_workers p)"

definition active_workers :: "'r worker_pool \<Rightarrow> 'r worker_slot list" where
  "active_workers p = filter (\<lambda>w. ws_status w = SlotActive) (dict_values (wp_workers p))"

definition idle_workers :: "'r worker_pool \<Rightarrow> 'r worker_slot list" where
  "idle_workers p = filter (\<lambda>w. ws_status w = SlotIdle) (dict_values (wp_workers p))"

definition slot_idle :: "'r worker_pool \<Rightarrow> ident \<Rightarrow> bool" where
  "slot_idle p sid = (case dict_get (wp_workers p) sid of None \<Rightarrow> False | Some w \<Rightarrow> ws_status w = SlotIdle)"

definition resolve_slot_id :: "'r worker_pool \<Rightarrow> ident \<Rightarrow> ident option" where
  "resolve_slot_id p pref =
     (if dict_get (wp_workers p) pref \<noteq> None then Some pref else dict_get (wp_by_loop_id p) pref)"

definition get_by_loop_id :: "'r worker_pool \<Rightarrow> ident \<Rightarrow> 'r worker_slot option" where
  "get_by_loop_id p loop_id =
     (case dict_get (wp_by_loop_id p) loop_id of
        Some slot_id \<Rightarrow> dict_get (wp_workers p) slot_id
      | None \<Rightarrow> find (\<lambda>w. ws_loop_id w = loop_id) (dict_values (wp_workers p)))"

text \<open>What one call draws from its surroundings: the clock, a random hexadecimal string, and the factory.\<close>

record 'r pool_env =
  en_now :: time
  en_uuid :: string
  en_create_runner :: "ident \<Rightarrow> 'r outcome"

definition claim_slot ::
  "'r pool_env \<Rightarrow> 'r worker_slot \<Rightarrow> ident \<Rightarrow> string option \<Rightarrow> 'r worker_pool \<Rightarrow> ident outcome \<times> 'r worker_pool" where
  "claim_slot env w goal_id job_id p =
     (case allocate_assignment_loop_id job_id (en_uuid env) of
        Inl e \<Rightarrow> (Inl e, p)
      | Inr loop_id \<Rightarrow>
          (let sid = ws_slot_id w;
               p1 = (if ws_loop_id w \<noteq> [] \<and> dict_get (wp_by_loop_id p) (ws_loop_id w) = Some sid
                     then p\<lparr>wp_by_loop_id := dict_pop (ws_loop_id w) (wp_by_loop_id p)\<rparr> else p)
           in case en_create_runner env loop_id of
                Inl e \<Rightarrow> (Inl e, p1)
              | Inr runner \<Rightarrow>
                  (Inr sid,
                   p1\<lparr>wp_workers := dict_modify sid (assign_slot (en_now env) goal_id loop_id runner) (wp_workers p1),
                      wp_by_loop_id := dict_set loop_id sid (wp_by_loop_id p1),
                      wp_idle := remove1 sid (wp_idle p1)\<rparr>)))"

definition slot_name :: "nat \<Rightarrow> ident" where
  "slot_name n = ''autopilot__slot_'' @ zero_pad 3 (show_nat n)"

definition spawn_and_claim ::
  "'r pool_env \<Rightarrow> ident \<Rightarrow> string option \<Rightarrow> 'r worker_pool \<Rightarrow> ident outcome \<times> 'r worker_pool" where
  "spawn_and_claim env goal_id job_id p =
     (let p1 = p\<lparr>wp_next_seq := wp_next_seq p + 1\<rparr>;
          sid = slot_name (wp_next_seq p1)
      in case allocate_assignment_loop_id job_id (en_uuid env) of
           Inl e \<Rightarrow> (Inl e, p1)
         | Inr loop_id \<Rightarrow>
             (case en_create_runner env loop_id of
                Inl e \<Rightarrow> (Inl e, p1)
              | Inr runner \<Rightarrow>
                  (let w = assign_slot (en_now env) goal_id loop_id runner (new_worker_slot (en_now env) sid runner loop_id)
                   in (Inr sid, p1\<lparr>wp_workers := dict_set sid w (wp_workers p1),
                                   wp_by_loop_id := dict_set loop_id sid (wp_by_loop_id p1)\<rparr>))))"

definition sticky_slot :: "'r worker_pool \<Rightarrow> ident list \<Rightarrow> 'r worker_slot option" where
  "sticky_slot p depends_on =
     (case concat (map (\<lambda>parent. filter (\<lambda>w. ws_status w = SlotIdle \<and> has_recently_run parent w)
                                   (dict_values (wp_workers p))) depends_on) of
        [] \<Rightarrow> None
      | w # _ \<Rightarrow> Some w)"

definition prefer_slot :: "'r worker_pool \<Rightarrow> ident option \<Rightarrow> 'r worker_slot option" where
  "prefer_slot p pref =
     (let slot = (if truthy pref then resolve_slot_id p (opt_str pref) else None)
      in if truthy slot
         then (case dict_get (wp_workers p) (opt_str slot) of
                 None \<Rightarrow> None
               | Some w \<Rightarrow> if ws_status w = SlotIdle then Some w else None)
         else None)"

definition pick_worker ::
  "'r pool_env \<Rightarrow> ident \<Rightarrow> ident list \<Rightarrow> string option \<Rightarrow> ident option \<Rightarrow> 'r worker_pool \<Rightarrow>
   ident option outcome \<times> 'r worker_pool" where
  "pick_worker env goal_id depends_on job_id pref p =
     (case prefer_slot p pref of
        Some w \<Rightarrow> map_prod (map_sum id Some) id (claim_slot env w goal_id job_id p)
      | None \<Rightarrow>
          (case sticky_slot p depends_on of
             Some w \<Rightarrow> map_prod (map_sum id Some) id (claim_slot env w goal_id job_id p)
           | None \<Rightarrow>
               (case dropWhile (\<lambda>sid. \<not> slot_idle p sid) (wp_idle p) of
                  sid # rest \<Rightarrow>
                    map_prod (map_sum id Some) id
                      (claim_slot env (the (dict_get (wp_workers p) sid)) goal_id job_id (p\<lparr>wp_idle := rest\<rparr>))
                | [] \<Rightarrow>
                    if int (length (wp_workers p)) < wp_max_loops p
                    then map_prod (map_sum id Some) id (spawn_and_claim env goal_id job_id (p\<lparr>wp_idle := []\<rparr>))
                    else (Inr None, p\<lparr>wp_idle := []\<rparr>))))"

definition mark_idle :: "time \<Rightarrow> ident \<Rightarrow> bool \<Rightarrow> 'r worker_pool \<Rightarrow> 'r worker_pool" where
  "mark_idle now loop_id success p =
     (case get_by_loop_id p loop_id of
        None \<Rightarrow> p
      | Some w \<Rightarrow>
          (let sid = ws_slot_id w
           in p\<lparr>wp_workers := dict_modify sid (release_to_idle now success) (wp_workers p),
                wp_idle := (if sid \<in> set (wp_idle p) then wp_idle p else wp_idle p @ [sid])\<rparr>))"

definition release_worker :: "ident \<Rightarrow> 'r worker_pool \<Rightarrow> 'r worker_slot option \<times> 'r worker_pool" where
  "release_worker loop_id p =
     (case get_by_loop_id p loop_id of
        None \<Rightarrow> (None, p)
      | Some w \<Rightarrow>
          (Some w, p\<lparr>wp_workers := dict_pop (ws_slot_id w) (wp_workers p),
                     wp_by_loop_id := filter (\<lambda>(l, sid). sid \<noteq> ws_slot_id w) (wp_by_loop_id p),
                     wp_idle := remove1 (ws_slot_id w) (wp_idle p)\<rparr>))"

section \<open>The names of slots\<close>

lemma slot_name_inject [simp]: "slot_name n = slot_name m \<longleftrightarrow> n = m"
proof
  assume "slot_name n = slot_name m"
  then have "zero_pad 3 (show_nat n) = zero_pad 3 (show_nat m)" by (simp add: slot_name_def)
  then have "parse_digits (zero_pad 3 (show_nat n)) = parse_digits (zero_pad 3 (show_nat m))" by simp
  then show "n = m" by (simp only: parse_zero_pad parse_show_nat)
qed simp

section \<open>What a well-formed pool is\<close>

text \<open>The part no failing factory can break.\<close>

definition pool_bounded :: "'r worker_pool \<Rightarrow> bool" where
  "pool_bounded p \<longleftrightarrow>
     keyed_by ws_slot_id (wp_workers p) \<and> int (length (wp_workers p)) \<le> wp_max_loops p \<and>
     (\<forall>sid w. dict_get (wp_workers p) sid = Some w \<longrightarrow>
        (ws_status w = SlotActive \<longleftrightarrow> ws_current_goal_id w \<noteq> None) \<and> (\<exists>n \<le> wp_next_seq p. sid = slot_name n))"

text \<open>The two directions of the loop index agree.\<close>

definition pool_indexed :: "'r worker_pool \<Rightarrow> bool" where
  "pool_indexed p \<longleftrightarrow>
     wf_dict (wp_by_loop_id p) \<and>
     (\<forall>l sid. dict_get (wp_by_loop_id p) l = Some sid \<longleftrightarrow>
        (\<exists>w. dict_get (wp_workers p) sid = Some w \<and> ws_loop_id w = l \<and> l \<noteq> [])) \<and>
     (\<forall>sid w. dict_get (wp_workers p) sid = Some w \<longrightarrow> ws_loop_id w \<noteq> [])"

definition pool_queued :: "'r worker_pool \<Rightarrow> bool" where
  "pool_queued p \<longleftrightarrow> distinct (wp_idle p) \<and> (\<forall>sid. sid \<in> set (wp_idle p) \<longleftrightarrow> slot_idle p sid)"

definition pool_ok :: "'r worker_pool \<Rightarrow> bool" where
  "pool_ok p \<longleftrightarrow> pool_bounded p \<and> pool_indexed p \<and> pool_queued p"

lemma slot_idle_iff: "slot_idle p sid \<longleftrightarrow> (\<exists>w. dict_get (wp_workers p) sid = Some w \<and> ws_status w = SlotIdle)"
  by (simp add: slot_idle_def split: option.split)

lemma pool_slot_id: "pool_bounded p \<Longrightarrow> dict_get (wp_workers p) sid = Some w \<Longrightarrow> ws_slot_id w = sid"
  unfolding pool_bounded_def by (elim conjE) (rule keyed_by_get)

lemma prefer_slot_idle:
  assumes "prefer_slot p pref = Some w"
  shows "\<exists>sid. dict_get (wp_workers p) sid = Some w \<and> ws_status w = SlotIdle"
proof -
  define slot where "slot = (if truthy pref then resolve_slot_id p (opt_str pref) else None)"
  have "(if truthy slot
         then (case dict_get (wp_workers p) (opt_str slot) of
                 None \<Rightarrow> None
               | Some w \<Rightarrow> if ws_status w = SlotIdle then Some w else None)
         else None) = Some w"
    using assms unfolding prefer_slot_def Let_def slot_def .
  then show ?thesis by (auto split: if_splits option.splits)
qed

lemma sticky_slot_idle:
  assumes "pool_bounded p" and "sticky_slot p deps = Some w"
  shows "dict_get (wp_workers p) (ws_slot_id w) = Some w \<and> ws_status w = SlotIdle"
proof -
  define ws where "ws = concat (map (\<lambda>parent. filter (\<lambda>w. ws_status w = SlotIdle \<and> has_recently_run parent w)
          (dict_values (wp_workers p))) deps)"
  have "(case ws of [] \<Rightarrow> None | w # _ \<Rightarrow> Some w) = Some w" using assms(2) unfolding sticky_slot_def ws_def .
  then have "w \<in> set ws" by (cases ws) simp_all
  then have w: "w \<in> set (dict_values (wp_workers p))" and idle: "ws_status w = SlotIdle"
    unfolding ws_def by auto
  have "keyed_by ws_slot_id (wp_workers p)" using assms(1) by (simp add: pool_bounded_def)
  from keyed_by_values [OF this] w idle show ?thesis by blast
qed

section \<open>One claim\<close>

text \<open>The pool after slot \<open>sid\<close> took a goal under the loop id \<open>lid\<close>, its old loop id being \<open>old\<close>.\<close>

definition taken :: "time \<Rightarrow> ident \<Rightarrow> ident \<Rightarrow> ident \<Rightarrow> 'r \<Rightarrow> ident \<Rightarrow> 'r worker_pool \<Rightarrow> 'r worker_pool" where
  "taken now sid old lid runner goal_id p =
     p\<lparr>wp_workers := dict_modify sid (assign_slot now goal_id lid runner) (wp_workers p),
       wp_by_loop_id := dict_set lid sid (dict_pop old (wp_by_loop_id p)),
       wp_idle := remove1 sid (wp_idle p)\<rparr>"

lemma claim_slot_taken:
  assumes idx: "pool_indexed p" and w: "dict_get (wp_workers p) sid = Some w" and sid: "ws_slot_id w = sid"
    and alloc: "allocate_assignment_loop_id job (en_uuid env) = Inr lid" and runner: "en_create_runner env lid = Inr r"
  shows "claim_slot env w g job p = (Inr sid, taken (en_now env) sid (ws_loop_id w) lid r g p)"
proof -
  have "ws_loop_id w \<noteq> []" "dict_get (wp_by_loop_id p) (ws_loop_id w) = Some sid"
    using idx w unfolding pool_indexed_def by blast+
  then show ?thesis by (simp add: claim_slot_def alloc runner sid taken_def Let_def)
qed

lemma assign_slot_simps [simp]:
  "ws_slot_id (assign_slot now g lid r w) = ws_slot_id w" "ws_loop_id (assign_slot now g lid r w) = lid"
  "ws_status (assign_slot now g lid r w) = SlotActive" "ws_current_goal_id (assign_slot now g lid r w) = Some g"
  by (simp_all add: assign_slot_def)

lemma release_slot_simps [simp]:
  "ws_slot_id (release_to_idle now ok w) = ws_slot_id w" "ws_loop_id (release_to_idle now ok w) = ws_loop_id w"
  "ws_status (release_to_idle now ok w) = SlotIdle" "ws_current_goal_id (release_to_idle now ok w) = None"
  by (simp_all add: release_to_idle_def)

lemma modify_bounded:
  assumes "pool_bounded p" and "\<And>w. ws_slot_id (f w) = ws_slot_id w"
    and "\<And>w. ws_status (f w) = SlotActive \<longleftrightarrow> ws_current_goal_id (f w) \<noteq> None"
  shows "pool_bounded (p\<lparr>wp_workers := dict_modify sid f (wp_workers p), wp_by_loop_id := b, wp_idle := q\<rparr>)"
  using assms unfolding pool_bounded_def by (auto simp: keyed_by_modify split: if_splits)

lemma taken_bounded: "pool_bounded p \<Longrightarrow> pool_bounded (taken now sid old lid r g p)"
  unfolding taken_def by (rule modify_bounded) simp_all

lemma taken_indexed:
  assumes idx: "pool_indexed p" and w: "dict_get (wp_workers p) sid = Some w"
    and fresh: "dict_get (wp_by_loop_id p) lid = None" and lid: "lid \<noteq> []"
  shows "pool_indexed (taken now sid (ws_loop_id w) lid r g p)"
proof -
  let ?f = "assign_slot now g lid r"
  have by_iff: "\<And>l s. dict_get (wp_by_loop_id p) l = Some s \<longleftrightarrow>
        (\<exists>w. dict_get (wp_workers p) s = Some w \<and> ws_loop_id w = l \<and> l \<noteq> [])"
    and ne: "\<And>s w. dict_get (wp_workers p) s = Some w \<Longrightarrow> ws_loop_id w \<noteq> []" and wf: "wf_dict (wp_by_loop_id p)"
    using idx unfolding pool_indexed_def by blast+
  have inj: "s = sid" if "dict_get (wp_workers p) s = Some v" "ws_loop_id v = ws_loop_id w" for s v
    using by_iff [of "ws_loop_id w" s] by_iff [of "ws_loop_id w" sid] ne [OF w] that w by auto
  have other: "ws_loop_id v \<noteq> lid" if "dict_get (wp_workers p) s = Some v" for s v
    using by_iff [of lid s] fresh lid that by auto
  have "dict_get (dict_set lid sid (dict_pop (ws_loop_id w) (wp_by_loop_id p))) l = Some s \<longleftrightarrow>
        (\<exists>v. dict_get (dict_modify sid ?f (wp_workers p)) s = Some v \<and> ws_loop_id v = l \<and> l \<noteq> [])" for l s
  proof (cases "s = sid")
    case True
    have "dict_get (wp_by_loop_id p) l \<noteq> Some sid" if "l \<noteq> ws_loop_id w"
      using by_iff [of l sid] w that by auto
    then show ?thesis using True lid by (auto simp: w)
  next
    case False
    then show ?thesis using by_iff [of l s] inj [of s] other [of s] lid by auto
  qed
  moreover have "ws_loop_id v \<noteq> []" if "dict_get (dict_modify sid ?f (wp_workers p)) s = Some v" for s v
    using that ne lid by (auto split: if_splits)
  ultimately show ?thesis using wf unfolding pool_indexed_def taken_def by simp
qed

lemma taken_queued:
  assumes "distinct (wp_idle p)" and "\<And>s. s \<in> set (wp_idle p) \<or> s = sid \<longleftrightarrow> slot_idle p s"
  shows "pool_queued (taken now sid old lid r g p)"
proof -
  have "s \<in> set (remove1 sid (wp_idle p)) \<longleftrightarrow> slot_idle (taken now sid old lid r g p) s" for s
    using assms(2) [of s] assms(1) by (cases "s = sid") (auto simp: slot_idle_iff taken_def)
  then show ?thesis using assms(1) by (simp add: pool_queued_def taken_def)
qed

section \<open>The abstract pool\<close>

text \<open>What the pool promises: a table of slots, each free or holding one goal. A free slot is handed to
  one goal, a new one is opened only when no slot is free and the capacity allows it, and a goal is
  refused only when every slot is taken and the capacity is used up.\<close>

type_synonym slot_table = "ident \<Rightarrow> ident option option"

datatype pool_event = Took ident ident | Refused ident | Freed ident | Dropped ident | Ignored

inductive pool_step :: "nat \<Rightarrow> slot_table \<Rightarrow> pool_event \<Rightarrow> slot_table \<Rightarrow> bool" for cap :: nat where
  reuse: "t s = Some None \<Longrightarrow> pool_step cap t (Took g s) (t(s \<mapsto> Some g))"
| open_slot: "t s = None \<Longrightarrow> \<forall>x. t x \<noteq> Some None \<Longrightarrow> card (dom t) < cap \<Longrightarrow>
    pool_step cap t (Took g s) (t(s \<mapsto> Some g))"
| refuse: "\<forall>x. t x \<noteq> Some None \<Longrightarrow> card (dom t) = cap \<Longrightarrow> pool_step cap t (Refused g) t"
| free: "t s \<noteq> None \<Longrightarrow> pool_step cap t (Freed s) (t(s \<mapsto> None))"
| drop: "t s \<noteq> None \<Longrightarrow> pool_step cap t (Dropped s) (t(s := None))"
| ignore: "pool_step cap t Ignored t"

definition slot_table :: "'r worker_pool \<Rightarrow> slot_table" where
  "slot_table p sid = map_option ws_current_goal_id (dict_get (wp_workers p) sid)"

lemma slot_table_idle: "pool_bounded p \<Longrightarrow> slot_table p sid = Some None \<longleftrightarrow> slot_idle p sid"
proof -
  assume p: "pool_bounded p"
  have "ws_current_goal_id w = None \<longleftrightarrow> ws_status w = SlotIdle" if "dict_get (wp_workers p) sid = Some w" for w
  proof -
    have "ws_status w = SlotActive \<longleftrightarrow> ws_current_goal_id w \<noteq> None"
      using p that unfolding pool_bounded_def by blast
    then show ?thesis by (cases "ws_status w") simp_all
  qed
  then show ?thesis by (auto simp: slot_table_def slot_idle_iff)
qed

lemma card_slot_table: "pool_bounded p \<Longrightarrow> card (dom (slot_table p)) = length (wp_workers p)"
proof -
  assume p: "pool_bounded p"
  then have "wf_dict (wp_workers p)" by (auto simp: pool_bounded_def dest: keyed_by_wf)
  moreover have "dom (slot_table p) = dom (dict_get (wp_workers p))"
    by (simp add: slot_table_def dom_def)
  then have "dom (slot_table p) = set (dict_keys (wp_workers p))"
    by (simp add: dom_map_of_conv_image_fst)
  ultimately show ?thesis by (metis distinct_card length_map wf_dict_def)
qed

lemma slot_table_modify:
  "dict_get (wp_workers p) sid = Some w \<Longrightarrow>
   slot_table (p\<lparr>wp_workers := dict_modify sid f (wp_workers p), wp_by_loop_id := b, wp_idle := q\<rparr>) =
     (slot_table p)(sid \<mapsto> ws_current_goal_id (f w))"
  by (auto simp: slot_table_def fun_eq_iff)

lemma slot_table_taken:
  "dict_get (wp_workers p) sid = Some w \<Longrightarrow>
   slot_table (taken now sid old lid r g p) = (slot_table p)(sid \<mapsto> Some g)"
  unfolding taken_def by (simp add: slot_table_modify)

lemma taken_idle_queue: "slot_table (taken now sid old lid r g (p\<lparr>wp_idle := q\<rparr>)) = slot_table (taken now sid old lid r g p)"
  by (auto simp: slot_table_def taken_def fun_eq_iff)

text \<open>What a call draws is sound when its loop id is new and the factory delivers.\<close>

definition fair_draw :: "'r pool_env \<Rightarrow> string option \<Rightarrow> 'r worker_pool \<Rightarrow> bool" where
  "fair_draw env job p =
     (case allocate_assignment_loop_id job (en_uuid env) of
        Inl _ \<Rightarrow> False
      | Inr lid \<Rightarrow> dict_get (wp_by_loop_id p) lid = None \<and> (case en_create_runner env lid of Inl _ \<Rightarrow> False | Inr _ \<Rightarrow> True))"

lemma fair_drawE:
  assumes "fair_draw env job p"
  obtains lid r where "allocate_assignment_loop_id job (en_uuid env) = Inr lid" and "lid \<noteq> []"
    and "dict_get (wp_by_loop_id p) lid = None" and "en_create_runner env lid = Inr r"
  using assms unfolding fair_draw_def
  by (auto simp: allocate_assignment_loop_id_def autopilot_prefix_def Let_def split: sum.splits if_splits)

definition pick_event :: "ident \<Rightarrow> ident option outcome \<Rightarrow> pool_event" where
  "pick_event g res = (case res of Inl _ \<Rightarrow> Ignored | Inr None \<Rightarrow> Refused g | Inr (Some sid) \<Rightarrow> Took g sid)"

lemma claim_refines:
  assumes ok: "pool_bounded p" "pool_indexed p" and q: "distinct q" "\<And>s. s \<in> set q \<or> s = sid \<longleftrightarrow> slot_idle p s"
    and w: "dict_get (wp_workers p) sid = Some w" and fair: "fair_draw env job p"
    and res: "res = claim_slot env w g job (p\<lparr>wp_idle := q\<rparr>)"
  shows "fst res = Inr sid \<and> pool_ok (snd res) \<and> slot_table (snd res) = (slot_table p)(sid \<mapsto> Some g)"
proof -
  let ?p = "p\<lparr>wp_idle := q\<rparr>"
  have b: "pool_bounded ?p" and x: "pool_indexed ?p" and idle: "\<And>s. slot_idle ?p s = slot_idle p s"
    using ok by (simp_all add: pool_bounded_def pool_indexed_def slot_idle_def)
  from fair obtain lid r where d: "allocate_assignment_loop_id job (en_uuid env) = Inr lid" "lid \<noteq> []"
      "dict_get (wp_by_loop_id p) lid = None" "en_create_runner env lid = Inr r"
    by (rule fair_drawE)
  have res: "res = (Inr sid, taken (en_now env) sid (ws_loop_id w) lid r g ?p)"
    unfolding res by (rule claim_slot_taken [OF x]) (simp_all add: w d pool_slot_id [OF ok(1) w])
  have "pool_ok (snd res)"
    using taken_bounded [OF b] taken_indexed [OF x, of sid w lid] taken_queued [of ?p sid] q w d
    by (simp add: res pool_ok_def idle)
  moreover have "slot_table (snd res) = (slot_table p)(sid \<mapsto> Some g)"
    unfolding res by (simp add: taken_idle_queue slot_table_taken [OF w])
  ultimately show ?thesis by (simp add: res)
qed

section \<open>Whole operations\<close>

lemma spawn_new_name: "pool_bounded p \<Longrightarrow> dict_get (wp_workers p) (slot_name (Suc (wp_next_seq p))) = None"
proof (rule ccontr)
  assume p: "pool_bounded p" and "dict_get (wp_workers p) (slot_name (Suc (wp_next_seq p))) \<noteq> None"
  then obtain w where "dict_get (wp_workers p) (slot_name (Suc (wp_next_seq p))) = Some w" by blast
  then obtain n where "n \<le> wp_next_seq p" "slot_name (Suc (wp_next_seq p)) = slot_name n"
    using p unfolding pool_bounded_def by blast
  then show False by simp
qed

definition spawned :: "time \<Rightarrow> ident \<Rightarrow> ident \<Rightarrow> 'r \<Rightarrow> ident \<Rightarrow> 'r worker_slot" where
  "spawned now sid lid r g = assign_slot now g lid r (new_worker_slot now sid r lid)"

lemma spawned_simps [simp]:
  "ws_slot_id (spawned now sid lid r g) = sid" "ws_loop_id (spawned now sid lid r g) = lid"
  "ws_status (spawned now sid lid r g) = SlotActive" "ws_current_goal_id (spawned now sid lid r g) = Some g"
  by (simp_all add: spawned_def new_worker_slot_def)

lemma spawn_bounded:
  assumes p: "pool_bounded p" and cap: "int (length (wp_workers p)) < wp_max_loops p"
  shows "pool_bounded (p\<lparr>wp_next_seq := Suc (wp_next_seq p),
     wp_workers := dict_set (slot_name (Suc (wp_next_seq p))) (spawned now (slot_name (Suc (wp_next_seq p))) lid r g) (wp_workers p),
     wp_by_loop_id := b, wp_idle := q\<rparr>)"
proof -
  have "slot_name (Suc (wp_next_seq p)) \<notin> set (dict_keys (wp_workers p))"
    using spawn_new_name [OF p] by (simp add: dict_get_None)
  then have len: "length (dict_set (slot_name (Suc (wp_next_seq p))) w (wp_workers p)) = Suc (length (wp_workers p))" for w
    by (simp add: dict_set_new)
  show ?thesis
    using p cap unfolding pool_bounded_def by (auto simp: len keyed_by_set) (metis le_SucI)
qed

lemma spawn_indexed:
  assumes idx: "pool_indexed p" and fresh: "dict_get (wp_by_loop_id p) lid = None" "lid \<noteq> []"
    and sid: "dict_get (wp_workers p) sid = None" and w: "ws_loop_id w = lid"
  shows "pool_indexed (p\<lparr>wp_next_seq := m, wp_workers := dict_set sid w (wp_workers p),
     wp_by_loop_id := dict_set lid sid (wp_by_loop_id p), wp_idle := q\<rparr>)"
proof -
  have by_iff: "\<And>l s. dict_get (wp_by_loop_id p) l = Some s \<longleftrightarrow>
        (\<exists>w. dict_get (wp_workers p) s = Some w \<and> ws_loop_id w = l \<and> l \<noteq> [])"
    using idx unfolding pool_indexed_def by blast
  have other: "ws_loop_id v \<noteq> lid" if "dict_get (wp_workers p) s = Some v" for s v
    using by_iff [of lid s] fresh that by auto
  have "dict_get (dict_set lid sid (wp_by_loop_id p)) l = Some s \<longleftrightarrow>
        (\<exists>v. dict_get (dict_set sid w (wp_workers p)) s = Some v \<and> ws_loop_id v = l \<and> l \<noteq> [])" for l s
    using by_iff [of l s] other [of s] sid fresh by (cases "s = sid") (auto simp: w)
  then show ?thesis using idx fresh unfolding pool_indexed_def by (simp add: w)
qed

lemma pick_queue:
  assumes "pool_queued p"
  shows "dropWhile (\<lambda>sid. \<not> slot_idle p sid) (wp_idle p) = wp_idle p"
proof (cases "wp_idle p")
  case (Cons sid rest)
  then have "slot_idle p sid" using assms unfolding pool_queued_def by (metis list.set_intros(1))
  then show ?thesis by (simp add: Cons)
qed simp

lemma idle_queue_self: "p\<lparr>wp_idle := wp_idle p\<rparr> = p"
  by simp

lemma claim_idle:
  assumes ok: "pool_ok p" and w: "dict_get (wp_workers p) sid = Some w" "ws_status w = SlotIdle"
    and fair: "fair_draw env job p"
  shows "fst (claim_slot env w g job p) = Inr sid \<and> pool_ok (snd (claim_slot env w g job p)) \<and>
     slot_table (snd (claim_slot env w g job p)) = (slot_table p)(sid \<mapsto> Some g)"
proof -
  have q: "distinct (wp_idle p)" "\<And>s. s \<in> set (wp_idle p) \<longleftrightarrow> slot_idle p s" and b: "pool_bounded p" "pool_indexed p"
    using ok by (simp_all add: pool_ok_def pool_queued_def)
  have "slot_idle p sid" using w by (simp add: slot_idle_def)
  then have "s \<in> set (wp_idle p) \<or> s = sid \<longleftrightarrow> slot_idle p s" for s using q(2) by blast
  from claim_refines [OF b q(1) this w(1) fair refl] show ?thesis by simp
qed

lemma pick_claims:
  assumes "fst res = Inr sid \<and> pool_ok (snd res) \<and> slot_table (snd res) = (slot_table p)(sid \<mapsto> Some g)"
    and "slot_table p sid = Some None"
  shows "pool_ok (snd (map_prod (map_sum id Some) id res)) \<and>
     pool_step cap (slot_table p) (pick_event g (fst (map_prod (map_sum id Some) id res)))
       (slot_table (snd (map_prod (map_sum id Some) id res)))"
  using assms by (cases res) (simp add: pick_event_def pool_step.reuse)

lemma pick_refines:
  assumes ok: "pool_ok p" and cap: "wp_max_loops p = int cap" and fair: "fair_draw env job p"
  shows "pool_ok (snd (pick_worker env g deps job pref p)) \<and>
     pool_step cap (slot_table p) (pick_event g (fst (pick_worker env g deps job pref p)))
       (slot_table (snd (pick_worker env g deps job pref p)))"
proof -
  have b: "pool_bounded p" and x: "pool_indexed p" and q: "pool_queued p" using ok by (simp_all add: pool_ok_def)
  have free: "slot_table p sid = Some None" if "dict_get (wp_workers p) sid = Some w" "ws_status w = SlotIdle" for sid w
    unfolding slot_table_idle [OF b] using that by (simp add: slot_idle_def)
  note claimed = pick_claims [OF claim_idle [OF ok _ _ fair] free]
  show ?thesis
  proof (cases "prefer_slot p pref")
    case (Some w)
    then obtain sid where "dict_get (wp_workers p) sid = Some w" "ws_status w = SlotIdle"
      using prefer_slot_idle by blast
    from claimed [OF this this] show ?thesis by (simp add: pick_worker_def Some)
  next
    case no_pref: None
    show ?thesis
    proof (cases "sticky_slot p deps")
      case (Some w)
      then have "dict_get (wp_workers p) (ws_slot_id w) = Some w" "ws_status w = SlotIdle"
        using sticky_slot_idle [OF b] by blast+
      from claimed [OF this this] show ?thesis by (simp add: pick_worker_def no_pref Some)
    next
      case no_sticky: None
      show ?thesis
      proof (cases "wp_idle p")
        case (Cons sid rest)
        have dist: "sid \<notin> set rest" "distinct rest" using q by (simp_all add: pool_queued_def Cons)
        have set: "s \<in> set rest \<or> s = sid \<longleftrightarrow> slot_idle p s" for s
          using q unfolding pool_queued_def Cons by auto
        then have idle: "slot_idle p sid" by blast
        then obtain w where w: "dict_get (wp_workers p) sid = Some w" "ws_status w = SlotIdle"
          by (auto simp: slot_idle_iff)
        from pick_claims [OF claim_refines [OF b x dist(2) set w(1) fair refl] free [OF w]] show ?thesis
          by (simp add: pick_worker_def no_pref no_sticky pick_queue [OF q] Cons w idle)
      next
        case Nil
        have full: "\<forall>s. slot_table p s \<noteq> Some None"
          using q by (simp add: slot_table_idle [OF b] pool_queued_def Nil)
        have bound: "int (length (wp_workers p)) \<le> wp_max_loops p" using b by (simp add: pool_bounded_def)
        have same: "p\<lparr>wp_idle := []\<rparr> = p" using Nil by simp
        show ?thesis
        proof (cases "int (length (wp_workers p)) < wp_max_loops p")
          case True
          from fair obtain lid r where d: "allocate_assignment_loop_id job (en_uuid env) = Inr lid" "lid \<noteq> []"
              "dict_get (wp_by_loop_id p) lid = None" "en_create_runner env lid = Inr r"
            by (rule fair_drawE)
          define sid where "sid = slot_name (Suc (wp_next_seq p))"
          define p' where "p' = p\<lparr>wp_next_seq := Suc (wp_next_seq p),
             wp_workers := dict_set sid (spawned (en_now env) sid lid r g) (wp_workers p),
             wp_by_loop_id := dict_set lid sid (wp_by_loop_id p), wp_idle := []\<rparr>"
          have "spawn_and_claim env g job p = (Inr sid, p')"
            using Nil by (simp add: spawn_and_claim_def d Let_def sid_def p'_def spawned_def)
          then have pick: "pick_worker env g deps job pref p = (Inr (Some sid), p')"
            using True by (simp add: pick_worker_def no_pref no_sticky Nil same)
          have none: "dict_get (wp_workers p) sid = None" unfolding sid_def by (rule spawn_new_name [OF b])
          have idle: "slot_idle p' s = slot_idle p s" for s
            using none by (simp add: slot_idle_def p'_def)
          have "pool_ok p'"
            using spawn_bounded [OF b True] spawn_indexed [OF x d(3,2) none] q idle
            by (simp add: pool_ok_def pool_queued_def p'_def sid_def Nil)
          moreover have "slot_table p' = (slot_table p)(sid \<mapsto> Some g)"
            by (auto simp: slot_table_def p'_def fun_eq_iff)
          moreover have "slot_table p sid = None" by (simp add: slot_table_def none)
          ultimately show ?thesis
            using pool_step.open_slot [OF _ full, of sid cap g] True cap
            by (simp add: pick pick_event_def card_slot_table [OF b])
        next
          case False
          then have "length (wp_workers p) = cap" using bound cap by simp
          moreover have "pick_worker env g deps job pref p = (Inr None, p)"
            using False by (simp add: pick_worker_def no_pref no_sticky Nil same)
          ultimately show ?thesis
            using pool_step.refuse [OF full, of cap g] ok by (simp add: pick_event_def card_slot_table [OF b])
        qed
      qed
    qed
  qed
qed

lemma get_by_loop_id_slot:
  assumes "pool_bounded p" "get_by_loop_id p lid = Some w"
  shows "dict_get (wp_workers p) (ws_slot_id w) = Some w"
proof (cases "dict_get (wp_by_loop_id p) lid")
  case (Some sid)
  then have "dict_get (wp_workers p) sid = Some w" using assms(2) by (simp add: get_by_loop_id_def)
  with pool_slot_id [OF assms(1) this] show ?thesis by simp
next
  case None
  then have "find (\<lambda>w. ws_loop_id w = lid) (dict_values (wp_workers p)) = Some w"
    using assms(2) by (simp add: get_by_loop_id_def)
  then have w: "w \<in> set (dict_values (wp_workers p))"
    unfolding find_Some_iff by (metis nth_mem)
  have "keyed_by ws_slot_id (wp_workers p)" using assms(1) by (simp add: pool_bounded_def)
  from keyed_by_values [OF this] w show ?thesis by blast
qed

lemma mark_idle_ok:
  assumes ok: "pool_ok p" and w: "dict_get (wp_workers p) sid = Some w"
  shows "pool_ok (p\<lparr>wp_workers := dict_modify sid (release_to_idle now success) (wp_workers p),
     wp_idle := (if sid \<in> set (wp_idle p) then wp_idle p else wp_idle p @ [sid])\<rparr>)"
proof -
  have b: "pool_bounded p" and x: "pool_indexed p" and q: "pool_queued p" using ok by (simp_all add: pool_ok_def)
  have loop_ids: "(\<exists>v. dict_get (dict_modify sid (release_to_idle now success) (wp_workers p)) s = Some v \<and> ws_loop_id v = l \<and> l \<noteq> []) \<longleftrightarrow>
      (\<exists>v. dict_get (wp_workers p) s = Some v \<and> ws_loop_id v = l \<and> l \<noteq> [])" for s l
    by auto
  have "pool_indexed (p\<lparr>wp_workers := dict_modify sid (release_to_idle now success) (wp_workers p), wp_idle := qs\<rparr>)" for qs
    using x unfolding pool_indexed_def by (auto simp: loop_ids)
  moreover have "pool_bounded (p\<lparr>wp_workers := dict_modify sid (release_to_idle now success) (wp_workers p),
      wp_by_loop_id := wp_by_loop_id p, wp_idle := qs\<rparr>)" for qs
    by (rule modify_bounded [OF b]) simp_all
  moreover have "pool_queued (p\<lparr>wp_workers := dict_modify sid (release_to_idle now success) (wp_workers p),
      wp_idle := (if sid \<in> set (wp_idle p) then wp_idle p else wp_idle p @ [sid])\<rparr>)"
    using q w unfolding pool_queued_def by (auto simp: slot_idle_iff)
  ultimately show ?thesis by (simp add: pool_ok_def)
qed

lemma dict_get_filter_values:
  "wf_dict d \<Longrightarrow> dict_get (filter (\<lambda>(l, v). P v) d) l = Some v \<longleftrightarrow> dict_get d l = Some v \<and> P v"
proof -
  assume wf: "wf_dict d"
  moreover have "wf_dict (filter (\<lambda>(l, v). P v) d)"
    using wf by (simp add: wf_dict_def distinct_map_filter)
  ultimately show ?thesis by (auto simp: dict_get_in)
qed

lemma release_ok:
  assumes ok: "pool_ok p"
  shows "pool_ok (p\<lparr>wp_workers := dict_pop sid (wp_workers p),
     wp_by_loop_id := filter (\<lambda>(l, s). s \<noteq> sid) (wp_by_loop_id p), wp_idle := remove1 sid (wp_idle p)\<rparr>)"
    (is "pool_ok ?p")
proof -
  have b: "pool_bounded p" and x: "pool_indexed p" and q: "pool_queued p" using ok by (simp_all add: pool_ok_def)
  have wf: "wf_dict (wp_by_loop_id p)" using x by (simp add: pool_indexed_def)
  have "length (dict_pop sid (wp_workers p)) \<le> length (wp_workers p)"
    unfolding dict_pop_def by (rule length_delete_le)
  then have "pool_bounded ?p"
    using b unfolding pool_bounded_def by (auto simp: keyed_by_pop)
  moreover have "pool_indexed ?p"
    using x wf unfolding pool_indexed_def
    by (auto simp: dict_get_filter_values wf_dict_def distinct_map_filter)
  moreover have "pool_queued ?p"
    using q unfolding pool_queued_def by (auto simp: slot_idle_iff)
  ultimately show ?thesis by (simp add: pool_ok_def)
qed

section \<open>The pool implements its specification\<close>

datatype 'r pool_op =
    Pick "'r pool_env" ident "ident list" "string option" "ident option"
  | Mark_Idle time ident bool
  | Release_Worker ident

fun run_pool_op :: "'r pool_op \<Rightarrow> 'r worker_pool \<Rightarrow> pool_event \<times> 'r worker_pool" where
  "run_pool_op (Pick env g deps job pref) p = (case pick_worker env g deps job pref p of (res, p') \<Rightarrow> (pick_event g res, p'))"
| "run_pool_op (Mark_Idle now lid success) p =
     ((case get_by_loop_id p lid of None \<Rightarrow> Ignored | Some w \<Rightarrow> Freed (ws_slot_id w)), mark_idle now lid success p)"
| "run_pool_op (Release_Worker lid) p =
     (case release_worker lid p of (res, p') \<Rightarrow> ((case res of None \<Rightarrow> Ignored | Some w \<Rightarrow> Dropped (ws_slot_id w)), p'))"

fun fair_op :: "'r worker_pool \<Rightarrow> 'r pool_op \<Rightarrow> bool" where
  "fair_op p (Pick env _ _ job _) = fair_draw env job p"
| "fair_op p _ = True"

text \<open>Claim C6. The pool implements its specification: in a well-formed pool every operation, with a loop id that is
  not in use and a factory that delivers, is a step of the abstract pool. A goal gets a slot that was
  free, or a new one when none is free and the capacity allows it; it is refused only when every slot
  holds a goal and the capacity is used up; and the pool stays well-formed.\<close>

theorem pool_refines_specification:
  assumes "pool_ok p" and "wp_max_loops p = int cap" and "fair_op p op"
  shows "pool_ok (snd (run_pool_op op p)) \<and>
    pool_step cap (slot_table p) (fst (run_pool_op op p)) (slot_table (snd (run_pool_op op p)))"
proof (cases op)
  case (Pick env g deps job pref)
  with assms pick_refines [OF assms(1,2), of env job g deps pref] show ?thesis
    by (cases "pick_worker env g deps job pref p") simp
next
  case (Mark_Idle now lid success)
  show ?thesis
  proof (cases "get_by_loop_id p lid")
    case None
    then show ?thesis using assms(1) by (simp add: Mark_Idle mark_idle_def pool_step.ignore)
  next
    case (Some w)
    have "pool_bounded p" using assms(1) by (simp add: pool_ok_def)
    from get_by_loop_id_slot [OF this Some] have w: "dict_get (wp_workers p) (ws_slot_id w) = Some w" .
    have "slot_table (mark_idle now lid success p) = (slot_table p)(ws_slot_id w \<mapsto> None)"
      by (auto simp: mark_idle_def Some Let_def slot_table_def fun_eq_iff w)
    moreover have "slot_table p (ws_slot_id w) \<noteq> None" by (simp add: slot_table_def w)
    ultimately show ?thesis
      using mark_idle_ok [OF assms(1) w] pool_step.free [of "slot_table p" "ws_slot_id w" cap]
      by (simp add: Mark_Idle Some mark_idle_def Let_def)
  qed
next
  case (Release_Worker lid)
  show ?thesis
  proof (cases "get_by_loop_id p lid")
    case None
    then show ?thesis using assms(1) by (simp add: Release_Worker release_worker_def pool_step.ignore)
  next
    case (Some w)
    have "pool_bounded p" using assms(1) by (simp add: pool_ok_def)
    from get_by_loop_id_slot [OF this Some] have w: "dict_get (wp_workers p) (ws_slot_id w) = Some w" .
    define p' where "p' = snd (release_worker lid p)"
    have "pool_ok p'" using release_ok [OF assms(1)] by (simp add: p'_def release_worker_def Some)
    moreover have "slot_table p' = (slot_table p)(ws_slot_id w := None)"
      by (auto simp: p'_def release_worker_def Some slot_table_def fun_eq_iff)
    moreover have "slot_table p (ws_slot_id w) \<noteq> None" by (simp add: slot_table_def w)
    ultimately show ?thesis
      using pool_step.drop [of "slot_table p" "ws_slot_id w" cap]
      by (simp add: Release_Worker release_worker_def Some p'_def)
  qed
qed

text \<open>Two goals of two jobs in a pool with one slot, and the environment they draw from.\<close>

definition sample_pool_env :: "string \<Rightarrow> unit pool_env" where
  "sample_pool_env uuid = \<lparr>en_now = 0, en_uuid = uuid, en_create_runner = (\<lambda>_. Inr ())\<rparr>"

definition empty_pool :: "unit worker_pool" where
  "empty_pool = \<lparr>wp_max_loops = 1, wp_workers = [], wp_by_loop_id = [], wp_idle = [], wp_next_seq = 0\<rparr>"

lemma empty_pool_ok: "pool_ok empty_pool"
  by (simp add: empty_pool_def pool_ok_def pool_bounded_def pool_indexed_def pool_queued_def slot_idle_def)

theorem pool_refines_specification_witness:
  "(let op = Pick (sample_pool_env ''u1'') ''g1'' [] (Some ''job'') None; p1 = snd (run_pool_op op empty_pool)
    in pool_ok p1 \<and> pool_step 1 (slot_table empty_pool) (Took ''g1'' ''autopilot__slot_001'') (slot_table p1))"
proof -
  define op where "op = Pick (sample_pool_env ''u1'') ''g1'' [] (Some ''job'') None"
  have "wp_max_loops empty_pool = int 1" by (simp add: empty_pool_def)
  moreover have "fair_op empty_pool op" unfolding op_def by code_simp
  moreover have "fst (run_pool_op op empty_pool) = Took ''g1'' ''autopilot__slot_001''" unfolding op_def by code_simp
  ultimately show ?thesis
    using pool_refines_specification [OF empty_pool_ok, of 1 op] by (simp add: op_def Let_def)
qed

section \<open>The capacity is never exceeded\<close>

lemma claim_bounded:
  assumes "pool_bounded p" shows "pool_bounded (snd (claim_slot env w g job p))"
proof -
  have b: "pool_bounded (p\<lparr>wp_by_loop_id := bs\<rparr>)" for bs using assms by (simp add: pool_bounded_def)
  have "pool_bounded (p\<lparr>wp_workers := dict_modify sid (assign_slot now g lid r) (wp_workers p),
      wp_by_loop_id := bs, wp_idle := q\<rparr>)" for bs sid now lid r q
    using modify_bounded [OF assms, where f = "assign_slot now g lid r" and sid = sid and b = bs and q = q]
    by simp
  then show ?thesis using assms b [of "dict_pop (ws_loop_id w) (wp_by_loop_id p)"]
    by (simp add: claim_slot_def Let_def split: sum.split)
qed

lemma spawn_keeps_bound:
  assumes "pool_bounded p" and "int (length (wp_workers p)) < wp_max_loops p"
  shows "pool_bounded (snd (spawn_and_claim env g job p))"
proof -
  have seq: "pool_bounded (p\<lparr>wp_next_seq := Suc (wp_next_seq p)\<rparr>)"
    using assms(1) unfolding pool_bounded_def by simp (metis le_SucI)
  show ?thesis
    using seq spawn_bounded [OF assms, where now = "en_now env" and g = g and q = "wp_idle p"]
    by (simp add: spawn_and_claim_def Let_def spawned_def [symmetric] split: sum.split)
qed

lemma pick_bounded:
  assumes "pool_bounded p" shows "pool_bounded (snd (pick_worker env g deps job pref p))"
proof -
  have q: "pool_bounded (p\<lparr>wp_idle := q\<rparr>)" for q using assms by (simp add: pool_bounded_def)
  show ?thesis
    using claim_bounded [OF assms] claim_bounded [OF q] spawn_keeps_bound [OF q] q
    by (simp add: pick_worker_def split: option.split list.split)
qed

lemma op_bounded:
  assumes "pool_bounded p" shows "pool_bounded (snd (run_pool_op op p))"
proof (cases op)
  case (Pick env g deps job pref)
  then show ?thesis using pick_bounded [OF assms, of env g deps job pref]
    by (cases "pick_worker env g deps job pref p") simp
next
  case (Mark_Idle now lid success)
  have "pool_bounded (p\<lparr>wp_workers := dict_modify sid (release_to_idle now success) (wp_workers p), wp_idle := q\<rparr>)" for sid q
    using modify_bounded [OF assms, where f = "release_to_idle now success" and sid = sid and b = "wp_by_loop_id p" and q = q] by simp
  then show ?thesis using assms by (simp add: Mark_Idle mark_idle_def Let_def split: option.split)
next
  case (Release_Worker lid)
  have len: "length (dict_pop sid (wp_workers p)) \<le> length (wp_workers p)" for sid
    unfolding dict_pop_def by (rule length_delete_le)
  have "pool_bounded (p\<lparr>wp_workers := dict_pop sid (wp_workers p), wp_by_loop_id := bs, wp_idle := q\<rparr>)" for sid bs q
    using assms len [of sid] unfolding pool_bounded_def by (auto simp: keyed_by_pop)
  then show ?thesis using assms by (simp add: Release_Worker release_worker_def split: option.split)
qed

lemma claim_max_loops: "wp_max_loops (snd (claim_slot env w g job p)) = wp_max_loops p"
  by (simp add: claim_slot_def Let_def split: sum.split)

lemma spawn_max_loops: "wp_max_loops (snd (spawn_and_claim env g job p)) = wp_max_loops p"
  by (simp add: spawn_and_claim_def Let_def split: sum.split)

lemma pick_max_loops: "wp_max_loops (snd (pick_worker env g deps job pref p)) = wp_max_loops p"
  by (simp add: pick_worker_def claim_max_loops spawn_max_loops split: option.split list.split)

lemma op_max_loops: "wp_max_loops (snd (run_pool_op op p)) = wp_max_loops p"
proof (cases op)
  case (Pick env g deps job pref)
  then show ?thesis using pick_max_loops [of env g deps job pref p]
    by (cases "pick_worker env g deps job pref p") simp
qed (simp_all add: mark_idle_def release_worker_def Let_def split: option.split)

lemma ops_bounded:
  "pool_bounded p \<Longrightarrow>
   pool_bounded (foldl (\<lambda>p op. snd (run_pool_op op p)) p ops) \<and>
   wp_max_loops (foldl (\<lambda>p op. snd (run_pool_op op p)) p ops) = wp_max_loops p"
proof (induction ops arbitrary: p)
  case (Cons op ops)
  from Cons.IH [OF op_bounded [OF Cons.prems, of op]] show ?case by (simp add: op_max_loops)
qed simp

text \<open>Whatever happens to a new pool, failing factories and missing job ids included, it never holds
  more slots than its limit, and a slot is active exactly when it holds a goal.\<close>

theorem pool_capacity:
  assumes "new_worker_pool n = Inr p"
  shows "int (total_count (foldl (\<lambda>p op. snd (run_pool_op op p)) p ops)) \<le> n \<and>
    list_all (\<lambda>w. ws_status w = SlotActive \<longleftrightarrow> ws_current_goal_id w \<noteq> None)
      (dict_values (wp_workers (foldl (\<lambda>p op. snd (run_pool_op op p)) p ops)))"
proof -
  have p: "p = \<lparr>wp_max_loops = n, wp_workers = [], wp_by_loop_id = [], wp_idle = [], wp_next_seq = 0\<rparr>" and n: "n \<ge> 1"
    using assms by (auto simp: new_worker_pool_def split: if_splits)
  define p' where "p' = foldl (\<lambda>p op. snd (run_pool_op op p)) p ops"
  have "pool_bounded p" using n by (simp add: p pool_bounded_def)
  from ops_bounded [OF this, of ops] have b: "pool_bounded p'" and m: "wp_max_loops p' = n"
    unfolding p'_def [symmetric] by (simp_all add: p)
  have "keyed_by ws_slot_id (wp_workers p')" using b by (simp add: pool_bounded_def)
  note get = keyed_by_values [OF this]
  have "ws_status w = SlotActive \<longleftrightarrow> ws_current_goal_id w \<noteq> None" if "w \<in> set (dict_values (wp_workers p'))" for w
    using that b unfolding get pool_bounded_def by blast
  then have "list_all (\<lambda>w. ws_status w = SlotActive \<longleftrightarrow> ws_current_goal_id w \<noteq> None) (dict_values (wp_workers p'))"
    unfolding list_all_iff by blast
  moreover have "int (total_count p') \<le> n" using b m by (simp add: pool_bounded_def total_count_def)
  ultimately show ?thesis by (simp add: p'_def)
qed

theorem pool_capacity_witness:
  "int (total_count (foldl (\<lambda>p op. snd (run_pool_op op p)) empty_pool
     [Pick (sample_pool_env ''u1'') ''g1'' [] (Some ''job'') None,
      Pick (sample_pool_env ''u2'') ''g2'' [] (Some ''job'') None])) \<le> 1"
proof -
  have "new_worker_pool 1 = Inr empty_pool" by (simp add: new_worker_pool_def empty_pool_def)
  from pool_capacity [OF this] show ?thesis by blast
qed

text \<open>A job without an id, or a factory that fails, takes a free slot out of the queue without giving it to a
  goal. From then on a goal with no preferred slot and no dependency is refused although nothing runs.\<close>

theorem failed_pick_loses_slot:
  "(let p1 = foldl (\<lambda>p op. snd (run_pool_op op p)) empty_pool
         [Pick (sample_pool_env ''u1'') ''g1'' [] (Some ''job'') None, Mark_Idle 1 ''autopilot__job__u1'' True,
          Pick (sample_pool_env ''u2'') ''g2'' [] (Some []) None];
        p2 = snd (run_pool_op (Pick (sample_pool_env ''u3'') ''g3'' [] (Some ''job'') None) p1)
    in fst (run_pool_op (Pick (sample_pool_env ''u3'') ''g3'' [] (Some ''job'') None) p1) = Refused ''g3'' \<and>
       active_workers p1 = [] \<and> total_count p1 = 1 \<and> p2 = p1)"
  by code_simp

text \<open>A goal follows its dependency: when the slot that ran \<open>g\<close> is marked idle, a goal whose first
  dependency is \<open>g\<close> gets an idle slot that recently ran \<open>g\<close>, before any other slot is considered.\<close>

theorem sticky_affinity:
  assumes ok: "pool_ok p" and w: "dict_get (wp_workers p) sid = Some w" and g: "ws_current_goal_id w = Some g" "g \<noteq> []"
    and p1: "p1 = mark_idle now (ws_loop_id w) success p" and fair: "fair_draw env job p1"
  shows "\<exists>s v. fst (pick_worker env h (g # deps) job None p1) = Inr (Some s) \<and>
    dict_get (wp_workers p1) s = Some v \<and> ws_status v = SlotIdle \<and> g \<in> set (ws_last_goal_ids v)"
proof -
  have b: "pool_bounded p" and x: "pool_indexed p" using ok by (simp_all add: pool_ok_def)
  have sid: "ws_slot_id w = sid" by (rule pool_slot_id [OF b w])
  have "dict_get (wp_by_loop_id p) (ws_loop_id w) = Some sid" using x w unfolding pool_indexed_def by blast
  then have get: "get_by_loop_id p (ws_loop_id w) = Some w" by (simp add: get_by_loop_id_def w)
  define w1 where "w1 = release_to_idle now success w"
  have w1: "dict_get (wp_workers p1) sid = Some w1" by (simp add: p1 mark_idle_def get Let_def sid w w1_def)
  have ran: "g \<in> set (ws_last_goal_ids w1)"
    by (cases "ws_last_goal_ids w") (simp_all add: w1_def release_to_idle_def remember_goal_def g Let_def LAST_GOALS_MAX_def)
  have ok1: "pool_ok p1"
    using mark_idle_ok [OF ok w] by (simp add: p1 mark_idle_def get Let_def sid)
  then have b1: "pool_bounded p1" by (simp add: pool_ok_def)
  define ws where "ws = filter (\<lambda>w. ws_status w = SlotIdle \<and> has_recently_run g w) (dict_values (wp_workers p1))"
  have "w1 \<in> set ws" using dict_get_value [OF w1] ran by (simp add: ws_def has_recently_run_def w1_def)
  then obtain v rest where ws: "ws = v # rest" by (cases ws) simp_all
  then have sticky: "sticky_slot p1 (g # deps) = Some v" by (simp add: sticky_slot_def ws_def [symmetric])
  have "v \<in> set ws" by (simp add: ws)
  then have "has_recently_run g v" by (simp add: ws_def)
  have v: "dict_get (wp_workers p1) (ws_slot_id v) = Some v" "ws_status v = SlotIdle"
    using sticky_slot_idle [OF b1 sticky] by blast+
  have "ws_current_goal_id v = None"
    using b1 v unfolding pool_bounded_def by (metis not_Some_eq slot_status.distinct(1))
  with \<open>has_recently_run g v\<close> have "g \<in> set (ws_last_goal_ids v)" by (simp add: has_recently_run_def)
  moreover have "fst (pick_worker env h (g # deps) job None p1) = Inr (Some (ws_slot_id v))"
    using claim_idle [OF ok1 v fair, of h]
    by (cases "claim_slot env v h job p1") (simp add: pick_worker_def sticky prefer_slot_def)
  ultimately show ?thesis using v by blast
qed

theorem sticky_affinity_witness:
  "\<exists>s. fst (pick_worker (sample_pool_env ''u2'') ''g2'' [''g1''] (Some ''job'') None
        (mark_idle 1 ''autopilot__job__u1'' True
          (snd (pick_worker (sample_pool_env ''u1'') ''g1'' [] (Some ''job'') None empty_pool)))) = Inr (Some s)"
proof -
  define p where "p = snd (pick_worker (sample_pool_env ''u1'') ''g1'' [] (Some ''job'') None empty_pool)"
  define p1 where "p1 = mark_idle 1 ''autopilot__job__u1'' True p"
  define w where "w = the (dict_get (wp_workers p) ''autopilot__slot_001'')"
  have "fair_draw (sample_pool_env ''u1'') (Some ''job'') empty_pool" by code_simp
  from pick_refines [OF empty_pool_ok, of 1, OF _ this] have "pool_ok p" by (simp add: p_def empty_pool_def)
  moreover have "dict_get (wp_workers p) ''autopilot__slot_001'' = Some w" unfolding p_def w_def by code_simp
  moreover have "ws_current_goal_id w = Some ''g1''" unfolding p_def w_def by code_simp
  moreover have "ws_loop_id w = ''autopilot__job__u1''" unfolding p_def w_def by code_simp
  moreover have "fair_draw (sample_pool_env ''u2'') (Some ''job'') p1" unfolding p1_def p_def by code_simp
  ultimately show ?thesis
    using sticky_affinity [of p "''autopilot__slot_001''" w "''g1''" p1 1 True "sample_pool_env ''u2''" "Some ''job''" "''g2''" "[]"]
    by (auto simp: p1_def p_def)
qed

section \<open>Reading a job back from its loop id\<close>

lemma split_once_here: "take 2 (c # s) = ''__'' \<Longrightarrow> split_once ''__'' (c # s) = Some ([], drop 2 (c # s))"
  by (simp add: numeral_2_eq_2)

lemma split_once_found:
  "\<not> sublist ''__'' (xs @ ''_'') \<Longrightarrow> split_once ''__'' (xs @ ''__'' @ u) = Some (xs, u)"
proof (induction xs)
  case (Cons c cs)
  then have "\<not> sublist ''__'' (cs @ ''_'')" by (simp add: sublist_Cons_right)
  moreover have "\<not> prefix ''__'' (c # cs @ ''_'')" using Cons.prems by (simp add: sublist_Cons_right)
  then have "take 2 (c # cs @ ''__'' @ u) \<noteq> ''__''" by (cases cs) auto
  ultimately show ?case using Cons.IH by (simp add: numeral_2_eq_2)
qed simp

lemma split_once_earlier:
  "sublist ''__'' (xs @ ''_'') \<Longrightarrow> \<exists>a b. split_once ''__'' (xs @ ''__'' @ u) = Some (a, b) \<and> length a < length xs"
proof (induction xs)
  case (Cons c cs)
  show ?case
  proof (cases "prefix ''__'' (c # cs @ ''_'')")
    case True
    then have "take 2 (c # cs @ ''__'' @ u) = ''__''" by (cases cs) auto
    then show ?thesis by (simp add: numeral_2_eq_2)
  next
    case False
    then have "take 2 (c # cs @ ''__'' @ u) \<noteq> ''__''" by (cases cs) auto
    moreover have "sublist ''__'' (cs @ ''_'')"
      using Cons.prems False unfolding append_Cons sublist_Cons_right by blast
    ultimately show ?thesis using Cons.IH by (fastforce simp: numeral_2_eq_2)
  qed
qed (simp add: sublist_Cons_right)

text \<open>Reading the job back from an assignment loop id gives the (stripped) job id exactly when that id
  has no double underscore and does not end in an underscore; otherwise a shorter id or none is read.\<close>

theorem job_id_roundtrip:
  assumes "allocate_assignment_loop_id job uuid = Inr lid"
  shows "is_autopilot_worker_loop_id lid \<and>
    (parse_job_id_from_loop_id lid = Some (py_strip (opt_str job)) \<longleftrightarrow> \<not> sublist ''__'' (py_strip (opt_str job) @ ''_'')) \<and>
    (parse_job_id_from_loop_id lid = None \<longleftrightarrow> prefix ''__'' (py_strip (opt_str job) @ ''_''))"
proof -
  define clean where "clean = py_strip (opt_str job)"
  have ne: "clean \<noteq> []" and lid: "lid = autopilot_prefix @ clean @ ''__'' @ uuid"
    using assms by (auto simp: allocate_assignment_loop_id_def Let_def clean_def split: if_splits)
  have parse: "parse_job_id_from_loop_id lid = (case split_once ''__'' (clean @ ''__'' @ uuid) of
      None \<Rightarrow> None | Some (j, _) \<Rightarrow> if j = [] then None else Some j)"
    by (simp add: parse_job_id_from_loop_id_def lid)
  have "parse_job_id_from_loop_id lid = Some clean \<longleftrightarrow> \<not> sublist ''__'' (clean @ ''_'')"
  proof (cases "sublist ''__'' (clean @ ''_'')")
    case True
    from split_once_earlier [OF this, of uuid] show ?thesis using True by (auto simp: parse split: if_splits)
  next
    case False
    from split_once_found [OF this, of uuid] show ?thesis using False ne by (simp add: parse)
  qed
  moreover have "parse_job_id_from_loop_id lid = None \<longleftrightarrow> prefix ''__'' (clean @ ''_'')"
  proof -
    obtain c cs where c: "clean = c # cs" using ne by (cases clean) simp_all
    have pre: "take 2 (clean @ ''__'' @ uuid) = ''__'' \<longleftrightarrow> prefix ''__'' (clean @ ''_'')"
      unfolding c by (cases cs) auto
    show ?thesis
    proof (cases "prefix ''__'' (clean @ ''_'')")
      case True
      then have "take 2 (clean @ ''__'' @ uuid) = ''__''" using pre by blast
      then have "split_once ''__'' (clean @ ''__'' @ uuid) = Some ([], drop 2 (clean @ ''__'' @ uuid))"
        unfolding c append_Cons by (rule split_once_here)
      then show ?thesis using True by (simp add: parse)
    next
      case False
      obtain a b where "split_once ''__'' (clean @ ''__'' @ uuid) = Some (a, b)"
        using split_once_found [of clean uuid] split_once_earlier [of clean uuid] by blast
      moreover from this have "a \<noteq> []"
        using pre False by (auto simp: c numeral_2_eq_2 split: if_splits)
      ultimately show ?thesis using False by (simp add: parse)
    qed
  qed
  ultimately show ?thesis by (simp add: clean_def is_autopilot_worker_loop_id_def lid prefix_def)
qed

theorem job_id_roundtrip_witness:
  "parse_job_id_from_loop_id ''autopilot__job_7__ab12'' = Some ''job_7''"
proof -
  have a: "allocate_assignment_loop_id (Some ''job_7'') ''ab12'' = Inr ''autopilot__job_7__ab12''" by code_simp
  have "py_strip (opt_str (Some ''job_7'')) = ''job_7''" by code_simp
  moreover have "\<not> sublist ''__'' ''job_7_''" by (simp add: sublist_Cons_right)
  ultimately show ?thesis using job_id_roundtrip [OF a] by simp
qed

end
