(* ===== verification/Goal_Planner.thy ===== *)
theory Goal_Planner
  imports Context_Engine Goal_Scheduling Reconcile_Facts
begin

text \<open>
  \<open>GoalPlanningSubengine\<close> (\<open>context/planning_goal_planner.py\<close>): the child goals a decomposition
  and a finished goal add to the goal DAG. Each new node draws its id from \<open>fresh\<close> at the index
  of its specification. The dictionaries a model proposes are JSON objects; \<open>render\<close> is what
  \<open>str\<close> prints for a nested list or object.
\<close>

section \<open>Specifications\<close>

record subgoal_spec =
  sp_description :: string
  sp_priority :: int
  sp_depends_on :: "ident list"
  sp_conflicts_with :: "ident list"
  sp_informs :: "ident list"

definition normalize_goal_description :: "string \<Rightarrow> string" where
  "normalize_goal_description description = py_join '' '' (py_split (py_lower (py_strip description)))"

text \<open>Specifications none of which names a dependency are put in sequence.\<close>

definition chain_specs :: "subgoal_spec list \<Rightarrow> subgoal_spec list" where
  "chain_specs specs =
     (if length specs > 1 \<and> list_all (\<lambda>s. sp_depends_on s = []) specs
      then map (\<lambda>(i, s). s\<lparr>sp_depends_on := (if i > 0 then [show_nat (i - 1)] else [])\<rparr>) (zip [0..<length specs] specs)
      else specs)"

definition child_keys :: "goal_dag \<Rightarrow> ident option \<Rightarrow> string set" where
  "child_keys d parent_id =
     set (map (\<lambda>g. normalize_goal_description (g_description g)) (filter (\<lambda>g. g_parent_id g = parent_id) (goal_nodes d)))"

definition resolve_deps :: "(ident, ident) dict \<Rightarrow> goal_dag \<Rightarrow> ident list \<Rightarrow> ident list" where
  "resolve_deps id_map d refs =
     concat (map (\<lambda>r. case dict_get id_map r of
                        Some actual \<Rightarrow> [actual]
                      | None \<Rightarrow> if get_goal d r \<noteq> None then [r] else []) refs)"

section \<open>Subgoals\<close>

definition subgoal_node ::
  "ident \<Rightarrow> time \<Rightarrow> ident \<Rightarrow> string option \<Rightarrow> ident list \<Rightarrow> subgoal_spec \<Rightarrow> goal_node" where
  "subgoal_node gid now parent_id workspace deps spec =
     (new_goal gid (sp_description spec) now)
       \<lparr>g_priority := sp_priority spec, g_parent_id := Some parent_id, g_depends_on := deps,
        g_conflicts_with := sp_conflicts_with spec, g_informs := sp_informs spec,
        g_source := SrcDecomposition, g_workspace := workspace\<rparr>"

fun create_specs ::
  "(nat \<Rightarrow> ident) \<Rightarrow> time \<Rightarrow> ident \<Rightarrow> string option \<Rightarrow> nat \<Rightarrow> subgoal_spec list \<Rightarrow> string set \<Rightarrow> (ident, ident) dict \<Rightarrow>
   goal_dag \<Rightarrow> goal_node list \<times> goal_dag" where
  "create_specs fresh now parent_id workspace i [] existing id_map d = ([], d)"
| "create_specs fresh now parent_id workspace i (spec # specs) existing id_map d =
     (let key = normalize_goal_description (sp_description spec)
      in if key \<noteq> [] \<and> key \<in> existing
         then create_specs fresh now parent_id workspace (Suc i) specs existing id_map d
         else (let child = subgoal_node (fresh i) now parent_id workspace (resolve_deps id_map d (sp_depends_on spec)) spec
               in case add_goal child d of
                    Inl _ \<Rightarrow> ([], d)
                  | Inr d' \<Rightarrow>
                      (case create_specs fresh now parent_id workspace (Suc i) specs
                              (if key \<noteq> [] then insert key existing else existing)
                              (dict_set (show_nat i) (g_id child) id_map) d' of
                         (created, d'') \<Rightarrow> (child # created, d''))))"

definition create_subgoals ::
  "(nat \<Rightarrow> ident) \<Rightarrow> time \<Rightarrow> ident \<Rightarrow> subgoal_spec list \<Rightarrow> goal_dag \<Rightarrow> goal_node list \<times> goal_dag" where
  "create_subgoals fresh now parent_id subgoals d =
     create_specs fresh now parent_id (case get_goal d parent_id of None \<Rightarrow> None | Some p \<Rightarrow> g_workspace p)
       0 (chain_specs subgoals) (child_keys d (Some parent_id)) [] d"

section \<open>What a model proposes\<close>

fun json_true :: "json \<Rightarrow> bool" where
  "json_true JNull = False"
| "json_true (JBool b) = b"
| "json_true (JInt i) = (i \<noteq> 0)"
| "json_true (JStr s) = (s \<noteq> [])"
| "json_true (JList xs) = (xs \<noteq> [])"
| "json_true (JObj kvs) = (kvs \<noteq> [])"

definition json_or :: "json option \<Rightarrow> json \<Rightarrow> json" where
  "json_or v other = (case v of None \<Rightarrow> other | Some j \<Rightarrow> if json_true j then j else other)"

text \<open>\<open>int\<close> of a string: spaces around, one sign, and single underscores between digits are accepted.\<close>

definition int_literal :: "string \<Rightarrow> int option" where
  "int_literal s =
     (let t = py_strip s;
          sign = (if take 1 t = ''-'' then -1 else 1);
          u = (if take 1 t = ''-'' \<or> take 1 t = ''+'' then drop 1 t else t);
          groups = split_at (\<lambda>c. c = CHR ''_'') u
      in if list_all py_isdigit groups then Some (sign * int (parse_digits (concat groups))) else None)"

definition int_of_json :: "json \<Rightarrow> int outcome" where
  "int_of_json j =
     (case j of
        JInt i \<Rightarrow> Inr i
      | JBool b \<Rightarrow> Inr (if b then 1 else 0)
      | JStr s \<Rightarrow> (case int_literal s of Some i \<Rightarrow> Inr i | None \<Rightarrow> Inl (ValueError ''invalid literal for int() with base 10''))
      | _ \<Rightarrow> Inl (TypeError ''int() argument must be a string, a bytes-like object or a real number''))"

definition str_of_json :: "(json \<Rightarrow> string) \<Rightarrow> json \<Rightarrow> string" where
  "str_of_json render j =
     (case j of
        JNull \<Rightarrow> ''None''
      | JBool b \<Rightarrow> (if b then ''True'' else ''False'')
      | JInt i \<Rightarrow> show_int i
      | JStr s \<Rightarrow> s
      | _ \<Rightarrow> render j)"

text \<open>\<open>[str(d) for d in raw]\<close>: a list, the characters of a string or the keys of an object.\<close>

definition strs_of_json :: "(json \<Rightarrow> string) \<Rightarrow> json \<Rightarrow> string list outcome" where
  "strs_of_json render j =
     (case j of
        JList xs \<Rightarrow> Inr (map (str_of_json render) xs)
      | JStr s \<Rightarrow> Inr (map (\<lambda>c. [c]) s)
      | JObj kvs \<Rightarrow> Inr (map fst kvs)
      | _ \<Rightarrow> Inl (TypeError ''object is not iterable''))"

definition payload_description :: "obj \<Rightarrow> string outcome" where
  "payload_description sg =
     (case json_or (dict_get sg ''description'') (JStr []) of
        JStr s \<Rightarrow> Inr (py_strip s)
      | _ \<Rightarrow> Inl (AttributeError ''object has no attribute strip''))"

definition payload_priority :: "obj \<Rightarrow> int outcome" where
  "payload_priority sg = int_of_json (case dict_get sg ''priority'' of None \<Rightarrow> JInt 50 | Some j \<Rightarrow> j)"

definition payload_deps :: "(json \<Rightarrow> string) \<Rightarrow> obj \<Rightarrow> string list outcome" where
  "payload_deps render sg = strs_of_json render (json_or (dict_get sg ''depends_on'') (JList []))"

fun payload_specs :: "(json \<Rightarrow> string) \<Rightarrow> obj list \<Rightarrow> subgoal_spec list outcome" where
  "payload_specs render [] = Inr []"
| "payload_specs render (sg # sgs) =
     (case payload_description sg of
        Inl e \<Rightarrow> Inl e
      | Inr description \<Rightarrow>
          if description = [] then payload_specs render sgs
          else (case payload_priority sg of
                  Inl e \<Rightarrow> Inl e
                | Inr priority \<Rightarrow>
                    (case payload_deps render sg of
                       Inl e \<Rightarrow> Inl e
                     | Inr deps \<Rightarrow>
                         map_sum id (\<lambda>specs. \<lparr>sp_description = description, sp_priority = priority, sp_depends_on = deps,
                            sp_conflicts_with = [], sp_informs = []\<rparr> # specs) (payload_specs render sgs))))"

definition apply_llm_subgoals ::
  "(json \<Rightarrow> string) \<Rightarrow> (nat \<Rightarrow> ident) \<Rightarrow> time \<Rightarrow> ident \<Rightarrow> obj list \<Rightarrow> int \<Rightarrow> goal_node list goal_op" where
  "apply_llm_subgoals render fresh now parent_id subgoals max_subgoals d =
     (case payload_specs render (py_prefix max_subgoals subgoals) of
        Inl e \<Rightarrow> (Inl e, d)
      | Inr specs \<Rightarrow>
          if specs = [] then (Inr [], d)
          else (case create_subgoals fresh now parent_id specs d of (created, d') \<Rightarrow> (Inr created, d')))"

section \<open>Follow-up goals\<close>

definition resolve_source :: "string \<Rightarrow> goal_source" where
  "resolve_source source =
     (if source = ''user'' then SrcUser
      else if source = ''directive'' then SrcDirective
      else if source = ''file_discovery'' then SrcFileDiscovery
      else if source = ''reflection'' then SrcReflection
      else SrcDecomposition)"

fun create_follow_ups ::
  "(json \<Rightarrow> string) \<Rightarrow> (nat \<Rightarrow> ident) \<Rightarrow> time \<Rightarrow> ident option \<Rightarrow> goal_source \<Rightarrow> string option \<Rightarrow> nat \<Rightarrow> obj list \<Rightarrow> string set \<Rightarrow>
   goal_node list goal_op" where
  "create_follow_ups render fresh now parent_id source workspace i [] existing d = (Inr [], d)"
| "create_follow_ups render fresh now parent_id source workspace i (ng # ngs) existing d =
     (case payload_description ng of
        Inl e \<Rightarrow> (Inl e, d)
      | Inr description \<Rightarrow>
          (let key = normalize_goal_description description
           in if description = [] \<or> (key \<noteq> [] \<and> key \<in> existing)
              then create_follow_ups render fresh now parent_id source workspace (Suc i) ngs existing d
              else (case payload_priority ng of
                      Inl e \<Rightarrow> (Inl e, d)
                    | Inr priority \<Rightarrow>
                        (case payload_deps render ng of
                           Inl e \<Rightarrow> (Inl e, d)
                         | Inr deps \<Rightarrow>
                             (let child = (new_goal (fresh i) description now)
                                    \<lparr>g_priority := priority, g_parent_id := parent_id, g_depends_on := deps,
                                     g_source := source, g_workspace := workspace\<rparr>
                              in case add_goal child d of
                                   Inl _ \<Rightarrow> (Inr [], d)
                                 | Inr d' \<Rightarrow>
                                     (case create_follow_ups render fresh now parent_id source workspace (Suc i) ngs
                                             (if key \<noteq> [] then insert key existing else existing) d' of
                                        (res, d'') \<Rightarrow> (map_sum id (\<lambda>created. child # created) res, d'')))))))"

definition create_follow_up_goals ::
  "(json \<Rightarrow> string) \<Rightarrow> (nat \<Rightarrow> ident) \<Rightarrow> time \<Rightarrow> obj list \<Rightarrow> ident option \<Rightarrow> string \<Rightarrow> goal_node list goal_op" where
  "create_follow_up_goals render fresh now new_goals parent_id source d =
     (let parent = (if truthy parent_id then get_goal d (opt_str parent_id) else None);
          workspace = (case parent of None \<Rightarrow> None | Some p \<Rightarrow> g_workspace p)
      in create_follow_ups render fresh now parent_id (resolve_source source) workspace 0 new_goals (child_keys d parent_id) d)"

definition reflect_and_create_goals ::
  "(json \<Rightarrow> string) \<Rightarrow> (nat \<Rightarrow> ident) \<Rightarrow> time \<Rightarrow> ident \<Rightarrow> obj list option \<Rightarrow> goal_node list goal_op" where
  "reflect_and_create_goals render fresh now completed_goal_id new_goals d =
     (case new_goals of
        Some (ng # ngs) \<Rightarrow> create_follow_up_goals render fresh now (ng # ngs) (Some completed_goal_id) ''reflection'' d
      | _ \<Rightarrow> (Inr [], d))"

section \<open>Adding goals keeps the goal DAG schedulable\<close>

definition schedulable :: "goal_dag \<Rightarrow> bool" where
  "schedulable d \<longleftrightarrow> wf_goal_dag d \<and> closed_deps d \<and> acyclic (goal_dep_edges d)"

text \<open>Edges into a new sink close no cycle.\<close>

lemma acyclic_new_sink:
  assumes "acyclic E" and "n \<notin> Domain E" and "n \<notin> S"
  shows "acyclic (E \<union> S \<times> {n})"
proof -
  have sink: "n \<notin> Domain (E \<union> S \<times> {n})" using assms by auto
  have "(x, y) \<in> E\<^sup>+ \<or> y = n" if "(x, y) \<in> (E \<union> S \<times> {n})\<^sup>+" for x y
    using that
  proof (induction rule: trancl_induct)
    case (step y z)
    then have "y \<noteq> n" using sink by blast
    with step show ?case by (auto intro: trancl_into_trancl)
  qed auto
  then have "(x, x) \<notin> (E \<union> S \<times> {n})\<^sup>+" for x
    using assms(1) sink unfolding acyclic_def by (metis Domain.DomainI tranclD)
  then show ?thesis by (simp add: acyclic_def)
qed

lemma put_schedulable:
  assumes d: "schedulable d" and new: "get_goal d (g_id g) = None"
    and deps: "\<forall>k \<in> set (g_depends_on g). get_goal d k \<noteq> None"
  shows "schedulable (put_goal g d)"
proof -
  have wf: "wf_goal_dag d" and closed: "closed_deps d" and acyc: "acyclic (goal_dep_edges d)"
    using d by (simp_all add: schedulable_def)
  have "goal_dep_edges (put_goal g d) = goal_dep_edges d \<union> set (g_depends_on g) \<times> {g_id g}"
  proof (rule set_eqI)
    fix p :: "ident \<times> ident"
    obtain k i where p: "p = (k, i)" by (cases p)
    show "p \<in> goal_dep_edges (put_goal g d) \<longleftrightarrow> p \<in> goal_dep_edges d \<union> set (g_depends_on g) \<times> {g_id g}"
      using new by (cases "i = g_id g") (auto simp: p goal_dep_edges_def)
  qed
  moreover have "g_id g \<notin> Domain (goal_dep_edges d)"
    using closed new unfolding goal_dep_edges_def closed_deps_def by blast
  moreover have "g_id g \<notin> set (g_depends_on g)" using deps new by blast
  moreover have "closed_deps (put_goal g d)"
    using closed deps new unfolding closed_deps_def by (auto split: if_splits)
  ultimately show ?thesis
    using acyc acyclic_new_sink wf_put_goal [OF wf] by (simp add: schedulable_def)
qed

lemma resolve_deps_known:
  "\<forall>i k. dict_get id_map i = Some k \<longrightarrow> get_goal d k \<noteq> None \<Longrightarrow>
   \<forall>k \<in> set (resolve_deps id_map d refs). get_goal d k \<noteq> None"
  by (auto simp: resolve_deps_def split: option.splits)

lemma subgoal_node_simps [simp]:
  "g_id (subgoal_node gid now p w deps s) = gid" "g_depends_on (subgoal_node gid now p w deps s) = deps"
  "g_parent_id (subgoal_node gid now p w deps s) = Some p" "g_workspace (subgoal_node gid now p w deps s) = w"
  "g_description (subgoal_node gid now p w deps s) = sp_description s" "g_status (subgoal_node gid now p w deps s) = GPending"
  by (simp_all add: subgoal_node_def new_goal_def)

text \<open>What the loop that creates the nodes keeps, from index \<open>i\<close> on.\<close>

lemma create_specs_schedulable:
  "schedulable d \<Longrightarrow> \<forall>j \<ge> i. get_goal d (fresh j) = None \<Longrightarrow> inj fresh \<Longrightarrow>
   \<forall>r k. dict_get id_map r = Some k \<longrightarrow> get_goal d k \<noteq> None \<Longrightarrow>
   create_specs fresh now p w i specs existing id_map d = (created, d') \<Longrightarrow>
   schedulable d' \<and> (\<forall>k g. get_goal d k = Some g \<longrightarrow> get_goal d' k = Some g) \<and>
   (\<forall>c \<in> set created. get_goal d' (g_id c) = Some c \<and> g_parent_id c = Some p \<and> g_workspace c = w \<and> g_status c = GPending)"
proof (induction specs arbitrary: i existing id_map d created)
  case (Cons spec specs)
  note d = Cons.prems(1) and new = Cons.prems(2) and inj = Cons.prems(3) and known = Cons.prems(4) and run = Cons.prems(5)
  define key where "key = normalize_goal_description (sp_description spec)"
  have later: "\<forall>j \<ge> Suc i. get_goal d (fresh j) = None" using new by simp
  show ?case
  proof (cases "key \<noteq> [] \<and> key \<in> existing")
    case True
    then have "create_specs fresh now p w (Suc i) specs existing id_map d = (created, d')"
      using run by (simp add: key_def)
    from Cons.IH [OF d later inj known this] show ?thesis .
  next
    case False
    define child where "child = subgoal_node (fresh i) now p w (resolve_deps id_map d (sp_depends_on spec)) spec"
    have id: "g_id child = fresh i" by (simp add: child_def)
    show ?thesis
    proof (cases "add_goal child d")
      case (Inl e)
      then have "created = []" "d' = d" using run False by (simp_all add: key_def [symmetric] child_def)
      then show ?thesis using d by simp
    next
      case (Inr d1)
      then have d1: "d1 = put_goal child d" by (rule add_goal_result)
      obtain rest where rest: "create_specs fresh now p w (Suc i) specs (if key \<noteq> [] then insert key existing else existing)
          (dict_set (show_nat i) (g_id child) id_map) d1 = (rest, d')" and created: "created = child # rest"
        using run False Inr
        by (cases "create_specs fresh now p w (Suc i) specs (if key \<noteq> [] then insert key existing else existing)
          (dict_set (show_nat i) (g_id child) id_map) d1") (auto simp: key_def [symmetric] child_def [symmetric] Let_def)
      have newc: "get_goal d (g_id child) = None" using new id by simp
      have s1: "schedulable d1"
        unfolding d1 by (rule put_schedulable [OF d newc]) (simp add: child_def resolve_deps_known [OF known])
      have later1: "\<forall>j \<ge> Suc i. get_goal d1 (fresh j) = None"
        using later inj by (auto simp: d1 id dest: injD)
      have known1: "\<forall>r k. dict_get (dict_set (show_nat i) (g_id child) id_map) r = Some k \<longrightarrow> get_goal d1 k \<noteq> None"
        using known by (simp add: d1)
      have all: "schedulable d' \<and> (\<forall>k g. get_goal d1 k = Some g \<longrightarrow> get_goal d' k = Some g) \<and>
        (\<forall>c \<in> set rest. get_goal d' (g_id c) = Some c \<and> g_parent_id c = Some p \<and> g_workspace c = w \<and> g_status c = GPending)"
        by (rule Cons.IH [OF s1 later1 inj known1 rest])
      have "get_goal d1 k = Some g" if "get_goal d k = Some g" for k g
        using that newc by (cases "k = g_id child") (simp_all add: d1)
      moreover have "get_goal d1 (g_id child) = Some child" by (simp add: d1)
      moreover have "g_parent_id child = Some p" "g_workspace child = w" "g_status child = GPending" by (simp_all add: child_def)
      ultimately show ?thesis using all by (simp add: created)
    qed
  qed
qed simp

text \<open>Claim C7. Decomposing a goal keeps the DAG schedulable: with new and distinct ids, no subgoal depends on a
  goal that does not exist, no cycle arises, no existing goal changes, and every subgoal created is
  stored as a pending child of the parent in the parent's workspace.\<close>

theorem create_subgoals_schedulable:
  assumes "schedulable d" and "inj fresh" and "\<forall>j. get_goal d (fresh j) = None"
    and "create_subgoals fresh now p specs d = (created, d')"
  shows "schedulable d' \<and> (\<forall>k g. get_goal d k = Some g \<longrightarrow> get_goal d' k = Some g) \<and>
    (\<forall>c \<in> set created. get_goal d' (g_id c) = Some c \<and> g_parent_id c = Some p \<and> g_status c = GPending \<and>
       g_workspace c = (case get_goal d p of None \<Rightarrow> None | Some g \<Rightarrow> g_workspace g))"
  using create_specs_schedulable [of d 0 fresh "[]", OF assms(1) _ assms(2) _ assms(4) [unfolded create_subgoals_def]] assms(3)
  by simp

section \<open>The subgoals of one decomposition\<close>

lemma create_specs_distinct:
  "create_specs fresh now p w i specs existing id_map d = (created, d') \<Longrightarrow>
   distinct (filter (\<lambda>k. k \<noteq> []) (map (\<lambda>g. normalize_goal_description (g_description g)) created)) \<and>
   list_all (\<lambda>g. normalize_goal_description (g_description g) \<notin> existing - {[]}) created"
proof (induction specs arbitrary: i existing id_map d created)
  case (Cons spec specs)
  define key where "key = normalize_goal_description (sp_description spec)"
  show ?case
  proof (cases "key \<noteq> [] \<and> key \<in> existing")
    case True
    with Cons show ?thesis by (simp add: key_def [symmetric])
  next
    case False
    define child where "child = subgoal_node (fresh i) now p w (resolve_deps id_map d (sp_depends_on spec)) spec"
    define seen where "seen = (if key \<noteq> [] then insert key existing else existing)"
    have key: "normalize_goal_description (g_description child) = key" by (simp add: child_def key_def)
    show ?thesis
    proof (cases "add_goal child d")
      case (Inl e)
      then have "created = []" using Cons.prems False by (simp add: key_def [symmetric] child_def)
      then show ?thesis by simp
    next
      case (Inr d1)
      obtain rest where rest: "create_specs fresh now p w (Suc i) specs seen (dict_set (show_nat i) (g_id child) id_map) d1 = (rest, d')"
        and created: "created = child # rest"
        using Cons.prems False Inr
        by (cases "create_specs fresh now p w (Suc i) specs seen (dict_set (show_nat i) (g_id child) id_map) d1")
          (auto simp: key_def [symmetric] child_def [symmetric] seen_def [symmetric] Let_def)
      from Cons.IH [OF rest] have d: "distinct (filter (\<lambda>k. k \<noteq> []) (map (\<lambda>g. normalize_goal_description (g_description g)) rest))"
        and n: "\<forall>g \<in> set rest. normalize_goal_description (g_description g) \<notin> seen - {[]}"
        by (simp_all add: list_all_iff)
      have "existing - {[]} \<subseteq> seen - {[]}" by (auto simp: seen_def)
      moreover have "key \<in> seen" if "key \<noteq> []" using that by (simp add: seen_def)
      moreover have "key \<notin> existing - {[]}" using False by blast
      ultimately show ?thesis using d n by (auto simp: created key list_all_iff)
    qed
  qed
qed simp

text \<open>A decomposition never creates a subgoal whose normalised description (lower case, single spaces)
  is that of a child the parent already has, nor two subgoals with the same one.\<close>

theorem create_subgoals_deduplicates:
  assumes "create_subgoals fresh now p specs d = (created, d')"
  shows "distinct (filter (\<lambda>k. k \<noteq> []) (map (\<lambda>g. normalize_goal_description (g_description g)) created)) \<and>
    list_all (\<lambda>g. normalize_goal_description (g_description g) \<notin> child_keys d (Some p) - {[]}) created"
  by (rule create_specs_distinct [OF assms [unfolded create_subgoals_def]])

lemma show_nat_inject [simp]: "show_nat i = show_nat j \<longleftrightarrow> i = j"
  by (metis parse_show_nat)

lemma create_specs_length: "length (fst (create_specs fresh now p w i specs existing id_map d)) \<le> length specs"
proof (induction specs arbitrary: i existing id_map d)
  case (Cons spec specs)
  have *: "length (fst (create_specs fresh now p w (Suc i) specs ex im dd)) \<le> Suc (length specs)" for ex im dd
    by (rule le_SucI [OF Cons.IH])
  show ?case using Cons.IH *
    by (simp add: Let_def split: sum.split prod.split) (metis fst_conv)
qed simp

lemma create_specs_chained:
  "length created = length specs \<Longrightarrow>
   \<forall>j < length specs. sp_depends_on (specs ! j) = (if i + j > 0 then [show_nat (i + j - 1)] else []) \<Longrightarrow>
   \<forall>j < i. dict_get id_map (show_nat j) = Some (fresh j) \<Longrightarrow>
   create_specs fresh now p w i specs existing id_map d = (created, d') \<Longrightarrow>
   \<forall>j < length created. g_id (created ! j) = fresh (i + j) \<and>
     g_depends_on (created ! j) = (if i + j > 0 then [fresh (i + j - 1)] else [])"
proof (induction specs arbitrary: i existing id_map d created)
  case (Cons spec specs)
  note len = Cons.prems(1) and deps = Cons.prems(2) and known = Cons.prems(3) and run = Cons.prems(4)
  define key where "key = normalize_goal_description (sp_description spec)"
  have fresh_key: "\<not> (key \<noteq> [] \<and> key \<in> existing)"
  proof
    assume "key \<noteq> [] \<and> key \<in> existing"
    then have "create_specs fresh now p w (Suc i) specs existing id_map d = (created, d')"
      using run by (simp add: key_def)
    then have "length created \<le> length specs" using create_specs_length by (metis fst_conv)
    then show False using len by simp
  qed
  define child where "child = subgoal_node (fresh i) now p w (resolve_deps id_map d (sp_depends_on spec)) spec"
  define seen where "seen = (if key \<noteq> [] then insert key existing else existing)"
  show ?case
  proof (cases "add_goal child d")
    case (Inl e)
    then have "created = []" using run fresh_key by (simp add: key_def [symmetric] child_def)
    then show ?thesis by simp
  next
    case (Inr d1)
    obtain rest where rest: "create_specs fresh now p w (Suc i) specs seen (dict_set (show_nat i) (g_id child) id_map) d1 = (rest, d')"
      and created: "created = child # rest"
      using run fresh_key Inr
      by (cases "create_specs fresh now p w (Suc i) specs seen (dict_set (show_nat i) (g_id child) id_map) d1")
        (auto simp: key_def [symmetric] child_def [symmetric] seen_def [symmetric] Let_def)
    have "\<forall>j < length specs. sp_depends_on (specs ! j) = (if Suc i + j > 0 then [show_nat (Suc i + j - 1)] else [])"
      using deps by auto
    moreover have "\<forall>j < Suc i. dict_get (dict_set (show_nat i) (g_id child) id_map) (show_nat j) = Some (fresh j)"
      using known by (auto simp: child_def less_Suc_eq)
    ultimately have tl: "\<forall>j < length rest. g_id (rest ! j) = fresh (Suc i + j) \<and>
        g_depends_on (rest ! j) = (if Suc i + j > 0 then [fresh (Suc i + j - 1)] else [])"
      using Cons.IH [OF _ _ _ rest] len created by simp
    have "sp_depends_on spec = (if i > 0 then [show_nat (i - 1)] else [])" using deps by auto
    then have "g_depends_on child = (if i > 0 then [fresh (i - 1)] else [])"
      using known by (simp add: child_def resolve_deps_def)
    with tl show ?thesis by (auto simp: created nth_Cons child_def split: nat.split)
  qed
qed simp

lemma chain_specs_nth:
  assumes "length specs > 1" and "list_all (\<lambda>s. sp_depends_on s = []) specs"
  shows "length (chain_specs specs) = length specs \<and>
    (\<forall>j < length specs. sp_depends_on (chain_specs specs ! j) = (if j > 0 then [show_nat (j - 1)] else []))"
  using assms by (simp add: chain_specs_def)

text \<open>When the model names no dependency and no subgoal is refused, the subgoals form a chain: each
  depends on exactly its predecessor, and the first on nothing.\<close>

theorem create_subgoals_chain:
  assumes "length specs > 1" and "list_all (\<lambda>s. sp_depends_on s = []) specs"
    and "create_subgoals fresh now p specs d = (created, d')" and "length created = length specs"
  shows "\<forall>j < length created. g_id (created ! j) = fresh j \<and>
    g_depends_on (created ! j) = (if j > 0 then [g_id (created ! (j - 1))] else [])"
proof -
  have "\<forall>j < length created. g_id (created ! j) = fresh (0 + j) \<and>
      g_depends_on (created ! j) = (if 0 + j > 0 then [fresh (0 + j - 1)] else [])"
    by (rule create_specs_chained [OF _ _ _ assms(3) [unfolded create_subgoals_def]])
      (use assms(4) chain_specs_nth [OF assms(1,2)] in simp_all)
  then show ?thesis by auto
qed

section \<open>Examples\<close>

definition plan_dag :: goal_dag where
  "plan_dag = \<lparr>goals = [(''p'', (new_goal ''p'' ''ship it'' 0)\<lparr>g_workspace := Some ''/w''\<rparr>),
     (''c'', (new_goal ''c'' ''Write  docs'' 0)\<lparr>g_parent_id := Some ''p''\<rparr>)]\<rparr>"

definition new_id :: "nat \<Rightarrow> ident" where
  "new_id i = ''n'' @ show_nat i"

definition plain_spec :: "string \<Rightarrow> subgoal_spec" where
  "plain_spec desc = \<lparr>sp_description = desc, sp_priority = 50, sp_depends_on = [], sp_conflicts_with = [], sp_informs = []\<rparr>"

lemma new_id_new: "inj new_id" "get_goal plan_dag (new_id i) = None"
  by (auto simp: inj_def new_id_def plan_dag_def get_goal_def)

lemma schedulable_plan_dag: "schedulable plan_dag"
proof -
  have "wf_goal_dag plan_dag" by (auto simp: wf_goal_dag_def keyed_by_def wf_dict_def plan_dag_def new_goal_def split: if_splits)
  moreover have none: "g_depends_on g = []" if "get_goal plan_dag k = Some g" for k g
    using that by (auto simp: plan_dag_def get_goal_def new_goal_def split: if_splits)
  then have "closed_deps plan_dag" "goal_dep_edges plan_dag = {}"
    unfolding closed_deps_def goal_dep_edges_def by auto
  ultimately show ?thesis by (simp add: schedulable_def acyclic_def)
qed

lemma create_subgoals_schedulable_witness:
  "schedulable (snd (create_subgoals new_id 0 ''p'' [plain_spec ''build'', plain_spec ''test''] plan_dag))"
  using create_subgoals_schedulable [OF schedulable_plan_dag new_id_new(1) _ prod.collapse [symmetric]] new_id_new(2)
  by blast

lemma create_subgoals_deduplicates_witness:
  "map g_description (fst (create_subgoals new_id 0 ''p'' [plain_spec ''write docs'', plain_spec ''test''] plan_dag)) = [''test''] \<and>
   distinct (filter (\<lambda>k. k \<noteq> []) (map (\<lambda>g. normalize_goal_description (g_description g))
     (fst (create_subgoals new_id 0 ''p'' [plain_spec ''write docs'', plain_spec ''test''] plan_dag))))"
proof
  show "map g_description (fst (create_subgoals new_id 0 ''p'' [plain_spec ''write docs'', plain_spec ''test''] plan_dag)) = [''test'']"
    by code_simp
qed (rule conjunct1 [OF create_subgoals_deduplicates [OF prod.collapse [symmetric]]])

lemma create_subgoals_chain_witness:
  "map g_depends_on (fst (create_subgoals new_id 0 ''p'' [plain_spec ''build'', plain_spec ''test''] plan_dag)) = [[], [''n0'']]"
proof -
  define r where "r = create_subgoals new_id 0 ''p'' [plain_spec ''build'', plain_spec ''test''] plan_dag"
  have len: "length (fst r) = length [plain_spec ''build'', plain_spec ''test'']" unfolding r_def by code_simp
  have "\<forall>j < length (fst r). g_id (fst r ! j) = new_id j \<and> g_depends_on (fst r ! j) = (if j > 0 then [g_id (fst r ! (j - 1))] else [])"
    by (rule create_subgoals_chain [OF _ _ prod.collapse [symmetric, of r, unfolded r_def], folded r_def, OF _ _ len])
      (simp_all add: plain_spec_def)
  then have "map g_depends_on (fst r) = map (\<lambda>j. if j > 0 then [new_id (j - 1)] else []) [0..<length (fst r)]"
    by (intro nth_equalityI) auto
  then show ?thesis using len by (simp add: r_def [symmetric] new_id_def show_nat.simps digit_char_def numeral_2_eq_2)
qed

text \<open>A skipped duplicate breaks the chain: the subgoal after it starts at once, although the step before
  the duplicate has not run.\<close>

theorem duplicate_breaks_chain:
  "(let (created, d) = create_subgoals new_id 0 ''p'' [plain_spec ''build'', plain_spec ''write docs'', plain_spec ''release''] plan_dag
    in map g_description created = [''build'', ''release''] \<and> map g_depends_on created = [[], []] \<and>
       list_all (is_ready d) created)"
  by code_simp

text \<open>The two entry points treat a malformed proposal differently: \<open>apply_llm_subgoals\<close> leaves the DAG
  as it was, while \<open>create_follow_up_goals\<close> keeps the goals it made before the malformed entry. Both
  skip an entry without a description.\<close>

theorem malformed_proposals:
  "(fst (apply_llm_subgoals render fresh now p sgs n d) = Inl e \<longrightarrow> snd (apply_llm_subgoals render fresh now p sgs n d) = d) \<and>
   apply_llm_subgoals (\<lambda>_. []) new_id 0 ''p'' [[(''description'', JStr ''build'')], [(''description'', JInt 5)]] 5 plan_dag =
     (Inl (AttributeError ''object has no attribute strip''), plan_dag) \<and>
   fst (create_follow_up_goals (\<lambda>_. []) new_id 0 [[(''description'', JStr ''build'')], [(''description'', JInt 5)]] (Some ''p'')
      ''reflection'' plan_dag) = Inl (AttributeError ''object has no attribute strip'') \<and>
   goal_ids (snd (create_follow_up_goals (\<lambda>_. []) new_id 0 [[(''description'', JStr ''build'')], [(''description'', JInt 5)]] (Some ''p'')
      ''reflection'' plan_dag)) = [''p'', ''c'', ''n0'']"
proof (intro conjI impI)
  assume "fst (apply_llm_subgoals render fresh now p sgs n d) = Inl e"
  then show "snd (apply_llm_subgoals render fresh now p sgs n d) = d"
    by (auto simp: apply_llm_subgoals_def split: sum.splits if_splits prod.splits)
next
  show "apply_llm_subgoals (\<lambda>_. []) new_id 0 ''p'' [[(''description'', JStr ''build'')], [(''description'', JInt 5)]] 5 plan_dag =
     (Inl (AttributeError ''object has no attribute strip''), plan_dag)" by code_simp
next
  show "fst (create_follow_up_goals (\<lambda>_. []) new_id 0 [[(''description'', JStr ''build'')], [(''description'', JInt 5)]] (Some ''p'')
      ''reflection'' plan_dag) = Inl (AttributeError ''object has no attribute strip'')" by code_simp
next
  show "goal_ids (snd (create_follow_up_goals (\<lambda>_. []) new_id 0 [[(''description'', JStr ''build'')], [(''description'', JInt 5)]] (Some ''p'')
      ''reflection'' plan_dag)) = [''p'', ''c'', ''n0'']" by code_simp
qed

lemma malformed_proposals_witness:
  "snd (apply_llm_subgoals (\<lambda>_. []) new_id 0 ''p'' [[(''description'', JStr ''a''), (''priority'', JNull)]] 5 plan_dag) = plan_dag"
proof -
  have "fst (apply_llm_subgoals (\<lambda>_. []) new_id 0 ''p'' [[(''description'', JStr ''a''), (''priority'', JNull)]] 5 plan_dag) =
      Inl (TypeError ''int() argument must be a string, a bytes-like object or a real number'')" by code_simp
  then show ?thesis by (rule conjunct1 [OF malformed_proposals, rule_format])
qed

text \<open>A follow-up goal takes its dependencies as they are proposed: an index, which a decomposition would
  resolve to its sibling, names no goal, and the follow-up is never ready.\<close>

theorem follow_up_index_never_ready:
  "(let d = snd (reflect_and_create_goals (\<lambda>_. []) new_id 0 ''p''
        (Some [[(''description'', JStr ''build'')],
               [(''description'', JStr ''release''), (''depends_on'', JList [JInt 0])]]) plan_dag);
        finished = dag_complete_goal 1 ''n0'' (dag_complete_goal 1 ''c'' (dag_complete_goal 1 ''p'' d))
    in map g_depends_on (goal_nodes finished) = [[], [], [], [''0'']] \<and>
       peek_ready_goals finished 9 = [] \<and> \<not> is_dag_complete finished)"
  by code_simp

end
