(* ===== verification/Context_Store.thy ===== *)
theory Context_Store
  imports Prelude
begin

text \<open>
  \<open>InMemoryGoalDispatchContextStore\<close> (\<open>dispatch/store.py\<close> of the autopilot): the bounded store of the
  contributions finished goals leave for their successors. The order of \<open>cs_data\<close> is the order of
  the \<open>OrderedDict\<close>, least recently used first. Times and the retention are counted in the same
  unit; each operation holds the lock and reads the clock once.
\<close>

section \<open>The store\<close>

record 'c ctx_store =
  cs_max_entries :: int
  cs_retention :: int
  cs_data :: "(ident, 'c) dict"
  cs_timestamps :: "(ident, time) dict"
  cs_closed :: bool

definition new_ctx_store :: "int \<Rightarrow> int \<Rightarrow> 'c ctx_store" where
  "new_ctx_store max_entries retention =
     \<lparr>cs_max_entries = max_entries, cs_retention = retention, cs_data = [], cs_timestamps = [], cs_closed = False\<rparr>"

definition move_to_end :: "'k \<Rightarrow> ('k, 'v) dict \<Rightarrow> ('k, 'v) dict" where
  "move_to_end k d = (case dict_get d k of None \<Rightarrow> d | Some v \<Rightarrow> dict_pop k d @ [(k, v)])"

definition store_closed :: exn where
  "store_closed = RuntimeError ''InMemoryGoalDispatchContextStore is closed''"

definition evict_expired :: "time \<Rightarrow> 'c ctx_store \<Rightarrow> 'c ctx_store" where
  "evict_expired now s =
     (if cs_retention s \<le> 0 then s
      else
        (let cutoff = int now - cs_retention s;
             expired = map fst (filter (\<lambda>(gid, ts). int ts < cutoff) (cs_timestamps s))
         in s\<lparr>cs_data := foldl (\<lambda>d gid. dict_pop gid d) (cs_data s) expired,
              cs_timestamps := foldl (\<lambda>d gid. dict_pop gid d) (cs_timestamps s) expired\<rparr>))"

fun evict_oldest :: "int \<Rightarrow> (ident, 'c) dict \<Rightarrow> (ident, time) dict \<Rightarrow> (ident, 'c) dict \<times> (ident, time) dict" where
  "evict_oldest cap [] ts = ([], ts)"
| "evict_oldest cap ((gid, c) # d) ts =
     (if int (length ((gid, c) # d)) > cap then evict_oldest cap d (dict_pop gid ts) else ((gid, c) # d, ts))"

definition evict_if_needed :: "time \<Rightarrow> 'c ctx_store \<Rightarrow> 'c ctx_store" where
  "evict_if_needed now s =
     (let s1 = evict_expired now s
      in if cs_max_entries s1 \<le> 0 then s1
         else (let (d, ts) = evict_oldest (cs_max_entries s1) (cs_data s1) (cs_timestamps s1)
               in s1\<lparr>cs_data := d, cs_timestamps := ts\<rparr>))"

section \<open>Operations\<close>

definition store_put :: "time \<Rightarrow> ident \<Rightarrow> 'c \<Rightarrow> 'c ctx_store \<Rightarrow> unit outcome \<times> 'c ctx_store" where
  "store_put now gid c s =
     (if cs_closed s then (Inl store_closed, s)
      else if dict_get (cs_data s) gid \<noteq> None then
        (Inr (), s\<lparr>cs_data := move_to_end gid (dict_set gid c (cs_data s)),
                   cs_timestamps := dict_set gid now (cs_timestamps s)\<rparr>)
      else
        (Inr (), evict_if_needed now
           (s\<lparr>cs_data := dict_set gid c (cs_data s), cs_timestamps := dict_set gid now (cs_timestamps s)\<rparr>)))"

definition store_get :: "time \<Rightarrow> ident \<Rightarrow> 'c ctx_store \<Rightarrow> 'c option outcome \<times> 'c ctx_store" where
  "store_get now gid s =
     (if cs_closed s then (Inl store_closed, s)
      else
        (let s1 = evict_expired now s
         in case dict_get (cs_data s1) gid of
              None \<Rightarrow> (Inr None, s1)
            | Some c \<Rightarrow> (Inr (Some c), s1\<lparr>cs_data := move_to_end gid (cs_data s1)\<rparr>)))"

fun collect_entries :: "ident list \<Rightarrow> (ident, 'c) dict \<Rightarrow> (ident, 'c) dict \<Rightarrow> (ident, 'c) dict \<times> (ident, 'c) dict" where
  "collect_entries [] out d = (out, d)"
| "collect_entries (gid # gids) out d =
     (case dict_get d gid of
        None \<Rightarrow> collect_entries gids out d
      | Some c \<Rightarrow> collect_entries gids (dict_set gid c out) (move_to_end gid d))"

definition store_get_many :: "time \<Rightarrow> ident list \<Rightarrow> 'c ctx_store \<Rightarrow> (ident, 'c) dict outcome \<times> 'c ctx_store" where
  "store_get_many now gids s =
     (if cs_closed s then (Inl store_closed, s)
      else
        (let s1 = evict_expired now s; (out, d) = collect_entries gids [] (cs_data s1)
         in (Inr out, s1\<lparr>cs_data := d\<rparr>)))"

definition store_delete :: "ident \<Rightarrow> 'c ctx_store \<Rightarrow> bool outcome \<times> 'c ctx_store" where
  "store_delete gid s =
     (if cs_closed s then (Inl store_closed, s)
      else (Inr (dict_get (cs_data s) gid \<noteq> None),
            s\<lparr>cs_data := dict_pop gid (cs_data s), cs_timestamps := dict_pop gid (cs_timestamps s)\<rparr>))"

fun delete_entries :: "ident list \<Rightarrow> nat \<Rightarrow> 'c ctx_store \<Rightarrow> nat \<times> 'c ctx_store" where
  "delete_entries [] removed s = (removed, s)"
| "delete_entries (gid # gids) removed s =
     (if dict_get (cs_data s) gid \<noteq> None
      then delete_entries gids (removed + 1)
             (s\<lparr>cs_data := dict_pop gid (cs_data s), cs_timestamps := dict_pop gid (cs_timestamps s)\<rparr>)
      else delete_entries gids removed s)"

definition store_delete_many :: "ident list \<Rightarrow> 'c ctx_store \<Rightarrow> nat outcome \<times> 'c ctx_store" where
  "store_delete_many gids s =
     (if cs_closed s then (Inl store_closed, s)
      else (case delete_entries gids 0 s of (n, s') \<Rightarrow> (Inr n, s')))"

definition all_goal_ids :: "time \<Rightarrow> 'c ctx_store \<Rightarrow> ident set outcome \<times> 'c ctx_store" where
  "all_goal_ids now s =
     (if cs_closed s then (Inl store_closed, s)
      else (let s1 = evict_expired now s in (Inr (set (dict_keys (cs_data s1))), s1)))"

definition written_at :: "ident \<Rightarrow> 'c ctx_store \<Rightarrow> time option outcome" where
  "written_at gid s = (if cs_closed s then Inl store_closed else Inr (dict_get (cs_timestamps s) gid))"

definition close_store :: "'c ctx_store \<Rightarrow> 'c ctx_store" where
  "close_store s = s\<lparr>cs_closed := True, cs_data := [], cs_timestamps := []\<rparr>"

section \<open>The bound\<close>

definition store_keyed :: "(ident, 'c) dict \<Rightarrow> (ident, time) dict \<Rightarrow> bool" where
  "store_keyed d ts \<longleftrightarrow> wf_dict d \<and> wf_dict ts \<and> (\<forall>gid. dict_get d gid = None \<longleftrightarrow> dict_get ts gid = None)"

definition ctx_store_ok :: "'c ctx_store \<Rightarrow> bool" where
  "ctx_store_ok s \<longleftrightarrow>
     store_keyed (cs_data s) (cs_timestamps s) \<and>
     (cs_max_entries s > 0 \<longrightarrow> int (length (cs_data s)) \<le> cs_max_entries s)"

lemma pop_fold_get:
  "dict_get (foldl (\<lambda>d gid. dict_pop gid d) d gids) k = (if k \<in> set gids then None else dict_get d k)"
  by (induction gids arbitrary: d) auto

lemma pop_fold_wf: "wf_dict d \<Longrightarrow> wf_dict (foldl (\<lambda>d gid. dict_pop gid d) d gids)"
  by (induction gids arbitrary: d) auto

lemma dict_pop_length: "length (dict_pop k d) \<le> length d"
  unfolding dict_pop_def by (rule length_delete_le)

lemma pop_fold_length: "length (foldl (\<lambda>d gid. dict_pop gid d) d gids) \<le> length d"
proof (induction gids arbitrary: d)
  case (Cons g gids)
  have "length (foldl (\<lambda>d gid. dict_pop gid d) (dict_pop g d) gids) \<le> length (dict_pop g d)" by (rule Cons.IH)
  also have "\<dots> \<le> length d" by (rule dict_pop_length)
  finally show ?case by simp
qed simp

lemma move_to_end_get [simp]: "dict_get (move_to_end k d) k' = dict_get d k'"
  by (auto simp: move_to_end_def map_add_def split: option.split)

lemma move_to_end_wf: "wf_dict d \<Longrightarrow> wf_dict (move_to_end k d)"
proof (cases "dict_get d k")
  case (Some v)
  assume "wf_dict d"
  then have "wf_dict (dict_pop k d)" by simp
  moreover have "k \<notin> set (dict_keys (dict_pop k d))" by (simp add: dict_keys_pop)
  ultimately show ?thesis by (simp add: move_to_end_def Some wf_dict_def)
qed (simp add: move_to_end_def)

lemma wf_dict_length: "wf_dict d \<Longrightarrow> length d = card (dom (dict_get d))"
  by (metis distinct_card dom_map_of_conv_image_fst length_map list.set_map wf_dict_def)

lemma move_to_end_length: "wf_dict d \<Longrightarrow> length (move_to_end k d) = length d"
proof -
  assume wf: "wf_dict d"
  have "dom (dict_get (move_to_end k d)) = dom (dict_get d)" by (simp add: dom_def)
  then show ?thesis by (simp add: wf_dict_length [OF wf] wf_dict_length [OF move_to_end_wf [OF wf]])
qed

lemma expired_iff:
  "wf_dict ts \<Longrightarrow> k \<in> set (map fst (filter (\<lambda>(gid, t). int t < c) ts)) \<longleftrightarrow> (\<exists>t. dict_get ts k = Some t \<and> int t < c)"
  by (auto simp: dict_get_in image_iff)

lemma evict_expired_get:
  assumes "store_keyed (cs_data s) (cs_timestamps s)"
  shows "dict_get (cs_data (evict_expired now s)) k = Some c \<longleftrightarrow>
    dict_get (cs_data s) k = Some c \<and>
    (cs_retention s > 0 \<longrightarrow> (\<exists>t. dict_get (cs_timestamps s) k = Some t \<and> int t \<ge> int now - cs_retention s))"
    and "dict_get (cs_timestamps (evict_expired now s)) k = Some t \<longleftrightarrow>
    dict_get (cs_timestamps s) k = Some t \<and> (cs_retention s > 0 \<longrightarrow> int t \<ge> int now - cs_retention s)"
proof -
  have wf: "wf_dict (cs_timestamps s)" and keys: "\<And>gid. dict_get (cs_data s) gid = None \<longleftrightarrow> dict_get (cs_timestamps s) gid = None"
    using assms by (auto simp: store_keyed_def)
  show "dict_get (cs_timestamps (evict_expired now s)) k = Some t \<longleftrightarrow>
    dict_get (cs_timestamps s) k = Some t \<and> (cs_retention s > 0 \<longrightarrow> int t \<ge> int now - cs_retention s)"
    using expired_iff [OF wf, of k "int now - cs_retention s"]
    by (auto simp: evict_expired_def Let_def pop_fold_get simp del: set_map)
  show "dict_get (cs_data (evict_expired now s)) k = Some c \<longleftrightarrow>
    dict_get (cs_data s) k = Some c \<and>
    (cs_retention s > 0 \<longrightarrow> (\<exists>t. dict_get (cs_timestamps s) k = Some t \<and> int t \<ge> int now - cs_retention s))"
    using expired_iff [OF wf, of k "int now - cs_retention s"] keys [of k]
    by (auto simp: evict_expired_def Let_def pop_fold_get simp del: set_map)
qed

lemma evict_expired_simps [simp]:
  "cs_max_entries (evict_expired now s) = cs_max_entries s" "cs_retention (evict_expired now s) = cs_retention s"
  "cs_closed (evict_expired now s) = cs_closed s"
  by (simp_all add: evict_expired_def Let_def)

lemma evict_expired_length: "length (cs_data (evict_expired now s)) \<le> length (cs_data s)"
  by (simp add: evict_expired_def Let_def pop_fold_length)

lemma evict_expired_keyed:
  assumes "store_keyed (cs_data s) (cs_timestamps s)"
  shows "store_keyed (cs_data (evict_expired now s)) (cs_timestamps (evict_expired now s))"
proof -
  have "dict_get (cs_data (evict_expired now s)) gid = None \<longleftrightarrow> dict_get (cs_timestamps (evict_expired now s)) gid = None" for gid
    using assms by (auto simp: store_keyed_def evict_expired_def Let_def pop_fold_get simp del: set_map)
  then show ?thesis using assms by (auto simp: store_keyed_def evict_expired_def Let_def pop_fold_wf)
qed

lemma store_keyed_pop:
  "store_keyed d ts \<Longrightarrow> store_keyed (dict_pop g d) (dict_pop g ts)"
  by (auto simp: store_keyed_def)

lemma store_keyed_set:
  "store_keyed d ts \<Longrightarrow> store_keyed (dict_set g c d) (dict_set g t ts)"
  by (auto simp: store_keyed_def)

lemma dict_pop_head: "wf_dict ((k, v) # d) \<Longrightarrow> dict_pop k ((k, v) # d) = d"
  by (simp add: wf_dict_def dict_pop_def AList.delete_idem)

text \<open>Eviction keeps the most recently used entries that fit.\<close>

lemma evict_oldest_spec:
  assumes "store_keyed d ts" and "cap \<ge> 0" and "evict_oldest cap d ts = (d', ts')"
  shows "store_keyed d' ts' \<and> int (length d') \<le> cap \<and> d' = drop (length d - nat cap) d \<and>
    (\<forall>k t. dict_get ts' k = Some t \<longrightarrow> dict_get ts k = Some t)"
  using assms
proof (induction cap d ts rule: evict_oldest.induct)
  case (2 cap gid c d ts)
  show ?case
  proof (cases "int (length ((gid, c) # d)) > cap")
    case True
    have "dict_pop gid ((gid, c) # d) = d" using 2(2) unfolding store_keyed_def by (blast intro: dict_pop_head)
    then have "store_keyed d (dict_pop gid ts)" using store_keyed_pop [OF 2(2), of gid] by (simp only:)
    moreover have "evict_oldest cap d (dict_pop gid ts) = (d', ts')" using 2(4) True by simp
    ultimately have ih: "store_keyed d' ts' \<and> int (length d') \<le> cap \<and> d' = drop (length d - nat cap) d \<and>
        (\<forall>k t. dict_get ts' k = Some t \<longrightarrow> dict_get (dict_pop gid ts) k = Some t)"
      using 2(1) [OF True _ 2(3)] by blast
    have "length ((gid, c) # d) - nat cap = Suc (length d - nat cap)" using True 2(3) by simp
    then have "d' = drop (length ((gid, c) # d) - nat cap) ((gid, c) # d)" using ih by simp
    moreover have "dict_get ts k = Some t" if "dict_get ts' k = Some t" for k t
    proof -
      have "dict_get (dict_pop gid ts) k = Some t" using ih that by blast
      then show ?thesis by (simp split: if_splits)
    qed
    ultimately show ?thesis using ih by blast
  next
    case False
    then have same: "d' = (gid, c) # d" "ts' = ts" using 2(4) by simp_all
    then have "int (length d') \<le> cap" using False by simp
    moreover from this have "length d' - nat cap = 0" by simp
    ultimately show ?thesis using 2(2) unfolding same by simp
  qed
qed simp

lemma evict_if_needed_ok:
  assumes "store_keyed (cs_data s) (cs_timestamps s)"
  shows "ctx_store_ok (evict_if_needed now s)"
proof -
  note k = evict_expired_keyed [OF assms, of now]
  obtain d ts where "evict_oldest (cs_max_entries s) (cs_data (evict_expired now s)) (cs_timestamps (evict_expired now s)) = (d, ts)"
    by (cases "evict_oldest (cs_max_entries s) (cs_data (evict_expired now s)) (cs_timestamps (evict_expired now s))")
  then show ?thesis
    using k evict_oldest_spec [OF k, of "cs_max_entries s"] by (auto simp: evict_if_needed_def Let_def ctx_store_ok_def)
qed

section \<open>Whole operations\<close>

datatype 'c store_op =
    Put time ident 'c
  | Get time ident
  | Get_Many time "ident list"
  | Delete ident
  | Delete_Many "ident list"
  | All_Ids time
  | Close

fun run_store_op :: "'c store_op \<Rightarrow> 'c ctx_store \<Rightarrow> 'c ctx_store" where
  "run_store_op (Put now gid c) s = snd (store_put now gid c s)"
| "run_store_op (Get now gid) s = snd (store_get now gid s)"
| "run_store_op (Get_Many now gids) s = snd (store_get_many now gids s)"
| "run_store_op (Delete gid) s = snd (store_delete gid s)"
| "run_store_op (Delete_Many gids) s = snd (store_delete_many gids s)"
| "run_store_op (All_Ids now) s = snd (all_goal_ids now s)"
| "run_store_op Close s = close_store s"

text \<open>The specification: the last write of each goal, and when it was made.\<close>

fun spec_op :: "'c store_op \<Rightarrow> (ident \<Rightarrow> ('c \<times> time) option) \<Rightarrow> (ident \<Rightarrow> ('c \<times> time) option)" where
  "spec_op (Put now gid c) m = m(gid \<mapsto> (c, now))"
| "spec_op (Delete gid) m = m(gid := None)"
| "spec_op (Delete_Many gids) m = (\<lambda>g. if g \<in> set gids then None else m g)"
| "spec_op Close m = (\<lambda>_. None)"
| "spec_op _ m = m"

definition represents :: "'c ctx_store \<Rightarrow> (ident \<Rightarrow> ('c \<times> time) option) \<Rightarrow> bool" where
  "represents s m \<longleftrightarrow>
     (\<forall>gid c t. dict_get (cs_data s) gid = Some c \<longrightarrow> dict_get (cs_timestamps s) gid = Some t \<longrightarrow> m gid = Some (c, t))"

lemma evict_if_needed_simps [simp]:
  "cs_max_entries (evict_if_needed now s) = cs_max_entries s" "cs_retention (evict_if_needed now s) = cs_retention s"
  "cs_closed (evict_if_needed now s) = cs_closed s"
  by (simp_all add: evict_if_needed_def Let_def split: prod.split)

text \<open>What eviction leaves was there before.\<close>

lemma dict_get_drop: "wf_dict d \<Longrightarrow> dict_get (drop n d) k = Some c \<Longrightarrow> dict_get d k = Some c"
proof -
  assume wf: "wf_dict d" and "dict_get (drop n d) k = Some c"
  then have "(k, c) \<in> set d" by (metis in_set_dropD map_of_SomeD)
  with wf show ?thesis by (simp add: dict_get_in)
qed

lemma evict_if_needed_sub:
  assumes "store_keyed (cs_data s) (cs_timestamps s)"
  shows "dict_get (cs_data (evict_if_needed now s)) k = Some c \<Longrightarrow> dict_get (cs_data s) k = Some c"
    and "dict_get (cs_timestamps (evict_if_needed now s)) k = Some t \<Longrightarrow> dict_get (cs_timestamps s) k = Some t"
proof -
  let ?e = "evict_expired now s"
  note keyed = evict_expired_keyed [OF assms, of now]
  obtain d ts where e: "evict_oldest (cs_max_entries s) (cs_data ?e) (cs_timestamps ?e) = (d, ts)"
    by (cases "evict_oldest (cs_max_entries s) (cs_data ?e) (cs_timestamps ?e)")
  have data: "cs_data (evict_if_needed now s) = (if cs_max_entries s \<le> 0 then cs_data ?e else d)"
    and times: "cs_timestamps (evict_if_needed now s) = (if cs_max_entries s \<le> 0 then cs_timestamps ?e else ts)"
    using e by (simp_all add: evict_if_needed_def Let_def)
  have spec: "d = drop (length (cs_data ?e) - nat (cs_max_entries s)) (cs_data ?e) \<and>
      (\<forall>k t. dict_get ts k = Some t \<longrightarrow> dict_get (cs_timestamps ?e) k = Some t)" if "cs_max_entries s > 0"
    using evict_oldest_spec [OF keyed _ e] that by simp
  have wf: "wf_dict (cs_data ?e)" using keyed by (simp add: store_keyed_def)
  {
    assume "dict_get (cs_data (evict_if_needed now s)) k = Some c"
    then have "dict_get (cs_data ?e) k = Some c"
      using data spec dict_get_drop [OF wf] by (cases "cs_max_entries s \<le> 0") auto
    then show "dict_get (cs_data s) k = Some c" using evict_expired_get(1) [OF assms] by blast
  }
  {
    assume "dict_get (cs_timestamps (evict_if_needed now s)) k = Some t"
    then have "dict_get (cs_timestamps ?e) k = Some t"
      using times spec by (cases "cs_max_entries s \<le> 0") auto
    then show "dict_get (cs_timestamps s) k = Some t" using evict_expired_get(2) [OF assms] by blast
  }
qed

lemma collect_entries_spec:
  "wf_dict d \<Longrightarrow> collect_entries gids out d = (out', d') \<Longrightarrow>
   wf_dict d' \<and> dict_get d' = dict_get d \<and>
   (\<forall>g. dict_get out' g = (if g \<in> set gids \<and> dict_get d g \<noteq> None then dict_get d g else dict_get out g))"
proof (induction gids arbitrary: out d)
  case (Cons gid gids)
  show ?case
  proof (cases "dict_get d gid")
    case None
    then show ?thesis using Cons.IH [OF Cons.prems(1), of out] Cons.prems(2) by auto
  next
    case (Some c)
    have same: "dict_get (move_to_end gid d) = dict_get d" by (rule ext) simp
    have "collect_entries gids (dict_set gid c out) (move_to_end gid d) = (out', d')" using Cons.prems(2) Some by simp
    from Cons.IH [OF move_to_end_wf [OF Cons.prems(1)] this] show ?thesis using Some by (auto simp: same)
  qed
qed simp

lemma delete_entries_spec:
  "store_keyed (cs_data s) (cs_timestamps s) \<Longrightarrow>
   delete_entries gids n s = (m, s') \<Longrightarrow>
   store_keyed (cs_data s') (cs_timestamps s') \<and> length (cs_data s') \<le> length (cs_data s) \<and>
   cs_max_entries s' = cs_max_entries s \<and> cs_retention s' = cs_retention s \<and> cs_closed s' = cs_closed s \<and>
   (\<forall>g. dict_get (cs_data s') g = (if g \<in> set gids then None else dict_get (cs_data s) g)) \<and>
   (\<forall>g. dict_get (cs_timestamps s') g = (if g \<in> set gids then None else dict_get (cs_timestamps s) g))"
proof (induction gids arbitrary: n s)
  case (Cons gid gids)
  have keys: "dict_get (cs_data s) gid = None \<longleftrightarrow> dict_get (cs_timestamps s) gid = None"
    using Cons.prems(1) by (simp add: store_keyed_def)
  show ?case
  proof (cases "dict_get (cs_data s) gid = None")
    case True
    then have "delete_entries gids n s = (m, s')" using Cons.prems(2) by simp
    from Cons.IH [OF Cons.prems(1) this] show ?thesis using True keys by auto
  next
    case False
    define s1 where "s1 = s\<lparr>cs_data := dict_pop gid (cs_data s), cs_timestamps := dict_pop gid (cs_timestamps s)\<rparr>"
    have run: "delete_entries gids (n + 1) s1 = (m, s')" using Cons.prems(2) False by (simp add: s1_def)
    have "store_keyed (cs_data s1) (cs_timestamps s1)" using store_keyed_pop [OF Cons.prems(1)] by (simp add: s1_def)
    from Cons.IH [OF this run] dict_pop_length [of gid "cs_data s"] show ?thesis
      by (auto simp: s1_def)
  qed
qed simp

lemma represents_sub:
  assumes "represents s m"
    and "\<And>g c. dict_get (cs_data s') g = Some c \<Longrightarrow> dict_get (cs_data s) g = Some c"
    and "\<And>g t. dict_get (cs_timestamps s') g = Some t \<Longrightarrow> dict_get (cs_timestamps s) g = Some t"
  shows "represents s' m"
  using assms unfolding represents_def by blast

text \<open>What every operation keeps: the store is within its bound and represents the specification.\<close>

definition store_refines :: "'c ctx_store \<Rightarrow> (ident \<Rightarrow> ('c \<times> time) option) \<Rightarrow> bool" where
  "store_refines s m \<longleftrightarrow> ctx_store_ok s \<and> represents s m \<and> (cs_closed s \<longrightarrow> cs_data s = [])"

lemma put_refines:
  assumes "store_refines s m"
  shows "store_refines (snd (store_put now gid c s)) (m(gid \<mapsto> (c, now)))"
proof (cases "cs_closed s")
  case True
  then show ?thesis using assms by (simp add: store_put_def store_refines_def represents_def)
next
  case opened: False
  have ok: "ctx_store_ok s" and rep: "represents s m" using assms by (simp_all add: store_refines_def)
  have keyed: "store_keyed (cs_data s) (cs_timestamps s)" using ok by (simp add: ctx_store_ok_def)
  define s1 where "s1 = s\<lparr>cs_data := dict_set gid c (cs_data s), cs_timestamps := dict_set gid now (cs_timestamps s)\<rparr>"
  have keyed1: "store_keyed (cs_data s1) (cs_timestamps s1)" using store_keyed_set [OF keyed] by (simp add: s1_def)
  have rep1: "represents s1 (m(gid \<mapsto> (c, now)))" using rep by (auto simp: represents_def s1_def)
  show ?thesis
  proof (cases "dict_get (cs_data s) gid = None")
    case True
    have "represents (evict_if_needed now s1) (m(gid \<mapsto> (c, now)))"
      by (rule represents_sub [OF rep1]) (rule evict_if_needed_sub [OF keyed1], assumption)+
    moreover have "cs_closed (evict_if_needed now s1) = False" using opened by (simp add: s1_def)
    moreover have "snd (store_put now gid c s) = evict_if_needed now s1"
      using opened True by (simp add: store_put_def s1_def)
    ultimately show ?thesis using evict_if_needed_ok [OF keyed1] by (simp add: store_refines_def)
  next
    case False
    define s2 where "s2 = s1\<lparr>cs_data := move_to_end gid (cs_data s1)\<rparr>"
    have wf: "wf_dict (cs_data s1)" using keyed1 by (simp add: store_keyed_def)
    have "gid \<in> set (dict_keys (cs_data s))" using False by (simp add: dict_get_None del: set_map)
    then have "length (dict_set gid c (cs_data s)) = length (cs_data s)"
      by (metis dict_keys_set length_map)
    then have "length (cs_data s2) = length (cs_data s)"
      using move_to_end_length [OF wf, of gid] by (simp add: s2_def) (simp add: s1_def)
    then have "ctx_store_ok s2"
      using ok keyed1 move_to_end_wf [OF wf] by (simp add: ctx_store_ok_def store_keyed_def s2_def s1_def)
    moreover have "represents s2 (m(gid \<mapsto> (c, now)))"
      by (rule represents_sub [OF rep1]) (simp_all add: s2_def)
    moreover have "snd (store_put now gid c s) = s2"
      using opened False by (simp add: store_put_def s1_def s2_def)
    ultimately show ?thesis using opened by (simp add: store_refines_def s2_def s1_def)
  qed
qed

lemma expire_refines:
  assumes "store_refines s m"
  shows "store_refines (evict_expired now s) m"
proof -
  have keyed: "store_keyed (cs_data s) (cs_timestamps s)" using assms by (simp add: store_refines_def ctx_store_ok_def)
  have "represents s m" using assms by (simp add: store_refines_def)
  then have "represents (evict_expired now s) m"
    by (rule represents_sub) (use evict_expired_get [OF keyed] in blast)+
  moreover have "ctx_store_ok (evict_expired now s)"
    using assms evict_expired_keyed [OF keyed, of now] evict_expired_length [of now s]
    by (auto simp: store_refines_def ctx_store_ok_def)
  moreover have "cs_data s = [] \<Longrightarrow> cs_data (evict_expired now s) = []"
    using evict_expired_length [of now s] by simp
  ultimately show ?thesis using assms by (simp add: store_refines_def)
qed

lemma reorder_refines:
  assumes "store_refines s m" and "wf_dict d" and "dict_get d = dict_get (cs_data s)" and "\<not> cs_closed s"
  shows "store_refines (s\<lparr>cs_data := d\<rparr>) m"
proof -
  have "length d = length (cs_data s)"
    using assms by (simp add: wf_dict_length store_refines_def ctx_store_ok_def store_keyed_def)
  then show ?thesis
    using assms unfolding store_refines_def ctx_store_ok_def store_keyed_def represents_def by simp
qed

lemma store_op_refines:
  assumes "store_refines s m"
  shows "store_refines (run_store_op op s) (spec_op op m)"
proof (cases op)
  case (Put now gid c)
  then show ?thesis using put_refines [OF assms] by simp
next
  case (Get now gid)
  let ?e = "evict_expired now s"
  have e: "store_refines ?e m" by (rule expire_refines [OF assms])
  then have "wf_dict (cs_data ?e)" by (simp add: store_refines_def ctx_store_ok_def store_keyed_def)
  then have "\<not> cs_closed s \<Longrightarrow> store_refines (?e\<lparr>cs_data := move_to_end gid (cs_data ?e)\<rparr>) m"
    by (intro reorder_refines [OF e]) (auto simp: move_to_end_wf)
  then show ?thesis using assms e by (simp add: Get store_get_def Let_def split: option.split)
next
  case (Get_Many now gids)
  let ?e = "evict_expired now s"
  have e: "store_refines ?e m" by (rule expire_refines [OF assms])
  then have wf: "wf_dict (cs_data ?e)" by (simp add: store_refines_def ctx_store_ok_def store_keyed_def)
  obtain out d where run: "collect_entries gids [] (cs_data ?e) = (out, d)" by (cases "collect_entries gids [] (cs_data ?e)")
  have "\<not> cs_closed s \<Longrightarrow> store_refines (?e\<lparr>cs_data := d\<rparr>) m"
    using collect_entries_spec [OF wf run] by (intro reorder_refines [OF e]) auto
  then show ?thesis using assms run by (simp add: Get_Many store_get_many_def)
next
  case (Delete gid)
  have keyed: "store_keyed (cs_data s) (cs_timestamps s)" using assms by (simp add: store_refines_def ctx_store_ok_def)
  have "represents (s\<lparr>cs_data := dict_pop gid (cs_data s), cs_timestamps := dict_pop gid (cs_timestamps s)\<rparr>) (m(gid := None))"
    using assms by (auto simp: store_refines_def represents_def)
  moreover have "length (dict_pop gid (cs_data s)) \<le> length (cs_data s)" by (rule dict_pop_length)
  moreover have "represents s (m(gid := None))" if "cs_closed s"
    using assms that by (simp add: store_refines_def represents_def)
  ultimately show ?thesis
    using assms store_keyed_pop [OF keyed, of gid]
    by (auto simp: Delete store_delete_def store_refines_def ctx_store_ok_def)
next
  case (Delete_Many gids)
  have keyed: "store_keyed (cs_data s) (cs_timestamps s)" using assms by (simp add: store_refines_def ctx_store_ok_def)
  obtain n s' where run: "delete_entries gids 0 s = (n, s')" by (cases "delete_entries gids 0 s")
  note spec = delete_entries_spec [OF keyed run]
  show ?thesis
  proof (cases "cs_closed s")
    case True
    then show ?thesis using assms by (simp add: Delete_Many store_delete_many_def store_refines_def represents_def)
  next
    case False
    have "represents s' (\<lambda>g. if g \<in> set gids then None else m g)"
      using assms spec by (simp add: store_refines_def represents_def)
    moreover have "cs_data s' = []" if "cs_data s = []" using spec that by simp
    moreover have "ctx_store_ok s'" using assms spec by (auto simp: store_refines_def ctx_store_ok_def)
    ultimately show ?thesis using False spec by (simp add: Delete_Many store_delete_many_def run store_refines_def)
  qed
next
  case (All_Ids now)
  then show ?thesis using assms expire_refines [OF assms] by (simp add: all_goal_ids_def Let_def)
next
  case Close
  then show ?thesis
    by (simp add: close_store_def store_refines_def ctx_store_ok_def store_keyed_def represents_def)
qed

lemma store_ops_refine:
  "store_refines s m \<Longrightarrow> store_refines (foldl (\<lambda>s op. run_store_op op s) s ops) (foldl (\<lambda>m op. spec_op op m) m ops)"
  by (induction ops arbitrary: s m) (simp_all add: store_op_refines)

lemma new_store_refines: "store_refines (new_ctx_store cap retention) (\<lambda>_. None)"
  by (simp add: new_ctx_store_def store_refines_def ctx_store_ok_def store_keyed_def represents_def)

lemma store_ops_config:
  "cs_max_entries (foldl (\<lambda>s op. run_store_op op s) s ops) = cs_max_entries s \<and>
   cs_retention (foldl (\<lambda>s op. run_store_op op s) s ops) = cs_retention s"
proof (induction ops arbitrary: s)
  case (Cons op ops)
  have del: "cs_max_entries (snd (delete_entries gids n s)) = cs_max_entries s \<and> cs_retention (snd (delete_entries gids n s)) = cs_retention s"
    for gids n and s :: "'a ctx_store"
    by (induction gids n s rule: delete_entries.induct) auto
  have "cs_max_entries (run_store_op op s) = cs_max_entries s \<and> cs_retention (run_store_op op s) = cs_retention s"
    by (cases op) (simp_all add: store_put_def store_get_def store_get_many_def store_delete_def store_delete_many_def del
      all_goal_ids_def close_store_def Let_def case_prod_beta split: option.split)
  with Cons show ?case by simp
qed simp

text \<open>Claim C27. The bounded store implements the table of last writes: after any operations on a new store it holds at
  most \<open>max_entries\<close> contributions when that is positive, and a read answers that it is closed, answers
  nothing, or returns the last contribution written for the goal, which was not deleted since and is
  not older than the retention when that is positive.\<close>

theorem context_store_refines_last_writes:
  "(let s = foldl (\<lambda>s op. run_store_op op s) (new_ctx_store cap retention) ops;
        m = foldl (\<lambda>m op. spec_op op m) (\<lambda>_. None) ops
    in (cap \<le> 0 \<or> int (length (cs_data s)) \<le> cap) \<and>
       fst (store_get now gid s) \<in> {Inl store_closed, Inr None} \<union>
         {Inr (Some c) | c t. m gid = Some (c, t) \<and> (retention \<le> 0 \<or> int t \<ge> int now - retention)})"
proof -
  define s where "s = foldl (\<lambda>s op. run_store_op op s) (new_ctx_store cap retention :: 'a ctx_store) ops"
  define m where "m = foldl (\<lambda>m op. spec_op op m) (\<lambda>_. None :: ('a \<times> time) option) ops"
  have ref: "store_refines s m" unfolding s_def m_def by (rule store_ops_refine [OF new_store_refines])
  have conf: "cs_max_entries s = cap" "cs_retention s = retention"
    using store_ops_config [of "new_ctx_store cap retention" ops] by (simp_all add: s_def new_ctx_store_def)
  have ok: "ctx_store_ok s" using ref by (simp add: store_refines_def)
  then have keyed: "store_keyed (cs_data s) (cs_timestamps s)" by (simp add: ctx_store_ok_def)
  have "cap \<le> 0 \<or> int (length (cs_data s)) \<le> cap" using ok conf by (auto simp: ctx_store_ok_def)
  moreover have "\<exists>t. m gid = Some (c, t) \<and> (retention \<le> 0 \<or> int t \<ge> int now - retention)"
    if "dict_get (cs_data (evict_expired now s)) gid = Some c" for c
  proof -
    have c: "dict_get (cs_data s) gid = Some c"
      and age: "retention > 0 \<longrightarrow> (\<exists>t. dict_get (cs_timestamps s) gid = Some t \<and> int t \<ge> int now - retention)"
      using that unfolding evict_expired_get(1) [OF keyed] conf by blast+
    have "dict_get (cs_timestamps s) gid \<noteq> None" using keyed c by (metis option.distinct(1) store_keyed_def)
    then obtain t where t: "dict_get (cs_timestamps s) gid = Some t" by blast
    then have "m gid = Some (c, t)" using ref c by (simp add: store_refines_def represents_def)
    with age t show ?thesis by auto
  qed
  then have "fst (store_get now gid s) \<in> {Inl store_closed, Inr None} \<union>
       {Inr (Some c) | c t. m gid = Some (c, t) \<and> (retention \<le> 0 \<or> int t \<ge> int now - retention)}"
    by (cases "dict_get (cs_data (evict_expired now s)) gid") (auto simp: store_get_def Let_def)
  ultimately show ?thesis by (simp add: Let_def s_def [symmetric] m_def [symmetric])
qed

section \<open>A fresh contribution stays\<close>

lemma dict_pop_snoc: "k \<noteq> g \<Longrightarrow> dict_pop k (d @ [(g, c)]) = dict_pop k d @ [(g, c)]"
  by (simp add: dict_pop_def AList.delete_eq)

lemma pop_fold_snoc:
  "g \<notin> set gids \<Longrightarrow> foldl (\<lambda>d gid. dict_pop gid d) (d @ [(g, c)]) gids = foldl (\<lambda>d gid. dict_pop gid d) d gids @ [(g, c)]"
  by (induction gids arbitrary: d) (auto simp: dict_pop_snoc)

lemma evict_if_needed_last:
  assumes keyed: "store_keyed (cs_data s) (cs_timestamps s)" and data: "cs_data s = d @ [(gid, c)]"
    and ts: "dict_get (cs_timestamps s) gid = Some now"
  shows "dict_get (cs_data (evict_if_needed now s)) gid = Some c"
proof -
  let ?e = "evict_expired now s"
  note keyed1 = evict_expired_keyed [OF keyed, of now]
  have wf: "wf_dict (cs_timestamps s)" using keyed by (simp add: store_keyed_def)
  have kept: "cs_retention s > 0 \<Longrightarrow> gid \<notin> set (map fst (filter (\<lambda>(g, t). int t < int now - cs_retention s) (cs_timestamps s)))"
    using expired_iff [OF wf, of gid "int now - cs_retention s"] ts by auto
  obtain d1 where d1: "cs_data ?e = d1 @ [(gid, c)]"
    using data pop_fold_snoc [OF kept, of d c] by (cases "cs_retention s \<le> 0") (simp_all add: evict_expired_def Let_def del: set_map)
  have wf1: "wf_dict (cs_data ?e)" using keyed1 by (simp add: store_keyed_def)
  show ?thesis
  proof (cases "cs_max_entries s \<le> 0")
    case True
    then have "cs_data (evict_if_needed now s) = cs_data ?e" by (simp add: evict_if_needed_def Let_def)
    moreover have "(gid, c) \<in> set (cs_data ?e)" by (simp add: d1)
    then have "dict_get (cs_data ?e) gid = Some c" using wf1 by (simp only: dict_get_in)
    ultimately show ?thesis by simp
  next
    case False
    obtain d2 t2 where e: "evict_oldest (cs_max_entries s) (cs_data ?e) (cs_timestamps ?e) = (d2, t2)"
      by (cases "evict_oldest (cs_max_entries s) (cs_data ?e) (cs_timestamps ?e)")
    have spec: "store_keyed d2 t2" "d2 = drop (length (cs_data ?e) - nat (cs_max_entries s)) (cs_data ?e)"
      using evict_oldest_spec [OF keyed1 _ e] False by auto
    then have "(gid, c) \<in> set d2" using False by (simp add: d1)
    then have "dict_get d2 gid = Some c" using spec(1) by (simp add: dict_get_in store_keyed_def)
    then show ?thesis using e False by (simp add: evict_if_needed_def Let_def)
  qed
qed

text \<open>A contribution just written is found: eviction never drops the entry it made room for, and a read
  within the retention returns it.\<close>

theorem put_then_get:
  assumes "store_refines s m" and "\<not> cs_closed s"
    and "cs_retention s \<le> 0 \<or> int later - cs_retention s \<le> int now"
  shows "fst (store_get later gid (snd (store_put now gid c s))) = Inr (Some c)"
proof -
  define s' where "s' = snd (store_put now gid c s)"
  have keyed: "store_keyed (cs_data s) (cs_timestamps s)" using assms(1) by (simp add: store_refines_def ctx_store_ok_def)
  define s1 where "s1 = s\<lparr>cs_data := dict_set gid c (cs_data s), cs_timestamps := dict_set gid now (cs_timestamps s)\<rparr>"
  have keyed1: "store_keyed (cs_data s1) (cs_timestamps s1)" using store_keyed_set [OF keyed] by (simp add: s1_def)
  have ref: "store_refines s' (m(gid \<mapsto> (c, now)))" unfolding s'_def by (rule put_refines [OF assms(1)])
  have conf: "cs_retention s' = cs_retention s" "cs_closed s' = False"
    using assms(2) by (auto simp: s'_def store_put_def)
  have data: "dict_get (cs_data s') gid = Some c"
  proof (cases "dict_get (cs_data s) gid = None")
    case True
    then have "cs_data s1 = cs_data s @ [(gid, c)]" by (simp add: s1_def dict_get_None dict_set_new del: set_map)
    from evict_if_needed_last [OF keyed1 this, of now] show ?thesis
      using True assms(2) by (simp add: s'_def store_put_def s1_def)
  next
    case False
    then show ?thesis using assms(2) by (simp add: s'_def store_put_def)
  qed
  have keyed': "store_keyed (cs_data s') (cs_timestamps s')" using ref by (simp add: store_refines_def ctx_store_ok_def)
  then have "dict_get (cs_timestamps s') gid \<noteq> None" using data by (metis option.distinct(1) store_keyed_def)
  then obtain t where t: "dict_get (cs_timestamps s') gid = Some t" by blast
  have "represents s' (m(gid \<mapsto> (c, now)))" using ref by (simp add: store_refines_def)
  then have "(m(gid \<mapsto> (c, now))) gid = Some (c, t)" using data t unfolding represents_def by blast
  then have "t = now" by simp
  then have "dict_get (cs_data (evict_expired later s')) gid = Some c"
    unfolding evict_expired_get(1) [OF keyed'] using data t assms(3) conf by auto
  then show ?thesis using conf by (simp add: store_get_def Let_def s'_def [symmetric])
qed

theorem put_then_get_witness:
  "fst (store_get 12 ''b'' (snd (store_put 10 ''b'' (7 :: nat) (snd (store_put 9 ''a'' 5 (new_ctx_store 1 4)))))) = Inr (Some 7)"
  using put_then_get [OF put_refines [OF new_store_refines [of 1 4]], of 9 "''a''" 5 12 10 "''b''" 7]
  by (simp add: new_ctx_store_def store_put_def)

text \<open>A read protects an entry from eviction: the entry that goes is not the one written first.\<close>

theorem eviction_follows_use:
  "dict_keys (cs_data (foldl (\<lambda>s op. run_store_op op s) (new_ctx_store 2 0)
      [Put 1 ''a'' (1 :: nat), Put 2 ''b'' 2, Get 3 ''a'', Put 4 ''c'' 3])) = [''a'', ''c'']"
  by code_simp

end
