(* ===== verification/Context_Projector.thy ===== *)
theory Context_Projector
  imports Goal_Planner Context_Store "HOL-Library.Multiset"
begin

text \<open>
  \<open>ContextProjector\<close> (\<open>dispatch/projector.py\<close> of the autopilot, with the types of
  \<open>goal_contracts.py\<close>): what a goal about to run is told about its ancestors. The store of contributions
  is a parameter (\<open>get_many\<close>), as are the product of a relevance and its recency weight in floating
  point, the validation of an effect read from a report and the text of nested JSON.
\<close>

section \<open>Contracts\<close>

datatype effect_kind = Produce | Mutate | Observe | Communicate | Decide

record goal_effect =
  ge_kind :: effect_kind
  ge_ref :: string
  ge_statement :: string
  ge_digest :: "string option"
  ge_confidence :: rat
  ge_goal_id_origin :: "ident option"

record finding =
  fd_summary :: string
  fd_relevance_score :: rat

record parent_finding =
  pf_goal_id_origin :: ident
  pf_summary :: string
  pf_relevance_score :: rat

datatype summary_outcome = OutCompleted | OutFailed | OutSkipped

record step_summary =
  ss_id :: ident
  ss_action :: string
  ss_outcome :: summary_outcome
  ss_duration_ms :: "int option"

record prior_step_summary =
  pr_id :: ident
  pr_description :: string
  pr_status :: summary_outcome
  pr_duration_ms :: "int option"
  pr_goal_id_origin :: ident

record tool_call_stats =
  tc_counts_by_name :: "(string, int) dict"
  tc_failures_by_name :: "(string, int) dict"

record contribution =
  cb_plan_steps_executed :: "step_summary list"
  cb_effects :: "goal_effect list"
  cb_findings :: "finding list"
  cb_tool_call_stats :: tool_call_stats
  cb_wave_plan :: "json option"
  cb_wave_plan_path :: "string option"

datatype report_turn =
    UserTurn ident string
  | AITurn ident string string "string list" "goal_effect list"

record context_bundle =
  bd_prior_plan_steps :: "prior_step_summary list"
  bd_prior_effects :: "goal_effect list"
  bd_findings :: "parent_finding list"
  bd_tool_call_summary :: tool_call_stats
  bd_operator_guidance :: "string list"
  bd_cached_system_prompt_hash :: "string option"
  bd_preamble_messages :: "report_turn list"

definition MAX_PREAMBLE_TURNS :: nat where
  "MAX_PREAMBLE_TURNS = 12"

definition exceeds :: "string \<Rightarrow> nat \<Rightarrow> nat \<Rightarrow> exn" where
  "exceeds field n cap =
     ValueError (''GoalDispatchContextBundle.'' @ field @ '' ('' @ show_nat n @ '') exceeds max '' @ show_nat cap)"

text \<open>The constructor with its validator.\<close>

definition make_bundle ::
  "prior_step_summary list \<Rightarrow> goal_effect list \<Rightarrow> parent_finding list \<Rightarrow> tool_call_stats \<Rightarrow> report_turn list \<Rightarrow>
   context_bundle outcome" where
  "make_bundle steps effects findings stats preamble =
     (if length findings > 20 then Inl (exceeds ''findings'' (length findings) 20)
      else if length effects > 50 then Inl (exceeds ''prior_effects'' (length effects) 50)
      else if length steps > 30 then Inl (exceeds ''prior_plan_steps'' (length steps) 30)
      else if length preamble > MAX_PREAMBLE_TURNS then Inl (exceeds ''preamble_messages'' (length preamble) MAX_PREAMBLE_TURNS)
      else Inr \<lparr>bd_prior_plan_steps = steps, bd_prior_effects = effects, bd_findings = findings,
                bd_tool_call_summary = stats, bd_operator_guidance = [], bd_cached_system_prompt_hash = None,
                bd_preamble_messages = preamble\<rparr>)"

definition no_stats :: tool_call_stats where
  "no_stats = \<lparr>tc_counts_by_name = [], tc_failures_by_name = []\<rparr>"

record projection_config =
  pc_max_findings :: nat
  pc_max_effects :: nat
  pc_max_plan_steps :: nat

section \<open>Merging the parents\<close>

text \<open>\<open>sort(key=..., reverse=True)\<close> keeps the order of equal elements.\<close>

definition sort_desc :: "('a \<Rightarrow> 'k::linorder) \<Rightarrow> 'a list \<Rightarrow> 'a list" where
  "sort_desc key xs = rev (sort_key key (rev xs))"

definition recency :: "(ident, goal_node) dict \<Rightarrow> ident \<Rightarrow> time" where
  "recency all_goals pid = (case dict_get all_goals pid of None \<Rightarrow> 0 | Some p \<Rightarrow> g_updated_at p)"

definition order_by_recency ::
  "ident list \<Rightarrow> (ident, contribution) dict \<Rightarrow> (ident, goal_node) dict \<Rightarrow> (ident \<times> contribution) list" where
  "order_by_recency parent_ids contributions all_goals =
     sort_desc (\<lambda>p. recency all_goals (fst p))
       (concat (map (\<lambda>pid. case dict_get contributions pid of None \<Rightarrow> [] | Some c \<Rightarrow> [(pid, c)]) parent_ids))"

definition prior_step :: "ident \<Rightarrow> step_summary \<Rightarrow> prior_step_summary" where
  "prior_step pid s = \<lparr>pr_id = ss_id s, pr_description = ss_action s, pr_status = ss_outcome s,
     pr_duration_ms = ss_duration_ms s, pr_goal_id_origin = pid\<rparr>"

fun merge_plan_steps ::
  "nat \<Rightarrow> (ident \<times> contribution) list \<Rightarrow> prior_step_summary list \<Rightarrow> prior_step_summary list" where
  "merge_plan_steps cap [] merged = take cap merged"
| "merge_plan_steps cap ((pid, c) # pairs) merged =
     (let merged' = merged @ map (prior_step pid) (cb_plan_steps_executed c)
      in if length merged' \<ge> cap then take cap merged' else merge_plan_steps cap pairs merged')"

definition projected_effect :: "ident \<Rightarrow> goal_effect \<Rightarrow> goal_effect" where
  "projected_effect pid e = e\<lparr>ge_ref := py_strip (ge_ref e), ge_goal_id_origin := Some pid\<rparr>"

text \<open>The inner loop also says whether it returned from the function.\<close>

fun merge_parent_effects ::
  "nat \<Rightarrow> ident \<Rightarrow> goal_effect list \<Rightarrow> string set \<Rightarrow> goal_effect list \<Rightarrow> bool \<times> string set \<times> goal_effect list" where
  "merge_parent_effects cap pid [] seen merged = (False, seen, merged)"
| "merge_parent_effects cap pid (e # es) seen merged =
     (let ref = py_strip (ge_ref e)
      in if ref = [] \<or> ref \<in> seen then merge_parent_effects cap pid es seen merged
         else (let merged' = merged @ [projected_effect pid e]
               in if length merged' \<ge> cap then (True, insert ref seen, merged')
                  else merge_parent_effects cap pid es (insert ref seen) merged'))"

fun merge_effects :: "nat \<Rightarrow> (ident \<times> contribution) list \<Rightarrow> string set \<Rightarrow> goal_effect list \<Rightarrow> goal_effect list" where
  "merge_effects cap [] seen merged = merged"
| "merge_effects cap ((pid, c) # pairs) seen merged =
     (case merge_parent_effects cap pid (cb_effects c) seen merged of
        (returned, seen', merged') \<Rightarrow> if returned then merged' else merge_effects cap pairs seen' merged')"

text \<open>\<open>weighted r i n\<close> is the floating-point value of \<open>r * (1.0 - 0.5 * i / n)\<close>.\<close>

definition merge_findings ::
  "(rat \<Rightarrow> nat \<Rightarrow> nat \<Rightarrow> rat) \<Rightarrow> nat \<Rightarrow> (ident \<times> contribution) list \<Rightarrow> parent_finding list" where
  "merge_findings weighted cap pairs =
     (let n = max (length pairs) 1;
          ranked = concat (map (\<lambda>(idx, pid, c).
            map (\<lambda>f. (weighted (fd_relevance_score f) idx n,
                      \<lparr>pf_goal_id_origin = pid, pf_summary = fd_summary f, pf_relevance_score = fd_relevance_score f\<rparr>))
              (cb_findings c)) (zip [0..<length pairs] pairs))
      in map snd (take cap (sort_desc fst ranked)))"

definition add_counts :: "(string, int) dict \<Rightarrow> (string, int) dict \<Rightarrow> (string, int) dict" where
  "add_counts counts new =
     foldl (\<lambda>d (name, n). dict_set name ((case dict_get d name of None \<Rightarrow> 0 | Some m \<Rightarrow> m) + n) d) counts new"

definition merge_tool_stats :: "(ident \<times> contribution) list \<Rightarrow> tool_call_stats" where
  "merge_tool_stats pairs =
     \<lparr>tc_counts_by_name = foldl (\<lambda>d (pid, c). add_counts d (tc_counts_by_name (cb_tool_call_stats c))) [] pairs,
      tc_failures_by_name = foldl (\<lambda>d (pid, c). add_counts d (tc_failures_by_name (cb_tool_call_stats c))) [] pairs\<rparr>"

section \<open>The ancestors\<close>

definition parents_of :: "goal_node \<Rightarrow> ident list" where
  "parents_of g = filter (\<lambda>pid. pid \<noteq> []) (g_depends_on g @ g_informs g)"

definition known_parents :: "(ident, goal_node) dict \<Rightarrow> ident set" where
  "known_parents all_goals = (\<Union>g \<in> set (dict_values all_goals). set (parents_of g))"

lemma finite_known_parents: "finite (known_parents all_goals)"
  by (simp add: known_parents_def)

lemma parents_known: "dict_get all_goals aid = Some node \<Longrightarrow> set (parents_of node) \<subseteq> known_parents all_goals"
  unfolding known_parents_def by (blast dest: dict_get_value)

lemma card_less_insert:
  "finite U \<Longrightarrow> a \<in> U \<Longrightarrow> a \<notin> V \<Longrightarrow> U' \<subseteq> U \<Longrightarrow> card (U' - insert a V) < card (U - V)"
  by (rule psubset_card_mono) auto

text \<open>The breadth-first walk; the result maps every id it visited to its parents, in the order of the visits.\<close>

function ancestor_walk ::
  "(ident, goal_node) dict \<Rightarrow> ident list \<Rightarrow> ident set \<Rightarrow> (ident, ident set) dict \<Rightarrow> (ident, ident set) dict" where
  "ancestor_walk all_goals [] visited edges = edges"
| "ancestor_walk all_goals (aid # queue) visited edges =
     (if aid \<in> visited then ancestor_walk all_goals queue visited edges
      else
        (case dict_get all_goals aid of
           None \<Rightarrow> ancestor_walk all_goals queue (insert aid visited) (dict_set aid {} edges)
         | Some node \<Rightarrow>
             ancestor_walk all_goals
               (queue @ filter (\<lambda>pid. pid \<notin> insert aid visited) (parents_of node))
               (insert aid visited) (dict_set aid (set (parents_of node)) edges)))"
  by pat_completeness auto

termination
proof (relation "measures [\<lambda>(all_goals, queue, visited, edges). card ((known_parents all_goals \<union> set queue) - visited),
                           \<lambda>(all_goals, queue, visited, edges). length queue]", goal_cases)
  case 1
  show ?case by simp
next
  case (2 all_goals aid queue visited edges)
  then have "(known_parents all_goals \<union> set (aid # queue)) - visited = (known_parents all_goals \<union> set queue) - visited" by auto
  then show ?case by simp
next
  case (3 all_goals aid queue visited edges)
  then show ?case
    using card_less_insert [of "known_parents all_goals \<union> set (aid # queue)" aid visited "known_parents all_goals \<union> set queue"]
    by (auto simp: finite_known_parents)
next
  case (4 all_goals aid queue visited edges node)
  let ?q = "queue @ filter (\<lambda>pid. pid \<notin> insert aid visited) (parents_of node)"
  have "known_parents all_goals \<union> set ?q \<subseteq> known_parents all_goals \<union> set (aid # queue)"
    using parents_known [OF 4(2)] by auto
  then show ?case
    using 4 card_less_insert [of "known_parents all_goals \<union> set (aid # queue)" aid visited "known_parents all_goals \<union> set ?q"]
    by (simp add: finite_known_parents)
qed

definition level_key :: "(ident, goal_node) dict \<Rightarrow> ident \<Rightarrow> time \<times> ident" where
  "level_key all_goals aid = ((case dict_get all_goals aid of None \<Rightarrow> 0 | Some g \<Rightarrow> g_created_at g), aid)"

definition level_roots :: "(ident, ident set) dict \<Rightarrow> ident list" where
  "level_roots remaining =
     (let keys = set (dict_keys remaining);
          roots = map fst (filter (\<lambda>(aid, deps). deps \<inter> keys = {}) remaining)
      in if roots = [] then [Min keys] else roots)"

lemma level_roots_known:
  assumes "remaining \<noteq> []"
  shows "level_roots remaining \<noteq> [] \<and> set (level_roots remaining) \<subseteq> set (dict_keys remaining)"
proof -
  have "Min (set (dict_keys remaining)) \<in> set (dict_keys remaining)" using assms by (intro Min_in) simp_all
  then show ?thesis by (auto simp: level_roots_def Let_def)
qed

function topo_order :: "(ident, goal_node) dict \<Rightarrow> (ident, ident set) dict \<Rightarrow> ident list" where
  "topo_order all_goals remaining =
     (if remaining = [] then []
      else
        (let roots = level_roots remaining
         in sort_key (level_key all_goals) roots @
            topo_order all_goals (filter (\<lambda>(aid, deps). aid \<notin> set roots) remaining)))"
  by pat_completeness auto

termination
proof (relation "measure (\<lambda>(all_goals, remaining). length remaining)", goal_cases)
  case (2 all_goals remaining roots)
  then obtain r where "r \<in> set roots" "r \<in> set (dict_keys remaining)"
    using level_roots_known [of remaining] by (metis list.set_intros(1) neq_Nil_conv subsetD)
  then obtain deps where "(r, deps) \<in> set remaining" by auto
  then have "length (filter (\<lambda>(aid, deps). aid \<notin> set roots) remaining) < length remaining"
    using \<open>r \<in> set roots\<close> length_filter_less [of "(r, deps)" remaining "\<lambda>(aid, deps). aid \<notin> set roots"] by simp
  then show ?case by simp
qed simp

declare topo_order.simps [simp del]

definition collect_ancestors :: "goal_node \<Rightarrow> (ident, goal_node) dict \<Rightarrow> goal_node list" where
  "collect_ancestors goal all_goals =
     List.map_filter (dict_get all_goals)
       (topo_order all_goals (ancestor_walk all_goals (parents_of goal) {} []))"

section \<open>The transcript of the ancestors\<close>

definition synthesize_response :: "contribution \<Rightarrow> string" where
  "synthesize_response c =
     (case filter (\<lambda>t. t \<noteq> []) (map (\<lambda>f. py_strip (fd_summary f)) (cb_findings c)) of
        [] \<Rightarrow> []
      | t # _ \<Rightarrow> take 2000 t)"

text \<open>\<open>report["effects"][:8]\<close>: a string has characters, which are no objects; an object cannot be sliced.\<close>

definition report_effects :: "(json \<Rightarrow> goal_effect option) \<Rightarrow> json \<Rightarrow> goal_effect list outcome" where
  "report_effects validate j =
     (case j of
        JList xs \<Rightarrow> Inr (List.map_filter (\<lambda>x. case x of JObj _ \<Rightarrow> validate x | _ \<Rightarrow> None) (take 8 xs))
      | JStr _ \<Rightarrow> Inr []
      | _ \<Rightarrow> Inl (TypeError ''object is not subscriptable''))"

definition build_ai_turn ::
  "(json \<Rightarrow> string) \<Rightarrow> (json \<Rightarrow> goal_effect option) \<Rightarrow> goal_node \<Rightarrow> contribution \<Rightarrow> report_turn outcome" where
  "build_ai_turn render validate node c =
     (case g_report node of
        Some ((k, v) # rest) \<Rightarrow>
          (let report = (k, v) # rest;
               outcome0 = py_strip (str_of_json render (json_or (dict_get report ''outcome'') (JStr ''unknown'')));
               outcome = (if outcome0 = [] then ''unknown'' else outcome0);
               summary0 = py_strip (str_of_json render (json_or (dict_get report ''summary'') (JStr [])));
               summary = (if summary0 = [] then ''Loop ended with outcome='' @ outcome else summary0)
           in case strs_of_json render (json_or (dict_get report ''findings'') (JList [])) of
                Inl e \<Rightarrow> Inl e
              | Inr raw \<Rightarrow>
                  (case report_effects validate (json_or (dict_get report ''effects'') (JList [])) of
                     Inl e \<Rightarrow> Inl e
                   | Inr effects \<Rightarrow>
                       Inr (AITurn (g_id node) outcome (take 2000 summary)
                              (take 8 (filter (\<lambda>t. t \<noteq> []) (map py_strip raw))) effects)))
      | _ \<Rightarrow>
          (let summary = synthesize_response c
           in Inr (AITurn (g_id node) ''completed''
                     (take 2000 (if summary = [] then ''Loop ended for goal '' @ g_id node else summary))
                     [] (take 8 (cb_effects c)))))"

definition candidate_pairs :: "goal_node list \<Rightarrow> (ident, contribution) dict \<Rightarrow> (goal_node \<times> contribution) list" where
  "candidate_pairs ancestors contributions =
     List.map_filter (\<lambda>n. map_option (\<lambda>c. (n, c)) (dict_get contributions (g_id n))) ancestors"

definition kept_pairs :: "(goal_node \<times> contribution) list \<Rightarrow> (goal_node \<times> contribution) list" where
  "kept_pairs pairs =
     (let max_pairs = MAX_PREAMBLE_TURNS div 2
      in if length pairs > max_pairs
         then sort_key (\<lambda>p. g_created_at (fst p)) (take max_pairs (sort_desc (\<lambda>p. g_updated_at (fst p)) pairs))
         else pairs)"

fun emit_pairs ::
  "(json \<Rightarrow> string) \<Rightarrow> (json \<Rightarrow> goal_effect option) \<Rightarrow> (goal_node \<times> contribution) list \<Rightarrow> report_turn list \<Rightarrow>
   report_turn list outcome" where
  "emit_pairs render validate [] out = Inr out"
| "emit_pairs render validate ((n, c) # pairs) out =
     (if length out + 2 > MAX_PREAMBLE_TURNS then Inr out
      else (case build_ai_turn render validate n c of
              Inl e \<Rightarrow> Inl e
            | Inr ai \<Rightarrow>
                emit_pairs render validate pairs
                  (out @ [UserTurn (g_id n) (take 2000 (py_strip (g_description n))), ai])))"

definition build_preamble_pairs ::
  "(json \<Rightarrow> string) \<Rightarrow> (json \<Rightarrow> goal_effect option) \<Rightarrow> goal_node list \<Rightarrow> (ident, contribution) dict \<Rightarrow> report_turn list outcome" where
  "build_preamble_pairs render validate ancestors contributions =
     emit_pairs render validate (kept_pairs (candidate_pairs ancestors contributions)) []"

text \<open>The store is the type \<open>'s\<close>; the second fetch asks only for the ancestors the first one did not return.\<close>

type_synonym 's fetch = "ident list \<Rightarrow> 's \<Rightarrow> (ident, contribution) dict outcome \<times> 's"

definition build_preamble ::
  "(json \<Rightarrow> string) \<Rightarrow> (json \<Rightarrow> goal_effect option) \<Rightarrow> 's fetch \<Rightarrow> goal_node \<Rightarrow> (ident, goal_node) dict \<Rightarrow>
   (ident, contribution) dict \<Rightarrow> 's \<Rightarrow> report_turn list outcome \<times> 's" where
  "build_preamble render validate get_many goal all_goals direct s =
     (let ancestors = collect_ancestors goal all_goals
      in if ancestors = [] then (Inr [], s)
         else
           (let missing = filter (\<lambda>aid. dict_get direct aid = None) (map g_id ancestors)
            in if missing = [] then (build_preamble_pairs render validate ancestors direct, s)
               else (case get_many missing s of
                       (Inl e, s') \<Rightarrow> (Inl e, s')
                     | (Inr fetched, s') \<Rightarrow> (build_preamble_pairs render validate ancestors (dict_update direct fetched), s'))))"

definition project ::
  "(json \<Rightarrow> string) \<Rightarrow> (json \<Rightarrow> goal_effect option) \<Rightarrow> (rat \<Rightarrow> nat \<Rightarrow> nat \<Rightarrow> rat) \<Rightarrow> projection_config \<Rightarrow> 's fetch \<Rightarrow>
   goal_node \<Rightarrow> (ident, goal_node) dict \<Rightarrow> 's \<Rightarrow> context_bundle outcome \<times> 's" where
  "project render validate weighted cfg get_many goal all_goals s =
     (let parent_ids = g_depends_on goal @ g_informs goal
      in if parent_ids = [] then (make_bundle [] [] [] no_stats [], s)
         else
           (case get_many parent_ids s of
              (Inl e, s1) \<Rightarrow> (Inl e, s1)
            | (Inr contributions, s1) \<Rightarrow>
                (case build_preamble render validate get_many goal all_goals contributions s1 of
                   (Inl e, s2) \<Rightarrow> (Inl e, s2)
                 | (Inr preamble, s2) \<Rightarrow>
                     if contributions = [] then (make_bundle [] [] [] no_stats preamble, s2)
                     else
                       (let pairs = order_by_recency parent_ids contributions all_goals
                        in (make_bundle (merge_plan_steps (pc_max_plan_steps cfg) pairs [])
                              (merge_effects (pc_max_effects cfg) pairs {} [])
                              (merge_findings weighted (pc_max_findings cfg) pairs)
                              (merge_tool_stats pairs) preamble, s2)))))"

section \<open>The transcript as text\<close>

definition kind_name :: "effect_kind \<Rightarrow> string" where
  "kind_name k = (case k of Produce \<Rightarrow> ''produce'' | Mutate \<Rightarrow> ''mutate'' | Observe \<Rightarrow> ''observe''
     | Communicate \<Rightarrow> ''communicate'' | Decide \<Rightarrow> ''decide'')"

definition effect_line :: "goal_effect \<Rightarrow> string" where
  "effect_line e = ''  - ['' @ kind_name (ge_kind e) @ ''] '' @ ge_ref e @ '': '' @ ge_statement e"

fun render_turn_text :: "report_turn \<Rightarrow> string" where
  "render_turn_text (UserTurn gid content) = ''[user / goal '' @ gid @ '']: '' @ content"
| "render_turn_text (AITurn gid outcome summary findings effects) =
     (let nl = [CHR 0x0A];
          texts = map (\<lambda>f. ''  - '' @ py_strip f) (filter (\<lambda>f. py_strip f \<noteq> []) findings)
      in py_join nl
           ([''[ai / goal '' @ gid @ '']''] @
            (if py_strip summary \<noteq> [] then [py_strip summary] else []) @
            (if texts \<noteq> [] then [''Findings:'' @ nl @ py_join nl texts] else []) @
            (if effects \<noteq> [] then [''Effects:'' @ nl @ py_join nl (map effect_line effects)] else [])))"

definition build_preamble_text ::
  "(json \<Rightarrow> string) \<Rightarrow> (json \<Rightarrow> goal_effect option) \<Rightarrow> 's fetch \<Rightarrow> goal_node \<Rightarrow> (ident, goal_node) dict \<Rightarrow> 's \<Rightarrow>
   string outcome \<times> 's" where
  "build_preamble_text render validate get_many goal all_goals s =
     (case build_preamble render validate get_many goal all_goals [] s of
        (Inl e, s') \<Rightarrow> (Inl e, s')
      | (Inr turns, s') \<Rightarrow> (Inr (py_join [CHR 0x0A, CHR 0x0A] (map render_turn_text turns)), s'))"

section \<open>The walk finds exactly the ancestors\<close>

definition parent_edges :: "(ident, goal_node) dict \<Rightarrow> (ident \<times> ident) set" where
  "parent_edges all_goals = {(c, p). \<exists>n. dict_get all_goals c = Some n \<and> p \<in> set (parents_of n)}"

definition walk_ok :: "(ident, goal_node) dict \<Rightarrow> ident set \<Rightarrow> ident set \<Rightarrow> (ident, ident set) dict \<Rightarrow> bool" where
  "walk_ok all_goals frontier visited edges \<longleftrightarrow>
     wf_dict edges \<and> set (dict_keys edges) = visited \<and>
     (\<forall>a ps. dict_get edges a = Some ps \<longrightarrow> ps = {p. (a, p) \<in> parent_edges all_goals}) \<and>
     parent_edges all_goals `` visited \<subseteq> visited \<union> frontier"

lemma parent_edges_image:
  "parent_edges all_goals `` insert a V = parent_edges all_goals `` V \<union>
     (case dict_get all_goals a of None \<Rightarrow> {} | Some n \<Rightarrow> set (parents_of n))"
  by (auto simp: parent_edges_def split: option.split)

lemma walk_ok_visit:
  assumes ok: "walk_ok all_goals frontier visited edges" and new: "aid \<notin> visited"
    and ps: "ps = (case dict_get all_goals aid of None \<Rightarrow> {} | Some n \<Rightarrow> set (parents_of n))"
    and frontier: "frontier - {aid} \<subseteq> frontier'" "ps \<subseteq> insert aid visited \<union> frontier'"
  shows "walk_ok all_goals frontier' (insert aid visited) (dict_set aid ps edges)"
proof -
  have "ps = {p. (aid, p) \<in> parent_edges all_goals}"
    unfolding ps parent_edges_def by (auto split: option.split)
  moreover have "parent_edges all_goals `` insert aid visited \<subseteq> insert aid visited \<union> frontier'"
    unfolding parent_edges_image ps [symmetric] using ok frontier unfolding walk_ok_def by blast
  moreover have "set (dict_keys (dict_set aid ps edges)) = insert aid visited"
    using ok new by (auto simp: walk_ok_def simp del: set_map)
  ultimately show ?thesis using ok unfolding walk_ok_def by (auto simp del: set_map)
qed

lemma ancestor_walk_spec:
  "walk_ok all_goals (set queue) visited edges \<Longrightarrow>
   \<exists>V. walk_ok all_goals {} V (ancestor_walk all_goals queue visited edges) \<and>
     visited \<union> set queue \<subseteq> V \<and> V \<subseteq> visited \<union> (parent_edges all_goals)\<^sup>* `` set queue"
proof (induction all_goals queue visited edges rule: ancestor_walk.induct)
  case (1 all_goals visited edges)
  then show ?case by auto
next
  case (2 all_goals aid queue visited edges)
  let ?E = "parent_edges all_goals"
  show ?case
  proof (cases "aid \<in> visited")
    case True
    then have "visited \<union> set (aid # queue) = visited \<union> set queue" by auto
    then have "walk_ok all_goals (set queue) visited edges" using 2(4) unfolding walk_ok_def by (simp only:) blast
    from 2(1) [OF True this] obtain V where
      "walk_ok all_goals {} V (ancestor_walk all_goals queue visited edges)"
      "visited \<union> set queue \<subseteq> V" "V \<subseteq> visited \<union> ?E\<^sup>* `` set queue" by blast
    then show ?thesis using True by (intro exI [of _ V]) auto
  next
    case new: False
    show ?thesis
    proof (cases "dict_get all_goals aid")
      case None
      have "walk_ok all_goals (set queue) (insert aid visited) (dict_set aid {} edges)"
        by (rule walk_ok_visit [OF 2(4) new]) (auto simp: None)
      from 2(2) [OF new None this] obtain V where
        "walk_ok all_goals {} V (ancestor_walk all_goals queue (insert aid visited) (dict_set aid {} edges))"
        "insert aid visited \<union> set queue \<subseteq> V" "V \<subseteq> insert aid visited \<union> ?E\<^sup>* `` set queue" by blast
      then show ?thesis using new None by (intro exI [of _ V]) auto
    next
      case (Some node)
      let ?q = "queue @ filter (\<lambda>pid. pid \<notin> insert aid visited) (parents_of node)"
      have "walk_ok all_goals (set ?q) (insert aid visited) (dict_set aid (set (parents_of node)) edges)"
        by (rule walk_ok_visit [OF 2(4) new]) (auto simp: Some)
      from 2(3) [OF new Some this] obtain V where
        V: "walk_ok all_goals {} V (ancestor_walk all_goals ?q (insert aid visited) (dict_set aid (set (parents_of node)) edges))"
        "insert aid visited \<union> set ?q \<subseteq> V" "V \<subseteq> insert aid visited \<union> ?E\<^sup>* `` set ?q" by blast
      have "(aid, p) \<in> ?E" if "p \<in> set (parents_of node)" for p
        using that Some by (auto simp: parent_edges_def)
      then have "?E\<^sup>* `` set ?q \<subseteq> ?E\<^sup>* `` set (aid # queue)"
        by (auto intro: converse_rtrancl_into_rtrancl)
      moreover have "aid \<in> ?E\<^sup>* `` set (aid # queue)" by auto
      ultimately have "V \<subseteq> visited \<union> ?E\<^sup>* `` set (aid # queue)" using V(3) by blast
      then show ?thesis using V(1,2) new Some by (intro exI [of _ V]) auto
    qed
  qed
qed

lemma ancestor_walk_reachable:
  "walk_ok all_goals {} ((parent_edges all_goals)\<^sup>* `` set queue) (ancestor_walk all_goals queue {} [])"
proof -
  let ?E = "parent_edges all_goals"
  have "walk_ok all_goals (set queue) {} []" by (simp add: walk_ok_def)
  from ancestor_walk_spec [OF this] obtain V where
    V: "walk_ok all_goals {} V (ancestor_walk all_goals queue {} [])" "set queue \<subseteq> V" "V \<subseteq> ?E\<^sup>* `` set queue" by auto
  have "?E `` V \<subseteq> V" using V(1) by (simp add: walk_ok_def)
  then have "?E\<^sup>* `` V \<subseteq> V" by (simp add: Image_closed_trancl)
  then have "?E\<^sup>* `` set queue \<subseteq> V" using V(2) by blast
  with V show ?thesis by (metis subset_antisym)
qed

section \<open>The order of the ancestors\<close>

lemma level_roots_distinct: "wf_dict remaining \<Longrightarrow> distinct (level_roots remaining)"
  by (auto simp: level_roots_def Let_def wf_dict_def distinct_map_filter)

lemma wf_dict_filter: "wf_dict d \<Longrightarrow> wf_dict (filter P d)"
  by (simp add: wf_dict_def distinct_map_filter)

lemma filtered_keys: "set (dict_keys (filter (\<lambda>(k, v). k \<notin> R) d)) = set (dict_keys d) - R"
  by force

lemma topo_order_perm:
  "wf_dict remaining \<Longrightarrow>
   distinct (topo_order all_goals remaining) \<and> set (topo_order all_goals remaining) = set (dict_keys remaining)"
proof (induction all_goals remaining rule: topo_order.induct)
  case (1 all_goals remaining)
  show ?case
  proof (cases "remaining = []")
    case False
    define roots where "roots = level_roots remaining"
    define rest where "rest = filter (\<lambda>(aid, deps). aid \<notin> set roots) remaining"
    have ih: "distinct (topo_order all_goals rest) \<and> set (topo_order all_goals rest) = set (dict_keys rest)"
      using 1(1) [OF False roots_def] wf_dict_filter [OF 1(2)] unfolding rest_def by blast
    have keys: "set (dict_keys rest) = set (dict_keys remaining) - set roots" unfolding rest_def by (rule filtered_keys)
    have unfold: "topo_order all_goals remaining = sort_key (level_key all_goals) roots @ topo_order all_goals rest"
      using False by (subst topo_order.simps) (simp add: roots_def rest_def Let_def)
    have "set roots \<subseteq> set (dict_keys remaining)" using level_roots_known [OF False] by (simp add: roots_def del: set_map)
    then show ?thesis
      using ih level_roots_distinct [OF 1(2)] unfolding unfold keys by (auto simp: roots_def [symmetric] simp del: set_map)
  qed (simp add: topo_order.simps)
qed

definition deps_rel :: "(ident, ident set) dict \<Rightarrow> (ident \<times> ident) set" where
  "deps_rel remaining = {(p, a). \<exists>ps. dict_get remaining a = Some ps \<and> p \<in> ps \<and> p \<in> set (dict_keys remaining)}"

lemma level_roots_acyclic:
  assumes wf: "wf_dict remaining" and ne: "remaining \<noteq> []" and acyc: "acyclic (deps_rel remaining)"
    and a: "a \<in> set (level_roots remaining)" and get: "dict_get remaining a = Some ps"
  shows "ps \<inter> set (dict_keys remaining) = {}"
proof -
  let ?K = "set (dict_keys remaining)"
  have "deps_rel remaining \<subseteq> ?K \<times> ?K" unfolding deps_rel_def by (auto dest: dict_get_key simp del: set_map)
  then have "finite (deps_rel remaining)" by (rule finite_subset) simp
  then have "Wellfounded.wf (deps_rel remaining)" using acyc by (rule finite_acyclic_wf)
  moreover obtain k0 where "k0 \<in> ?K" using ne by (cases remaining) auto
  ultimately obtain k where k: "k \<in> ?K" "\<And>p. (p, k) \<in> deps_rel remaining \<Longrightarrow> p \<notin> ?K"
    using wfE_min [of "deps_rel remaining" k0 ?K] by blast
  obtain qs where qs: "dict_get remaining k = Some qs" using dict_key_get [OF k(1)] by blast
  have "qs \<inter> ?K = {}" using k(2) qs unfolding deps_rel_def by blast
  moreover have "(k, qs) \<in> set remaining" using qs wf by (simp add: dict_get_in)
  ultimately have "(k, qs) \<in> set (filter (\<lambda>(aid, deps). deps \<inter> ?K = {}) remaining)" by simp
  then have some: "map fst (filter (\<lambda>(aid, deps). deps \<inter> ?K = {}) remaining) \<noteq> []"
    by (metis empty_iff list.set(1) map_is_Nil_conv)
  then have "level_roots remaining = map fst (filter (\<lambda>(aid, deps). deps \<inter> ?K = {}) remaining)"
    unfolding level_roots_def Let_def by (rule if_not_P)
  then obtain ps' where "(a, ps') \<in> set remaining" "ps' \<inter> ?K = {}" using a by auto
  then show ?thesis using get wf by (simp add: dict_get_in [OF wf, symmetric])
qed

text \<open>Without cycles every id comes after all its parents that are there.\<close>

lemma topo_order_sorted:
  "wf_dict remaining \<Longrightarrow> acyclic (deps_rel remaining) \<Longrightarrow>
   topo_order all_goals remaining = xs @ a # ys \<Longrightarrow> dict_get remaining a = Some ps \<Longrightarrow>
   ps \<inter> set (dict_keys remaining) \<subseteq> set xs"
proof (induction all_goals remaining arbitrary: xs rule: topo_order.induct)
  case (1 all_goals remaining)
  note wf = 1(2) and acyc = 1(3) and eq = 1(4) and get = 1(5)
  have ne: "remaining \<noteq> []" using get by auto
  define roots where "roots = level_roots remaining"
  define rest where "rest = filter (\<lambda>(aid, deps). aid \<notin> set roots) remaining"
  have unfold: "topo_order all_goals remaining = sort_key (level_key all_goals) roots @ topo_order all_goals rest"
    using ne by (subst topo_order.simps) (simp add: roots_def rest_def Let_def)
  show ?case
  proof (cases "a \<in> set roots")
    case True
    then show ?thesis using level_roots_acyclic [OF wf ne acyc _ get] by (simp add: roots_def del: set_map)
  next
    case False
    have wf_rest: "wf_dict rest" unfolding rest_def by (rule wf_dict_filter [OF wf])
    have keys: "set (dict_keys rest) = set (dict_keys remaining) - set roots" unfolding rest_def by (rule filtered_keys)
    have get_rest: "dict_get rest b = Some qs \<longleftrightarrow> dict_get remaining b = Some qs \<and> b \<notin> set roots" for b qs
      using wf wf_rest by (auto simp: dict_get_in rest_def)
    have "deps_rel rest \<subseteq> deps_rel remaining" unfolding deps_rel_def keys get_rest by blast
    then have acyc_rest: "acyclic (deps_rel rest)" using acyc by (rule acyclic_subset [rotated])
    have "a \<notin> set (sort_key (level_key all_goals) roots)" using False by simp
    then obtain zs where xs: "xs = sort_key (level_key all_goals) roots @ zs" and tail: "topo_order all_goals rest = zs @ a # ys"
      using eq unfolding unfold append_eq_append_conv2 by (auto simp: Cons_eq_append_conv append_eq_Cons_conv dest: arg_cong [where f = set])
    have "ps \<inter> set (dict_keys rest) \<subseteq> set zs"
      using 1(1) [OF ne roots_def wf_rest [unfolded rest_def] acyc_rest [unfolded rest_def] tail [unfolded rest_def]] get False
      unfolding rest_def [symmetric] get_rest by blast
    then show ?thesis unfolding keys xs by auto
  qed
qed

lemma filter_split:
  "filter P zs = as @ b # bs \<Longrightarrow> \<exists>us vs. zs = us @ b # vs \<and> as = filter P us"
proof (induction zs arbitrary: as)
  case (Cons z zs)
  show ?case
  proof (cases "P z \<and> as = []")
    case True
    then show ?thesis using Cons.prems by (intro exI [of _ "[]"] exI [of _ zs]) simp
  next
    case False
    then obtain as' where "filter P zs = as' @ b # bs" and as: "as = (if P z then [z] else []) @ as'"
      using Cons.prems by (cases as) (auto split: if_splits)
    from Cons.IH [OF this(1)] obtain us vs where "zs = us @ b # vs" "as' = filter P us" by blast
    then show ?thesis using as by (intro exI [of _ "z # us"] exI [of _ vs]) simp
  qed
qed simp

lemma walk_order:
  assumes ok: "walk_ok all_goals {} V edges" and acyc: "acyclic (parent_edges all_goals)"
    and split: "topo_order all_goals edges = xs @ a # ys" and p: "(a, p) \<in> parent_edges all_goals"
  shows "p \<in> set xs"
proof -
  let ?E = "parent_edges all_goals"
  have wf: "wf_dict edges" and keys: "set (dict_keys edges) = V" and closed: "?E `` V \<subseteq> V"
    and get: "\<And>a ps. dict_get edges a = Some ps \<Longrightarrow> ps = {p. (a, p) \<in> ?E}"
    using ok by (auto simp: walk_ok_def simp del: set_map)
  have "a \<in> V" using topo_order_perm [OF wf, of all_goals] split keys by auto
  then obtain ps where ps: "dict_get edges a = Some ps" using dict_key_get keys by metis
  have "deps_rel edges \<subseteq> ?E\<inverse>" unfolding deps_rel_def using get by blast
  then have "acyclic (deps_rel edges)" using acyc by (meson acyclic_converse acyclic_subset)
  from topo_order_sorted [OF wf this split ps] have "ps \<inter> V \<subseteq> set xs" by (simp only: keys)
  moreover have "p \<in> ps" using get [OF ps] p by blast
  moreover have "p \<in> V" using closed \<open>a \<in> V\<close> p by blast
  ultimately show ?thesis by blast
qed

text \<open>Claim C28. The transcript of a goal is about exactly its ancestors: the walk over dependencies and informing
  goals always ends, and yields every known goal reachable from the goal's parents once; when the
  edges have no cycle, each of them comes after all its own parents. (The goal itself is among them
  only when it is on a cycle.)\<close>

theorem collect_ancestors_correct:
  assumes keyed: "keyed_by g_id all_goals"
  shows "g_id ` set (collect_ancestors goal all_goals) =
      (parent_edges all_goals)\<^sup>* `` set (parents_of goal) \<inter> set (dict_keys all_goals) \<and>
    distinct (map g_id (collect_ancestors goal all_goals)) \<and>
    (acyclic (parent_edges all_goals) \<longrightarrow>
      (\<forall>xs n ys. collect_ancestors goal all_goals = xs @ n # ys \<longrightarrow>
         set (parents_of n) \<inter> set (dict_keys all_goals) \<subseteq> g_id ` set xs))"
proof -
  let ?V = "(parent_edges all_goals)\<^sup>* `` set (parents_of goal)"
  define edges where "edges = ancestor_walk all_goals (parents_of goal) {} []"
  define order where "order = topo_order all_goals edges"
  define known where "known = filter (\<lambda>a. dict_get all_goals a \<noteq> None) order"
  have walk: "walk_ok all_goals {} ?V edges" unfolding edges_def by (rule ancestor_walk_reachable)
  then have wf: "wf_dict edges" and keys: "set (dict_keys edges) = ?V" by (auto simp: walk_ok_def simp del: set_map)
  have perm: "distinct order" "set order = ?V"
    using topo_order_perm [OF wf, of all_goals] keys by (simp_all add: order_def del: set_map)
  have id: "g_id (the (dict_get all_goals a)) = a" if known: "dict_get all_goals a \<noteq> None" for a
  proof -
    obtain n where n: "dict_get all_goals a = Some n" using known by blast
    then show ?thesis using keyed_by_get [OF keyed n] by simp
  qed
  have coll: "collect_ancestors goal all_goals = map (\<lambda>a. the (dict_get all_goals a)) known"
    by (simp add: collect_ancestors_def map_filter_def known_def order_def edges_def comp_def)
  have ids: "map g_id (collect_ancestors goal all_goals) = known"
    unfolding coll map_map comp_def by (rule map_idI) (auto simp: known_def id)
  have dom: "dict_get all_goals a \<noteq> None \<longleftrightarrow> a \<in> set (dict_keys all_goals)" for a
    by (simp add: dict_get_None del: set_map)
  have "g_id ` set (collect_ancestors goal all_goals) = set known" using ids by (metis list.set_map)
  also have "\<dots> = ?V \<inter> set (dict_keys all_goals)" unfolding known_def perm(2) [symmetric] using dom by auto
  finally have set: "g_id ` set (collect_ancestors goal all_goals) = ?V \<inter> set (dict_keys all_goals)" .
  have dist: "distinct (map g_id (collect_ancestors goal all_goals))" unfolding ids known_def using perm(1) by simp
  have ordered: "set (parents_of n) \<inter> set (dict_keys all_goals) \<subseteq> g_id ` set xs"
    if acyc: "acyclic (parent_edges all_goals)" and split: "collect_ancestors goal all_goals = xs @ n # ys" for xs n ys
  proof
    fix p assume p: "p \<in> set (parents_of n) \<inter> set (dict_keys all_goals)"
    have "known = map g_id xs @ g_id n # map g_id ys" using ids split by simp
    from filter_split [OF this [unfolded known_def]] obtain us vs where order: "order = us @ g_id n # vs"
      and us: "map g_id xs = filter (\<lambda>a. dict_get all_goals a \<noteq> None) us" by blast
    have "n \<in> set (collect_ancestors goal all_goals)" using split by simp
    then obtain a where a: "a \<in> set known" "n = the (dict_get all_goals a)" unfolding coll by auto
    then have "dict_get all_goals a \<noteq> None" by (simp add: known_def)
    then have "dict_get all_goals (g_id n) = Some n" using id [of a] a(2) by simp
    then have "(g_id n, p) \<in> parent_edges all_goals" using p by (auto simp: parent_edges_def)
    then have "p \<in> set us" using walk_order [OF walk acyc] order unfolding order_def by blast
    then have "p \<in> set (map g_id xs)" using p dom unfolding us by auto
    then show "p \<in> g_id ` set xs" by simp
  qed
  show ?thesis using set dist ordered by blast
qed

section \<open>What fits in a bundle\<close>

lemma sort_desc_mset [simp]: "mset (sort_desc key xs) = mset xs"
  by (simp add: sort_desc_def)

lemma sort_desc_set [simp]: "set (sort_desc key xs) = set xs"
  by (metis sort_desc_mset set_mset_mset)

lemma sort_desc_length [simp]: "length (sort_desc key xs) = length xs"
  by (metis sort_desc_mset size_mset)

lemma sort_desc_take:
  assumes "k \<in> set (take n (sort_desc key xs))" and "d \<in> set (drop n (sort_desc key xs))"
  shows "key d \<le> key k"
proof -
  define ys where "ys = sort_desc key xs"
  have "sorted_wrt (\<lambda>x y. key y \<le> key x) ys"
    unfolding ys_def sort_desc_def sorted_wrt_rev using sorted_sort_key [of key "rev xs"] by (simp add: sorted_map)
  then have "sorted_wrt (\<lambda>x y. key y \<le> key x) (take n ys @ drop n ys)" by simp
  then show ?thesis using assms unfolding sorted_wrt_append ys_def by blast
qed

lemma emit_pairs_length:
  "emit_pairs render validate pairs out = Inr turns \<Longrightarrow> length out + 2 * length pairs \<le> MAX_PREAMBLE_TURNS \<Longrightarrow>
   length turns = length out + 2 * length pairs"
proof (induction pairs arbitrary: out)
  case (Cons p pairs)
  obtain n c where p: "p = (n, c)" by (cases p)
  have "\<not> length out + 2 > MAX_PREAMBLE_TURNS" using Cons.prems(2) by simp
  then obtain ai where "emit_pairs render validate pairs (out @ [UserTurn (g_id n) (take 2000 (py_strip (g_description n))), ai]) = Inr turns"
    using Cons.prems(1) by (auto simp: p split: sum.splits)
  from Cons.IH [OF this] Cons.prems(2) show ?case by simp
qed simp

lemma kept_pairs_length: "length (kept_pairs pairs) \<le> 6"
  by (auto simp: kept_pairs_def Let_def MAX_PREAMBLE_TURNS_def)

text \<open>The transcript never exceeds the twelve turns a bundle may carry: it has exactly two turns for each
  of at most six ancestors, and when there are more, the ones kept were updated no earlier than any
  one dropped.\<close>

theorem preamble_within_cap:
  assumes "build_preamble_pairs render validate ancestors contributions = Inr turns"
  shows "length turns \<le> MAX_PREAMBLE_TURNS \<and>
    length turns = 2 * min 6 (length (candidate_pairs ancestors contributions)) \<and>
    (\<exists>kept dropped. mset (candidate_pairs ancestors contributions) = mset kept + mset dropped \<and>
       mset (kept_pairs (candidate_pairs ancestors contributions)) = mset kept \<and>
       (\<forall>k \<in> set kept. \<forall>d \<in> set dropped. g_updated_at (fst d) \<le> g_updated_at (fst k)))"
proof -
  define pairs where "pairs = candidate_pairs ancestors contributions"
  have len: "length (kept_pairs pairs) = min 6 (length pairs)"
    by (simp add: kept_pairs_def Let_def MAX_PREAMBLE_TURNS_def)
  have "length turns = 2 * length (kept_pairs pairs)"
    using emit_pairs_length [OF assms [unfolded build_preamble_pairs_def]] kept_pairs_length [of pairs]
    by (simp add: pairs_def MAX_PREAMBLE_TURNS_def)
  moreover have "\<exists>kept dropped. mset pairs = mset kept + mset dropped \<and> mset (kept_pairs pairs) = mset kept \<and>
      (\<forall>k \<in> set kept. \<forall>d \<in> set dropped. g_updated_at (fst d) \<le> g_updated_at (fst k))"
  proof (cases "length pairs > 6")
    case True
    define ys where "ys = sort_desc (\<lambda>p. g_updated_at (fst p)) pairs"
    have "mset pairs = mset (take 6 ys) + mset (drop 6 ys)"
      by (metis append_take_drop_id mset_append sort_desc_mset ys_def)
    moreover have "mset (kept_pairs pairs) = mset (take 6 ys)"
      using True by (simp add: kept_pairs_def Let_def MAX_PREAMBLE_TURNS_def ys_def)
    moreover have "\<forall>k \<in> set (take 6 ys). \<forall>d \<in> set (drop 6 ys). g_updated_at (fst d) \<le> g_updated_at (fst k)"
      unfolding ys_def by (intro ballI sort_desc_take)
    ultimately show ?thesis by (intro exI conjI)
  next
    case False
    then have "kept_pairs pairs = pairs" by (simp add: kept_pairs_def Let_def MAX_PREAMBLE_TURNS_def)
    then show ?thesis by (intro exI [of _ pairs] exI [of _ "[]"]) simp
  qed
  ultimately show ?thesis using len by (simp add: pairs_def MAX_PREAMBLE_TURNS_def)
qed

section \<open>Effects\<close>

text \<open>The reference: all effects in order of recency, the first of each reference kept, cut at the limit.\<close>

fun first_refs :: "string set \<Rightarrow> goal_effect list \<Rightarrow> goal_effect list" where
  "first_refs seen [] = []"
| "first_refs seen (e # es) =
     (if ge_ref e = [] \<or> ge_ref e \<in> seen then first_refs seen es else e # first_refs (insert (ge_ref e) seen) es)"

definition all_effects :: "(ident \<times> contribution) list \<Rightarrow> goal_effect list" where
  "all_effects pairs = concat (map (\<lambda>(pid, c). map (projected_effect pid) (cb_effects c)) pairs)"

lemma projected_ref [simp]: "ge_ref (projected_effect pid e) = py_strip (ge_ref e)"
  by (simp add: projected_effect_def)

lemma merge_parent_effects_spec:
  "merge_parent_effects cap pid es seen merged = (returned, seen', merged') \<Longrightarrow> length merged < cap \<Longrightarrow>
   (if returned then merged' = take cap (merged @ first_refs seen (map (projected_effect pid) es @ rest))
    else length merged' < cap \<and>
      merged' @ first_refs seen' rest = merged @ first_refs seen (map (projected_effect pid) es @ rest))"
proof (induction cap pid es seen merged rule: merge_parent_effects.induct)
  case (2 cap pid e es seen merged)
  define ref where "ref = py_strip (ge_ref e)"
  show ?case
  proof (cases "ref = [] \<or> ref \<in> seen")
    case True
    then show ?thesis using 2(1) [OF ref_def True] 2(3,4) by (simp add: ref_def)
  next
    case False
    define merged1 where "merged1 = merged @ [projected_effect pid e]"
    show ?thesis
    proof (cases "length merged1 \<ge> cap")
      case True
      then have "returned" "merged' = merged1" using 2(3) False by (simp_all add: ref_def merged1_def Let_def)
      moreover have "cap - length merged = Suc 0" using True 2(4) by (simp add: merged1_def)
      moreover have "length merged \<le> cap" using 2(4) by simp
      ultimately show ?thesis using False by (simp add: ref_def merged1_def)
    next
      case short: False
      then have "merge_parent_effects cap pid es (insert ref seen) merged1 = (returned, seen', merged')"
        using 2(3) False by (simp add: ref_def merged1_def Let_def)
      from 2(2) [OF ref_def False merged1_def short this] short
      show ?thesis using False by (simp add: ref_def merged1_def)
    qed
  qed
qed simp

lemma merge_effects_spec:
  "length merged < cap \<Longrightarrow> merge_effects cap pairs seen merged = take cap (merged @ first_refs seen (all_effects pairs))"
proof (induction cap pairs seen merged rule: merge_effects.induct)
  case (1 cap seen merged)
  then show ?case by (simp add: all_effects_def)
next
  case (2 cap pid c pairs seen merged)
  obtain returned seen' merged' where run: "merge_parent_effects cap pid (cb_effects c) seen merged = (returned, seen', merged')"
    by (cases "merge_parent_effects cap pid (cb_effects c) seen merged")
  note spec = merge_parent_effects_spec [OF run 2(2), of "all_effects pairs"]
  have all: "all_effects ((pid, c) # pairs) = map (projected_effect pid) (cb_effects c) @ all_effects pairs"
    by (simp add: all_effects_def)
  show ?case
  proof (cases returned)
    case True
    then show ?thesis using spec by (simp add: run all)
  next
    case False
    then have "length merged' < cap" and eq: "merged' @ first_refs seen' (all_effects pairs) =
        merged @ first_refs seen (map (projected_effect pid) (cb_effects c) @ all_effects pairs)" using spec by simp_all
    then have "merge_effects cap pairs seen' merged' = take cap (merged' @ first_refs seen' (all_effects pairs))"
      using 2(1) [OF run [symmetric] refl False] by simp
    then show ?thesis using False by (simp add: run all eq)
  qed
qed

lemma first_refs_distinct:
  "distinct (map ge_ref (first_refs seen es)) \<and> (\<forall>e \<in> set (first_refs seen es). ge_ref e \<noteq> [] \<and> ge_ref e \<notin> seen)"
proof (induction seen es rule: first_refs.induct)
  case (2 seen e es)
  show ?case
  proof (cases "ge_ref e = [] \<or> ge_ref e \<in> seen")
    case True
    then show ?thesis using 2(1) [OF True] by simp
  next
    case False
    then show ?thesis using 2(2) [OF False] by (simp add: image_iff) metis
  qed
qed simp

text \<open>The merged effects are the reference: the effects of all parents, the most recently updated parent
  first, without those that have no reference, only the first of each reference, at most the
  configured number; so no reference occurs twice.\<close>

theorem merge_effects_reference:
  assumes "cap > 0"
  shows "merge_effects cap pairs {} [] = take cap (first_refs {} (all_effects pairs)) \<and>
    length (merge_effects cap pairs {} []) \<le> cap \<and> distinct (map ge_ref (merge_effects cap pairs {} []))"
proof -
  have eq: "merge_effects cap pairs {} [] = take cap (first_refs {} (all_effects pairs))"
    using merge_effects_spec [of "[]" cap pairs "{}"] assms by simp
  have "distinct (map ge_ref (take cap (first_refs {} (all_effects pairs))))"
    using first_refs_distinct [of "{}" "all_effects pairs"] by (metis distinct_take take_map)
  then show ?thesis by (simp add: eq)
qed

section \<open>The bounds of a bundle\<close>

lemma merge_plan_steps_length: "length (merge_plan_steps cap pairs merged) \<le> cap"
proof (induction cap pairs merged rule: merge_plan_steps.induct)
  case (2 cap pid c pairs merged)
  define merged' where "merged' = merged @ map (prior_step pid) (cb_plan_steps_executed c)"
  show ?case
  proof (cases "length merged' \<ge> cap")
    case True
    then have "merge_plan_steps cap ((pid, c) # pairs) merged = take cap merged'"
      unfolding merge_plan_steps.simps Let_def merged'_def by (rule if_P)
    then show ?thesis by (metis length_take min.cobounded2)
  next
    case False
    then show ?thesis using 2 by (simp add: merged'_def Let_def)
  qed
qed simp

lemma merge_findings_length: "length (merge_findings weighted cap pairs) \<le> cap"
  by (simp add: merge_findings_def Let_def)

lemma make_bundle_ok:
  "length findings \<le> 20 \<Longrightarrow> length effects \<le> 50 \<Longrightarrow> length steps \<le> 30 \<Longrightarrow> length preamble \<le> MAX_PREAMBLE_TURNS \<Longrightarrow>
   \<exists>b. make_bundle steps effects findings stats preamble = Inr b"
  by (simp add: make_bundle_def)

text \<open>A report whose lists are lists (or absent) makes a turn.\<close>

definition list_field :: "obj \<Rightarrow> string \<Rightarrow> bool" where
  "list_field report name = (case dict_get report name of Some (JList _) \<Rightarrow> True | None \<Rightarrow> True | _ \<Rightarrow> False)"

definition report_ok :: "goal_node \<Rightarrow> bool" where
  "report_ok g = (case g_report g of None \<Rightarrow> True | Some r \<Rightarrow> list_field r ''findings'' \<and> list_field r ''effects'')"

lemma json_or_list:
  "list_field report name \<Longrightarrow> \<exists>xs. json_or (dict_get report name) (JList []) = JList xs"
  by (auto simp: list_field_def json_or_def split: option.splits json.splits)

lemma build_ai_turn_ok: "report_ok n \<Longrightarrow> \<exists>t. build_ai_turn render validate n c = Inr t"
proof (cases "g_report n")
  case (Some r)
  assume "report_ok n"
  then have "list_field r ''findings''" "list_field r ''effects''" by (simp_all add: report_ok_def Some)
  then obtain fs es where "json_or (dict_get r ''findings'') (JList []) = JList fs"
      "json_or (dict_get r ''effects'') (JList []) = JList es"
    using json_or_list by metis
  then have "\<exists>raw. strs_of_json render (json_or (dict_get r ''findings'') (JList [])) = Inr raw"
    "\<exists>effs. report_effects validate (json_or (dict_get r ''effects'') (JList [])) = Inr effs"
    by (simp_all add: strs_of_json_def report_effects_def)
  then obtain raw effs where "strs_of_json render (json_or (dict_get r ''findings'') (JList [])) = Inr raw"
    "report_effects validate (json_or (dict_get r ''effects'') (JList [])) = Inr effs" by blast
  then show ?thesis
    by (cases r; cases "hd r") (simp_all add: build_ai_turn_def Some Let_def del: map_of.simps)
qed (simp add: build_ai_turn_def Let_def)

lemma emit_pairs_ok: "\<forall>p \<in> set pairs. report_ok (fst p) \<Longrightarrow> \<exists>turns. emit_pairs render validate pairs out = Inr turns"
proof (induction pairs arbitrary: out)
  case (Cons p pairs)
  obtain n c where p: "p = (n, c)" by (cases p)
  obtain t where "build_ai_turn render validate n c = Inr t" using build_ai_turn_ok Cons.prems by (metis p fst_conv list.set_intros(1))
  then show ?case using Cons by (simp add: p)
qed simp

lemma kept_pairs_subset: "set (kept_pairs pairs) \<subseteq> set pairs"
  by (auto simp: kept_pairs_def Let_def dest: in_set_takeD)

lemma build_preamble_pairs_ok:
  assumes "\<forall>n \<in> set ancestors. report_ok n"
  shows "\<exists>turns. build_preamble_pairs render validate ancestors contributions = Inr turns \<and> length turns \<le> MAX_PREAMBLE_TURNS"
proof -
  have "set (candidate_pairs ancestors contributions) \<subseteq> {p. fst p \<in> set ancestors}"
    by (auto simp: candidate_pairs_def map_filter_def)
  then have "\<forall>p \<in> set (kept_pairs (candidate_pairs ancestors contributions)). report_ok (fst p)"
    using assms kept_pairs_subset by blast
  then obtain turns where turns: "build_preamble_pairs render validate ancestors contributions = Inr turns"
    unfolding build_preamble_pairs_def using emit_pairs_ok by blast
  have "length turns = 2 * length (kept_pairs (candidate_pairs ancestors contributions))"
    using emit_pairs_length [OF turns [unfolded build_preamble_pairs_def]] kept_pairs_length [of "candidate_pairs ancestors contributions"]
    by (simp add: MAX_PREAMBLE_TURNS_def)
  then show ?thesis using turns kept_pairs_length [of "candidate_pairs ancestors contributions"] by (simp add: MAX_PREAMBLE_TURNS_def)
qed

section \<open>The projector on any store\<close>

lemma pairs_origin:
  "(pid, c) \<in> set (order_by_recency parent_ids contributions all_goals) \<longleftrightarrow>
   pid \<in> set parent_ids \<and> dict_get contributions pid = Some c"
  by (auto simp: order_by_recency_def split: option.splits)

lemma merge_plan_steps_origin:
  "x \<in> set (merge_plan_steps cap pairs merged) \<Longrightarrow>
   x \<in> set merged \<or> (\<exists>pid c. (pid, c) \<in> set pairs \<and> x \<in> prior_step pid ` set (cb_plan_steps_executed c))"
proof (induction cap pairs merged rule: merge_plan_steps.induct)
  case (2 cap pid c pairs merged)
  define merged' where "merged' = merged @ map (prior_step pid) (cb_plan_steps_executed c)"
  have "x \<in> set merged' \<or> x \<in> set (merge_plan_steps cap pairs merged') \<and> \<not> length merged' \<ge> cap"
    using 2(2) unfolding merge_plan_steps.simps Let_def merged'_def [symmetric] by (auto split: if_splits dest: in_set_takeD)
  then show ?case using 2(1) [OF merged'_def] by (auto simp: merged'_def)
qed (auto dest: in_set_takeD)

lemma first_refs_subset: "set (first_refs seen es) \<subseteq> set es"
  by (induction seen es rule: first_refs.induct) auto

lemma merge_findings_origin:
  assumes "f \<in> set (merge_findings weighted cap pairs)"
  shows "\<exists>c. (pf_goal_id_origin f, c) \<in> set pairs \<and>
    (\<exists>g \<in> set (cb_findings c). pf_summary f = fd_summary g \<and> pf_relevance_score f = fd_relevance_score g)"
proof -
  obtain w where "(w, f) \<in> set (concat (map (\<lambda>(idx, pid, c).
            map (\<lambda>g. (weighted (fd_relevance_score g) idx (max (length pairs) 1),
                      \<lparr>pf_goal_id_origin = pid, pf_summary = fd_summary g, pf_relevance_score = fd_relevance_score g\<rparr>))
              (cb_findings c)) (zip [0..<length pairs] pairs)))"
    using assms by (auto simp: merge_findings_def Let_def dest!: in_set_takeD)
  then obtain idx pid c g where z: "(idx, pid, c) \<in> set (zip [0..<length pairs] pairs)" and g: "g \<in> set (cb_findings c)"
      and f: "f = \<lparr>pf_goal_id_origin = pid, pf_summary = fd_summary g, pf_relevance_score = fd_relevance_score g\<rparr>"
    by auto
  have "(pid, c) \<in> set pairs" using z by (rule set_zip_rightD)
  with g show ?thesis unfolding f by auto
qed

locale contribution_store =
  fixes get_many :: "'s fetch"
    and held :: "'s \<Rightarrow> ident \<Rightarrow> contribution option"
  assumes fetch_held:
    "get_many gids s = (Inr out, s') \<Longrightarrow> dict_get out g = Some c \<Longrightarrow> g \<in> set gids \<and> held s g = Some c"
begin

text \<open>Everything a bundle says about a parent stands in the contribution the store held for it.\<close>

lemma project_origins:
  assumes proj: "fst (project render validate weighted cfg get_many goal all_goals s) = Inr b"
    and cap: "pc_max_effects cfg > 0"
  shows "(\<forall>x \<in> set (bd_prior_plan_steps b). \<exists>pid c. pid \<in> set (g_depends_on goal @ g_informs goal) \<and> held s pid = Some c \<and>
            x \<in> prior_step pid ` set (cb_plan_steps_executed c)) \<and>
    (\<forall>x \<in> set (bd_prior_effects b). \<exists>pid c. pid \<in> set (g_depends_on goal @ g_informs goal) \<and> held s pid = Some c \<and>
            x \<in> projected_effect pid ` set (cb_effects c)) \<and>
    (\<forall>x \<in> set (bd_findings b). \<exists>c. pf_goal_id_origin x \<in> set (g_depends_on goal @ g_informs goal) \<and>
            held s (pf_goal_id_origin x) = Some c \<and> (\<exists>g \<in> set (cb_findings c). pf_summary x = fd_summary g))"
proof -
  define parent_ids where "parent_ids = g_depends_on goal @ g_informs goal"
  have empty: "make_bundle [] [] [] st pre = Inr b \<Longrightarrow>
      bd_prior_plan_steps b = [] \<and> bd_prior_effects b = [] \<and> bd_findings b = []" for st pre
    by (auto simp: make_bundle_def split: if_splits)
  show ?thesis
  proof (cases "parent_ids = []")
    case True
    then have "make_bundle [] [] [] no_stats [] = Inr b" using proj by (simp add: project_def parent_ids_def)
    then show ?thesis using empty by simp
  next
    case False
    note proj = proj [unfolded project_def Let_def, folded parent_ids_def, unfolded if_not_P [OF False]]
    obtain res s1 where fetch: "get_many parent_ids s = (res, s1)" by (cases "get_many parent_ids s")
    then obtain contributions where res: "res = Inr contributions"
      using proj by (cases res) simp_all
    obtain pre s2 where pre: "build_preamble render validate get_many goal all_goals contributions s1 = (pre, s2)"
      by (cases "build_preamble render validate get_many goal all_goals contributions s1")
    then obtain preamble where preamble: "pre = Inr preamble"
      using proj fetch res by (cases pre) simp_all
    define pairs where "pairs = order_by_recency parent_ids contributions all_goals"
    have run: "(if contributions = [] then make_bundle [] [] [] no_stats preamble
       else make_bundle (merge_plan_steps (pc_max_plan_steps cfg) pairs []) (merge_effects (pc_max_effects cfg) pairs {} [])
              (merge_findings weighted (pc_max_findings cfg) pairs) (merge_tool_stats pairs) preamble) = Inr b"
      using proj fetch res pre preamble by (cases "contributions = []") (simp_all add: pairs_def)
    have from_pairs: "pid \<in> set parent_ids \<and> held s pid = Some c" if "(pid, c) \<in> set pairs" for pid c
      using that fetch_held [OF fetch [unfolded res]] unfolding pairs_def pairs_origin by blast
    show ?thesis
    proof (cases "contributions = []")
      case True
      then show ?thesis using run empty by simp
    next
      case False
      then have b: "bd_prior_plan_steps b = merge_plan_steps (pc_max_plan_steps cfg) pairs []"
          "bd_prior_effects b = merge_effects (pc_max_effects cfg) pairs {} []"
          "bd_findings b = merge_findings weighted (pc_max_findings cfg) pairs"
        using run by (auto simp: make_bundle_def split: if_splits)
      have steps: "\<exists>pid c. pid \<in> set parent_ids \<and> held s pid = Some c \<and> x \<in> prior_step pid ` set (cb_plan_steps_executed c)"
        if x: "x \<in> set (bd_prior_plan_steps b)" for x
      proof -
        obtain pid c where "(pid, c) \<in> set pairs" "x \<in> prior_step pid ` set (cb_plan_steps_executed c)"
          using merge_plan_steps_origin [OF x [unfolded b]] by auto
        with from_pairs show ?thesis by blast
      qed
      have effects: "\<exists>pid c. pid \<in> set parent_ids \<and> held s pid = Some c \<and> x \<in> projected_effect pid ` set (cb_effects c)"
        if x: "x \<in> set (bd_prior_effects b)" for x
      proof -
        have "x \<in> set (take (pc_max_effects cfg) (first_refs {} (all_effects pairs)))"
          using x merge_effects_spec [of "[]" "pc_max_effects cfg" pairs "{}"] cap by (simp add: b)
        then have "x \<in> set (all_effects pairs)" using first_refs_subset by (blast dest: in_set_takeD)
        then obtain pid c where "(pid, c) \<in> set pairs" "x \<in> projected_effect pid ` set (cb_effects c)"
          by (auto simp: all_effects_def)
        with from_pairs show ?thesis by blast
      qed
      have findings: "\<exists>c. pf_goal_id_origin x \<in> set parent_ids \<and> held s (pf_goal_id_origin x) = Some c \<and>
          (\<exists>g \<in> set (cb_findings c). pf_summary x = fd_summary g)" if x: "x \<in> set (bd_findings b)" for x
        using merge_findings_origin [OF x [unfolded b]] from_pairs by blast
      show ?thesis unfolding parent_ids_def [symmetric] using steps effects findings by blast
    qed
  qed
qed

end

lemma collect_entries_found:
  "collect_entries gids out d = (out', d') \<Longrightarrow> dict_get out' g = Some c \<Longrightarrow>
   dict_get out g = Some c \<or> g \<in> set gids \<and> dict_get d g = Some c"
proof (induction gids arbitrary: out d)
  case (Cons gid gids)
  show ?case
  proof (cases "dict_get d gid")
    case None
    then have "collect_entries gids out d = (out', d')" using Cons.prems(1) by simp
    from Cons.IH [OF this Cons.prems(2)] show ?thesis by auto
  next
    case (Some v)
    then have "collect_entries gids (dict_set gid v out) (move_to_end gid d) = (out', d')" using Cons.prems(1) by simp
    from Cons.IH [OF this Cons.prems(2)] show ?thesis using Some by (auto split: if_splits)
  qed
qed simp

interpretation memory_store: contribution_store "store_get_many now" "\<lambda>s. dict_get (cs_data s)" for now
proof
  fix gids s out s' g c
  assume run: "store_get_many now gids s = (Inr out, s')" and c: "dict_get out g = Some c"
  obtain out1 d where col: "collect_entries gids [] (cs_data (evict_expired now s)) = (out1, d)"
    by (cases "collect_entries gids [] (cs_data (evict_expired now s))")
  then have "out1 = out" using run by (simp add: store_get_many_def Let_def split: if_splits)
  then have "g \<in> set gids \<and> dict_get (cs_data (evict_expired now s)) g = Some c"
    using collect_entries_found [OF col] c by simp
  then show "g \<in> set gids \<and> dict_get (cs_data s) g = Some c"
    by (auto simp: evict_expired_def Let_def pop_fold_get split: if_splits)
qed

section \<open>The projection from the store in memory\<close>


lemma get_many_open:
  "\<not> cs_closed s \<Longrightarrow> \<exists>out s'. store_get_many now gids s = (Inr out, s') \<and> \<not> cs_closed s'"
  by (simp add: store_get_many_def Let_def split: prod.split)

lemma build_preamble_ok:
  assumes opened: "\<not> cs_closed s" and reports: "\<forall>g \<in> set (dict_values all_goals). report_ok g"
  shows "\<exists>turns s'. build_preamble render validate (store_get_many now) goal all_goals direct s = (Inr turns, s') \<and>
    length turns \<le> MAX_PREAMBLE_TURNS"
proof -
  define ancestors where "ancestors = collect_ancestors goal all_goals"
  have "set ancestors \<subseteq> set (dict_values all_goals)"
  proof
    fix n assume "n \<in> set ancestors"
    then obtain a where "dict_get all_goals a = Some n"
      by (auto simp: ancestors_def collect_ancestors_def map_filter_def)
    then show "n \<in> set (dict_values all_goals)" by (rule dict_get_value)
  qed
  then have reports: "\<forall>n \<in> set ancestors. report_ok n" using reports by blast
  obtain fetched s' where "store_get_many now (filter (\<lambda>aid. dict_get direct aid = None) (map g_id ancestors)) s = (Inr fetched, s')"
    using get_many_open [OF opened] by blast
  then show ?thesis
    using build_preamble_pairs_ok [OF reports, of render validate direct]
      build_preamble_pairs_ok [OF reports, of render validate "dict_update direct fetched"]
    by (auto simp: build_preamble_def ancestors_def [symmetric] Let_def)
qed

text \<open>Claim C38. With limits no larger than what a bundle may carry, an open store and reports whose lists are lists,
  the projection always yields a bundle, whatever the goals and their contributions are.\<close>

theorem project_succeeds:
  assumes "\<not> cs_closed s" and "\<forall>g \<in> set (dict_values all_goals). report_ok g"
    and caps: "pc_max_findings cfg \<le> 20" "0 < pc_max_effects cfg" "pc_max_effects cfg \<le> 50" "pc_max_plan_steps cfg \<le> 30"
  shows "\<exists>b. fst (project render validate weighted cfg (store_get_many now) goal all_goals s) = Inr b"
proof -
  define parent_ids where "parent_ids = g_depends_on goal @ g_informs goal"
  obtain contributions s1 where fetch: "store_get_many now parent_ids s = (Inr contributions, s1)" and s1: "\<not> cs_closed s1"
    using get_many_open [OF assms(1)] by blast
  obtain preamble s2 where preamble: "build_preamble render validate (store_get_many now) goal all_goals contributions s1 = (Inr preamble, s2)"
      "length preamble \<le> MAX_PREAMBLE_TURNS"
    using build_preamble_ok [OF s1 assms(2)] by blast
  define pairs where "pairs = order_by_recency parent_ids contributions all_goals"
  have "\<exists>b. make_bundle [] [] [] no_stats preamble = Inr b" "\<exists>b. make_bundle [] [] [] no_stats [] = Inr b"
    by (rule make_bundle_ok; use preamble(2) in simp)+
  moreover have "length (merge_findings weighted (pc_max_findings cfg) pairs) \<le> 20"
    using merge_findings_length [of weighted "pc_max_findings cfg" pairs] caps(1) by linarith
  moreover have "length (merge_effects (pc_max_effects cfg) pairs {} []) \<le> 50"
    using merge_effects_spec [of "[]" "pc_max_effects cfg" pairs "{}"] caps(2,3) by simp
  moreover have "length (merge_plan_steps (pc_max_plan_steps cfg) pairs []) \<le> 30"
    using merge_plan_steps_length [of "pc_max_plan_steps cfg" pairs "[]"] caps(4) by linarith
  then have "\<exists>b. make_bundle (merge_plan_steps (pc_max_plan_steps cfg) pairs []) (merge_effects (pc_max_effects cfg) pairs {} [])
      (merge_findings weighted (pc_max_findings cfg) pairs) (merge_tool_stats pairs) preamble = Inr b"
    using calculation(3,4) preamble(2) by (intro make_bundle_ok)
  moreover have "fst (project render validate weighted cfg (store_get_many now) goal all_goals s) =
     (if parent_ids = [] then make_bundle [] [] [] no_stats []
      else if contributions = [] then make_bundle [] [] [] no_stats preamble
      else make_bundle (merge_plan_steps (pc_max_plan_steps cfg) pairs []) (merge_effects (pc_max_effects cfg) pairs {} [])
        (merge_findings weighted (pc_max_findings cfg) pairs) (merge_tool_stats pairs) preamble)"
    unfolding project_def Let_def parent_ids_def [symmetric] by (simp add: fetch preamble(1) pairs_def)
  ultimately show ?thesis by (cases "parent_ids = []"; cases "contributions = []") simp_all
qed

section \<open>Examples\<close>

definition sample_contribution :: "nat \<Rightarrow> contribution" where
  "sample_contribution n =
     \<lparr>cb_plan_steps_executed = [\<lparr>ss_id = ''s'', ss_action = ''build'', ss_outcome = OutCompleted, ss_duration_ms = None\<rparr>],
      cb_effects = [\<lparr>ge_kind = Produce, ge_ref = '' a.txt'', ge_statement = ''written'', ge_digest = None, ge_confidence = 1,
        ge_goal_id_origin = None\<rparr>],
      cb_findings = replicate n \<lparr>fd_summary = ''ok'', fd_relevance_score = 1\<rparr>,
      cb_tool_call_stats = \<lparr>tc_counts_by_name = [(''grep'', 3)], tc_failures_by_name = []\<rparr>,
      cb_wave_plan = None, cb_wave_plan_path = None\<rparr>"

definition projection_store :: "nat \<Rightarrow> contribution ctx_store" where
  "projection_store n = (new_ctx_store 0 0)\<lparr>cs_data := [(''p'', sample_contribution n), (''q'', sample_contribution n)],
     cs_timestamps := [(''p'', 1), (''q'', 1)]\<rparr>"

definition projection_goals :: "(ident, goal_node) dict" where
  "projection_goals = [(''p'', new_goal ''p'' ''first'' 1), (''q'', (new_goal ''q'' ''second'' 2)\<lparr>g_depends_on := [''p'']\<rparr>)]"

definition projected_goal :: goal_node where
  "projected_goal = (new_goal ''g'' ''third'' 3)\<lparr>g_depends_on := [''q''], g_informs := [''p'', ''q'']\<rparr>"

definition caps :: "nat \<Rightarrow> projection_config" where
  "caps n = \<lparr>pc_max_findings = n, pc_max_effects = 50, pc_max_plan_steps = 30\<rparr>"

lemma collect_ancestors_correct_witness:
  "g_id ` set (collect_ancestors projected_goal projection_goals) = {''p'', ''q''} \<and>
   (parent_edges projection_goals)\<^sup>* `` set (parents_of projected_goal) \<inter> set (dict_keys projection_goals) = {''p'', ''q''}"
proof -
  have keyed: "keyed_by g_id projection_goals"
    by (simp add: keyed_by_def wf_dict_def projection_goals_def new_goal_def)
  have c: "map g_id (collect_ancestors projected_goal projection_goals) = [''p'', ''q'']"
    by code_simp
  then have "g_id ` set (collect_ancestors projected_goal projection_goals) = {''p'', ''q''}"
    by (metis list.set_map list.simps(15) empty_set)
  with collect_ancestors_correct [OF keyed, of projected_goal] show ?thesis by simp
qed

definition project_sample :: "nat \<Rightarrow> projection_config \<Rightarrow> context_bundle outcome" where
  "project_sample n cfg = fst (project (\<lambda>_. []) (\<lambda>_. None) (\<lambda>r i n. r) cfg (store_get_many 5) projected_goal projection_goals
     (projection_store n))"

definition sample_bundle :: context_bundle where
  "sample_bundle = (case project_sample 1 (caps 20) of Inr b \<Rightarrow> b | Inl _ \<Rightarrow>
     \<lparr>bd_prior_plan_steps = [], bd_prior_effects = [], bd_findings = [], bd_tool_call_summary = no_stats,
      bd_operator_guidance = [], bd_cached_system_prompt_hash = None, bd_preamble_messages = []\<rparr>)"

lemma project_sample_ok: "project_sample 1 (caps 20) = Inr sample_bundle"
proof -
  have "case project_sample 1 (caps 20) of Inr b \<Rightarrow> True | Inl _ \<Rightarrow> False" by code_simp
  then show ?thesis by (simp add: sample_bundle_def split: sum.splits)
qed

lemma preamble_within_cap_witness:
  "\<exists>turns. build_preamble_pairs (\<lambda>_. []) (\<lambda>_. None) [projected_goal] [(''g'', sample_contribution 1)] = Inr turns \<and>
     length turns = 2"
proof -
  let ?b = "build_preamble_pairs (\<lambda>_. []) (\<lambda>_. None) [projected_goal] [(''g'', sample_contribution 1)]"
  have "case ?b of Inr b \<Rightarrow> True | Inl _ \<Rightarrow> False" by code_simp
  then obtain turns where t: "?b = Inr turns" by (auto split: sum.splits)
  moreover have "length (candidate_pairs [projected_goal] [(''g'', sample_contribution 1)]) = 1" by code_simp
  ultimately show ?thesis using preamble_within_cap [OF t] by simp
qed

lemma merge_effects_reference_witness:
  "distinct (map ge_ref (merge_effects 50 [(''p'', sample_contribution 0), (''q'', sample_contribution 0)] {} [])) \<and>
   map ge_ref (merge_effects 50 [(''p'', sample_contribution 0), (''q'', sample_contribution 0)] {} []) = [''a.txt'']"
proof -
  have "map ge_ref (take 50 (first_refs {} (all_effects [(''p'', sample_contribution 0), (''q'', sample_contribution 0)]))) = [''a.txt'']"
    by code_simp
  then show ?thesis
    using merge_effects_reference [of 50 "[(''p'', sample_contribution 0), (''q'', sample_contribution 0)]"] by simp
qed


lemma project_succeeds_witness: "\<exists>b. project_sample 1 (caps 20) = Inr b"
proof -
  have "\<not> cs_closed (projection_store 1)" by code_simp
  moreover have "\<forall>g \<in> set (dict_values projection_goals). report_ok g"
    by (simp add: projection_goals_def report_ok_def new_goal_def)
  ultimately show ?thesis
    unfolding project_sample_def by (rule project_succeeds) (simp_all add: caps_def)
qed

section \<open>What the projector does not do\<close>

text \<open>The configuration may ask for up to 200 findings, but a bundle refuses more than 20: with a limit of 21, two
  parents that report 11 findings each make the projection raise, so that the goal is not dispatched.\<close>

lemma raised_limit_raises:
  "project_sample 11 (caps 21) = Inl (ValueError ''GoalDispatchContextBundle.findings (21) exceeds max 20'')"
  by code_simp

text \<open>A parent that is listed both as a dependency and as an informing goal is merged twice: its steps appear twice
  and its tool calls are counted twice.\<close>

lemma double_parent_counted_twice:
  "map pr_goal_id_origin (bd_prior_plan_steps sample_bundle) = [''q'', ''q'', ''p''] \<and>
   tc_counts_by_name (bd_tool_call_summary sample_bundle) = [(''grep'', 9)]"
  by code_simp

text \<open>A goal on a cycle of informing goals is among its own ancestors.\<close>

lemma goal_among_its_ancestors:
  "map g_id (collect_ancestors ((new_goal ''a'' [] 1)\<lparr>g_informs := [''b'']\<rparr>)
     [(''a'', (new_goal ''a'' [] 1)\<lparr>g_informs := [''b'']\<rparr>), (''b'', (new_goal ''b'' [] 2)\<lparr>g_informs := [''a'']\<rparr>)]) = [''a'', ''b'']"
  by code_simp

end
