(* ===== verification/Wave_Plan.thy ===== *)
theory Wave_Plan
  imports Goal_Planner
begin

text \<open>
  The wave plan of LoopRail (\<open>rails/wave_plan.py\<close>): the flat list of slices a model proposes for the
  makers of a job, how it is read from untrusted JSON, and how the slices to spawn are resolved
  from it. Numbers are integers. The parser of JSON text (\<open>loads\<close>, and \<open>decode\<close>, which answers with
  the value that starts at an opening bracket and the number of characters after that bracket),
  the lenient conversions of the validation library to an integer (\<open>lax\<close>) and the text of its
  error messages (\<open>explain\<close>) are parameters.
\<close>

section \<open>Schema\<close>

record wave_slice =
  ws_slice :: string
  ws_description :: "string option"
  ws_tags :: "string list"
  ws_depends_on :: "string list"
  ws_priority :: "int option"

record wave_plan =
  pl_wave_slices :: "string list"
  pl_slices :: "wave_slice list"
  pl_scout_count :: "int option"
  pl_max_slices :: "int option"
  pl_max_waves :: "int option"
  pl_independence :: "string option"
  pl_rationale :: "string option"

text \<open>Fields as the validation library reads them; \<open>None\<close> stands for a validation error.\<close>

definition str_field :: "json \<Rightarrow> string option" where
  "str_field j = (case j of JStr s \<Rightarrow> Some s | _ \<Rightarrow> None)"

definition opt_str_field :: "json option \<Rightarrow> string option option" where
  "opt_str_field v = (case v of None \<Rightarrow> Some None | Some JNull \<Rightarrow> Some None | Some (JStr s) \<Rightarrow> Some (Some s) | _ \<Rightarrow> None)"

fun all_some :: "'a option list \<Rightarrow> 'a list option" where
  "all_some [] = Some []"
| "all_some (x # xs) = (case x of None \<Rightarrow> None | Some a \<Rightarrow> map_option (Cons a) (all_some xs))"

definition strs_field :: "json option \<Rightarrow> string list option" where
  "strs_field v = (case v of None \<Rightarrow> Some [] | Some (JList xs) \<Rightarrow> all_some (map str_field xs) | _ \<Rightarrow> None)"

definition count_field :: "(json \<Rightarrow> int option) \<Rightarrow> int \<Rightarrow> json option \<Rightarrow> int option option" where
  "count_field lax hi v =
     (case v of
        None \<Rightarrow> Some None
      | Some JNull \<Rightarrow> Some None
      | Some j \<Rightarrow>
          (case (case j of JInt i \<Rightarrow> Some i | _ \<Rightarrow> lax j) of
             None \<Rightarrow> None
           | Some i \<Rightarrow> if 1 \<le> i \<and> i \<le> hi then Some (Some i) else None))"

definition coerce_priority :: "json option \<Rightarrow> int option" where
  "coerce_priority v =
     (case v of
        Some (JInt i) \<Rightarrow> Some i
      | Some (JStr s) \<Rightarrow>
          (let t = py_strip s
           in if py_isdigit t then Some (int (parse_digits t))
              else if take 1 t = ''-'' \<and> py_isdigit (drop 1 t) then Some (- int (parse_digits (drop 1 t)))
              else None)
      | _ \<Rightarrow> None)"

fun strip_deps :: "string list \<Rightarrow> string list \<Rightarrow> string list" where
  "strip_deps [] out = out"
| "strip_deps (item # items) out =
     (let name = py_strip item
      in strip_deps items (if name \<noteq> [] \<and> name \<notin> set out then out @ [name] else out))"

definition slice_of_obj :: "obj \<Rightarrow> wave_slice option" where
  "slice_of_obj entry =
     (case dict_get entry ''slice'' of
        Some (JStr s) \<Rightarrow>
          (if length s < 1 \<or> length s > 64 \<or> py_strip s = [] then None
           else
             (case (opt_str_field (dict_get entry ''description''), strs_field (dict_get entry ''tags''),
                    strs_field (dict_get entry ''depends_on'')) of
                (Some description, Some tags, Some deps) \<Rightarrow>
                  Some \<lparr>ws_slice = py_strip s, ws_description = description, ws_tags = tags,
                        ws_depends_on = strip_deps deps [], ws_priority = coerce_priority (dict_get entry ''priority'')\<rparr>
              | _ \<Rightarrow> None))
      | _ \<Rightarrow> None)"

definition slice_field :: "json \<Rightarrow> wave_slice option" where
  "slice_field j = (case j of JObj entry \<Rightarrow> slice_of_obj entry | _ \<Rightarrow> None)"

definition slices_field :: "json option \<Rightarrow> wave_slice list option" where
  "slices_field v = (case v of None \<Rightarrow> Some [] | Some (JList xs) \<Rightarrow> all_some (map slice_field xs) | _ \<Rightarrow> None)"

section \<open>The dependencies of the slices\<close>

definition slice_graph :: "wave_slice list \<Rightarrow> (string, string list) dict" where
  "slice_graph slices = foldl (\<lambda>g s. dict_set (ws_slice s) (ws_depends_on s) g) [] slices"

text \<open>\<open>visit\<close> on a list of nodes: \<open>None\<close> when a node is met that is still being visited.\<close>

function visit_slices ::
  "(string, string list) dict \<Rightarrow> string set \<Rightarrow> string set \<Rightarrow> string list \<Rightarrow> string set option" where
  "visit_slices graph visiting visited [] = Some visited"
| "visit_slices graph visiting visited (node # rest) =
     (if node \<in> visited then visit_slices graph visiting visited rest
      else if node \<in> visiting then None
      else
        (case (case dict_get graph node of
                 None \<Rightarrow> Some visited
               | Some deps \<Rightarrow> visit_slices graph (insert node visiting) visited deps) of
           None \<Rightarrow> None
         | Some visited' \<Rightarrow> visit_slices graph visiting (insert node visited') rest))"
  by pat_completeness auto

termination
proof (relation "measures [\<lambda>(graph, visiting, visited, names). card (set (dict_keys graph) - visiting),
                           \<lambda>(graph, visiting, visited, names). length names]", goal_cases)
  case (3 graph visiting visited node rest deps)
  then have "node \<in> set (dict_keys graph)" by (blast dest: dict_get_key)
  with 3 have "set (dict_keys graph) - insert node visiting \<subset> set (dict_keys graph) - visiting" by blast
  then show ?case by (simp add: psubset_card_mono)
qed simp_all

definition depends_on_valid :: "wave_slice list \<Rightarrow> bool" where
  "depends_on_valid slices \<longleftrightarrow>
     list_all (\<lambda>s. list_all (\<lambda>dep. dep \<noteq> ws_slice s \<and> dep \<in> set (map ws_slice slices)) (ws_depends_on s)) slices \<and>
     visit_slices (slice_graph slices) {} {} (dict_keys (slice_graph slices)) \<noteq> None"

definition plan_of_obj :: "(json \<Rightarrow> int option) \<Rightarrow> obj \<Rightarrow> wave_plan option" where
  "plan_of_obj lax raw =
     (case (strs_field (dict_get raw ''wave_slices''), slices_field (dict_get raw ''slices''),
            count_field lax 32 (dict_get raw ''scout_count''), count_field lax 64 (dict_get raw ''max_slices''),
            count_field lax 64 (dict_get raw ''max_waves''), opt_str_field (dict_get raw ''independence''),
            opt_str_field (dict_get raw ''rationale'')) of
        (Some names, Some slices, Some scouts, Some max_slices, Some max_waves, Some independence, Some rationale) \<Rightarrow>
          (if slices = [] \<or> depends_on_valid slices
           then Some \<lparr>pl_wave_slices = filter (\<lambda>n. n \<noteq> []) (map py_strip names), pl_slices = slices, pl_scout_count = scouts,
                      pl_max_slices = max_slices, pl_max_waves = max_waves, pl_independence = independence,
                      pl_rationale = rationale\<rparr>
           else None)
      | _ \<Rightarrow> None)"

definition resolved_slice_ids :: "wave_plan \<Rightarrow> string list" where
  "resolved_slice_ids p = (if pl_slices p \<noteq> [] then map ws_slice (pl_slices p) else pl_wave_slices p)"

definition expansion_budget :: "wave_plan \<Rightarrow> int option" where
  "expansion_budget p = (if pl_max_slices p \<noteq> None then pl_max_slices p else pl_max_waves p)"

definition decompose_entry :: "wave_slice \<Rightarrow> obj" where
  "decompose_entry s =
     [(''slice'', JStr (ws_slice s)),
      (''description'', JStr (if truthy (ws_description s) then opt_str (ws_description s) else ws_slice s)),
      (''tags'', JList (map JStr (if ws_tags s \<noteq> [] then ws_tags s else [''implementation'', ''maker'']))),
      (''role'', JStr ''maker'')] @
     (if ws_depends_on s \<noteq> [] then [(''depends_on'', JList (map JStr (ws_depends_on s)))] else []) @
     (case ws_priority s of None \<Rightarrow> [] | Some i \<Rightarrow> [(''priority'', JInt i)])"

definition as_decompose_plan :: "wave_plan \<Rightarrow> obj list option" where
  "as_decompose_plan p = (if pl_slices p = [] then None else Some (map decompose_entry (pl_slices p)))"

section \<open>Reading a plan from untrusted JSON\<close>

record ingest_result =
  ir_plan :: "wave_plan option"
  ir_detail :: string
  ir_source_path :: "string option"

definition rejected :: "string \<Rightarrow> ingest_result" where
  "rejected detail = \<lparr>ir_plan = None, ir_detail = detail, ir_source_path = None\<rparr>"

definition accepted_plan :: "wave_plan \<Rightarrow> ingest_result" where
  "accepted_plan p = \<lparr>ir_plan = Some p, ir_detail = [], ir_source_path = None\<rparr>"

definition from_source :: "string \<Rightarrow> string" where
  "from_source source = '' (source='' @ source @ '')''"

definition removed_wire_keys :: "string set" where
  "removed_wire_keys = {''wave_modules'', ''modules'', ''module''}"

definition nested_child_keys :: "string list" where
  "nested_child_keys = [''slices'', ''children'', ''waves'', ''wave_slices'']"

fun type_name :: "json \<Rightarrow> string" where
  "type_name JNull = ''NoneType''"
| "type_name (JBool _) = ''bool''"
| "type_name (JInt _) = ''int''"
| "type_name (JStr _) = ''str''"
| "type_name (JList _) = ''list''"
| "type_name (JObj _) = ''dict''"

definition has_key :: "obj \<Rightarrow> string \<Rightarrow> bool" where
  "has_key raw k \<longleftrightarrow> k \<in> set (dict_keys raw)"

definition reject_removed_wire_keys :: "obj \<Rightarrow> string \<Rightarrow> string option" where
  "reject_removed_wire_keys raw source =
     (let present = sort (filter (\<lambda>k. k \<in> removed_wire_keys) (dict_keys raw));
          found = (if present \<noteq> [] then present
                   else (case dict_get raw ''slices'' of
                           Some (JList items) \<Rightarrow>
                             (if list_ex (\<lambda>item. case item of JObj e \<Rightarrow> has_key e ''module'' | _ \<Rightarrow> False) items
                              then [''slices[].module''] else [])
                         | _ \<Rightarrow> []))
      in if found = [] then None
         else Some (''uses removed keys ['' @ py_join '', '' (map (\<lambda>k. [CHR 0x27] @ k @ [CHR 0x27]) found) @
                    ''; use flat wave_slices / slices / slice'' @ from_source source))"

definition entry_has_nested_children :: "obj \<Rightarrow> bool" where
  "entry_has_nested_children item \<longleftrightarrow>
     list_ex (\<lambda>key. case dict_get item key of
                      Some (JList xs) \<Rightarrow> xs \<noteq> [] | Some (JObj kvs) \<Rightarrow> kvs \<noteq> [] | _ \<Rightarrow> False) nested_child_keys"

text \<open>The first reason an item of a list gives, with its index.\<close>

fun first_reason :: "(nat \<Rightarrow> obj \<Rightarrow> string option) \<Rightarrow> nat \<Rightarrow> json list \<Rightarrow> string option" where
  "first_reason check i [] = None"
| "first_reason check i (item # items) =
     (case (case item of JObj e \<Rightarrow> check i e | _ \<Rightarrow> None) of
        Some msg \<Rightarrow> Some msg
      | None \<Rightarrow> first_reason check (Suc i) items)"

definition is_container :: "json \<Rightarrow> bool" where
  "is_container j \<longleftrightarrow> (case j of JList _ \<Rightarrow> True | JObj _ \<Rightarrow> True | _ \<Rightarrow> False)"

definition wave_item_reason :: "string \<Rightarrow> nat \<Rightarrow> obj \<Rightarrow> string option" where
  "wave_item_reason source i e =
     (if entry_has_nested_children e
      then Some (''nested slices forbidden (wave_slices['' @ show_nat i @ ''] contains child slices/waves); flat leaf ids only''
                 @ from_source source)
      else if has_key e ''wave_id'' \<or> has_key e ''wave''
      then Some (''nested waves forbidden (wave_slices['' @ show_nat i @ ''] looks like a wave object); flat leaf ids only''
                 @ from_source source)
      else None)"

definition slice_item_reason :: "string \<Rightarrow> nat \<Rightarrow> obj \<Rightarrow> string option" where
  "slice_item_reason source i e =
     (if entry_has_nested_children e
      then Some (''nested slices forbidden (slices['' @ show_nat i @ ''] contains child slices/waves); flat leaf entries only''
                 @ from_source source)
      else None)"

definition text_field_reason :: "string \<Rightarrow> obj \<Rightarrow> string \<Rightarrow> string option" where
  "text_field_reason source raw field =
     (case dict_get raw field of
        Some v \<Rightarrow> (if is_container v
                   then Some (field @ '' must be a string (or omitted), not '' @ type_name v @ from_source source) else None)
      | None \<Rightarrow> None)"

fun first_some :: "'a option list \<Rightarrow> 'a option" where
  "first_some [] = None"
| "first_some (x # xs) = (case x of Some a \<Rightarrow> Some a | None \<Rightarrow> first_some xs)"

definition nesting_reject_reason :: "obj \<Rightarrow> string \<Rightarrow> string option" where
  "nesting_reject_reason raw source =
     first_some
       [case dict_get raw ''waves'' of
          Some v \<Rightarrow> (if is_container v
                     then Some (''nested waves forbidden (top-level waves); emit flat wave_slices string list or flat slices[]''
                                @ from_source source) else None)
        | None \<Rightarrow> None,
        case dict_get raw ''wave_slices'' of
          Some (JObj _) \<Rightarrow>
            Some (''nested waves forbidden (wave_slices is an object/dict); emit wave_slices as ['' @
                  py_join '','' (map (\<lambda>n. [CHR 0x22] @ n @ [CHR 0x22]) [''a'', ''b'']) @ ''] '' @
                  [char_of (226 :: nat), char_of (128 :: nat), char_of (148 :: nat)] @ '' do not key by WAVE-*'' @ from_source source)
        | Some (JList items) \<Rightarrow> first_reason (wave_item_reason source) 0 items
        | _ \<Rightarrow> None,
        case dict_get raw ''slices'' of
          Some (JList items) \<Rightarrow> first_reason (slice_item_reason source) 0 items
        | _ \<Rightarrow> None,
        text_field_reason source raw ''rationale'',
        text_field_reason source raw ''independence'']"

definition stripped_str :: "json option \<Rightarrow> string option" where
  "stripped_str v = (case v of Some (JStr s) \<Rightarrow> (if py_strip s \<noteq> [] then Some (py_strip s) else None) | _ \<Rightarrow> None)"

definition alias_slice :: "string list \<Rightarrow> obj \<Rightarrow> obj" where
  "alias_slice aliases entry =
     (if has_key entry ''slice'' then entry
      else (case first_some (map (\<lambda>a. stripped_str (dict_get entry a)) aliases) of
              None \<Rightarrow> entry
            | Some name \<Rightarrow> dict_set ''slice'' (JStr name) entry))"

definition coerce_text :: "string \<Rightarrow> obj \<Rightarrow> obj" where
  "coerce_text field out =
     (case dict_get out field of
        None \<Rightarrow> out
      | Some v \<Rightarrow> (case v of
                    JBool _ \<Rightarrow> dict_set field (JStr (str_of_json (\<lambda>_. []) v)) out
                  | JInt _ \<Rightarrow> dict_set field (JStr (str_of_json (\<lambda>_. []) v)) out
                  | _ \<Rightarrow> out))"

definition coerce_slices :: "obj \<Rightarrow> obj" where
  "coerce_slices out =
     (case dict_get out ''slices'' of
        Some (JList items) \<Rightarrow>
          dict_set ''slices''
            (JList (map (\<lambda>item. case item of JObj e \<Rightarrow> JObj (alias_slice [''name'', ''id''] e) | _ \<Rightarrow> item) items)) out
      | _ \<Rightarrow> out)"

definition obj_of :: "json \<Rightarrow> obj option" where
  "obj_of j = (case j of JObj e \<Rightarrow> Some e | _ \<Rightarrow> None)"

definition promote_wave_objects :: "obj \<Rightarrow> obj" where
  "promote_wave_objects out =
     (case dict_get out ''wave_slices'' of
        Some (JList items) \<Rightarrow>
          (case all_some (map obj_of items) of
             Some entries \<Rightarrow>
               (let rich = map (alias_slice [''name'', ''id'', ''slice_id'']) entries;
                    names = map (\<lambda>e. stripped_str (dict_get e ''slice'')) rich
                in case all_some names of
                     Some ids \<Rightarrow>
                       (if rich \<noteq> [] \<and> (case dict_get out ''slices'' of None \<Rightarrow> True | Some v \<Rightarrow> \<not> json_true v)
                        then dict_set ''wave_slices'' (JList (map JStr ids)) (dict_set ''slices'' (JList (map JObj rich)) out)
                        else out)
                   | None \<Rightarrow> out)
           | None \<Rightarrow> out)
      | _ \<Rightarrow> out)"

definition coerce_flat_aliases :: "obj \<Rightarrow> obj" where
  "coerce_flat_aliases raw =
     promote_wave_objects (coerce_slices (coerce_text ''independence'' (coerce_text ''rationale'' raw)))"

lemma coerced_keeps:
  "k \<noteq> field \<Longrightarrow> dict_get (coerce_text field raw) k = dict_get raw k"
  "k \<noteq> ''slices'' \<Longrightarrow> dict_get (coerce_slices raw) k = dict_get raw k"
  "k \<noteq> ''slices'' \<Longrightarrow> k \<noteq> ''wave_slices'' \<Longrightarrow> dict_get (promote_wave_objects raw) k = dict_get raw k"
  by (simp_all only: coerce_text_def coerce_slices_def promote_wave_objects_def Let_def
      split: option.split json.split if_split) simp_all

lemma coerced_wave_plan: "dict_get (coerce_flat_aliases raw) ''wave_plan'' = dict_get raw ''wave_plan''"
  by (simp add: coerce_flat_aliases_def coerced_keeps)

lemma json_size_field: "dict_get kvs k = Some v \<Longrightarrow> size v < size (JObj kvs)"
  by (induction kvs) (auto split: if_splits)

text \<open>\<open>explain\<close> is the text of the validation error of a coerced object.\<close>

function diagnose_obj :: "(json \<Rightarrow> int option) \<Rightarrow> (obj \<Rightarrow> string) \<Rightarrow> string \<Rightarrow> obj \<Rightarrow> ingest_result" where
  "diagnose_obj lax explain source raw =
     (case reject_removed_wire_keys raw source of
        Some msg \<Rightarrow> rejected msg
      | None \<Rightarrow>
          (case nesting_reject_reason raw source of
             Some msg \<Rightarrow> rejected msg
           | None \<Rightarrow>
               (case plan_of_obj lax (coerce_flat_aliases raw) of
                  None \<Rightarrow> rejected (explain (coerce_flat_aliases raw) @ from_source source)
                | Some p \<Rightarrow>
                    if resolved_slice_ids p \<noteq> [] \<or> pl_scout_count p \<noteq> None then accepted_plan p
                    else (case dict_get (coerce_flat_aliases raw) ''wave_plan'' of
                            Some (JObj nested) \<Rightarrow> diagnose_obj lax explain (source @ ''.wave_plan'') nested
                          | _ \<Rightarrow> rejected (''has no slices or scout_count'' @ from_source source)))))"
  by pat_completeness auto

termination
proof (relation "measure (\<lambda>(lax, explain, source, raw). size (JObj raw))", goal_cases)
  case (2 lax explain source raw p v nested)
  then have "dict_get raw ''wave_plan'' = Some (JObj nested)" by (simp only: coerced_wave_plan)
  then show ?case using json_size_field [of raw "''wave_plan''" "JObj nested"] by simp
qed simp

declare diagnose_obj.simps [simp del]

definition diagnose_wave_plan_payload ::
  "(string \<Rightarrow> json option) \<Rightarrow> (json \<Rightarrow> int option) \<Rightarrow> (obj \<Rightarrow> string) \<Rightarrow> string \<Rightarrow> json \<Rightarrow> ingest_result" where
  "diagnose_wave_plan_payload loads lax explain source raw =
     (let as_obj = (\<lambda>j. case j of
                          JObj kvs \<Rightarrow> diagnose_obj lax explain source kvs
                        | _ \<Rightarrow> rejected (''expected JSON object, got '' @ type_name j @ from_source source))
      in case raw of
           JStr s \<Rightarrow>
             (let text = py_strip s
              in if text = [] then rejected (''empty string'' @ from_source source)
                 else (case loads text of
                         None \<Rightarrow> rejected (''not a JSON object'' @ from_source source)
                       | Some j \<Rightarrow> as_obj j))
         | _ \<Rightarrow> as_obj raw)"

section \<open>Plans inside findings\<close>

definition next_bracket :: "string \<Rightarrow> nat \<Rightarrow> nat option" where
  "next_bracket text idx =
     (case filter (\<lambda>i. text ! i = CHR 0x7B \<or> text ! i = CHR 0x5B) [idx..<length text] of [] \<Rightarrow> None | i # _ \<Rightarrow> Some i)"

lemma next_bracket_bounds:
  assumes "next_bracket text idx = Some i"
  shows "idx \<le> i \<and> i < length text"
proof -
  have "i \<in> set (filter (\<lambda>i. text ! i = CHR 0x7B \<or> text ! i = CHR 0x5B) [idx..<length text])"
    using assms by (auto simp only: next_bracket_def split: list.splits) simp_all
  then show ?thesis by simp
qed

function embedded_objects :: "(string \<Rightarrow> nat \<Rightarrow> (json \<times> nat) option) \<Rightarrow> string \<Rightarrow> nat \<Rightarrow> json list" where
  "embedded_objects decode text idx =
     (case next_bracket text idx of
        None \<Rightarrow> []
      | Some start \<Rightarrow>
          (case decode text start of
             None \<Rightarrow> embedded_objects decode text (Suc start)
           | Some (j, n) \<Rightarrow> j # embedded_objects decode text (Suc (start + n))))"
  by pat_completeness auto

termination
proof (relation "measure (\<lambda>(decode, text, idx). length text - idx)", goal_cases)
  case (2 decode t idx start)
  with next_bracket_bounds [of t idx start] have "idx \<le> start" "start < length t" by simp_all
  then show ?case by (simp; linarith)
next
  case (3 decode t idx start)
  with next_bracket_bounds [of t idx start] have "idx \<le> start" "start < length t" by simp_all
  then show ?case by (simp; linarith)
qed simp

declare embedded_objects.simps [simp del]

definition iter_embedded_json_objects :: "(string \<Rightarrow> nat \<Rightarrow> (json \<times> nat) option) \<Rightarrow> string \<Rightarrow> json list" where
  "iter_embedded_json_objects decode text = (if py_strip text = [] then [] else embedded_objects decode text 0)"

text \<open>Which of two reasons for a rejection is kept.\<close>

definition prefer_ingest_detail :: "string \<Rightarrow> string \<Rightarrow> string" where
  "prefer_ingest_detail current candidate =
     (if candidate = [] then current
      else if current = [] then candidate
      else
        (let cand_l = py_lower candidate; cur_l = py_lower current
         in if contains ''nested'' cand_l \<and> \<not> contains ''nested'' cur_l then candidate
            else if contains ''nested'' cur_l then current
            else if contains ''not a json'' cur_l \<or> contains ''empty string'' cur_l then candidate
            else if contains ''not a json'' cand_l \<or> contains ''empty string'' cand_l then current
            else if contains '':'' candidate \<and> \<not> contains '':'' current then candidate
            else if (contains '':'' current \<or> contains ''source='' cur_l) \<and> \<not> contains ''not a json'' cur_l then current
            else candidate))"

fun try_embedded ::
  "(string \<Rightarrow> json option) \<Rightarrow> (json \<Rightarrow> int option) \<Rightarrow> (obj \<Rightarrow> string) \<Rightarrow> string \<Rightarrow> nat \<Rightarrow> json list \<Rightarrow> string \<Rightarrow>
   ingest_result + string" where
  "try_embedded loads lax explain source i [] best = Inr best"
| "try_embedded loads lax explain source i (j # js) best =
     (let emb = diagnose_wave_plan_payload loads lax explain (source @ ''.embed['' @ show_nat i @ '']'') j
      in if (case ir_plan emb of None \<Rightarrow> False | Some p \<Rightarrow> resolved_slice_ids p \<noteq> []) then Inl emb
         else try_embedded loads lax explain source (Suc i) js (prefer_ingest_detail best (ir_detail emb)))"

fun scan_findings ::
  "(string \<Rightarrow> json option) \<Rightarrow> (string \<Rightarrow> nat \<Rightarrow> (json \<times> nat) option) \<Rightarrow> (json \<Rightarrow> int option) \<Rightarrow> (obj \<Rightarrow> string) \<Rightarrow>
   nat \<Rightarrow> json list \<Rightarrow> string \<Rightarrow> ingest_result" where
  "scan_findings loads decode lax explain i [] best =
     rejected (if best \<noteq> [] then best else ''no usable flat WavePlan in completion findings/evidence'')"
| "scan_findings loads decode lax explain i (item # items) best =
     (let source = ''findings['' @ show_nat i @ '']''
      in case item of
           JObj _ \<Rightarrow>
             (let r = diagnose_wave_plan_payload loads lax explain source item
              in if ir_plan r \<noteq> None then r
                 else scan_findings loads decode lax explain (Suc i) items (prefer_ingest_detail best (ir_detail r)))
         | JStr s \<Rightarrow>
             (let text = py_strip s;
                  r = diagnose_wave_plan_payload loads lax explain source (JStr text)
              in if ir_plan r \<noteq> None then r
                 else (case try_embedded loads lax explain source 0 (iter_embedded_json_objects decode text)
                              (prefer_ingest_detail best (ir_detail r)) of
                         Inl found \<Rightarrow> found
                       | Inr best' \<Rightarrow> scan_findings loads decode lax explain (Suc i) items best'))
         | _ \<Rightarrow> scan_findings loads decode lax explain (Suc i) items best)"

definition diagnose_wave_plan_from_findings ::
  "(string \<Rightarrow> json option) \<Rightarrow> (string \<Rightarrow> nat \<Rightarrow> (json \<times> nat) option) \<Rightarrow> (json \<Rightarrow> int option) \<Rightarrow> (obj \<Rightarrow> string) \<Rightarrow>
   json list option \<Rightarrow> ingest_result" where
  "diagnose_wave_plan_from_findings loads decode lax explain findings =
     (case findings of
        None \<Rightarrow> rejected ''no WavePlan JSON found in completion findings/evidence''
      | Some [] \<Rightarrow> rejected ''no WavePlan JSON found in completion findings/evidence''
      | Some fs \<Rightarrow> scan_findings loads decode lax explain 0 fs [])"

section \<open>Writing a plan\<close>

definition opt_json :: "('a \<Rightarrow> json) \<Rightarrow> 'a option \<Rightarrow> json" where
  "opt_json f v = (case v of None \<Rightarrow> JNull | Some a \<Rightarrow> f a)"

definition slice_to_obj :: "wave_slice \<Rightarrow> obj" where
  "slice_to_obj s =
     [(''slice'', JStr (ws_slice s)), (''description'', opt_json JStr (ws_description s)),
      (''tags'', JList (map JStr (ws_tags s))), (''depends_on'', JList (map JStr (ws_depends_on s))),
      (''priority'', opt_json JInt (ws_priority s))]"

definition wave_plan_to_dict :: "wave_plan \<Rightarrow> obj" where
  "wave_plan_to_dict p =
     (if pl_wave_slices p \<noteq> [] then [(''wave_slices'', JList (map JStr (pl_wave_slices p)))] else []) @
     (if pl_slices p \<noteq> [] then [(''slices'', JList (map (\<lambda>s. JObj (slice_to_obj s)) (pl_slices p)))] else []) @
     (case pl_independence p of None \<Rightarrow> [] | Some t \<Rightarrow> [(''independence'', JStr t)]) @
     (case pl_rationale p of None \<Rightarrow> [] | Some t \<Rightarrow> [(''rationale'', JStr t)]) @
     (case pl_scout_count p of None \<Rightarrow> [] | Some n \<Rightarrow> [(''scout_count'', JInt n)]) @
     (case pl_max_waves p of None \<Rightarrow> [] | Some n \<Rightarrow> [(''max_waves'', JInt n)])"

section \<open>The slices to spawn\<close>

fun unique_slices :: "string set \<Rightarrow> string list \<Rightarrow> string list" where
  "unique_slices seen [] = []"
| "unique_slices seen (name # names) =
     (let key = py_strip name
      in if key = [] \<or> py_lower key \<in> seen then unique_slices seen names
         else key # unique_slices (insert (py_lower key) seen) names)"

definition clamp_slice_list :: "string list \<Rightarrow> int \<Rightarrow> string list \<times> nat option" where
  "clamp_slice_list slices max_slices =
     (let unique = unique_slices {} slices;
          cap = nat (max 1 max_slices)
      in if length unique > cap then (take cap unique, Some (length unique)) else (unique, None))"

datatype fanout_source = FromDecomposePlan | FromWaveSlices | FromWavePlan | MissingPlan

record fanout_resolution =
  fr_slices :: "string list"
  fr_source :: fanout_source
  fr_clamped_from :: "nat option"
  fr_plan :: "wave_plan option"
  fr_detail :: string

definition spec_name :: "(json \<Rightarrow> string) \<Rightarrow> nat \<Rightarrow> obj \<Rightarrow> string" where
  "spec_name render i spec =
     str_of_json render (json_or (dict_get spec ''slice'') (json_or (dict_get spec ''description'') (JStr (''s'' @ show_nat i))))"

definition missing_plan_detail :: string where
  "missing_plan_detail = ''LLM wave plan required but missing or empty; architecture must supply a flat WavePlan via structured fields, recommended dumps, wave_plan_path, or completion findings before makers spawn''"

definition resolve_fanout_slices ::
  "(json \<Rightarrow> string) \<Rightarrow> string list option \<Rightarrow> obj list option \<Rightarrow> wave_plan option \<Rightarrow> int \<Rightarrow> bool \<Rightarrow> fanout_resolution" where
  "resolve_fanout_slices render wave_slices decompose_plan plan max_slices require_plan =
     (let chosen =
            (case decompose_plan of
               Some (spec # specs) \<Rightarrow>
                 Some (map (\<lambda>(i, s). spec_name render i s) (List.enumerate 0 (spec # specs)), FromDecomposePlan)
             | _ \<Rightarrow>
                 (case wave_slices of
                    Some (name # names) \<Rightarrow> Some (name # names, FromWaveSlices)
                  | _ \<Rightarrow>
                      (case plan of
                         Some p \<Rightarrow> (if resolved_slice_ids p \<noteq> [] then Some (resolved_slice_ids p, FromWavePlan) else None)
                       | None \<Rightarrow> None)))
      in case chosen of
           None \<Rightarrow> \<lparr>fr_slices = [], fr_source = MissingPlan, fr_clamped_from = None, fr_plan = None, fr_detail = missing_plan_detail\<rparr>
         | Some (raw, source) \<Rightarrow>
             (case clamp_slice_list raw max_slices of
                (clamped, clamped_from) \<Rightarrow>
                  (let kept = (if source = FromWavePlan then plan else None)
                   in if clamped = []
                      then \<lparr>fr_slices = [], fr_source = MissingPlan, fr_clamped_from = clamped_from,
                            fr_plan = (if require_plan then kept else None),
                            fr_detail = ''wave plan resolved to an empty slice list after clamp''\<rparr>
                      else \<lparr>fr_slices = clamped, fr_source = source, fr_clamped_from = clamped_from, fr_plan = kept,
                            fr_detail = []\<rparr>)))"

section \<open>What a plan changes in the state of the job\<close>

record state_updates =
  su_wave_slices :: "string list option"
  su_decompose_plan :: "obj list option"
  su_scout_count :: "int option"
  su_max_slices :: "int option"
  su_max_waves :: "int option"

definition apply_wave_plan_to_state_fields :: "wave_plan \<Rightarrow> state_updates" where
  "apply_wave_plan_to_state_fields p =
     (let names = resolved_slice_ids p
      in \<lparr>su_wave_slices = (if names = [] then None else Some names), su_decompose_plan = as_decompose_plan p,
          su_scout_count = pl_scout_count p, su_max_slices = expansion_budget p, su_max_waves = expansion_budget p\<rparr>)"

section \<open>The search accepts exactly the acyclic graphs\<close>

definition graph_edges :: "(string, string list) dict \<Rightarrow> (string \<times> string) set" where
  "graph_edges g = {(a, b). \<exists>deps. dict_get g a = Some deps \<and> b \<in> set deps}"

text \<open>A set of finished nodes: everything they depend on is finished, and none of them is on a cycle.\<close>

definition finished_nodes :: "(string, string list) dict \<Rightarrow> string set \<Rightarrow> bool" where
  "finished_nodes g V \<longleftrightarrow> graph_edges g `` V \<subseteq> V \<and> (\<forall>v \<in> V. (v, v) \<notin> (graph_edges g)\<^sup>+)"

lemma finished_insert:
  assumes "finished_nodes g V" and "graph_edges g `` {n} \<subseteq> V"
  shows "finished_nodes g (insert n V)"
proof -
  have step: "(n, n) \<notin> (graph_edges g)\<^sup>+"
  proof
    assume "(n, n) \<in> (graph_edges g)\<^sup>+"
    then obtain d where d: "(n, d) \<in> graph_edges g" "(d, n) \<in> (graph_edges g)\<^sup>*" by (meson tranclD)
    then have "d \<in> V" using assms(2) by blast
    moreover have "(d, d) \<in> (graph_edges g)\<^sup>+" using d by (rule_tac rtrancl_into_trancl1 [OF d(2) d(1)])
    ultimately show False using assms(1) by (simp add: finished_nodes_def)
  qed
  with assms show ?thesis by (auto simp: finished_nodes_def)
qed

lemma visit_finishes_slices:
  "visit_slices g visiting V ns = Some V' \<Longrightarrow> finished_nodes g V \<Longrightarrow>
   V \<subseteq> V' \<and> set ns \<subseteq> V' \<and> finished_nodes g V'"
proof (induction g visiting V ns arbitrary: V' rule: visit_slices.induct)
  case (2 g visiting V node rest)
  show ?case
  proof (cases "node \<in> V")
    case True
    with 2 show ?thesis by auto
  next
    case new: False
    with 2(4) have "node \<notin> visiting" by (auto split: if_splits)
    with new 2(4) obtain W where inner: "(case dict_get g node of None \<Rightarrow> Some V
        | Some deps \<Rightarrow> visit_slices g (insert node visiting) V deps) = Some W"
      and rest: "visit_slices g visiting (insert node W) rest = Some V'"
      by (auto split: option.splits)
    have W: "V \<subseteq> W \<and> graph_edges g `` {node} \<subseteq> W \<and> finished_nodes g W"
    proof (cases "dict_get g node")
      case None
      with inner 2(5) show ?thesis by (auto simp: graph_edges_def)
    next
      case (Some deps)
      with inner have "visit_slices g (insert node visiting) V deps = Some W" by simp
      from 2(2) [OF new \<open>node \<notin> visiting\<close> Some this 2(5)] Some show ?thesis by (auto simp: graph_edges_def)
    qed
    then have "finished_nodes g (insert node W)" by (simp add: finished_insert)
    from 2(3) [OF new \<open>node \<notin> visiting\<close> inner rest this] W show ?thesis by auto
  qed
qed simp

lemma visit_stuck_cycle:
  "visit_slices g visiting V ns = None \<Longrightarrow> \<forall>m \<in> visiting. \<forall>n \<in> set ns. (m, n) \<in> (graph_edges g)\<^sup>+ \<Longrightarrow>
   \<not> acyclic (graph_edges g)"
proof (induction g visiting V ns rule: visit_slices.induct)
  case (2 g visiting V node rest)
  show ?case
  proof (cases "node \<in> V")
    case True
    with 2 show ?thesis by auto
  next
    case new: False
    show ?thesis
    proof (cases "node \<in> visiting")
      case True
      with 2(5) show ?thesis by (auto simp: acyclic_def)
    next
      case unvisited: False
      show ?thesis
      proof (cases "case dict_get g node of None \<Rightarrow> Some V | Some deps \<Rightarrow> visit_slices g (insert node visiting) V deps")
        case None
        then obtain deps where deps: "dict_get g node = Some deps" "visit_slices g (insert node visiting) V deps = None"
          by (auto split: option.splits)
        have "\<forall>m \<in> insert node visiting. \<forall>n \<in> set deps. (m, n) \<in> (graph_edges g)\<^sup>+"
        proof (intro ballI)
          fix m n assume "m \<in> insert node visiting" "n \<in> set deps"
          moreover have "(node, n) \<in> graph_edges g" using deps(1) \<open>n \<in> set deps\<close> by (auto simp: graph_edges_def)
          ultimately show "(m, n) \<in> (graph_edges g)\<^sup>+" using 2(5) by (auto intro: trancl_into_trancl)
        qed
        with 2(2) [OF new unvisited deps] show ?thesis by blast
      next
        case (Some W)
        with 2(4) new unvisited have "visit_slices g visiting (insert node W) rest = None" by simp
        from 2(3) [OF new unvisited Some this] 2(5) show ?thesis by simp
      qed
    qed
  qed
qed simp

lemma graph_edges_keys: "(a, b) \<in> graph_edges g \<Longrightarrow> a \<in> set (dict_keys g)"
  by (auto simp: graph_edges_def dest: dict_get_key)

lemma visit_iff_acyclic: "visit_slices g {} {} (dict_keys g) \<noteq> None \<longleftrightarrow> acyclic (graph_edges g)"
proof
  assume "visit_slices g {} {} (dict_keys g) \<noteq> None"
  then obtain V where V: "visit_slices g {} {} (dict_keys g) = Some V" by blast
  have "finished_nodes g {}" by (simp add: finished_nodes_def)
  from visit_finishes_slices [OF V this] have "set (dict_keys g) \<subseteq> V" "finished_nodes g V" by blast+
  moreover have "x \<in> set (dict_keys g)" if "(x, x) \<in> (graph_edges g)\<^sup>+" for x
    using that by (blast dest: tranclD graph_edges_keys)
  ultimately show "acyclic (graph_edges g)" unfolding acyclic_def finished_nodes_def by blast
next
  show "acyclic (graph_edges g) \<Longrightarrow> visit_slices g {} {} (dict_keys g) \<noteq> None"
    using visit_stuck_cycle [of g "{}" "{}" "dict_keys g"] by auto
qed

lemma slice_graph_snoc: "slice_graph (slices @ [s]) = dict_set (ws_slice s) (ws_depends_on s) (slice_graph slices)"
  by (simp add: slice_graph_def)

lemma slice_graph_keys: "set (dict_keys (slice_graph slices)) = ws_slice ` set slices"
  by (induction slices rule: rev_induct) (auto simp: slice_graph_snoc, simp add: slice_graph_def)

lemma slice_graph_get:
  "distinct (map ws_slice slices) \<Longrightarrow>
   dict_get (slice_graph slices) a = Some deps \<longleftrightarrow> (\<exists>s \<in> set slices. ws_slice s = a \<and> ws_depends_on s = deps)"
proof (induction slices rule: rev_induct)
  case Nil
  show ?case by (simp add: slice_graph_def)
next
  case (snoc s slices)
  then have new: "ws_slice s \<notin> ws_slice ` set slices" by simp
  show ?case
  proof (cases "a = ws_slice s")
    case True
    with new have "ws_slice s' \<noteq> a" if "s' \<in> set slices" for s' using that by (metis imageI)
    with True show ?thesis by (auto simp: slice_graph_snoc)
  next
    case False
    with snoc show ?thesis by (auto simp: slice_graph_snoc)
  qed
qed

definition slice_edges :: "wave_slice list \<Rightarrow> (string \<times> string) set" where
  "slice_edges slices = (\<Union>s \<in> set slices. Pair (ws_slice s) ` set (ws_depends_on s))"

lemma graph_edges_slices: "distinct (map ws_slice slices) \<Longrightarrow> graph_edges (slice_graph slices) = slice_edges slices"
  by (auto simp: graph_edges_def slice_edges_def slice_graph_get)


text \<open>With a slice id used twice only the last entry is searched for cycles: here the first entries of \<open>a\<close> and \<open>b\<close>
  depend on each other and the plan is accepted.\<close>

definition plain_slice :: "string \<Rightarrow> string list \<Rightarrow> wave_slice" where
  "plain_slice name deps =
     \<lparr>ws_slice = name, ws_description = None, ws_tags = [], ws_depends_on = deps, ws_priority = None\<rparr>"


lemma duplicate_hides_cycle:
  "depends_on_valid [plain_slice ''a'' [''b''], plain_slice ''b'' [''a''], plain_slice ''a'' []]"
  by code_simp

section \<open>Clamping\<close>

lemma unique_slices_props:
  "distinct (map py_lower (unique_slices seen names)) \<and>
   py_lower ` set (unique_slices seen names) = py_lower ` (py_strip ` set names - {[]}) - seen \<and>
   set (unique_slices seen names) \<subseteq> py_strip ` set names - {[]} \<and>
   length (unique_slices seen names) \<le> length names"
  by (induction seen names rule: unique_slices.induct) (auto simp: Let_def)

lemma clamp_facts:
  assumes "clamp_slice_list slices max_slices = (kept, clamped_from)"
  shows "distinct (map py_lower kept) \<and> set kept \<subseteq> py_strip ` set slices - {[]} \<and> int (length kept) \<le> max 1 max_slices \<and>
    (clamped_from = None \<longrightarrow> py_lower ` set kept = py_lower ` (py_strip ` set slices - {[]})) \<and>
    (\<forall>n. clamped_from = Some n \<longrightarrow> int (length kept) = max 1 max_slices \<and> length kept < n \<and> n \<le> length slices)"
proof -
  define u where "u = unique_slices {} slices"
  have u: "distinct (map py_lower u)" "py_lower ` set u = py_lower ` (py_strip ` set slices - {[]})"
      "set u \<subseteq> py_strip ` set slices - {[]}" "length u \<le> length slices"
    using unique_slices_props [of "{}" slices] by (simp_all add: u_def)
  have kept: "kept = (if length u > nat (max 1 max_slices) then take (nat (max 1 max_slices)) u else u)"
    and from_: "clamped_from = (if length u > nat (max 1 max_slices) then Some (length u) else None)"
    using assms by (auto simp: clamp_slice_list_def u_def Let_def split: if_splits)
  have "distinct (map py_lower kept)" using u(1) by (simp add: kept take_map [symmetric] distinct_take)
  moreover have "set kept \<subseteq> set u" by (auto simp: kept dest: in_set_takeD)
  ultimately show ?thesis using u by (auto simp: kept from_ split: if_splits)
qed

text \<open>The slices to spawn are clean: no two of them are equal up to case, each is a name of the input without
  the spaces around it, never more than the budget (or one), and unless the list was cut to that budget,
  every non-blank name is there up to case; the count before the cut is reported exactly when there is one.\<close>

theorem clamp_slice_list_correct:
  assumes "clamp_slice_list slices max_slices = (kept, clamped_from)"
  shows "distinct (map py_lower kept) \<and> set kept \<subseteq> py_strip ` set slices - {[]} \<and> int (length kept) \<le> max 1 max_slices \<and>
    (clamped_from = None \<longrightarrow> py_lower ` set kept = py_lower ` (py_strip ` set slices - {[]})) \<and>
    (\<forall>n. clamped_from = Some n \<longrightarrow> int (length kept) = max 1 max_slices \<and> length kept < n \<and> n \<le> length slices)"
  using clamp_facts [OF assms] .

section \<open>What is accepted\<close>

definition slice_ok :: "wave_slice \<Rightarrow> bool" where
  "slice_ok s \<longleftrightarrow> ws_slice s \<noteq> [] \<and> length (ws_slice s) \<le> 64 \<and> py_strip (ws_slice s) = ws_slice s \<and>
     distinct (ws_depends_on s) \<and> list_all (\<lambda>d. d \<noteq> [] \<and> py_strip d = d) (ws_depends_on s)"

definition count_in :: "int \<Rightarrow> int option \<Rightarrow> bool" where
  "count_in hi n \<longleftrightarrow> (case n of None \<Rightarrow> True | Some i \<Rightarrow> 1 \<le> i \<and> i \<le> hi)"

definition plan_ok :: "wave_plan \<Rightarrow> bool" where
  "plan_ok p \<longleftrightarrow> list_all slice_ok (pl_slices p) \<and> (pl_slices p = [] \<or> depends_on_valid (pl_slices p)) \<and>
     list_all (\<lambda>n. n \<noteq> [] \<and> py_strip n = n) (pl_wave_slices p) \<and>
     count_in 32 (pl_scout_count p) \<and> count_in 64 (pl_max_slices p) \<and> count_in 64 (pl_max_waves p)"

definition usable :: "wave_plan \<Rightarrow> bool" where
  "usable p \<longleftrightarrow> resolved_slice_ids p \<noteq> [] \<or> pl_scout_count p \<noteq> None"

lemma all_some_iff: "all_some xs = Some ys \<longleftrightarrow> xs = map Some ys"
  by (induction xs arbitrary: ys) (auto split: option.splits)

lemma length_py_strip: "length (py_strip s) \<le> length s"
proof -
  have "length (py_rstrip t) \<le> length t" for t using py_rstrip_prefix [of t] by (metis length_append le_add1)
  then show ?thesis unfolding py_strip_def py_lstrip_def by (meson le_trans length_dropWhile_le)
qed

lemma strip_deps_ok:
  "distinct out \<Longrightarrow> list_all (\<lambda>d. d \<noteq> [] \<and> py_strip d = d) out \<Longrightarrow>
   distinct (strip_deps items out) \<and> list_all (\<lambda>d. d \<noteq> [] \<and> py_strip d = d) (strip_deps items out)"
  by (induction items out rule: strip_deps.induct) (auto simp: Let_def py_strip_idem)

lemma length_py_strip_le: "length s \<le> n \<Longrightarrow> length (py_strip s) \<le> n"
  using length_py_strip [of s] by linarith

lemma slice_of_obj_ok: "slice_of_obj e = Some s \<Longrightarrow> slice_ok s"
  using strip_deps_ok [of "[]"]
  by (auto simp: slice_of_obj_def slice_ok_def py_strip_idem length_py_strip_le
      split: option.splits json.splits if_splits)

lemma slice_field_ok: "slice_field j = Some s \<Longrightarrow> slice_ok s"
  by (auto simp: slice_field_def slice_of_obj_ok split: json.splits)

lemma count_field_in: "count_field lax hi v = Some n \<Longrightarrow> count_in hi n"
  by (auto simp: count_field_def count_in_def split: option.splits json.splits if_splits)

lemma slices_field_ok: "slices_field v = Some ss \<Longrightarrow> list_all slice_ok ss"
proof (cases v)
  case (Some j)
  assume "slices_field v = Some ss"
  with Some obtain items where "map slice_field items = map Some ss"
    by (auto simp: slices_field_def all_some_iff split: json.splits)
  then have "s \<in> set ss \<Longrightarrow> \<exists>j. slice_field j = Some s" for s
    by (metis (mono_tags, lifting) image_iff list.set_map)
  then show ?thesis by (auto simp: list_all_iff dest: slice_field_ok)
qed (simp add: slices_field_def)

lemma plan_of_obj_ok: "plan_of_obj lax raw = Some p \<Longrightarrow> plan_ok p"
  by (auto simp: plan_of_obj_def plan_ok_def list_all_iff py_strip_idem split: option.splits if_splits
      dest: count_field_in slices_field_ok [unfolded list_all_iff])

lemma diagnose_obj_ok: "ir_plan (diagnose_obj lax explain source raw) = Some p \<Longrightarrow> plan_ok p \<and> usable p"
proof (induction lax explain source raw rule: diagnose_obj.induct)
  case (1 lax explain source raw)
  show ?case
  proof (cases "plan_of_obj lax (coerce_flat_aliases raw)")
    case None
    with 1(2) show ?thesis
      by (subst (asm) diagnose_obj.simps) (auto simp: rejected_def split: option.splits)
  next
    case (Some q)
    show ?thesis
    proof (cases "usable q")
      case True
      with 1(2) Some have "p = q"
        by (subst (asm) diagnose_obj.simps) (auto simp: rejected_def accepted_plan_def usable_def split: option.splits)
      with True Some show ?thesis by (auto dest: plan_of_obj_ok)
    next
      case False
      from 1(2) Some False obtain nested where free: "reject_removed_wire_keys raw source = None" "nesting_reject_reason raw source = None"
        and nested: "dict_get (coerce_flat_aliases raw) ''wave_plan'' = Some (JObj nested)"
          "ir_plan (diagnose_obj lax explain (source @ ''.wave_plan'') nested) = Some p"
        by (subst (asm) diagnose_obj.simps) (auto simp: rejected_def usable_def split: option.splits json.splits)
      from 1(1) [OF free Some _ nested(1) refl nested(2)] False show ?thesis by (simp add: usable_def)
    qed
  qed
qed

lemma payload_ok:
  "ir_plan (diagnose_wave_plan_payload loads lax explain source raw) = Some p \<Longrightarrow> plan_ok p \<and> usable p"
  by (auto simp: diagnose_wave_plan_payload_def Let_def rejected_def split: json.splits if_splits option.splits
      dest!: diagnose_obj_ok)

text \<open>Claim C34. Whatever JSON or text comes in, a plan that is accepted is well formed: it names slices or asks for
  scouts, slice ids and names are trimmed and not blank, ids have at most 64 characters, the dependencies of
  a slice are listed once and pass the dependency check, and the counts are in their ranges.\<close>

theorem accepted_plan_wellformed:
  assumes "ir_plan (diagnose_wave_plan_payload loads lax explain source raw) = Some p"
  shows "plan_ok p \<and> usable p"
  by (rule payload_ok [OF assms])

section \<open>Writing and reading a plan\<close>

lemma dict_set_same: "dict_get d k = Some v \<Longrightarrow> dict_set k v d = d"
  by (induction d) (auto simp: dict_set_def split: if_splits)

lemma all_some_map_Some: "all_some (map (\<lambda>x. Some (f x)) xs) = Some (map f xs)"
  by (simp add: all_some_iff)

lemma strs_field_JStr: "strs_field (Some (JList (map JStr xs))) = Some xs"
  by (simp add: strs_field_def str_field_def comp_def all_some_iff)

lemma plan_dict_get:
  "dict_get (wave_plan_to_dict p) ''wave_slices'' =
     (if pl_wave_slices p = [] then None else Some (JList (map JStr (pl_wave_slices p))))"
  "dict_get (wave_plan_to_dict p) ''slices'' =
     (if pl_slices p = [] then None else Some (JList (map (\<lambda>s. JObj (slice_to_obj s)) (pl_slices p))))"
  "dict_get (wave_plan_to_dict p) ''independence'' = map_option JStr (pl_independence p)"
  "dict_get (wave_plan_to_dict p) ''rationale'' = map_option JStr (pl_rationale p)"
  "dict_get (wave_plan_to_dict p) ''scout_count'' = map_option JInt (pl_scout_count p)"
  "dict_get (wave_plan_to_dict p) ''max_waves'' = map_option JInt (pl_max_waves p)"
  "k \<notin> {''wave_slices'', ''slices'', ''independence'', ''rationale'', ''scout_count'', ''max_waves''} \<Longrightarrow>
   dict_get (wave_plan_to_dict p) k = None"
  by (auto simp: wave_plan_to_dict_def map_add_def split: option.split)

lemma strip_deps_id:
  "distinct (out @ items) \<Longrightarrow> list_all (\<lambda>d. d \<noteq> [] \<and> py_strip d = d) items \<Longrightarrow> strip_deps items out = out @ items"
  by (induction items out rule: strip_deps.induct) (auto simp: Let_def)

lemma slice_roundtrip: "slice_ok s \<Longrightarrow> slice_of_obj (slice_to_obj s) = Some s"
  by (cases s)
    (auto simp: slice_of_obj_def slice_to_obj_def slice_ok_def opt_str_field_def opt_json_def strs_field_JStr coerce_priority_def
      strip_deps_id not_less split: option.splits)

lemma slices_roundtrip:
  "list_all slice_ok ss \<Longrightarrow> slices_field (Some (JList (map (\<lambda>s. JObj (slice_to_obj s)) ss))) = Some ss"
  by (auto simp: slices_field_def slice_field_def all_some_iff list_all_iff slice_roundtrip)

lemma count_roundtrip: "count_in hi n \<Longrightarrow> count_field lax hi (map_option JInt n) = Some n"
  by (auto simp: count_field_def count_in_def split: option.splits)

lemma text_roundtrip: "opt_str_field (map_option JStr t) = Some t"
  by (cases t) (simp_all add: opt_str_field_def)

lemma plan_of_dict:
  assumes "plan_ok p"
  shows "plan_of_obj lax (wave_plan_to_dict p) = Some (p\<lparr>pl_max_slices := None\<rparr>)"
proof -
  have names: "strs_field (dict_get (wave_plan_to_dict p) ''wave_slices'') = Some (pl_wave_slices p)"
    by (cases "pl_wave_slices p = []") (simp_all add: plan_dict_get strs_field_JStr, simp add: strs_field_def)
  have slices: "slices_field (dict_get (wave_plan_to_dict p) ''slices'') = Some (pl_slices p)"
    using assms by (cases "pl_slices p = []") (simp_all add: plan_dict_get slices_roundtrip plan_ok_def, simp add: slices_field_def)
  have "count_field lax 64 (dict_get (wave_plan_to_dict p) ''max_slices'') = Some None"
    by (simp add: plan_dict_get count_field_def)
  moreover have "filter (\<lambda>n. n \<noteq> []) (map py_strip (pl_wave_slices p)) = pl_wave_slices p"
    using assms by (auto simp: plan_ok_def list_all_iff filter_id_conv map_idI)
  moreover have "p\<lparr>pl_max_slices := None\<rparr> =
      \<lparr>pl_wave_slices = pl_wave_slices p, pl_slices = pl_slices p, pl_scout_count = pl_scout_count p, pl_max_slices = None,
       pl_max_waves = pl_max_waves p, pl_independence = pl_independence p, pl_rationale = pl_rationale p\<rparr>"
    by (cases p) simp
  ultimately show ?thesis
    using assms by (simp add: plan_of_obj_def names slices plan_dict_get(3-6) text_roundtrip count_roundtrip plan_ok_def)
qed

lemma coerce_plan_dict: "coerce_flat_aliases (wave_plan_to_dict p) = wave_plan_to_dict p"
proof -
  have text_: "coerce_text field (wave_plan_to_dict p) = wave_plan_to_dict p" if "field \<in> {''rationale'', ''independence''}" for field
    using that by (auto simp: coerce_text_def plan_dict_get split: option.split)
  have "alias_slice [''name'', ''id''] (slice_to_obj s) = slice_to_obj s" for s
    by (simp add: alias_slice_def has_key_def slice_to_obj_def)
  then have slices: "coerce_slices (wave_plan_to_dict p) = wave_plan_to_dict p"
    by (auto simp: coerce_slices_def plan_dict_get comp_def intro!: dict_set_same split: option.split)
  have "all_some (map obj_of (map JStr xs)) = Some ys \<Longrightarrow> ys = []" for xs ys
    by (cases xs) (auto simp: all_some_iff obj_of_def)
  then have "promote_wave_objects (wave_plan_to_dict p) = wave_plan_to_dict p"
    by (auto simp: promote_wave_objects_def plan_dict_get Let_def split: option.split)
  with text_ slices show ?thesis by (simp add: coerce_flat_aliases_def)
qed

lemma plan_dict_flat:
  "reject_removed_wire_keys (wave_plan_to_dict p) source = None \<and> nesting_reject_reason (wave_plan_to_dict p) source = None"
proof -
  have keys: "set (dict_keys (wave_plan_to_dict p)) \<subseteq>
      {''wave_slices'', ''slices'', ''independence'', ''rationale'', ''scout_count'', ''max_waves''}"
    by (auto simp: wave_plan_to_dict_def split: option.splits if_splits)
  then have "filter (\<lambda>k. k \<in> removed_wire_keys) (dict_keys (wave_plan_to_dict p)) = []"
    by (auto simp: filter_empty_conv removed_wire_keys_def)
  moreover have "\<not> has_key (slice_to_obj s) ''module''" for s by (simp add: has_key_def slice_to_obj_def)
  ultimately have "reject_removed_wire_keys (wave_plan_to_dict p) source = None"
    by (auto simp: reject_removed_wire_keys_def Let_def plan_dict_get list_ex_iff)
  moreover have "\<not> entry_has_nested_children (slice_to_obj s)" for s
    by (simp add: entry_has_nested_children_def nested_child_keys_def slice_to_obj_def)
  then have "first_reason (slice_item_reason source) i (map (\<lambda>s. JObj (slice_to_obj s)) ss) = None" for i ss
    by (induction ss arbitrary: i) (simp_all add: slice_item_reason_def)
  moreover have "first_reason check i (map JStr xs) = None" for check i xs
    by (induction xs arbitrary: i) simp_all
  ultimately show ?thesis
    by (simp add: nesting_reject_reason_def plan_dict_get text_field_reason_def is_container_def split: option.split)
qed

text \<open>Claim C35. A plan that is written out and read back is the same plan, except that its preferred budget
  \<open>max_slices\<close> is gone: every usable well-formed plan is accepted again.\<close>

theorem wave_plan_roundtrip:
  assumes "plan_ok p" and "usable p"
  shows "diagnose_wave_plan_payload loads lax explain source (JObj (wave_plan_to_dict p)) =
    accepted_plan (p\<lparr>pl_max_slices := None\<rparr>)"
proof -
  have "resolved_slice_ids (p\<lparr>pl_max_slices := None\<rparr>) = resolved_slice_ids p" by (simp add: resolved_slice_ids_def)
  with assms show ?thesis
    unfolding diagnose_wave_plan_payload_def Let_def json.case
    by (subst diagnose_obj.simps) (simp add: plan_dict_flat coerce_plan_dict plan_of_dict usable_def)
qed

section \<open>Resolving the slices\<close>

text \<open>Fan-out fails closed: the resolution has no slices exactly when it reports a missing plan, whether or not a plan
  was required; otherwise its slices are different names up to case, within the budget, and come from the
  first source that has any: the decomposition, then the slice names, then the plan.\<close>

theorem fanout_fails_closed:
  fixes render decompose_plan wave_slices plan max_slices require_plan
  defines "r \<equiv> resolve_fanout_slices render wave_slices decompose_plan plan max_slices require_plan"
  shows "(fr_slices r = [] \<longleftrightarrow> fr_source r = MissingPlan) \<and>
    fr_slices r = fr_slices (resolve_fanout_slices render wave_slices decompose_plan plan max_slices (\<not> require_plan)) \<and>
    distinct (map py_lower (fr_slices r)) \<and> int (length (fr_slices r)) \<le> max 1 max_slices \<and>
    (fr_source r = FromWaveSlices \<longrightarrow> decompose_plan \<in> {None, Some []} \<and> set (fr_slices r) \<subseteq> py_strip ` set (the wave_slices)) \<and>
    (fr_source r = FromWavePlan \<longrightarrow> decompose_plan \<in> {None, Some []} \<and> wave_slices \<in> {None, Some []} \<and>
       set (fr_slices r) \<subseteq> py_strip ` set (resolved_slice_ids (the plan)))"
proof -
  define chosen where "chosen =
    (case decompose_plan of
       Some (spec # specs) \<Rightarrow> Some (map (\<lambda>(i, s). spec_name render i s) (List.enumerate 0 (spec # specs)), FromDecomposePlan)
     | _ \<Rightarrow>
         (case wave_slices of
            Some (name # names) \<Rightarrow> Some (name # names, FromWaveSlices)
          | _ \<Rightarrow>
              (case plan of
                 Some p \<Rightarrow> (if resolved_slice_ids p \<noteq> [] then Some (resolved_slice_ids p, FromWavePlan) else None)
               | None \<Rightarrow> None)))"
  have source: "chosen = Some (raw, src) \<Longrightarrow> src \<noteq> MissingPlan \<and>
      (src = FromWaveSlices \<longrightarrow> decompose_plan \<in> {None, Some []} \<and> raw = the wave_slices) \<and>
      (src = FromWavePlan \<longrightarrow> decompose_plan \<in> {None, Some []} \<and> wave_slices \<in> {None, Some []} \<and> raw = resolved_slice_ids (the plan))" for raw src
    by (auto simp: chosen_def split: option.splits list.splits if_splits)
  show ?thesis
  proof (cases chosen)
    case None
    then show ?thesis unfolding r_def resolve_fanout_slices_def Let_def chosen_def [symmetric] by simp
  next
    case (Some c)
    obtain raw src where c: "chosen = Some (raw, src)" using Some by (cases c) simp
    obtain kept cf where k: "clamp_slice_list raw max_slices = (kept, cf)" by fastforce
    let ?kept = "if src = FromWavePlan then plan else None"
    have eq: "resolve_fanout_slices render wave_slices decompose_plan plan max_slices req =
        (if kept = [] then \<lparr>fr_slices = [], fr_source = MissingPlan, fr_clamped_from = cf,
             fr_plan = (if req then ?kept else None), fr_detail = ''wave plan resolved to an empty slice list after clamp''\<rparr>
         else \<lparr>fr_slices = kept, fr_source = src, fr_clamped_from = cf, fr_plan = ?kept, fr_detail = []\<rparr>)" for req
      unfolding resolve_fanout_slices_def chosen_def [symmetric] by (simp add: c k Let_def)
    have kept: "distinct (map py_lower kept)" "set kept \<subseteq> py_strip ` set raw" "int (length kept) \<le> max 1 max_slices"
      using clamp_facts [OF k] by blast+
    show ?thesis
    proof (cases "kept = []")
      case True
      then show ?thesis by (simp add: r_def eq)
    next
      case False
      then have "r = \<lparr>fr_slices = kept, fr_source = src, fr_clamped_from = cf, fr_plan = ?kept, fr_detail = []\<rparr>"
        by (simp add: r_def eq)
      moreover have "fr_slices (resolve_fanout_slices render wave_slices decompose_plan plan max_slices (\<not> require_plan)) = kept"
        using False by (simp add: eq)
      ultimately show ?thesis using source [OF c] kept False by (cases src) simp_all
    qed
  qed
qed

section \<open>Examples\<close>

definition sample_wave_plan :: wave_plan where
  "sample_wave_plan =
     \<lparr>pl_wave_slices = [], pl_slices = [plain_slice ''api'' [''db''], plain_slice ''db'' []], pl_scout_count = Some 2,
      pl_max_slices = Some 4, pl_max_waves = None, pl_independence = None, pl_rationale = Some ''two layers''\<rparr>"

lemma sample_wave_plan_ok: "plan_ok sample_wave_plan \<and> usable sample_wave_plan"
  by code_simp

lemma wave_plan_roundtrip_witness:
  "ir_plan (diagnose_wave_plan_payload (\<lambda>_. None) (\<lambda>_. None) (\<lambda>_. []) ''file'' (JObj (wave_plan_to_dict sample_wave_plan))) =
     Some (sample_wave_plan\<lparr>pl_max_slices := None\<rparr>)"
  using wave_plan_roundtrip [of sample_wave_plan] sample_wave_plan_ok by (simp add: accepted_plan_def)

lemma accepted_plan_wellformed_witness: "plan_ok (sample_wave_plan\<lparr>pl_max_slices := None\<rparr>)"
proof -
  have "ir_plan (diagnose_wave_plan_payload (\<lambda>_. None) (\<lambda>_. None) (\<lambda>_. []) ''file'' (JObj (wave_plan_to_dict sample_wave_plan))) =
     Some (sample_wave_plan\<lparr>pl_max_slices := None\<rparr>)" by code_simp
  from accepted_plan_wellformed [OF this] show ?thesis by blast
qed

lemma clamp_slice_list_correct_witness:
  "clamp_slice_list ['' Api'', ''api'', ''db'', ''ui''] 2 = ([''Api'', ''db''], Some 3) \<and> distinct (map py_lower [''Api'', ''db''])"
proof -
  have c: "clamp_slice_list ['' Api'', ''api'', ''db'', ''ui''] 2 = ([''Api'', ''db''], Some 3)" by code_simp
  with clamp_slice_list_correct [OF c] show ?thesis by blast
qed

lemma fanout_fails_closed_witness:
  "fr_source (resolve_fanout_slices (\<lambda>_. []) (Some [''db'']) None None 3 False) = FromWaveSlices \<and>
   fr_slices (resolve_fanout_slices (\<lambda>_. []) (Some [''db'']) None None 3 False) \<noteq> []"
proof -
  have "fr_source (resolve_fanout_slices (\<lambda>_. []) (Some [''db'']) None None 3 False) = FromWaveSlices" by code_simp
  with fanout_fails_closed [of "\<lambda>_. []" "Some [''db'']" None None 3 False, THEN conjunct1] show ?thesis by simp
qed

text \<open>The preferred budget is not written: a plan with \<open>max_slices\<close> 4 comes back without a budget.\<close>

lemma max_slices_not_written:
  "map_option expansion_budget
     (ir_plan (diagnose_wave_plan_payload (\<lambda>_. None) (\<lambda>_. None) (\<lambda>_. []) ''file'' (JObj (wave_plan_to_dict sample_wave_plan)))) =
   Some None \<and> expansion_budget sample_wave_plan = Some 4"
  by code_simp

end
