(* ===== verification/Wave_Sources.thy ===== *)
theory Wave_Sources
  imports Wave_Plan Workspace_Reservation
begin

text \<open>
  Where a wave plan may come from (\<open>rails/wave_plan.py\<close>): a field of the completion, a declared path, the two
  recommended files, and the findings, in this order. The file system is a parameter: \<open>resolve\<close> makes a path
  absolute and follows its links, \<open>expand\<close> replaces a home directory, \<open>read\<close> is what a file holds.
\<close>

section \<open>Paths\<close>

datatype file_read = NotAFile | ReadFailed string | FileText string

record host_files =
  hf_expand :: "string \<Rightarrow> string"
  hf_resolve :: "string \<Rightarrow> string"
  hf_read :: "string \<Rightarrow> file_read"

definition WAVE_PLAN_FILENAME :: string where
  "WAVE_PLAN_FILENAME = ''wave-plan.json''"

definition path_join :: "string \<Rightarrow> string \<Rightarrow> string" where
  "path_join a b = (if a = ''/'' then a @ b else a @ ''/'' @ b)"

definition full_path :: "host_files \<Rightarrow> string \<Rightarrow> string" where
  "full_path fs p = hf_resolve fs (hf_expand fs p)"

definition safe_job_id :: "string \<Rightarrow> string option" where
  "safe_job_id job_id =
     (let safe = py_strip (map (\<lambda>c. if c = CHR 0x2F \<or> c = CHR 0x5C then CHR ''_'' else c) job_id)
      in if safe = [] \<or> contains ''..'' safe then None else Some safe)"

definition job_dir :: "host_files \<Rightarrow> string \<Rightarrow> string \<Rightarrow> string option" where
  "job_dir fs jobs_root job_id = map_option (path_join (full_path fs jobs_root)) (safe_job_id job_id)"

definition jobs_wave_plan_path :: "host_files \<Rightarrow> string \<Rightarrow> string \<Rightarrow> string option" where
  "jobs_wave_plan_path fs jobs_root job_id = map_option (\<lambda>d. path_join d WAVE_PLAN_FILENAME) (job_dir fs jobs_root job_id)"

definition workspace_wave_plan_path :: "host_files \<Rightarrow> string \<Rightarrow> string" where
  "workspace_wave_plan_path fs workspace = path_join (path_join (full_path fs workspace) ''.soothe'') WAVE_PLAN_FILENAME"

definition is_under_root :: "host_files \<Rightarrow> string \<Rightarrow> string \<Rightarrow> bool" where
  "is_under_root fs path base \<longleftrightarrow> prefix (path_parts (hf_resolve fs base)) (path_parts (hf_resolve fs path))"

definition plan_roots :: "host_files \<Rightarrow> string option \<Rightarrow> string option \<Rightarrow> string option \<Rightarrow> string list" where
  "plan_roots fs workspace jobs_root job_id =
     (case workspace of None \<Rightarrow> [] | Some w \<Rightarrow> [full_path fs w]) @
     (case (jobs_root, job_id) of
        (Some j, Some jid) \<Rightarrow>
          (if jid = [] then []
           else (case job_dir fs j jid of None \<Rightarrow> [] | Some d \<Rightarrow> [hf_resolve fs d]) @ [full_path fs j])
      | _ \<Rightarrow> [])"

definition resolve_wave_plan_path ::
  "host_files \<Rightarrow> string \<Rightarrow> string option \<Rightarrow> string option \<Rightarrow> string option \<Rightarrow> string option" where
  "resolve_wave_plan_path fs raw_path workspace jobs_root job_id =
     (let cleaned = py_strip raw_path;
          candidate = hf_expand fs cleaned;
          under = (\<lambda>base. let resolved = hf_resolve fs (path_join base candidate)
                          in if is_under_root fs resolved base then Some resolved else None)
      in if cleaned = [] then None
         else if take 1 candidate = ''/''
         then (let resolved = hf_resolve fs candidate
               in if list_ex (is_under_root fs resolved) (plan_roots fs workspace jobs_root job_id) then Some resolved else None)
         else
           (case (case workspace of None \<Rightarrow> None | Some w \<Rightarrow> under (full_path fs w)) of
              Some p \<Rightarrow> Some p
            | None \<Rightarrow>
                (case (jobs_root, job_id) of
                   (Some j, Some jid) \<Rightarrow>
                     (if jid = [] then None
                      else (case job_dir fs j jid of None \<Rightarrow> None | Some d \<Rightarrow> under (hf_resolve fs d)))
                 | _ \<Rightarrow> None)))"

section \<open>Sources\<close>

definition diagnose_wave_plan_from_file ::
  "host_files \<Rightarrow> (string \<Rightarrow> json option) \<Rightarrow> (json \<Rightarrow> int option) \<Rightarrow> (obj \<Rightarrow> string) \<Rightarrow> string \<Rightarrow> string \<Rightarrow> ingest_result" where
  "diagnose_wave_plan_from_file fs loads lax explain source path =
     (case hf_read fs path of
        NotAFile \<Rightarrow> rejected (''file not found'' @ from_source source)
      | ReadFailed e \<Rightarrow> rejected (''read failed: '' @ e @ from_source source)
      | FileText t \<Rightarrow>
          (let r = diagnose_wave_plan_payload loads lax explain source (JStr t)
           in if ir_plan r \<noteq> None
              then \<lparr>ir_plan = ir_plan r, ir_detail = [], ir_source_path = Some (hf_resolve fs path)\<rparr> else r))"

datatype inline_plan = NoInline | PlanObject wave_plan | PlanDict obj

text \<open>A source either yields a plan or changes the reason kept so far.\<close>

definition try_inline ::
  "(string \<Rightarrow> json option) \<Rightarrow> (json \<Rightarrow> int option) \<Rightarrow> (obj \<Rightarrow> string) \<Rightarrow> inline_plan \<Rightarrow> ingest_result + string" where
  "try_inline loads lax explain wave_plan =
     (case wave_plan of
        NoInline \<Rightarrow> Inr []
      | PlanObject p \<Rightarrow>
          (if resolved_slice_ids p \<noteq> [] \<or> pl_scout_count p \<noteq> None then Inl (accepted_plan p)
           else Inr (prefer_ingest_detail [] ''contribution.wave_plan has no slices or scout_count''))
      | PlanDict d \<Rightarrow>
          (let r = diagnose_wave_plan_payload loads lax explain ''contribution.wave_plan'' (JObj d)
           in if ir_plan r \<noteq> None then Inl r else Inr (prefer_ingest_detail [] (ir_detail r))))"

definition try_file ::
  "host_files \<Rightarrow> (string \<Rightarrow> json option) \<Rightarrow> (json \<Rightarrow> int option) \<Rightarrow> (obj \<Rightarrow> string) \<Rightarrow> string \<Rightarrow> string \<Rightarrow> string \<Rightarrow>
   ingest_result + string" where
  "try_file fs loads lax explain source path best =
     (let r = diagnose_wave_plan_from_file fs loads lax explain source path
      in if ir_plan r \<noteq> None then Inl r else Inr (prefer_ingest_detail best (ir_detail r)))"

definition try_declared ::
  "host_files \<Rightarrow> (string \<Rightarrow> json option) \<Rightarrow> (json \<Rightarrow> int option) \<Rightarrow> (obj \<Rightarrow> string) \<Rightarrow> string option \<Rightarrow> string option \<Rightarrow>
   string option \<Rightarrow> string option \<Rightarrow> string \<Rightarrow> ingest_result + string" where
  "try_declared fs loads lax explain wave_plan_path ws jr job_id best =
     (case wave_plan_path of
        None \<Rightarrow> Inr best
      | Some raw \<Rightarrow>
          if py_strip raw = [] then Inr best
          else
            (case resolve_wave_plan_path fs raw ws jr job_id of
               None \<Rightarrow> Inr (prefer_ingest_detail best (''wave_plan_path escapes workspace/jobs root: '' @ [CHR 0x27] @ raw @ [CHR 0x27]))
             | Some p \<Rightarrow> try_file fs loads lax explain (''contribution.wave_plan_path:'' @ p) p best))"

definition try_jobs_dump ::
  "host_files \<Rightarrow> (string \<Rightarrow> json option) \<Rightarrow> (json \<Rightarrow> int option) \<Rightarrow> (obj \<Rightarrow> string) \<Rightarrow> string option \<Rightarrow>
   string option \<Rightarrow> string \<Rightarrow> ingest_result + string" where
  "try_jobs_dump fs loads lax explain jr job_id best =
     (case (jr, job_id) of
        (Some j, Some jid) \<Rightarrow>
          (if jid = [] then Inr best
           else (case jobs_wave_plan_path fs j jid of
                   None \<Rightarrow> Inr best
                 | Some p \<Rightarrow>
                     if hf_read fs p = NotAFile then Inr best
                     else try_file fs loads lax explain (''jobs_dump:'' @ p) p best))
      | _ \<Rightarrow> Inr best)"

definition try_workspace_dump ::
  "host_files \<Rightarrow> (string \<Rightarrow> json option) \<Rightarrow> (json \<Rightarrow> int option) \<Rightarrow> (obj \<Rightarrow> string) \<Rightarrow> string option \<Rightarrow> string \<Rightarrow>
   ingest_result + string" where
  "try_workspace_dump fs loads lax explain ws best =
     (case ws of
        None \<Rightarrow> Inr best
      | Some w \<Rightarrow>
          (let p = workspace_wave_plan_path fs w
           in if hf_read fs p = NotAFile then Inr best
              else try_file fs loads lax explain (''workspace_dump:'' @ p) p best))"

definition diagnose_wave_plan_from_sources ::
  "host_files \<Rightarrow> (string \<Rightarrow> json option) \<Rightarrow> (string \<Rightarrow> nat \<Rightarrow> (json \<times> nat) option) \<Rightarrow> (json \<Rightarrow> int option) \<Rightarrow>
   (obj \<Rightarrow> string) \<Rightarrow> inline_plan \<Rightarrow> string option \<Rightarrow> string option \<Rightarrow> string option \<Rightarrow> string option \<Rightarrow> json list option \<Rightarrow>
   ingest_result" where
  "diagnose_wave_plan_from_sources fs loads decode lax explain wave_plan wave_plan_path workspace jobs_root job_id findings =
     (let ws = (case workspace of None \<Rightarrow> None | Some w \<Rightarrow> if w = [] then None else Some (full_path fs w));
          jr = (case jobs_root of None \<Rightarrow> None | Some j \<Rightarrow> if j = [] then None else Some (full_path fs j));
          r = try_inline loads lax explain wave_plan;
          r = (case r of Inl found \<Rightarrow> Inl found | Inr best \<Rightarrow> try_declared fs loads lax explain wave_plan_path ws jr job_id best);
          r = (case r of Inl found \<Rightarrow> Inl found | Inr best \<Rightarrow> try_jobs_dump fs loads lax explain jr job_id best);
          r = (case r of Inl found \<Rightarrow> Inl found | Inr best \<Rightarrow> try_workspace_dump fs loads lax explain ws best)
      in case r of
           Inl found \<Rightarrow> found
         | Inr best \<Rightarrow>
             (let f = diagnose_wave_plan_from_findings loads decode lax explain findings
              in if ir_plan f \<noteq> None then f
                 else rejected (let detail = prefer_ingest_detail best (ir_detail f)
                                in if detail \<noteq> [] then detail
                                   else ''no usable flat WavePlan from structured fields, dumps, or findings'')))"

section \<open>A declared path stays inside\<close>

text \<open>Claim C36. A plan path that a model declares is read only when it stays inside: whatever the path says and whatever links
  the file system has, the file it resolves to lies under the workspace, the directory of the job or the
  root of the jobs.\<close>

theorem declared_path_confined:
  assumes "resolve_wave_plan_path fs raw_path workspace jobs_root job_id = Some p"
  shows "\<exists>base \<in> set (plan_roots fs workspace jobs_root job_id).
    prefix (path_parts (hf_resolve fs base)) (path_parts (hf_resolve fs p))"
proof -
  let ?roots = "set (plan_roots fs workspace jobs_root job_id)"
  have workspace_in: "full_path fs w \<in> ?roots" if "workspace = Some w" for w
    using that by (simp add: plan_roots_def)
  have job_in: "hf_resolve fs d \<in> ?roots"
    if "jobs_root = Some j" "job_id = Some jid" "jid \<noteq> []" "job_dir fs j jid = Some d" for j jid d
    using that by (simp add: plan_roots_def)
  have "\<exists>base \<in> ?roots. is_under_root fs p base"
    using assms workspace_in job_in unfolding resolve_wave_plan_path_def Let_def list_ex_iff
    by (simp split: if_splits option.splits) blast+
  then show ?thesis by (simp add: is_under_root_def)
qed

section \<open>Every source yields a well-formed plan\<close>

lemma file_ok:
  "ir_plan (diagnose_wave_plan_from_file fs loads lax explain source path) = Some p \<Longrightarrow> plan_ok p \<and> usable p"
  by (auto simp: diagnose_wave_plan_from_file_def Let_def rejected_def split: file_read.splits if_splits dest!: payload_ok)

lemma try_embedded_ok:
  "try_embedded loads lax explain source i js best = Inl r \<Longrightarrow> \<exists>p. ir_plan r = Some p \<and> plan_ok p \<and> usable p"
  by (induction loads lax explain source i js best rule: try_embedded.induct)
    (auto simp: Let_def split: if_splits option.splits dest: payload_ok)

lemma scan_findings_ok:
  "ir_plan (scan_findings loads decode lax explain i items best) = Some p \<Longrightarrow> plan_ok p \<and> usable p"
proof (induction loads decode lax explain i items best rule: scan_findings.induct)
  case (2 loads decode lax explain i item items best)
  then show ?case
    by (cases item) (auto simp: Let_def split: if_splits sum.splits dest: payload_ok try_embedded_ok)
qed (simp add: rejected_def)

lemma try_file_ok:
  "try_file fs loads lax explain source path best = Inl r \<Longrightarrow> \<exists>p. ir_plan r = Some p \<and> plan_ok p \<and> usable p"
  by (auto simp: try_file_def Let_def split: if_splits dest: file_ok)

definition source_ok :: "ingest_result + string \<Rightarrow> bool" where
  "source_ok r \<longleftrightarrow> (case r of Inl found \<Rightarrow> (\<exists>p. ir_plan found = Some p \<and> plan_ok p \<and> usable p) | Inr _ \<Rightarrow> True)"

lemma sources_ok:
  "(\<And>p. wave_plan = PlanObject p \<Longrightarrow> plan_ok p) \<Longrightarrow> source_ok (try_inline loads lax explain wave_plan)"
  "source_ok (try_declared fs loads lax explain path ws jr job_id best)"
  "source_ok (try_jobs_dump fs loads lax explain jr job_id best)"
  "source_ok (try_workspace_dump fs loads lax explain ws best)"
proof -
  show "(\<And>p. wave_plan = PlanObject p \<Longrightarrow> plan_ok p) \<Longrightarrow> source_ok (try_inline loads lax explain wave_plan)"
  proof (cases wave_plan)
    case (PlanDict d)
    then show ?thesis by (auto simp: try_inline_def source_ok_def Let_def dest: payload_ok)
  qed (auto simp: try_inline_def source_ok_def accepted_plan_def usable_def)
  show "source_ok (try_declared fs loads lax explain path ws jr job_id best)"
    by (auto simp: try_declared_def source_ok_def split: option.split sum.split dest: try_file_ok)
  show "source_ok (try_jobs_dump fs loads lax explain jr job_id best)"
    by (auto simp: try_jobs_dump_def source_ok_def split: option.split sum.split dest: try_file_ok)
  show "source_ok (try_workspace_dump fs loads lax explain ws best)"
    by (auto simp: try_workspace_dump_def source_ok_def Let_def split: option.split sum.split dest: try_file_ok)
qed

text \<open>Whichever source a plan is taken from, it is well formed and usable, and a plan given directly wins over all
  others.\<close>

theorem sources_yield_wellformed:
  assumes "\<And>p. wave_plan = PlanObject p \<Longrightarrow> plan_ok p"
  shows "(\<forall>p. ir_plan (diagnose_wave_plan_from_sources fs loads decode lax explain wave_plan path workspace jobs_root job_id findings) =
      Some p \<longrightarrow> plan_ok p \<and> usable p) \<and>
    (\<forall>p. wave_plan = PlanObject p \<and> usable p \<longrightarrow>
      diagnose_wave_plan_from_sources fs loads decode lax explain wave_plan path workspace jobs_root job_id findings = accepted_plan p)"
proof -
  have step: "source_ok r \<Longrightarrow> (\<And>best. source_ok (f best)) \<Longrightarrow> source_ok (case r of Inl found \<Rightarrow> Inl found | Inr best \<Rightarrow> f best)"
    for r f by (cases r) (simp_all add: source_ok_def)
  let ?ws = "case workspace of None \<Rightarrow> None | Some w \<Rightarrow> if w = [] then None else Some (full_path fs w)"
  let ?jr = "case jobs_root of None \<Rightarrow> None | Some j \<Rightarrow> if j = [] then None else Some (full_path fs j)"
  define r where "r =
    (case (case (case try_inline loads lax explain wave_plan of
                  Inl found \<Rightarrow> Inl found | Inr best \<Rightarrow> try_declared fs loads lax explain path ?ws ?jr job_id best) of
             Inl found \<Rightarrow> Inl found | Inr best \<Rightarrow> try_jobs_dump fs loads lax explain ?jr job_id best) of
       Inl found \<Rightarrow> Inl found | Inr best \<Rightarrow> try_workspace_dump fs loads lax explain ?ws best)"
  have ok: "source_ok r" unfolding r_def by (intro step sources_ok assms)
  have findings: "ir_plan (diagnose_wave_plan_from_findings loads decode lax explain findings) = Some p \<Longrightarrow> plan_ok p \<and> usable p" for p
    by (auto simp: diagnose_wave_plan_from_findings_def rejected_def simp del: scan_findings.simps
        split: option.splits list.splits dest: scan_findings_ok)
  have result: "diagnose_wave_plan_from_sources fs loads decode lax explain wave_plan path workspace jobs_root job_id findings =
      (case r of
         Inl found \<Rightarrow> found
       | Inr best \<Rightarrow>
           (let f = diagnose_wave_plan_from_findings loads decode lax explain findings
            in if ir_plan f \<noteq> None then f
               else rejected (let detail = prefer_ingest_detail best (ir_detail f)
                              in if detail \<noteq> [] then detail
                                 else ''no usable flat WavePlan from structured fields, dumps, or findings'')))"
    unfolding diagnose_wave_plan_from_sources_def Let_def r_def ..
  have "wave_plan = PlanObject p \<Longrightarrow> usable p \<Longrightarrow> r = Inl (accepted_plan p)" for p
    by (simp add: r_def try_inline_def usable_def)
  moreover have "plan_ok p \<and> usable p"
    if "ir_plan (case r of
         Inl found \<Rightarrow> found
       | Inr best \<Rightarrow>
           (let f = diagnose_wave_plan_from_findings loads decode lax explain findings
            in if ir_plan f \<noteq> None then f
               else rejected (let detail = prefer_ingest_detail best (ir_detail f)
                              in if detail \<noteq> [] then detail
                                 else ''no usable flat WavePlan from structured fields, dumps, or findings''))) = Some p" for p
    using that ok findings by (cases r) (auto simp: source_ok_def Let_def rejected_def split: if_splits)
  ultimately show ?thesis unfolding result by auto
qed

section \<open>Examples\<close>

definition sample_files :: host_files where
  "sample_files = \<lparr>hf_expand = id, hf_resolve = id, hf_read = (\<lambda>_. NotAFile)\<rparr>"

lemma declared_path_confined_witness:
  "resolve_wave_plan_path sample_files ''plans/w.json'' (Some ''/srv/x'') None None = Some ''/srv/x/plans/w.json'' \<and>
   prefix (path_parts ''/srv/x'') (path_parts ''/srv/x/plans/w.json'') \<and>
   resolve_wave_plan_path sample_files ''/etc/passwd'' (Some ''/srv/x'') None None = None"
proof -
  have p: "resolve_wave_plan_path sample_files ''plans/w.json'' (Some ''/srv/x'') None None = Some ''/srv/x/plans/w.json''"
    by code_simp
  have "resolve_wave_plan_path sample_files ''/etc/passwd'' (Some ''/srv/x'') None None = None" by code_simp
  with p declared_path_confined [OF p] show ?thesis
    by (auto simp: plan_roots_def sample_files_def full_path_def)
qed

lemma sources_yield_wellformed_witness:
  "diagnose_wave_plan_from_sources sample_files (\<lambda>_. None) (\<lambda>_ _. None) (\<lambda>_. None) (\<lambda>_. []) (PlanObject sample_wave_plan) None None
     None None None = accepted_plan sample_wave_plan"
proof -
  have "p = sample_wave_plan \<Longrightarrow> plan_ok p" for p using sample_wave_plan_ok by simp
  with sources_yield_wellformed [of "PlanObject sample_wave_plan" sample_files "\<lambda>_. None" "\<lambda>_ _. None" "\<lambda>_. None" "\<lambda>_. []"]
  show ?thesis using sample_wave_plan_ok by simp
qed

end
