(* ===== verification/Rail_State.thy ===== *)
theory Rail_State
  imports Wave_Sources
begin

text \<open>
  The state of a LoopRail job (\<open>RailJobState\<close>, \<open>GoalAnnotation\<close> and the helpers of \<open>RailBuiltinExecutor\<close> in
  \<open>rails/builtins_exec.py\<close>): the annotations of its goals, the catalog of slices and which of them are
  ready for a maker. Writing \<open>rail_state.json\<close> is left out; a state read back from it is an argument. The
  verb overrides and the audit record of a pause are JSON values that are only stored.
\<close>

section \<open>State\<close>

record goal_annotation =
  ga_tags :: "string list"
  ga_branch_id :: "string option"
  ga_branch_status :: string
  ga_role :: "string option"

definition new_annotation :: goal_annotation where
  "new_annotation = \<lparr>ga_tags = [], ga_branch_id = None, ga_branch_status = ''active'', ga_role = None\<rparr>"

record rail_job =
  rj_job_id :: ident
  rj_rail_id :: string
  rj_rail_version :: string
  rj_annotations :: "(ident, goal_annotation) dict"
  rj_suspended :: bool
  rj_completed :: bool
  rj_scout_count :: "int option"
  rj_decompose_plan :: "obj list option"
  rj_wave_index :: int
  rj_max_waves :: int
  rj_max_slices :: "int option"
  rj_wave_slices :: "string list option"
  rj_spawned_slices :: "(string, ident) dict"
  rj_job_branch :: "string option"
  rj_base_branch :: "string option"
  rj_wave_plan_source_path :: "string option"
  rj_worktrees_enabled :: bool
  rj_recycle_on_merge :: bool
  rj_recycle_on_complete :: bool
  rj_fanout_enabled :: bool
  rj_require_plan :: bool
  rj_engine_max_parallel_goals :: "int option"
  rj_feedback_round :: int
  rj_max_feedback_rounds :: int
  rj_acceptance_met :: bool
  rj_verb_overrides :: "(string, obj) dict"
  rj_last_pause_clarify :: "obj option"

definition new_rail_job :: "ident \<Rightarrow> string \<Rightarrow> string \<Rightarrow> rail_job" where
  "new_rail_job job_id rail_id version =
     \<lparr>rj_job_id = job_id, rj_rail_id = rail_id, rj_rail_version = version, rj_annotations = [], rj_suspended = False,
      rj_completed = False, rj_scout_count = None, rj_decompose_plan = None, rj_wave_index = 0, rj_max_waves = 32,
      rj_max_slices = None, rj_wave_slices = None, rj_spawned_slices = [], rj_job_branch = None, rj_base_branch = None,
      rj_wave_plan_source_path = None, rj_worktrees_enabled = True, rj_recycle_on_merge = True,
      rj_recycle_on_complete = True, rj_fanout_enabled = False, rj_require_plan = False,
      rj_engine_max_parallel_goals = None, rj_feedback_round = 0, rj_max_feedback_rounds = 8, rj_acceptance_met = False,
      rj_verb_overrides = [], rj_last_pause_clarify = None\<rparr>"

definition effective_scout_count :: "rail_job \<Rightarrow> int" where
  "effective_scout_count st = (case rj_scout_count st of Some n \<Rightarrow> n | None \<Rightarrow> 2)"

definition effective_engine_max_parallel_goals :: "rail_job \<Rightarrow> int" where
  "effective_engine_max_parallel_goals st = (case rj_engine_max_parallel_goals st of Some n \<Rightarrow> n | None \<Rightarrow> 32)"

definition effective_max_slices :: "rail_job \<Rightarrow> int" where
  "effective_max_slices st =
     (case rj_max_slices st of Some n \<Rightarrow> n | None \<Rightarrow> if rj_max_waves st \<noteq> 0 then rj_max_waves st else 32)"

text \<open>The surroundings of the executor: fresh ids, the clock, files, git and the wording of the briefs;
  \<open>rh_hints\<close> appends the standing hints for planners to a brief.
  \<open>rh_merge\<close> says whether the merge succeeded, \<open>rh_land\<close> also whether there was a conflict; both give a detail.\<close>

datatype brief =
    ScoutBrief ident nat "string option"
  | PlanBrief ident
  | ImplementBrief ident
  | MilestoneBrief ident
  | VerifyPlanBrief ident string
  | SliceBrief ident string string string string bool
  | IntegrateBrief ident string
  | CommitBrief ident string
  | ReviewBrief ident
  | QaBrief ident string
  | DiagnoseBrief ident int string
  | OptimizeBrief ident int
  | FeedbackVerifyBrief ident int string
  | ResearchPlanBrief ident
  | ResearchSynthesisBrief ident
  | ReplantBrief ident
  | ResolveBrief ident string string string "string option"
  | MergedReviewBrief ident string
  | LandBrief ident string string

text \<open>What the clarification policy says at a human gate (\<open>policy.answer\<close>): it defers with a reason, fails with a
  message, or gives answers, a confidence, a rationale and a source, perhaps marked as deferred.\<close>

datatype gate_answer =
    GateDeferred string
  | GateFailed string
  | GateAnswered bool json string "string list" string

record rail_host =
  rh_fresh :: "nat \<Rightarrow> ident"
  rh_now :: time
  rh_files :: host_files
  rh_jobs_root :: "string option"
  rh_loads :: "string \<Rightarrow> json option"
  rh_decode :: "string \<Rightarrow> nat \<Rightarrow> (json \<times> nat) option"
  rh_lax :: "json \<Rightarrow> int option"
  rh_explain :: "obj \<Rightarrow> string"
  rh_render :: "json \<Rightarrow> string"
  rh_text :: "brief \<Rightarrow> string"
  rh_hints :: "string \<Rightarrow> string"
  rh_is_git :: "string \<Rightarrow> bool"
  rh_base_branch :: "string \<Rightarrow> string"
  rh_worktree :: "string \<Rightarrow> string \<Rightarrow> string \<Rightarrow> string \<Rightarrow> string option"
  rh_merge :: "string \<Rightarrow> string \<Rightarrow> string \<Rightarrow> bool \<times> string"
  rh_land :: "string \<Rightarrow> string \<Rightarrow> string \<Rightarrow> bool \<times> bool \<times> string"
  rh_clarify :: "(goal_node \<Rightarrow> goal_node option \<Rightarrow> string list \<Rightarrow> gate_answer outcome) option"

section \<open>Annotations\<close>

definition job_descendants :: "goal_dag \<Rightarrow> ident \<Rightarrow> goal_node list" where
  "job_descendants d job_id = filter (\<lambda>g. g_id g = job_id \<or> g_parent_id g = Some job_id) (goal_nodes d)"

fun br_str :: "branch_status \<Rightarrow> string" where
  "br_str BrActive = ''active''"
| "br_str BrPruned = ''pruned''"
| "br_str BrSuspended = ''suspended''"

definition br_of :: "string \<Rightarrow> branch_status option" where
  "br_of s = (if s = ''active'' then Some BrActive else if s = ''pruned'' then Some BrPruned
     else if s = ''suspended'' then Some BrSuspended else None)"

fun add_tags :: "string list \<Rightarrow> string list \<Rightarrow> string list" where
  "add_tags tags [] = tags"
| "add_tags tags (t # ts) = add_tags (if t \<in> set tags then tags else tags @ [t]) ts"

definition hydrate_one :: "goal_node \<Rightarrow> goal_annotation \<Rightarrow> goal_annotation" where
  "hydrate_one g ann =
     (let ann = (if g_rail_tags g = [] then ann
                 else ann\<lparr>ga_tags := (if ga_tags ann = [] then g_rail_tags g else add_tags (ga_tags ann) (g_rail_tags g))\<rparr>);
          ann = (if truthy (g_role g) \<and> \<not> truthy (ga_role ann) then ann\<lparr>ga_role := g_role g\<rparr> else ann);
          ann = (if truthy (g_branch_id g) \<and> \<not> truthy (ga_branch_id ann) then ann\<lparr>ga_branch_id := g_branch_id g\<rparr> else ann)
      in case g_branch_status g of
           None \<Rightarrow> ann
         | Some b \<Rightarrow> if ga_branch_status ann \<in> {''active'', []} then ann\<lparr>ga_branch_status := br_str b\<rparr> else ann)"

definition hydrate_annotations :: "goal_dag \<Rightarrow> rail_job \<Rightarrow> rail_job" where
  "hydrate_annotations d st =
     st\<lparr>rj_annotations :=
       foldl (\<lambda>anns g. if g_rail_tags g \<noteq> [] \<or> truthy (g_role g) \<or> truthy (g_branch_id g)
                      then dict_set (g_id g)
                             (hydrate_one g (case dict_get anns (g_id g) of None \<Rightarrow> new_annotation | Some a \<Rightarrow> a)) anns
                      else anns)
         (rj_annotations st) (job_descendants d (rj_job_id st))\<rparr>"

definition first_of :: "'a option \<Rightarrow> 'a option \<Rightarrow> 'a option" where
  "first_of a b = (case a of Some x \<Rightarrow> Some x | None \<Rightarrow> b)"

definition str_first :: "string option \<Rightarrow> string option \<Rightarrow> string option" where
  "str_first a b = (if truthy a then a else b)"

definition merge_rail_state :: "rail_job \<Rightarrow> rail_job \<Rightarrow> rail_job" where
  "merge_rail_state base donor =
     \<lparr>rj_job_id = rj_job_id base, rj_rail_id = str_or (rj_rail_id base) (rj_rail_id donor),
      rj_rail_version = str_or (rj_rail_version base) (rj_rail_version donor),
      rj_annotations = dict_update (rj_annotations donor) (rj_annotations base),
      rj_suspended = (rj_suspended base \<or> rj_suspended donor), rj_completed = (rj_completed base \<or> rj_completed donor),
      rj_scout_count = first_of (rj_scout_count base) (rj_scout_count donor),
      rj_decompose_plan = first_of (rj_decompose_plan base) (rj_decompose_plan donor),
      rj_wave_index = max (rj_wave_index base) (rj_wave_index donor),
      rj_max_waves = max (rj_max_waves base) (rj_max_waves donor),
      rj_max_slices = first_of (rj_max_slices base) (rj_max_slices donor),
      rj_wave_slices = first_of (rj_wave_slices base) (rj_wave_slices donor),
      rj_spawned_slices = dict_update (rj_spawned_slices donor) (rj_spawned_slices base),
      rj_job_branch = str_first (rj_job_branch base) (rj_job_branch donor),
      rj_base_branch = str_first (rj_base_branch base) (rj_base_branch donor),
      rj_wave_plan_source_path = first_of (rj_wave_plan_source_path base) (rj_wave_plan_source_path donor),
      rj_worktrees_enabled = rj_worktrees_enabled donor, rj_recycle_on_merge = rj_recycle_on_merge donor,
      rj_recycle_on_complete = rj_recycle_on_complete donor,
      rj_fanout_enabled = (rj_fanout_enabled base \<or> rj_fanout_enabled donor),
      rj_require_plan = (rj_require_plan base \<or> rj_require_plan donor),
      rj_engine_max_parallel_goals = first_of (rj_engine_max_parallel_goals base) (rj_engine_max_parallel_goals donor),
      rj_feedback_round = max (rj_feedback_round base) (rj_feedback_round donor),
      rj_max_feedback_rounds = max (rj_max_feedback_rounds base) (rj_max_feedback_rounds donor),
      rj_acceptance_met = (rj_acceptance_met base \<or> rj_acceptance_met donor),
      rj_verb_overrides = (if rj_verb_overrides base \<noteq> [] then rj_verb_overrides base else rj_verb_overrides donor),
      rj_last_pause_clarify = first_of (rj_last_pause_clarify base) (rj_last_pause_clarify donor)\<rparr>"

definition root_annotation :: "ident \<Rightarrow> goal_annotation" where
  "root_annotation job_id =
     \<lparr>ga_tags = [''job_root''], ga_branch_id = Some job_id, ga_branch_status = ''active'', ga_role = Some ''root''\<rparr>"

definition set_default :: "'k \<Rightarrow> 'v \<Rightarrow> ('k, 'v) dict \<Rightarrow> ('k, 'v) dict" where
  "set_default k v d = (case dict_get d k of None \<Rightarrow> dict_set k v d | Some _ \<Rightarrow> d)"

text \<open>\<open>bind_job\<close>: \<open>loaded\<close> is the state on disk, if any.\<close>

definition bind_job_state :: "goal_dag \<Rightarrow> rail_job option \<Rightarrow> rail_job option \<Rightarrow> rail_job \<Rightarrow> rail_job" where
  "bind_job_state d loaded prev st =
     (let merged = (case loaded of Some l \<Rightarrow> merge_rail_state st l
                    | None \<Rightarrow> (case prev of Some p \<Rightarrow> merge_rail_state st p | None \<Rightarrow> st));
          hydrated = hydrate_annotations d merged
      in hydrated\<lparr>rj_annotations := set_default (rj_job_id hydrated) (root_annotation (rj_job_id hydrated)) (rj_annotations hydrated)\<rparr>)"

definition tags_by_goal :: "goal_dag \<Rightarrow> rail_job option \<Rightarrow> ident \<Rightarrow> (ident, string list) dict" where
  "tags_by_goal d st job_id =
     foldl (\<lambda>out g. if g_rail_tags g = [] then out
                   else (case dict_get out (g_id g) of
                           None \<Rightarrow> dict_set (g_id g) (g_rail_tags g) out
                         | Some existing \<Rightarrow>
                             dict_set (g_id g) (if existing = [] then g_rail_tags g else add_tags existing (g_rail_tags g)) out))
       (case st of None \<Rightarrow> []
        | Some s \<Rightarrow> map (\<lambda>(gid, a). (gid, ga_tags a)) (filter (\<lambda>(gid, a). ga_tags a \<noteq> []) (rj_annotations s)))
       (job_descendants d job_id)"

definition sync_goal :: "goal_annotation \<Rightarrow> string option \<Rightarrow> goal_node \<Rightarrow> goal_node" where
  "sync_goal ann rail_id g =
     (let g = (case rail_id of None \<Rightarrow> g | Some r \<Rightarrow> g\<lparr>g_rail_id := Some r\<rparr>);
          g = g\<lparr>g_rail_tags := ga_tags ann, g_branch_id := ga_branch_id ann\<rparr>;
          g = (case br_of (ga_branch_status ann) of None \<Rightarrow> g | Some b \<Rightarrow> g\<lparr>g_branch_status := Some b\<rparr>)
      in g\<lparr>g_role := ga_role ann\<rparr>)"

section \<open>The wave plan of a job\<close>

definition job_workspace :: "rail_host \<Rightarrow> goal_dag \<Rightarrow> ident \<Rightarrow> string option" where
  "job_workspace h d job_id =
     (case get_goal d job_id of
        None \<Rightarrow> None
      | Some g \<Rightarrow> if truthy (g_workspace g) then Some (full_path (rh_files h) (opt_str (g_workspace g))) else None)"

definition apply_wave_plan :: "wave_plan \<Rightarrow> string option \<Rightarrow> rail_job \<Rightarrow> rail_job" where
  "apply_wave_plan plan source_path st =
     (let u = apply_wave_plan_to_state_fields plan;
          st = (case su_wave_slices u of None \<Rightarrow> st | Some names \<Rightarrow> st\<lparr>rj_wave_slices := Some names\<rparr>);
          st = (case su_decompose_plan u of None \<Rightarrow> st | Some specs \<Rightarrow> st\<lparr>rj_decompose_plan := Some specs\<rparr>);
          st = (case su_scout_count u of None \<Rightarrow> st | Some n \<Rightarrow> st\<lparr>rj_scout_count := Some n\<rparr>);
          st = (case su_max_slices u of
                  Some n \<Rightarrow> st\<lparr>rj_max_slices := Some n, rj_max_waves := max (rj_max_waves st) n\<rparr>
                | None \<Rightarrow>
                    (case su_max_waves u of
                       Some n \<Rightarrow> st\<lparr>rj_max_waves := max (rj_wave_index st) n, rj_max_slices := Some n\<rparr>
                     | None \<Rightarrow> st))
      in if truthy source_path then st\<lparr>rj_wave_plan_source_path := source_path\<rparr> else st)"

definition architecture_findings :: "goal_dag \<Rightarrow> rail_job \<Rightarrow> json list" where
  "architecture_findings d st =
     concat (map (\<lambda>(gid, a). if ''architecture'' \<in> set (ga_tags a)
                            then (case get_goal d gid of None \<Rightarrow> [] | Some g \<Rightarrow> map JStr (g_findings g)) else [])
       (rj_annotations st))"

definition diagnose_job_wave_plan :: "rail_host \<Rightarrow> goal_dag \<Rightarrow> rail_job \<Rightarrow> ingest_result" where
  "diagnose_job_wave_plan h d st =
     diagnose_wave_plan_from_sources (rh_files h) (rh_loads h) (rh_decode h) (rh_lax h) (rh_explain h) NoInline None
       (job_workspace h d (rj_job_id st)) (rh_jobs_root h) (Some (rj_job_id st))
       (if architecture_findings d st = [] then None else Some (architecture_findings d st))"

definition nonempty :: "'a list option \<Rightarrow> bool" where
  "nonempty v \<longleftrightarrow> (case v of None \<Rightarrow> False | Some xs \<Rightarrow> xs \<noteq> [])"

definition ingest_job_wave_plan :: "rail_host \<Rightarrow> goal_dag \<Rightarrow> rail_job \<Rightarrow> rail_job" where
  "ingest_job_wave_plan h d st =
     (if nonempty (rj_wave_slices st) then st
      else (let r = diagnose_job_wave_plan h d st
            in case ir_plan r of None \<Rightarrow> st | Some p \<Rightarrow> apply_wave_plan p (ir_source_path r) st))"

definition is_wave_plan_ready :: "rail_host \<Rightarrow> goal_dag \<Rightarrow> rail_job option \<Rightarrow> bool" where
  "is_wave_plan_ready h d st =
     (case st of None \<Rightarrow> False
      | Some s \<Rightarrow> nonempty (rj_wave_slices s) \<or> ir_plan (diagnose_job_wave_plan h d s) \<noteq> None)"

section \<open>The catalog of slices\<close>

definition synthetic_spec :: "string \<Rightarrow> obj" where
  "synthetic_spec sid =
     [(''slice'', JStr sid), (''description'', JStr sid), (''tags'', JList [JStr ''implementation'', JStr ''maker''])]"

definition catalog_specs :: "rail_job \<Rightarrow> obj list" where
  "catalog_specs st =
     (if nonempty (rj_decompose_plan st) then the (rj_decompose_plan st)
      else map synthetic_spec
             (filter (\<lambda>s. s \<noteq> []) (map py_strip (case rj_wave_slices st of None \<Rightarrow> [] | Some ns \<Rightarrow> ns))))"

definition generic_maker_tags :: "string set" where
  "generic_maker_tags = {''implementation'', ''maker'', ''feedback'', ''replant''}"

definition maker_slug :: "string list \<Rightarrow> string option" where
  "maker_slug tags =
     (case filter (\<lambda>t. starts_with t ''slice:'') tags of
        t # _ \<Rightarrow> Some (drop 6 t)
      | [] \<Rightarrow>
          (case filter (\<lambda>t. t \<notin> generic_maker_tags \<and> \<not> starts_with t ''wave-'') (rev tags) of
             t # _ \<Rightarrow> Some t | [] \<Rightarrow> None))"

definition rebuild_spawned_slices :: "rail_job \<Rightarrow> rail_job" where
  "rebuild_spawned_slices st =
     (if rj_spawned_slices st \<noteq> [] then st
      else st\<lparr>rj_spawned_slices :=
        foldl (\<lambda>spawned (gid, a).
                 if (ga_role a \<noteq> Some ''maker'' \<and> ''maker'' \<notin> set (ga_tags a)) \<or> ''implementation'' \<notin> set (ga_tags a) then spawned
                 else (case maker_slug (ga_tags a) of
                         Some slug \<Rightarrow> if slug \<noteq> [] then dict_set slug gid spawned else spawned
                       | None \<Rightarrow> spawned))
          [] (rj_annotations st)\<rparr>)"

definition spec_slice :: "rail_host \<Rightarrow> obj \<Rightarrow> string" where
  "spec_slice h spec = py_strip (str_of_json (rh_render h) (json_or (dict_get spec ''slice'') (JStr [])))"

definition spec_deps :: "rail_host \<Rightarrow> obj \<Rightarrow> string list outcome" where
  "spec_deps h spec =
     map_sum id (\<lambda>ds. filter (\<lambda>d. d \<noteq> []) (map py_strip ds))
       (strs_of_json (rh_render h) (json_or (dict_get spec ''depends_on'') (JList [])))"

definition dep_completed :: "goal_dag \<Rightarrow> (string, ident) dict \<Rightarrow> string \<Rightarrow> bool" where
  "dep_completed d spawned dep \<longleftrightarrow>
     (case dict_get spawned dep of
        None \<Rightarrow> False
      | Some gid \<Rightarrow> gid \<noteq> [] \<and> (case get_goal d gid of None \<Rightarrow> False | Some g \<Rightarrow> g_status g = GCompleted))"

fun ready_scan :: "rail_host \<Rightarrow> goal_dag \<Rightarrow> (string, ident) dict \<Rightarrow> obj list \<Rightarrow> string list \<Rightarrow> string list outcome" where
  "ready_scan h d spawned [] ready = Inr ready"
| "ready_scan h d spawned (spec # specs) ready =
     (let sid = spec_slice h spec
      in if sid = [] \<or> dict_get spawned sid \<noteq> None then ready_scan h d spawned specs ready
         else (case spec_deps h spec of
                 Inl e \<Rightarrow> Inl e
               | Inr deps \<Rightarrow>
                   ready_scan h d spawned specs (if list_all (dep_completed d spawned) deps then ready @ [sid] else ready)))"

definition ready_unspawned_slice_ids :: "rail_host \<Rightarrow> goal_dag \<Rightarrow> rail_job \<Rightarrow> string list outcome" where
  "ready_unspawned_slice_ids h d st =
     (let st = rebuild_spawned_slices st in ready_scan h d (rj_spawned_slices st) (catalog_specs st) [])"

definition has_ready_unspawned_slices :: "rail_host \<Rightarrow> goal_dag \<Rightarrow> rail_job option \<Rightarrow> bool outcome" where
  "has_ready_unspawned_slices h d st =
     (case st of
        None \<Rightarrow> Inr False
      | Some s \<Rightarrow>
          if \<not> nonempty (rj_wave_slices s) \<and> \<not> nonempty (rj_decompose_plan s) then Inr False
          else map_sum id (\<lambda>ready. ready \<noteq> []) (ready_unspawned_slice_ids h d s))"

section \<open>Which slices are ready\<close>

definition spec_ready :: "rail_host \<Rightarrow> goal_dag \<Rightarrow> (string, ident) dict \<Rightarrow> obj \<Rightarrow> bool" where
  "spec_ready h d spawned spec \<longleftrightarrow> spec_slice h spec \<noteq> [] \<and> dict_get spawned (spec_slice h spec) = None \<and>
     (\<exists>deps. spec_deps h spec = Inr deps \<and> (\<forall>dep \<in> set deps. dep_completed d spawned dep))"

lemma ready_scan_set:
  "ready_scan h d spawned specs ready = Inr out \<Longrightarrow>
   set out = set ready \<union> spec_slice h ` {spec \<in> set specs. spec_ready h d spawned spec}"
proof (induction h d spawned specs ready rule: ready_scan.induct)
  case (2 h d spawned spec specs ready)
  show ?case
  proof (cases "spec_slice h spec = [] \<or> dict_get spawned (spec_slice h spec) \<noteq> None")
    case True
    then have "\<not> spec_ready h d spawned spec" by (auto simp: spec_ready_def)
    with True 2 show ?thesis by (auto simp: Let_def)
  next
    case False
    with 2(3) obtain deps where deps: "spec_deps h spec = Inr deps" by (auto simp: Let_def split: sum.splits)
    with False have "spec_ready h d spawned spec \<longleftrightarrow> list_all (dep_completed d spawned) deps"
      by (auto simp: spec_ready_def list_all_iff)
    with False deps 2(2) [OF refl _ deps] 2(3) show ?thesis by (auto simp: Let_def split: if_splits)
  qed
qed simp

lemma ready_scan_ok: "\<forall>spec \<in> set specs. \<exists>deps. spec_deps h spec = Inr deps \<Longrightarrow> \<exists>out. ready_scan h d spawned specs ready = Inr out"
  by (induction specs arbitrary: ready) (auto simp: Let_def)

lemma catalog_of_plan:
  assumes "rj_decompose_plan st = as_decompose_plan p" and "pl_slices p \<noteq> []"
  shows "catalog_specs (rebuild_spawned_slices st) = map decompose_entry (pl_slices p)" "catalog_specs st = map decompose_entry (pl_slices p)"
  using assms by (simp_all add: catalog_specs_def rebuild_spawned_slices_def nonempty_def as_decompose_plan_def)

lemma spec_slice_entry: "slice_ok s \<Longrightarrow> spec_slice h (decompose_entry s) = ws_slice s"
  by (simp add: spec_slice_def decompose_entry_def json_or_def str_of_json_def slice_ok_def)

lemma spec_deps_entry: "slice_ok s \<Longrightarrow> spec_deps h (decompose_entry s) = Inr (ws_depends_on s)"
proof -
  assume ok: "slice_ok s"
  have "filter (\<lambda>d. d \<noteq> []) (map py_strip (ws_depends_on s)) = ws_depends_on s"
    using ok by (auto simp: slice_ok_def list_all_iff filter_id_conv map_idI)
  then show ?thesis
    by (auto simp: spec_deps_def decompose_entry_def json_or_def strs_of_json_def str_of_json_def comp_def split: option.split)
qed

lemma slice_graph_source:
  "dict_get (slice_graph slices) a = Some deps \<Longrightarrow> \<exists>s \<in> set slices. ws_slice s = a \<and> ws_depends_on s = deps"
  by (induction slices rule: rev_induct) (auto simp: slice_graph_snoc slice_graph_def split: if_splits)

lemma finite_graph_edges: "finite (graph_edges g)"
proof (rule finite_subset)
  show "graph_edges g \<subseteq> set (dict_keys g) \<times> (\<Union>deps \<in> set (dict_values g). set deps)"
  proof
    fix e assume "e \<in> graph_edges g"
    then obtain a b deps where e: "e = (a, b)" "dict_get g a = Some deps" "b \<in> set deps" by (auto simp: graph_edges_def)
    then show "e \<in> set (dict_keys g) \<times> (\<Union>deps \<in> set (dict_values g). set deps)"
      using dict_get_key [OF e(2)] dict_get_value [OF e(2)] by blast
  qed
qed auto

text \<open>A valid plan always has a next slice: among the slices not yet in \<open>spawned\<close> there is one all of whose
  dependencies are.\<close>

lemma next_slice:
  assumes "depends_on_valid slices" and "\<exists>s \<in> set slices. ws_slice s \<notin> spawned"
  shows "\<exists>s \<in> set slices. ws_slice s \<notin> spawned \<and> set (ws_depends_on s) \<subseteq> spawned"
proof -
  let ?E = "graph_edges (slice_graph slices)"
  have "acyclic ?E" using assms(1) visit_iff_acyclic by (simp add: depends_on_valid_def)
  then have "wf (?E\<inverse>)" by (rule finite_acyclic_wf_converse [OF finite_graph_edges])
  moreover obtain s0 where "s0 \<in> set slices" "ws_slice s0 \<notin> spawned" using assms(2) by blast
  then have "ws_slice s0 \<in> ws_slice ` set slices - spawned" by blast
  ultimately obtain u where u: "u \<in> ws_slice ` set slices - spawned"
      "\<And>b. (b, u) \<in> ?E\<inverse> \<Longrightarrow> b \<notin> ws_slice ` set slices - spawned"
    by (rule wfE_min) blast
  then obtain deps where deps: "dict_get (slice_graph slices) u = Some deps"
    using slice_graph_keys [of slices] by (metis DiffD1 dict_get_None option.exhaust)
  then obtain s where s: "s \<in> set slices" "ws_slice s = u" "ws_depends_on s = deps"
    using slice_graph_source by blast
  have "set deps \<subseteq> ws_slice ` set slices" using assms(1) s by (auto simp: depends_on_valid_def list_all_iff)
  moreover have "b \<notin> ws_slice ` set slices - spawned" if "b \<in> set deps" for b
    using that deps u(2) [of b] by (auto simp: graph_edges_def)
  ultimately show ?thesis using s u(1) by blast
qed

text \<open>Claim C12. Streaming fan-out never gets stuck on a plan that was accepted: as long as a slice has no maker and every maker
  spawned so far has completed, at least one slice is ready; and a slice is ready exactly when it has no
  maker and the makers of all its dependencies have completed.\<close>

theorem streaming_progress:
  assumes plan: "plan_ok p" "pl_slices p \<noteq> []" "rj_decompose_plan st = as_decompose_plan p"
    and spawned_def: "spawned = rj_spawned_slices (rebuild_spawned_slices st)"
  shows "\<exists>ready. ready_unspawned_slice_ids h d st = Inr ready \<and>
    set ready = ws_slice ` {s \<in> set (pl_slices p). dict_get spawned (ws_slice s) = None \<and>
                               (\<forall>dep \<in> set (ws_depends_on s). dep_completed d spawned dep)} \<and>
    ((\<forall>sid \<in> set (dict_keys spawned). dep_completed d spawned sid) \<and>
     (\<exists>s \<in> set (pl_slices p). dict_get spawned (ws_slice s) = None) \<longrightarrow> ready \<noteq> [])"
proof -
  have ok: "s \<in> set (pl_slices p) \<Longrightarrow> slice_ok s" for s using plan(1) by (simp add: plan_ok_def list_all_iff)
  have "\<forall>spec \<in> set (map decompose_entry (pl_slices p)). \<exists>deps. spec_deps h spec = Inr deps"
    using ok spec_deps_entry by auto
  then obtain ready where scan: "ready_scan h d spawned (map decompose_entry (pl_slices p)) [] = Inr ready"
    using ready_scan_ok by blast
  then have "ready_unspawned_slice_ids h d st = Inr ready"
    using catalog_of_plan [OF plan(3,2)] by (simp add: ready_unspawned_slice_ids_def Let_def spawned_def)
  moreover have ready: "set ready = ws_slice ` {s \<in> set (pl_slices p). dict_get spawned (ws_slice s) = None \<and>
      (\<forall>dep \<in> set (ws_depends_on s). dep_completed d spawned dep)}"
  proof -
    have "spec_ready h d spawned (decompose_entry s) \<longleftrightarrow> dict_get spawned (ws_slice s) = None \<and>
        (\<forall>dep \<in> set (ws_depends_on s). dep_completed d spawned dep)" if "s \<in> set (pl_slices p)" for s
      using ok [OF that] by (simp add: spec_ready_def spec_slice_entry spec_deps_entry, simp add: slice_ok_def)
    then have "{spec \<in> set (map decompose_entry (pl_slices p)). spec_ready h d spawned spec} =
        decompose_entry ` {s \<in> set (pl_slices p). dict_get spawned (ws_slice s) = None \<and>
          (\<forall>dep \<in> set (ws_depends_on s). dep_completed d spawned dep)}" by auto
    moreover have "spec_slice h ` decompose_entry ` S = ws_slice ` S" if "S \<subseteq> set (pl_slices p)" for S
      using that ok by (auto simp: spec_slice_entry image_iff subset_iff)
    ultimately show ?thesis using ready_scan_set [OF scan] by (metis (no_types, lifting) list.set(1) mem_Collect_eq subsetI sup_bot_left)
  qed
  moreover have "ready \<noteq> []"
    if done_: "\<forall>sid \<in> set (dict_keys spawned). dep_completed d spawned sid"
      and open_: "\<exists>s \<in> set (pl_slices p). dict_get spawned (ws_slice s) = None"
  proof -
    have "depends_on_valid (pl_slices p)" using plan(1,2) by (simp add: plan_ok_def)
    moreover have "\<exists>s \<in> set (pl_slices p). ws_slice s \<notin> set (dict_keys spawned)"
      using open_ by (simp add: dict_get_None)
    ultimately obtain s where "s \<in> set (pl_slices p)" "ws_slice s \<notin> set (dict_keys spawned)"
        "set (ws_depends_on s) \<subseteq> set (dict_keys spawned)"
      using next_slice by blast
    with done_ have "ws_slice s \<in> set ready" unfolding ready by (intro imageI CollectI) (auto simp: dict_get_None subset_iff)
    then show ?thesis by auto
  qed
  ultimately show ?thesis by blast
qed

section \<open>Rebinding a job\<close>

lemma dict_update_keys: "fst ` set (dict_update d new) = fst ` set d \<union> fst ` set new"
proof (induction new rule: rev_induct)
  case Nil
  show ?case by (simp add: dict_update_def)
next
  case (snoc p new)
  then show ?case by (cases p) (simp add: dict_update_def dict_keys_set_image)
qed

lemma hydrate_keeps_keys: "fst ` set (rj_annotations m) \<subseteq> fst ` set (rj_annotations (hydrate_annotations d m))"
proof -
  have "fst ` set anns \<subseteq> fst ` set (foldl (\<lambda>anns g. if P g then dict_set (g_id g) (f g anns) anns else anns) anns gs)"
    for P f anns gs
    by (induction gs arbitrary: anns) (force simp: dict_keys_set_image)+
  then show ?thesis by (simp add: hydrate_annotations_def)
qed

lemma set_default_keys: "fst ` set (set_default k v d) = insert k (fst ` set d)"
  by (auto simp: set_default_def dict_keys_set_image split: option.split dest!: dict_get_key)


text \<open>The worktree policy is the exception: a job that is bound again keeps the policy of its first binding, whatever the
  rail declares now.\<close>

lemma rebinding_ignores_worktree_policy:
  "rj_worktrees_enabled (bind_job_state d None (Some (new_rail_job job rail version))
     ((new_rail_job job rail version)\<lparr>rj_worktrees_enabled := False\<rparr>)) = True"
  by (simp add: bind_job_state_def Let_def hydrate_annotations_def merge_rail_state_def new_rail_job_def)

section \<open>Examples\<close>

definition sample_host :: rail_host where
  "sample_host =
     \<lparr>rh_fresh = (\<lambda>n. ''g'' @ show_nat n), rh_now = 7, rh_files = sample_files, rh_jobs_root = None, rh_loads = (\<lambda>_. None),
      rh_decode = (\<lambda>_ _. None), rh_lax = (\<lambda>_. None), rh_explain = (\<lambda>_. []), rh_render = (\<lambda>_. []), rh_text = (\<lambda>_. []), rh_hints = id,
      rh_is_git = (\<lambda>_. False), rh_base_branch = (\<lambda>_. ''main''), rh_worktree = (\<lambda>_ _ _ _. None), rh_merge = (\<lambda>_ _ _. (True, [])),
      rh_land = (\<lambda>_ _ _. (True, False, [])), rh_clarify = None\<rparr>"

definition planned_job :: rail_job where
  "planned_job = apply_wave_plan sample_wave_plan None (new_rail_job ''job'' ''greenfield-system'' ''1'')"

lemma planned_job_rebuilt: "rebuild_spawned_slices planned_job = planned_job"
  by code_simp

lemma streaming_progress_witness:
  "\<exists>ready. ready_unspawned_slice_ids sample_host \<lparr>goals = []\<rparr> planned_job = Inr ready \<and> ready \<noteq> []"
proof -
  have "rj_decompose_plan planned_job = as_decompose_plan sample_wave_plan" by code_simp
  moreover have "[] = rj_spawned_slices (rebuild_spawned_slices planned_job)" by code_simp
  moreover have "pl_slices sample_wave_plan \<noteq> []" "\<exists>s \<in> set (pl_slices sample_wave_plan). dict_get [] (ws_slice s) = None"
    by (auto simp: sample_wave_plan_def)
  ultimately show ?thesis
    using streaming_progress [of sample_wave_plan planned_job "[]" sample_host "\<lparr>goals = []\<rparr>"] sample_wave_plan_ok by auto
qed


end
