(* ===== verification/Rail_Builtins.thy ===== *)
theory Rail_Builtins
  imports Rail_State
begin

text \<open>
  The verbs of LoopRail (\<open>RailBuiltinExecutor\<close> in \<open>rails/builtins_exec.py\<close>): each changes the goal DAG through
  the operations of the context engine and the state of its job. A verb runs over the jobs, the DAG and
  the number of ids drawn so far, and may raise; what was done before the exception stays. Git and the
  file system are the functions of \<open>rail_host\<close>; commands whose only effect is on a work tree are left out.
\<close>

section \<open>Verbs as state transformers\<close>

record rail_world =
  rw_jobs :: "(ident, rail_job) dict"
  rw_dag :: goal_dag
  rw_used :: nat
  rw_notified :: "ident list"

type_synonym 'a rail = "rail_world \<Rightarrow> 'a outcome \<times> rail_world"

definition ret :: "'a \<Rightarrow> 'a rail" where
  "ret a w = (Inr a, w)"

definition lift_outcome :: "'a outcome \<Rightarrow> 'a rail" where
  "lift_outcome r w = (r, w)"

definition rbind :: "'a rail \<Rightarrow> ('a \<Rightarrow> 'b rail) \<Rightarrow> 'b rail" where
  "rbind m f w = (case m w of (Inl e, w') \<Rightarrow> (Inl e, w') | (Inr a, w') \<Rightarrow> f a w')"

definition rthen :: "'a rail \<Rightarrow> 'b rail \<Rightarrow> 'b rail" where
  "rthen m k = rbind m (\<lambda>_. k)"

definition asks :: "(rail_world \<Rightarrow> 'a) \<Rightarrow> 'a rail" where
  "asks f w = (Inr (f w), w)"

fun rmap :: "('a \<Rightarrow> 'b rail) \<Rightarrow> 'a list \<Rightarrow> 'b list rail" where
  "rmap f [] = ret []"
| "rmap f (x # xs) = rbind (f x) (\<lambda>y. rbind (rmap f xs) (\<lambda>ys. ret (y # ys)))"

datatype verb_status = VSuccess | VSkipped | VError

record verb_result =
  vr_status :: verb_status
  vr_detail :: string
  vr_created :: "ident list"

definition success :: "string \<Rightarrow> ident list \<Rightarrow> verb_result" where
  "success detail created = \<lparr>vr_status = VSuccess, vr_detail = detail, vr_created = created\<rparr>"

definition skipped :: "string \<Rightarrow> verb_result" where
  "skipped detail = \<lparr>vr_status = VSkipped, vr_detail = detail, vr_created = []\<rparr>"

definition failed_verb :: "string \<Rightarrow> verb_result" where
  "failed_verb detail = \<lparr>vr_status = VError, vr_detail = detail, vr_created = []\<rparr>"

section \<open>The job and the context engine\<close>

definition not_bound :: "ident \<Rightarrow> exn" where
  "not_bound job_id = KeyError (''job '' @ job_id @ '' not bound to rail builtins'')"

definition require_job :: "ident \<Rightarrow> rail_job rail" where
  "require_job job_id w = (case dict_get (rw_jobs w) job_id of None \<Rightarrow> (Inl (not_bound job_id), w) | Some st \<Rightarrow> (Inr st, w))"

definition modify_job :: "ident \<Rightarrow> (rail_job \<Rightarrow> rail_job) \<Rightarrow> unit rail" where
  "modify_job job_id f w = (Inr (), w\<lparr>rw_jobs := dict_modify job_id f (rw_jobs w)\<rparr>)"

definition engine :: "'a goal_op \<Rightarrow> 'a rail" where
  "engine op w = (case op (rw_dag w) of (r, d) \<Rightarrow> (r, w\<lparr>rw_dag := d\<rparr>))"

definition lookup_goal :: "ident \<Rightarrow> goal_node option rail" where
  "lookup_goal gid = asks (\<lambda>w. get_goal (rw_dag w) gid)"

definition draw_id :: "rail_host \<Rightarrow> ident rail" where
  "draw_id h w = (Inr (rh_fresh h (rw_used w)), w\<lparr>rw_used := Suc (rw_used w)\<rparr>)"

text \<open>\<open>ce.create_goal\<close> as the verbs call it: a child of the job, made by decomposition.\<close>

definition spawn_goal ::
  "rail_host \<Rightarrow> ident \<Rightarrow> brief + string \<Rightarrow> int \<Rightarrow> ident list \<Rightarrow> ident list \<Rightarrow> string option \<Rightarrow> string \<Rightarrow> intake_scope option \<Rightarrow>
   ident rail" where
  "spawn_goal h job_id b priority deps informs workspace rail_id scope =
     rbind (draw_id h) (\<lambda>fresh.
     rbind (engine (create_goal fresh (rh_now h) (case b of Inl t \<Rightarrow> rh_text h t | Inr t \<Rightarrow> t) priority (Some job_id)
              (Some deps) None SrcDecomposition 0
              (\<lambda>g. (case scope of None \<Rightarrow> id | Some sc \<Rightarrow> (\<lambda>g. g\<lparr>g_intake_scope := Some sc\<rparr>))
                   (g\<lparr>g_informs := informs, g_workspace := workspace, g_rail_id := Some rail_id\<rparr>)))) (\<lambda>g.
     ret (g_id g)))"

text \<open>\<open>annotate_goal\<close>: a field that is \<open>None\<close> is left as it is.\<close>

definition annotate ::
  "ident \<Rightarrow> ident \<Rightarrow> string list option \<Rightarrow> string option \<Rightarrow> string option \<Rightarrow> string option \<Rightarrow> unit rail" where
  "annotate gid job_id tags role branch_id branch_status =
     rbind (require_job job_id) (\<lambda>st.
       (let ann = (case dict_get (rj_annotations st) gid of None \<Rightarrow> new_annotation | Some a \<Rightarrow> a);
            ann = (case tags of None \<Rightarrow> ann | Some t \<Rightarrow> ann\<lparr>ga_tags := t\<rparr>);
            ann = (if role = None then ann else ann\<lparr>ga_role := role\<rparr>);
            ann = (if branch_id = None then ann else ann\<lparr>ga_branch_id := branch_id\<rparr>);
            ann = (case branch_status of None \<Rightarrow> ann | Some b \<Rightarrow> ann\<lparr>ga_branch_status := b\<rparr>)
        in rthen (modify_job job_id (\<lambda>s. s\<lparr>rj_annotations := dict_set gid ann (rj_annotations s)\<rparr>))
             (\<lambda>w. (Inr (), w\<lparr>rw_dag := modify_goal gid (sync_goal ann (Some (rj_rail_id st))) (rw_dag w)\<rparr>))))"

definition ensure_trigger_tags :: "ident \<Rightarrow> ident \<Rightarrow> string list rail" where
  "ensure_trigger_tags job_id gid w =
     (let st = dict_get (rw_jobs w) job_id;
          tags = (case dict_get (tags_by_goal (rw_dag w) st job_id) gid of None \<Rightarrow> [] | Some t \<Rightarrow> t)
      in if tags \<noteq> [] then (Inr tags, w)
         else (case get_goal (rw_dag w) gid of
                 None \<Rightarrow> (Inr [], w)
               | Some g \<Rightarrow>
                   if g_rail_tags g = [] then (Inr [], w)
                   else (case st of
                           None \<Rightarrow> (Inr (g_rail_tags g), w)
                         | Some s \<Rightarrow>
                             (let ann = (case dict_get (rj_annotations s) gid of None \<Rightarrow> new_annotation | Some a \<Rightarrow> a);
                                  ann = (if ga_tags ann \<noteq> [] then ann
                                         else (let a = ann\<lparr>ga_tags := g_rail_tags g\<rparr>
                                               in if truthy (g_role g) \<and> \<not> truthy (ga_role a)
                                                  then a\<lparr>ga_role := g_role g\<rparr> else a))
                              in (Inr (g_rail_tags g),
                                  w\<lparr>rw_jobs := dict_modify job_id
                                     (\<lambda>s. s\<lparr>rj_annotations := dict_set gid ann (rj_annotations s)\<rparr>) (rw_jobs w)\<rparr>)))))"

text \<open>The root of the job waits for the goals a verb adds.\<close>

definition wait_for :: "rail_host \<Rightarrow> ident \<Rightarrow> (ident list \<Rightarrow> ident list) \<Rightarrow> unit rail" where
  "wait_for h job_id f =
     rbind (lookup_goal job_id) (\<lambda>root.
       (case root of
          None \<Rightarrow> ret ()
        | Some g \<Rightarrow> rthen (engine (\<lambda>d. case update_dependencies (rh_now h) job_id (f (g_depends_on g)) d of (_, d') \<Rightarrow> (Inr (), d'))) (ret ())))"

definition append_new :: "ident list \<Rightarrow> ident list \<Rightarrow> ident list" where
  "append_new new deps = add_tags deps new"

definition annotated_completed :: "string \<Rightarrow> rail_job \<Rightarrow> goal_dag \<Rightarrow> ident list" where
  "annotated_completed tag st d =
     map fst (filter (\<lambda>(gid, a). tag \<in> set (ga_tags a) \<and>
                (case get_goal d gid of None \<Rightarrow> False | Some g \<Rightarrow> g_status g = GCompleted)) (rj_annotations st))"

definition terminal :: "goal_node \<Rightarrow> bool" where
  "terminal g \<longleftrightarrow> g_status g \<in> TERMINAL_STATES"

section \<open>Scouts, plans and milestones\<close>

definition scout_specs :: "rail_host \<Rightarrow> ident \<Rightarrow> rail_job \<Rightarrow> obj list" where
  "scout_specs h job_id st =
     (case rj_decompose_plan st of
        Some plan \<Rightarrow> plan
      | None \<Rightarrow> map (\<lambda>i. [(''description'', JStr (rh_text h (ScoutBrief job_id (i + 1) None))), (''tags'', JList [JStr ''exploration'']),
                         (''role'', JStr ''scout'')]) [0..<nat (effective_scout_count st)])"

definition spawn_scout :: "rail_host \<Rightarrow> ident \<Rightarrow> string \<Rightarrow> nat \<times> obj \<Rightarrow> ident rail" where
  "spawn_scout h job_id rail_id ispec =
     (let i = fst ispec; spec = snd ispec
      in rbind (lift_outcome (strs_of_json (rh_render h) (json_or (dict_get spec ''tags'') (JList [JStr ''exploration''])))) (\<lambda>tags.
           (let raw_desc = py_strip (str_of_json (rh_render h) (json_or (dict_get spec ''description'') (JStr [])));
                description = (if ''exploration'' \<in> set tags \<and> \<not> contains ''Systematic debugging'' raw_desc
                               then Inl (ScoutBrief job_id (i + 1) (if raw_desc = [] then None else Some raw_desc))
                               else if raw_desc \<noteq> [] then Inr raw_desc else Inl (ScoutBrief job_id (i + 1) None))
            in rbind (lift_outcome (int_of_json (case dict_get spec ''priority'' of None \<Rightarrow> JInt 60 | Some j \<Rightarrow> j))) (\<lambda>priority.
               rbind (spawn_goal h job_id description priority [] [] None rail_id None) (\<lambda>gid.
               rthen (annotate gid job_id (Some tags)
                        (Some (str_of_json (rh_render h) (json_or (dict_get spec ''role'') (JStr ''scout'')))) (Some job_id) None)
                     (ret gid))))))"

definition do_decompose_parallel :: "rail_host \<Rightarrow> ident \<Rightarrow> verb_result rail" where
  "do_decompose_parallel h job_id =
     rbind (require_job job_id) (\<lambda>st.
     rbind (rmap (spawn_scout h job_id (rj_rail_id st)) (List.enumerate 0 (scout_specs h job_id st))) (\<lambda>created.
     ret (success (''spawned '' @ show_nat (length created) @ '' goals'') created)))"

definition do_plan_and_implement :: "rail_host \<Rightarrow> ident \<Rightarrow> verb_result rail" where
  "do_plan_and_implement h job_id =
     rbind (require_job job_id) (\<lambda>st.
     rbind (asks (\<lambda>w. annotated_completed ''exploration'' st (rw_dag w))) (\<lambda>informs.
     rbind (spawn_goal h job_id (Inl (PlanBrief job_id)) 70 informs informs None (rj_rail_id st) None) (\<lambda>plan.
     rthen (annotate plan job_id (Some [''planning'']) (Some ''planner'') (Some job_id) None)
     (rbind (spawn_goal h job_id (Inl (ImplementBrief job_id)) 75 [plan] informs None (rj_rail_id st) None) (\<lambda>impl.
     rthen (annotate impl job_id (Some [''implementation'']) (Some ''maker'') (Some job_id) None)
     (ret (success ''spawned plan+implement'' [plan, impl])))))))"

definition verb_field :: "rail_job \<Rightarrow> string \<Rightarrow> string \<Rightarrow> json option" where
  "verb_field st verb field =
     (case dict_get (rj_verb_overrides st) verb of
        None \<Rightarrow> None
      | Some body \<Rightarrow> (case dict_get body field of None \<Rightarrow> None | Some JNull \<Rightarrow> None | Some j \<Rightarrow> Some j))"

text \<open>\<open>resolve_verb_brief\<close>: the text of a rail that overrides a brief, or the standard brief.\<close>

definition interpolate_brief :: "string \<Rightarrow> ident \<Rightarrow> string" where
  "interpolate_brief template job_id = py_replace ''{job_id}'' job_id template"

definition verb_brief :: "rail_host \<Rightarrow> rail_job \<Rightarrow> string \<Rightarrow> ident \<Rightarrow> brief \<Rightarrow> (brief + string) option" where
  "verb_brief h st verb job_id standard =
     (case verb_field st verb ''brief'' of
        None \<Rightarrow> Some (Inl standard)
      | Some (JStr s) \<Rightarrow>
          if py_strip s = [] then None
          else Some (Inr (if verb = ''plan_milestones'' then rh_hints h (interpolate_brief s job_id) else interpolate_brief s job_id))
      | Some _ \<Rightarrow> None)"

definition milestone_tags :: "rail_host \<Rightarrow> rail_job \<Rightarrow> string list" where
  "milestone_tags h st =
     (case verb_field st ''plan_milestones'' ''tags'' of
        Some (JList (t # ts)) \<Rightarrow> map (str_of_json (rh_render h)) (t # ts)
      | _ \<Rightarrow> [''architecture'', ''planning'', ''milestones''])"

definition milestone_role :: "rail_job \<Rightarrow> string" where
  "milestone_role st =
     (case verb_field st ''plan_milestones'' ''role'' of Some (JStr r) \<Rightarrow> (if r = [] then ''planner'' else r) | _ \<Rightarrow> ''planner'')"

definition do_plan_milestones :: "rail_host \<Rightarrow> ident \<Rightarrow> verb_result rail" where
  "do_plan_milestones h job_id =
     rbind (require_job job_id) (\<lambda>st.
     rbind (asks (\<lambda>w. job_workspace h (rw_dag w) job_id)) (\<lambda>ws.
       (case verb_brief h st ''plan_milestones'' job_id (MilestoneBrief job_id) of
          None \<Rightarrow> ret (failed_verb ''plan_milestones brief missing (no default and no verbs override)'')
        | Some b \<Rightarrow>
            rbind (spawn_goal h job_id b 80 [] [] ws (rj_rail_id st) None) (\<lambda>arch.
            rthen (annotate arch job_id (Some (milestone_tags h st)) (Some (milestone_role st)) (Some job_id) None)
            (rthen (wait_for h job_id (append_new [arch]))
            (ret (success ''spawned architecture milestones'' [arch])))))))"

definition ingest_wave_plan :: "rail_host \<Rightarrow> ident \<Rightarrow> unit rail" where
  "ingest_wave_plan h job_id w =
     (Inr (), w\<lparr>rw_jobs := dict_modify job_id (ingest_job_wave_plan h (rw_dag w)) (rw_jobs w)\<rparr>)"

definition has_architecture_annotation :: "rail_job \<Rightarrow> bool" where
  "has_architecture_annotation st \<longleftrightarrow>
     list_ex (\<lambda>(gid, a). ''architecture'' \<in> set (ga_tags a) \<or> ga_role a = Some ''planner'') (rj_annotations st)"

definition has_wave_plan_reuse_candidate :: "rail_host \<Rightarrow> goal_dag \<Rightarrow> rail_job option \<Rightarrow> bool" where
  "has_wave_plan_reuse_candidate h d st =
     (case st of
        None \<Rightarrow> False
      | Some s \<Rightarrow>
          if has_architecture_annotation s \<or> \<not> is_wave_plan_ready h d (Some s) then False
          else truthy (rj_wave_plan_source_path s) \<or>
               (let r = diagnose_job_wave_plan h d s in ir_plan r \<noteq> None \<and> truthy (ir_source_path r)))"

definition plan_milestones_verify_existing :: "rail_host \<Rightarrow> ident \<Rightarrow> verb_result rail" where
  "plan_milestones_verify_existing h job_id =
     rthen (ingest_wave_plan h job_id)
     (rbind (require_job job_id) (\<lambda>st.
      rbind (asks (\<lambda>w. (diagnose_job_wave_plan h (rw_dag w) st, job_workspace h (rw_dag w) job_id))) (\<lambda>(diagnosed, ws).
        (let source = (if truthy (rj_wave_plan_source_path st) then opt_str (rj_wave_plan_source_path st)
                       else if truthy (ir_source_path diagnosed) then opt_str (ir_source_path diagnosed) else ''rail_state'')
         in if source = ''rail_state'' then ret (failed_verb ''WavePlan verify requested but no dump source path'')
            else
              rbind (spawn_goal h job_id (Inl (VerifyPlanBrief job_id source)) 80 [] [] ws (rj_rail_id st) (Some ScopeMinimal)) (\<lambda>arch.
              rthen (annotate arch job_id (Some [''architecture'', ''planning'', ''milestones'']) (Some ''planner'') (Some job_id) None)
              (rthen (wait_for h job_id (append_new [arch]))
              (ret (success (''verify existing WavePlan (source='' @ source @ '')'') [arch]))))))))"

section \<open>Makers\<close>

definition is_alnum :: "char \<Rightarrow> bool" where
  "is_alnum c \<longleftrightarrow> is_digit c \<or> (let n = of_char c :: nat in (65 \<le> n \<and> n \<le> 90) \<or> (97 \<le> n \<and> n \<le> 122))"

definition strip_dashes :: "string \<Rightarrow> string" where
  "strip_dashes s = rev (dropWhile (\<lambda>c. c = CHR ''-'') (rev (dropWhile (\<lambda>c. c = CHR ''-'') s)))"

definition slice_slug :: "nat \<Rightarrow> string \<Rightarrow> string" where
  "slice_slug n slice_id =
     str_or (strip_dashes (take 48 (map (\<lambda>c. if is_alnum c \<or> c = CHR ''-'' \<or> c = CHR ''_'' then c else CHR ''-'') slice_id)))
       (''slice-'' @ show_nat (n + 1))"

definition job_base :: "ident \<Rightarrow> string" where
  "job_base job_id = ''job/'' @ take 8 job_id @ ''/_base''"

definition spec_by_slice :: "rail_host \<Rightarrow> rail_job \<Rightarrow> (string, obj) dict" where
  "spec_by_slice h st =
     foldl (\<lambda>m spec. if spec_slice h spec = [] then m else dict_set (spec_slice h spec) spec m) [] (catalog_specs st)"

definition lookup_spec :: "(string, obj) dict \<Rightarrow> string \<Rightarrow> string \<Rightarrow> obj" where
  "lookup_spec specs slice_id slug =
     (case dict_get specs slice_id of
        Some (f # fs) \<Rightarrow> f # fs
      | _ \<Rightarrow> (case dict_get specs slug of Some s \<Rightarrow> s | None \<Rightarrow> []))"

definition slice_deps :: "rail_job \<Rightarrow> string list \<Rightarrow> ident list \<Rightarrow> ident list" where
  "slice_deps st deps arch_ids =
     foldl (\<lambda>ds dep. case dict_get (rj_spawned_slices st) dep of
                      Some gid \<Rightarrow> (if gid \<noteq> [] \<and> gid \<notin> set ds then ds @ [gid] else ds)
                    | None \<Rightarrow> ds) arch_ids deps"

definition spawn_maker ::
  "rail_host \<Rightarrow> ident \<Rightarrow> string option \<Rightarrow> (string, obj) dict \<Rightarrow> ident list \<Rightarrow> nat \<times> string \<Rightarrow> ident rail" where
  "spawn_maker h job_id repo specs arch_ids nslice =
     (let slice_id = snd nslice;
          slug = slice_slug (fst nslice) slice_id;
          branch = ''job/'' @ take 8 job_id @ ''/'' @ slug;
          spec = lookup_spec specs slice_id slug
      in rbind (require_job job_id) (\<lambda>st.
           (let worktree = (case repo of
                              Some r \<Rightarrow> (if rj_worktrees_enabled st \<and> rh_is_git h r
                                        then rh_worktree h r branch (path_join r (''.soothe/worktrees/'' @ slug))
                                               (if truthy (rj_job_branch st) then opt_str (rj_job_branch st) else ''HEAD'')
                                        else None)
                            | None \<Rightarrow> None);
                maker_ws = (case worktree of Some w \<Rightarrow> Some w | None \<Rightarrow> repo);
                ownership = str_or (py_strip (str_of_json (rh_render h) (json_or (dict_get spec ''description'') (JStr []))))
                              (''Implement only the '' @ quoted slug @ '' slice ownership.'');
                base = (if truthy (rj_job_branch st) then opt_str (rj_job_branch st) else job_base job_id)
            in rbind (lift_outcome (int_of_json (json_or (dict_get spec ''priority'') (JInt 75)))) (\<lambda>priority.
               rbind (lift_outcome (strs_of_json (rh_render h) (json_or (dict_get spec ''tags'') (JList [])))) (\<lambda>tags.
               rbind (lift_outcome (spec_deps h spec)) (\<lambda>deps.
               rbind (spawn_goal h job_id (Inl (SliceBrief job_id slug ownership branch base False)) priority
                        (slice_deps st deps arch_ids) [] maker_ws (rj_rail_id st) None) (\<lambda>gid.
               rthen (annotate gid job_id
                        (Some (add_tags [] ([''implementation'', ''maker'', slug, ''slice:'' @ slug] @
                           filter (\<lambda>t. t \<noteq> [] \<and> t \<notin> {''implementation'', ''maker''}) (map py_strip tags))))
                        (Some ''maker'') (Some branch) None)
               (rthen (modify_job job_id (\<lambda>s. s\<lparr>rj_spawned_slices := dict_set slice_id gid (rj_spawned_slices s)\<rparr>))
               (ret gid)))))))))"

definition prepare_branches :: "rail_host \<Rightarrow> ident \<Rightarrow> string option \<Rightarrow> rail_job \<Rightarrow> rail_job" where
  "prepare_branches h job_id repo st =
     (case repo of
        None \<Rightarrow> st
      | Some r \<Rightarrow>
          if rj_worktrees_enabled st \<and> rh_is_git h r
          then st\<lparr>rj_base_branch := (if truthy (rj_base_branch st) then rj_base_branch st else Some (rh_base_branch h r)),
                  rj_job_branch := (if truthy (rj_job_branch st) then rj_job_branch st else Some (job_base job_id))\<rparr>
          else st)"

definition max_reached :: "string \<Rightarrow> int \<Rightarrow> verb_result" where
  "max_reached what n = skipped (what @ ''='' @ show_int n @ '' reached'')"

fun source_name :: "fanout_source \<Rightarrow> string" where
  "source_name FromDecomposePlan = ''decompose_plan''"
| "source_name FromWaveSlices = ''wave_slices''"
| "source_name FromWavePlan = ''wave_plan''"
| "source_name MissingPlan = ''missing_plan''"

definition spawned_detail :: "rail_host \<Rightarrow> nat \<Rightarrow> string list \<Rightarrow> fanout_source \<Rightarrow> string" where
  "spawned_detail h n ready source =
     ''spawned '' @ show_nat n @ '' ready makers slices='' @ rh_render h (JList (map JStr ready)) @ '' source='' @ source_name source"

text \<open>The first half of \<open>_do_spawn_wave_makers\<close>: which slices get a maker now, or why none does.\<close>

definition select_slices :: "rail_host \<Rightarrow> ident \<Rightarrow> (verb_result + string list \<times> fanout_source) rail" where
  "select_slices h job_id =
     rbind (require_job job_id) (\<lambda>_.
     rbind (ingest_wave_plan h job_id) (\<lambda>_.
     rbind (modify_job job_id rebuild_spawned_slices) (\<lambda>_.
     rbind (require_job job_id) (\<lambda>st.
       if int (length (rj_spawned_slices st)) \<ge> effective_max_slices st
       then ret (Inl (max_reached ''max_slices'' (effective_max_slices st)))
       else
         (let res = resolve_fanout_slices (rh_render h) (rj_wave_slices st) (rj_decompose_plan st) None
                      (max (effective_max_slices st) (effective_engine_max_parallel_goals st)) (rj_require_plan st)
          in if fr_source res = MissingPlan \<or> fr_slices res = []
             then ret (Inl (skipped (str_or (fr_detail res) ''LLM wave plan missing; refusing rigid defaults'')))
             else
               rbind (modify_job job_id (\<lambda>s. if nonempty (rj_wave_slices s) then s else s\<lparr>rj_wave_slices := Some (fr_slices res)\<rparr>)) (\<lambda>_.
               rbind (require_job job_id) (\<lambda>st.
               rbind (\<lambda>w. lift_outcome (ready_unspawned_slice_ids h (rw_dag w) st) w) (\<lambda>all_ready.
                 (let ready = take (nat (effective_max_slices st - int (length (rj_spawned_slices st)))) all_ready
                  in ret (if ready = [] then Inl (skipped ''no ready unspawned slices'') else Inr (ready, fr_source res)))))))))))"

definition spawn_makers :: "rail_host \<Rightarrow> ident \<Rightarrow> string list \<Rightarrow> fanout_source \<Rightarrow> verb_result rail" where
  "spawn_makers h job_id ready source =
     rbind (require_job job_id) (\<lambda>st.
     rbind (asks (\<lambda>w. (annotated_completed ''architecture'' st (rw_dag w), job_workspace h (rw_dag w) job_id))) (\<lambda>(arch_ids, repo).
     rbind (modify_job job_id (prepare_branches h job_id repo)) (\<lambda>_.
     rbind (rmap (spawn_maker h job_id repo (spec_by_slice h st) arch_ids) (List.enumerate 0 ready)) (\<lambda>created.
     rbind (modify_job job_id (\<lambda>s. s\<lparr>rj_wave_index := rj_wave_index s + 1\<rparr>)) (\<lambda>_.
     rbind (wait_for h job_id (append_new created)) (\<lambda>_.
     ret (success (spawned_detail h (length created) ready source) created)))))))"

definition do_spawn_wave_makers :: "rail_host \<Rightarrow> ident \<Rightarrow> verb_result rail" where
  "do_spawn_wave_makers h job_id =
     rbind (select_slices h job_id) (\<lambda>sel.
       case sel of Inl r \<Rightarrow> ret r | Inr (ready, source) \<Rightarrow> spawn_makers h job_id ready source)"

section \<open>Retrying a maker\<close>

definition goal_tags :: "rail_job \<Rightarrow> ident \<Rightarrow> goal_node \<Rightarrow> string list" where
  "goal_tags st gid g =
     (let ann = (case dict_get (rj_annotations st) gid of None \<Rightarrow> new_annotation | Some a \<Rightarrow> a)
      in if ga_tags ann \<noteq> [] then ga_tags ann else g_rail_tags g)"

definition retry_slug :: "string list \<Rightarrow> string" where
  "retry_slug tags =
     (case filter (\<lambda>t. t \<notin> {''implementation'', ''maker'', ''replant''} \<and> \<not> starts_with t ''wave-'') tags of
        t # _ \<Rightarrow> t | [] \<Rightarrow> ''slice'')"

definition prune_goal :: "rail_host \<Rightarrow> ident \<Rightarrow> ident \<Rightarrow> goal_node \<Rightarrow> unit rail" where
  "prune_goal h job_id gid g =
     rbind (if terminal g then ret () else engine (cancel_goal (rh_now h) gid)) (\<lambda>_.
     annotate gid job_id None None None (Some ''pruned''))"

definition respawn_maker :: "rail_host \<Rightarrow> ident \<Rightarrow> ident \<Rightarrow> string \<Rightarrow> ident rail" where
  "respawn_maker h job_id tid slug =
     (let branch = ''job/'' @ take 8 job_id @ ''/'' @ slug @ ''-retry''
      in rbind (require_job job_id) (\<lambda>st1.
         rbind (asks (\<lambda>w. (annotated_completed ''architecture'' st1 (rw_dag w), job_workspace h (rw_dag w) job_id))) (\<lambda>(arch_ids, repo).
         rbind (modify_job job_id (\<lambda>s. prepare_branches h job_id repo
                  (if truthy (rj_job_branch s) then s else s\<lparr>rj_job_branch := Some (job_base job_id)\<rparr>))) (\<lambda>_.
         rbind (require_job job_id) (\<lambda>st.
           (let base = opt_str (rj_job_branch st);
                worktree = (case repo of
                    Some r \<Rightarrow> (if rj_worktrees_enabled st \<and> rh_is_git h r
                              then rh_worktree h r branch (path_join r (''.soothe/worktrees/'' @ slug @ ''-retry'')) base
                              else None)
                  | None \<Rightarrow> None)
            in rbind (spawn_goal h job_id
                       (Inl (SliceBrief job_id slug (''Implement only the '' @ quoted slug @ '' slice ownership.'') branch base True))
                       75 arch_ids [tid] (case worktree of Some w \<Rightarrow> Some w | None \<Rightarrow> repo) (rj_rail_id st) None) (\<lambda>gid.
               rbind (modify_job job_id (\<lambda>s. s\<lparr>rj_spawned_slices := dict_set slug gid (rj_spawned_slices s)\<rparr>)) (\<lambda>_.
               rbind (annotate gid job_id (Some [''implementation'', ''maker'', slug, ''slice:'' @ slug, ''replant''])
                        (Some ''maker'') (Some branch) None) (\<lambda>_.
               ret gid)))))))))"

definition do_retry_maker :: "rail_host \<Rightarrow> ident \<Rightarrow> ident option \<Rightarrow> verb_result rail" where
  "do_retry_maker h job_id trigger =
     (if \<not> truthy trigger then ret (skipped ''no trigger maker'')
      else
        rbind (require_job job_id) (\<lambda>st.
        rbind (lookup_goal (opt_str trigger)) (\<lambda>found.
          case found of
            None \<Rightarrow> ret (failed_verb ''trigger maker missing'')
          | Some failed \<Rightarrow>
              (let tags = goal_tags st (opt_str trigger) failed; slug = retry_slug tags
               in if ''maker'' \<notin> set tags \<and> ''implementation'' \<notin> set tags then ret (skipped ''trigger is not a maker'')
                  else
                    rbind (prune_goal h job_id (opt_str trigger) failed) (\<lambda>_.
                    rbind (respawn_maker h job_id (opt_str trigger) slug) (\<lambda>gid.
                    rbind (wait_for h job_id (\<lambda>deps. append_new [gid] (filter (\<lambda>d. d \<noteq> opt_str trigger) deps))) (\<lambda>_.
                    ret (success (''retried maker '' @ slug @ '' -> '' @ gid) [gid]))))))))"

end
