(* ===== verification/Rail_Verbs.thy ===== *)
theory Rail_Verbs
  imports Rail_Builtins
begin

text \<open>
  The verbs of LoopRail that check, review, repair, merge and finish (\<open>rails/builtins_exec.py\<close>), with the human
  gate of \<open>rails/pause_clarify.py\<close>. The policy behind the gate and git are functions of \<open>rail_host\<close>; removing and
  refreshing work trees is left out. The callback after a gate that lets the job proceed only sends the event
  \<open>user_intervention\<close> to the interpreter: the job is added to \<open>rw_notified\<close>, and handling the event is another run. An arrow in a detail is written \<open>->\<close>.
\<close>

section \<open>Acceptance\<close>

definition json_field :: "json option \<Rightarrow> string \<Rightarrow> json option" where
  "json_field j k = (case j of Some (JObj o') \<Rightarrow> dict_get o' k | _ \<Rightarrow> None)"

definition json_truthy :: "json option \<Rightarrow> bool" where
  "json_truthy j \<longleftrightarrow> (case j of None \<Rightarrow> False | Some v \<Rightarrow> json_true v)"

text \<open>\<open>"; ".join(str(b) for b in maturity["blockers"][:5])\<close>: only a list or a string can be sliced.\<close>

definition blockers_text :: "rail_host \<Rightarrow> json \<Rightarrow> string outcome" where
  "blockers_text h j =
     (case j of
        JList bs \<Rightarrow> Inr (py_join ''; '' (map (str_of_json (rh_render h)) (take 5 bs)))
      | JStr s \<Rightarrow> Inr (py_join ''; '' (map (\<lambda>c. [c]) (take 5 s)))
      | _ \<Rightarrow> Inl (TypeError ''object is not subscriptable''))"

definition default_contract :: string where
  "default_contract =
     ''Verify the job acceptance contract: deliverables and success criteria in the job GOAL.md / verification_rules (or the job description) must be satisfied for this workspace domain.''"

definition clip_text :: "nat \<Rightarrow> string \<Rightarrow> string" where
  "clip_text n s = (if length s > n then take (n - 3) s @ ''...'' else s)"

definition acceptance_brief :: "rail_host \<Rightarrow> goal_node option \<Rightarrow> string outcome" where
  "acceptance_brief h jg =
     (let rules = (case jg of None \<Rightarrow> None | Some g \<Rightarrow> g_verification_rules g);
          maturity = (case jg of None \<Rightarrow> None | Some g \<Rightarrow> g_maturity g);
          part1 = (if py_strip (opt_str rules) \<noteq> [] then [''verification_rules: '' @ take 25000 (py_strip (opt_str rules))] else []);
          finish = (\<lambda>parts. if parts = [] then default_contract else clip_text 25000 (py_join [CHR 0x0A, CHR 0x0A] parts))
      in case json_field maturity ''blockers'' of
           Some b \<Rightarrow> (if json_true b
                     then map_sum id (\<lambda>t. finish (part1 @ [''Current maturity blockers: '' @ t])) (blockers_text h b)
                     else Inr (finish part1))
         | None \<Rightarrow> Inr (finish part1))"

definition acceptance_latched :: "rail_job \<Rightarrow> goal_node option \<Rightarrow> bool" where
  "acceptance_latched st jg \<longleftrightarrow>
     rj_acceptance_met st \<or> json_truthy (json_field (case jg of None \<Rightarrow> None | Some g \<Rightarrow> g_maturity g) ''acceptance_met'')"

section \<open>Checking goals\<close>

text \<open>The goal of a verb and its annotation, in one step.\<close>

definition spawn_annotated ::
  "rail_host \<Rightarrow> ident \<Rightarrow> brief + string \<Rightarrow> int \<Rightarrow> ident list \<Rightarrow> string option \<Rightarrow> string list \<Rightarrow> string \<Rightarrow> string \<Rightarrow> ident rail" where
  "spawn_annotated h job_id b priority deps ws tags role branch =
     rbind (require_job job_id) (\<lambda>st.
     rbind (spawn_goal h job_id b priority deps [] ws (rj_rail_id st) None) (\<lambda>gid.
     rthen (annotate gid job_id (Some tags) (Some role) (Some branch) None) (ret gid)))"

definition trigger_deps :: "ident option \<Rightarrow> ident list" where
  "trigger_deps trigger = (if truthy trigger then [opt_str trigger] else [])"

definition job_branch_or_base :: "rail_job \<Rightarrow> ident \<Rightarrow> string" where
  "job_branch_or_base st job_id = (if truthy (rj_job_branch st) then opt_str (rj_job_branch st) else job_base job_id)"

definition integrable_makers :: "rail_job \<Rightarrow> goal_dag \<Rightarrow> ident list" where
  "integrable_makers st d =
     map fst (filter (\<lambda>(gid, a). ''implementation'' \<in> set (ga_tags a) \<and> ''feedback'' \<notin> set (ga_tags a) \<and>
                ga_branch_status a \<noteq> ''pruned'' \<and>
                (case get_goal d gid of None \<Rightarrow> False | Some g \<Rightarrow> g_status g = GCompleted)) (rj_annotations st))"

definition do_spawn_integrate :: "rail_host \<Rightarrow> ident \<Rightarrow> ident option \<Rightarrow> verb_result rail" where
  "do_spawn_integrate h job_id trigger =
     rbind (require_job job_id) (\<lambda>st.
     rbind (asks (\<lambda>w. (integrable_makers st (rw_dag w), job_workspace h (rw_dag w) job_id))) (\<lambda>(makers, ws).
     rbind (spawn_annotated h job_id (Inl (IntegrateBrief job_id (job_branch_or_base st job_id))) 78
              (if makers \<noteq> [] then makers else trigger_deps trigger) ws [''integrate''] ''integrator'' (job_branch_or_base st job_id)) (\<lambda>gid.
     ret (success (''spawned integrate goal -> '' @ job_branch_or_base st job_id) [gid]))))"

definition do_commit_milestone :: "rail_host \<Rightarrow> ident \<Rightarrow> ident option \<Rightarrow> verb_result rail" where
  "do_commit_milestone h job_id trigger =
     rbind (require_job job_id) (\<lambda>st.
     rbind (asks (\<lambda>w. (annotated_completed ''integrate'' st (rw_dag w), job_workspace h (rw_dag w) job_id))) (\<lambda>(integrates, ws).
     rbind (spawn_annotated h job_id (Inl (CommitBrief job_id (job_branch_or_base st job_id))) 79
              (if integrates \<noteq> [] then integrates else trigger_deps trigger) ws [''commit'', ''milestone''] ''committer''
              (job_branch_or_base st job_id)) (\<lambda>gid.
     ret (success (''spawned commit milestone on '' @ job_branch_or_base st job_id) [gid]))))"

definition do_review :: "rail_host \<Rightarrow> ident \<Rightarrow> ident option \<Rightarrow> verb_result rail" where
  "do_review h job_id trigger =
     rbind (require_job job_id) (\<lambda>st.
     rbind (asks (\<lambda>w. (annotated_completed ''commit'' st (rw_dag w), job_workspace h (rw_dag w) job_id))) (\<lambda>(commits, ws).
       case verb_brief h st ''review'' job_id (ReviewBrief job_id) of
         None \<Rightarrow> ret (failed_verb ''review brief missing'')
       | Some b \<Rightarrow>
           rbind (spawn_annotated h job_id b 80 (if commits \<noteq> [] then [last commits] else trigger_deps trigger) ws
                    [''review''] ''checker'' job_id) (\<lambda>gid.
           ret (success ''spawned review'' [gid]))))"

definition do_qa_verify :: "rail_host \<Rightarrow> ident \<Rightarrow> ident option \<Rightarrow> verb_result rail" where
  "do_qa_verify h job_id trigger =
     rbind (require_job job_id) (\<lambda>st.
     rbind (asks (\<lambda>w. (get_goal (rw_dag w) job_id, job_workspace h (rw_dag w) job_id))) (\<lambda>(jg, ws).
     rbind (lift_outcome (acceptance_brief h jg)) (\<lambda>contract.
     rbind (spawn_annotated h job_id (Inl (QaBrief job_id contract)) 85 (trigger_deps trigger) ws [''qa''] ''qa'' job_id) (\<lambda>gid.
     ret (success ''spawned qa'' [gid])))))"

section \<open>The feedback cycle\<close>

definition feedback_inflight :: "rail_job \<Rightarrow> goal_dag \<Rightarrow> ident option" where
  "feedback_inflight st d =
     (case filter (\<lambda>(gid, a). ''feedback'' \<in> set (ga_tags a) \<and>
              (case get_goal d gid of None \<Rightarrow> False | Some g \<Rightarrow> \<not> terminal g)) (rj_annotations st) of
        [] \<Rightarrow> None | (gid, _) # _ \<Rightarrow> Some gid)"

definition feedback_tag :: "int \<Rightarrow> string" where
  "feedback_tag n = ''feedback-'' @ show_int n"

definition feedback_round_goals :: "rail_host \<Rightarrow> ident \<Rightarrow> ident option \<Rightarrow> int \<Rightarrow> verb_result rail" where
  "feedback_round_goals h job_id trigger n =
     rbind (asks (\<lambda>w. (get_goal (rw_dag w) job_id, job_workspace h (rw_dag w) job_id))) (\<lambda>(jg, ws).
     rbind (lift_outcome (acceptance_brief h jg)) (\<lambda>contract.
     rbind (spawn_annotated h job_id (Inl (DiagnoseBrief job_id n contract)) 82
              (if truthy trigger \<and> opt_str trigger \<noteq> job_id then [opt_str trigger] else []) ws
              [''feedback'', ''diagnose'', feedback_tag n] ''diagnoser'' job_id) (\<lambda>diagnose.
     rbind (spawn_annotated h job_id (Inl (OptimizeBrief job_id n)) 78 [diagnose] ws
              [''feedback'', ''optimize'', ''implementation'', feedback_tag n] ''maker'' job_id) (\<lambda>optimize.
     rbind (spawn_annotated h job_id (Inl (FeedbackVerifyBrief job_id n contract)) 85 [optimize] ws
              [''feedback'', ''verify'', ''qa'', feedback_tag n] ''qa'' job_id) (\<lambda>verify.
     ret (success (''spawned feedback cycle round '' @ show_int n) [diagnose, optimize, verify]))))))"

definition do_spawn_feedback_cycle :: "rail_host \<Rightarrow> ident \<Rightarrow> ident option \<Rightarrow> verb_result rail" where
  "do_spawn_feedback_cycle h job_id trigger =
     rbind (require_job job_id) (\<lambda>st.
     if rj_feedback_round st \<ge> rj_max_feedback_rounds st then ret (max_reached ''max_feedback_rounds'' (rj_max_feedback_rounds st))
     else
       rbind (lookup_goal job_id) (\<lambda>jg.
       if acceptance_latched st jg then ret (skipped ''acceptance already met'')
       else
         rbind (asks (\<lambda>w. feedback_inflight st (rw_dag w))) (\<lambda>inflight.
           case inflight of
             Some gid \<Rightarrow> ret (skipped (''feedback inflight: '' @ gid))
           | None \<Rightarrow>
               rthen (modify_job job_id (\<lambda>s. s\<lparr>rj_feedback_round := rj_feedback_round s + 1\<rparr>))
               (feedback_round_goals h job_id trigger (rj_feedback_round st + 1)))))"

section \<open>Replacing goals\<close>

definition retry_branch_one :: "rail_host \<Rightarrow> ident \<Rightarrow> ident \<Rightarrow> (ident list \<times> ident list) rail" where
  "retry_branch_one h job_id gid =
     rbind (lookup_goal gid) (\<lambda>found.
       case found of
         None \<Rightarrow> ret ([], [])
       | Some g \<Rightarrow>
           if gid = job_id \<or> g_parent_id g \<noteq> Some job_id then ret ([], [])
           else rthen (prune_goal h job_id gid g)
                  (ret (if g_status g = GCompleted then ([gid], []) else if terminal g then ([], []) else ([], [gid]))))"

definition do_retry_branch :: "rail_host \<Rightarrow> ident \<Rightarrow> verb_result rail" where
  "do_retry_branch h job_id =
     rbind (require_job job_id) (\<lambda>st.
     rbind (asks (\<lambda>w. map g_id (list_goals None (rw_dag w)))) (\<lambda>ids.
     rbind (rmap (retry_branch_one h job_id) ids) (\<lambda>rs.
       (let salvaged = concat (map fst rs); pruned = concat (map snd rs)
        in rbind (spawn_goal h job_id (Inl (ReplantBrief job_id)) 70 [] salvaged None (rj_rail_id st) None) (\<lambda>gid.
           rthen (annotate gid job_id (Some [''implementation'', ''replant'']) (Some ''maker'') (Some gid) None)
           (ret (success (''pruned='' @ show_nat (length pruned) @ '' salvaged='' @ show_nat (length salvaged)) [gid])))))))"

section \<open>Merging\<close>

definition unmerged_maker_ids :: "goal_dag \<Rightarrow> rail_job option \<Rightarrow> ident list" where
  "unmerged_maker_ids d st =
     (case st of
        None \<Rightarrow> []
      | Some s \<Rightarrow>
          sort_key (\<lambda>gid. (case get_goal d gid of None \<Rightarrow> 0 | Some g \<Rightarrow> g_created_at g, gid))
            (map fst (filter (\<lambda>(gid, a). ''implementation'' \<in> set (ga_tags a) \<and> ''feedback'' \<notin> set (ga_tags a) \<and>
                ''resolve'' \<notin> set (ga_tags a) \<and> ga_branch_status a \<in> {''active'', ''conflict''} \<and>
                (case get_goal d gid of None \<Rightarrow> False | Some g \<Rightarrow> g_status g = GCompleted)) (rj_annotations s))))"

definition resolves :: "goal_dag \<Rightarrow> rail_job \<Rightarrow> ident \<Rightarrow> ident \<times> goal_annotation \<Rightarrow> bool" where
  "resolves d st maker_id entry \<longleftrightarrow>
     (let gid = fst entry; a = snd entry
      in ''resolve'' \<in> set (ga_tags a) \<and> ''merge'' \<in> set (ga_tags a) \<and>
         (case get_goal d gid of
            None \<Rightarrow> False
          | Some g \<Rightarrow> g_status g \<in> {GPending, GActive} \<and>
              (maker_id \<in> set (g_depends_on g) \<or> maker_id \<in> set (g_informs g) \<or>
               (truthy (ga_branch_id a) \<and>
                (case dict_get (rj_annotations st) maker_id of
                   None \<Rightarrow> False | Some m \<Rightarrow> truthy (ga_branch_id m) \<and> ga_branch_id a = ga_branch_id m)))))"

definition resolve_inflight_for_maker :: "goal_dag \<Rightarrow> rail_job option \<Rightarrow> ident \<Rightarrow> ident option" where
  "resolve_inflight_for_maker d st maker_id =
     (case st of
        None \<Rightarrow> None
      | Some s \<Rightarrow> (case filter (resolves d s maker_id) (rj_annotations s) of [] \<Rightarrow> None | (gid, _) # _ \<Rightarrow> Some gid))"

definition maker_id_for_resolve_trigger :: "goal_dag \<Rightarrow> rail_job \<Rightarrow> ident \<Rightarrow> ident option" where
  "maker_id_for_resolve_trigger d st trigger =
     (case dict_get (rj_annotations st) trigger of
        None \<Rightarrow> None
      | Some ann \<Rightarrow>
          if ''resolve'' \<notin> set (ga_tags ann) \<or> ''merge'' \<notin> set (ga_tags ann) then None
          else (case get_goal d trigger of
                  None \<Rightarrow> None
                | Some g \<Rightarrow>
                    (case filter (\<lambda>dep. case dict_get (rj_annotations st) dep of
                                        None \<Rightarrow> False
                                      | Some a \<Rightarrow> ''implementation'' \<in> set (ga_tags a) \<and> ''resolve'' \<notin> set (ga_tags a)) (g_depends_on g) of
                       dep # _ \<Rightarrow> Some dep
                     | [] \<Rightarrow>
                         if \<not> truthy (ga_branch_id ann) then None
                         else (case filter (\<lambda>(gid, a). ga_branch_id a = ga_branch_id ann \<and> ''implementation'' \<in> set (ga_tags a) \<and>
                                      ''resolve'' \<notin> set (ga_tags a) \<and> ga_branch_status a \<in> {''active'', ''conflict''}) (rj_annotations st) of
                                 (gid, _) # _ \<Rightarrow> Some gid | [] \<Rightarrow> None))))"

definition spawn_merge_resolve_goal ::
  "rail_host \<Rightarrow> ident \<Rightarrow> ident \<Rightarrow> string \<Rightarrow> string \<Rightarrow> string option \<Rightarrow> ident rail" where
  "spawn_merge_resolve_goal h job_id maker_id branch detail workspace =
     rbind (require_job job_id) (\<lambda>st.
     rbind (asks (\<lambda>w. resolve_inflight_for_maker (rw_dag w) (Some st) maker_id)) (\<lambda>existing.
       case existing of
         Some gid \<Rightarrow> ret gid
       | None \<Rightarrow>
           rbind (spawn_goal h job_id (Inl (ResolveBrief job_id branch (job_branch_or_base st job_id) (take 400 detail) workspace))
                    85 [maker_id] [] workspace (rj_rail_id st) None) (\<lambda>gid.
           rthen (annotate gid job_id (Some [''resolve'', ''merge'', ''implementation'']) (Some ''resolver'') (Some branch) (Some ''conflict''))
           (rthen (annotate maker_id job_id None None None (Some ''conflict''))
           (rthen (wait_for h job_id (append_new [gid]))
           (ret gid))))))"

text \<open>Which maker a \<open>merge_branches\<close> is about: the maker of a finished resolve goal, else the trigger itself, else the
  oldest unmerged maker that nobody is resolving.\<close>

definition mergeable_trigger :: "goal_dag \<Rightarrow> rail_job \<Rightarrow> ident \<Rightarrow> bool" where
  "mergeable_trigger d st t \<longleftrightarrow>
     (case dict_get (rj_annotations st) t of
        None \<Rightarrow> False
      | Some a \<Rightarrow> ''implementation'' \<in> set (ga_tags a) \<and> ''resolve'' \<notin> set (ga_tags a) \<and> ''feedback'' \<notin> set (ga_tags a) \<and>
          ga_branch_status a \<notin> {''merged'', ''pruned''}) \<and>
     (case get_goal d t of None \<Rightarrow> False | Some g \<Rightarrow> g_status g = GCompleted)"

definition merge_candidate :: "goal_dag \<Rightarrow> rail_job \<Rightarrow> ident option \<Rightarrow> ident option" where
  "merge_candidate d st trigger =
     (let from_trigger =
        (if \<not> truthy trigger then None
         else (case maker_id_for_resolve_trigger d st (opt_str trigger) of
                 Some m \<Rightarrow> Some m
               | None \<Rightarrow> if mergeable_trigger d st (opt_str trigger) then trigger else None))
      in case from_trigger of
           Some m \<Rightarrow> Some m
         | None \<Rightarrow>
             (case filter (\<lambda>m. resolve_inflight_for_maker d (Some st) m = None) (unmerged_maker_ids d (Some st)) of
                m # _ \<Rightarrow> Some m | [] \<Rightarrow> None))"

datatype merge_target = NoTarget verb_result | Target ident goal_annotation goal_node

definition merge_target :: "goal_dag \<Rightarrow> rail_job \<Rightarrow> ident option \<Rightarrow> merge_target" where
  "merge_target d st trigger =
     (case merge_candidate d st trigger of
        None \<Rightarrow> NoTarget (skipped ''no unmerged maker ready (resolve inflight or none)'')
      | Some m \<Rightarrow>
          (case dict_get (rj_annotations st) m of
             None \<Rightarrow> NoTarget (skipped ''trigger is not an implementation maker'')
           | Some a \<Rightarrow>
               if ''implementation'' \<notin> set (ga_tags a) then NoTarget (skipped ''trigger is not an implementation maker'')
               else if ga_branch_status a \<in> {''merged'', ''pruned''} then NoTarget (skipped (''already '' @ ga_branch_status a))
               else (case get_goal d m of
                       None \<Rightarrow> NoTarget (skipped ''maker not completed'')
                     | Some g \<Rightarrow>
                         if g_status g \<noteq> GCompleted then NoTarget (skipped ''maker not completed'')
                         else (case resolve_inflight_for_maker d (Some st) m of
                                 Some r \<Rightarrow> NoTarget ((skipped (''resolve inflight for maker: '' @ take 8 r))\<lparr>vr_created := [r]\<rparr>)
                               | None \<Rightarrow> Target m a g))))"

definition finish_merge :: "rail_host \<Rightarrow> (ident \<Rightarrow> verb_result rail) \<Rightarrow> ident \<Rightarrow> ident \<Rightarrow> string option \<Rightarrow> string \<Rightarrow> verb_result rail" where
  "finish_merge h spawn_next job_id maker_id repo detail =
     rthen (annotate maker_id job_id None None None (Some ''merged''))
     (rbind (require_job job_id) (\<lambda>st.
      rbind (spawn_annotated h job_id
               (Inl (MergedReviewBrief maker_id (if truthy (rj_job_branch st) then opt_str (rj_job_branch st) else ''job branch'')))
               80 [maker_id] repo [''review''] ''reviewer''
               (if truthy (rj_job_branch st) then opt_str (rj_job_branch st) else job_id)) (\<lambda>review.
      rbind (spawn_next maker_id) (\<lambda>more.
      rthen (wait_for h job_id (append_new (review # vr_created more)))
      (ret (success (detail @ ''; spawn='' @ vr_detail more) (review # vr_created more)))))))"

text \<open>\<open>spawn_next\<close> is the call of \<open>spawn_wave_makers\<close> that lets the merge grow the DAG.\<close>

definition do_merge_branches :: "rail_host \<Rightarrow> (ident \<Rightarrow> verb_result rail) \<Rightarrow> ident \<Rightarrow> ident option \<Rightarrow> verb_result rail" where
  "do_merge_branches h spawn_next job_id trigger =
     rbind (require_job job_id) (\<lambda>st.
     rbind (asks (\<lambda>w. (merge_target (rw_dag w) st trigger, job_workspace h (rw_dag w) job_id))) (\<lambda>(target, repo).
       case target of
         NoTarget r \<Rightarrow> ret r
       | Target maker_id ann maker \<Rightarrow>
           (case repo of
              Some r \<Rightarrow>
                if rj_worktrees_enabled st \<and> rh_is_git h r \<and> truthy (ga_branch_id ann)
                then
                  rbind (modify_job job_id (prepare_branches h job_id repo)) (\<lambda>_.
                  rbind (require_job job_id) (\<lambda>st.
                    (case rh_merge h r (opt_str (rj_job_branch st)) (opt_str (ga_branch_id ann)) of
                       (True, detail) \<Rightarrow> finish_merge h spawn_next job_id maker_id repo detail
                     | (False, detail) \<Rightarrow>
                         rbind (spawn_merge_resolve_goal h job_id maker_id (opt_str (ga_branch_id ann))
                                  (str_or detail ''host merge failed'')
                                  (Some (if truthy (g_workspace maker) then opt_str (g_workspace maker) else r))) (\<lambda>gid.
                         ret (success detail [gid])))))
                else finish_merge h spawn_next job_id maker_id repo ''annotated merged (git worktrees disabled or unavailable)''
            | None \<Rightarrow> finish_merge h spawn_next job_id maker_id repo ''annotated merged (git worktrees disabled or unavailable)'')))"

section \<open>Finishing\<close>

definition do_land_job_branch :: "rail_host \<Rightarrow> ident \<Rightarrow> verb_result rail" where
  "do_land_job_branch h job_id =
     rbind (require_job job_id) (\<lambda>st.
     rbind (asks (\<lambda>w. job_workspace h (rw_dag w) job_id)) (\<lambda>repo.
       case repo of
         None \<Rightarrow> ret (skipped ''land skipped (no git repo or job_branch)'')
       | Some r \<Rightarrow>
           if \<not> rh_is_git h r \<or> \<not> truthy (rj_job_branch st) then ret (skipped ''land skipped (no git repo or job_branch)'')
           else
             rbind (modify_job job_id (\<lambda>s. if truthy (rj_base_branch s) then s else s\<lparr>rj_base_branch := Some (rh_base_branch h r)\<rparr>)) (\<lambda>_.
             rbind (require_job job_id) (\<lambda>st.
               (case rh_land h r (opt_str (rj_job_branch st)) (opt_str (rj_base_branch st)) of
                  (ok, conflict, detail) \<Rightarrow>
                    if conflict
                    then rbind (spawn_goal h job_id (Inl (LandBrief job_id (opt_str (rj_job_branch st)) (opt_str (rj_base_branch st))))
                                  90 [] [] (Some r) (rj_rail_id st) None) (\<lambda>gid.
                         rthen (annotate gid job_id (Some [''resolve'', ''land'']) (Some ''resolver'') (rj_job_branch st) (Some ''conflict''))
                         (ret (success detail [gid])))
                    else if \<not> ok then ret (failed_verb detail) else ret (success detail []))))))"

fun status_name :: "verb_status \<Rightarrow> string" where
  "status_name VSuccess = ''success''"
| "status_name VSkipped = ''skipped''"
| "status_name VError = ''error''"

definition do_complete_job :: "rail_host \<Rightarrow> ident \<Rightarrow> verb_result rail" where
  "do_complete_job h job_id =
     rbind (require_job job_id) (\<lambda>_.
     rbind (do_land_job_branch h job_id) (\<lambda>land.
       if vr_status land = VError then ret land
       else if vr_created land \<noteq> [] then ret (success (''land blocked on resolve: '' @ vr_detail land) (vr_created land))
       else
         rbind (lookup_goal job_id) (\<lambda>jg.
           case jg of
             None \<Rightarrow> ret (failed_verb ''job root missing'')
           | Some g \<Rightarrow>
               rthen (if terminal g then ret () else engine (complete_goal (rh_now h) job_id))
               (rthen (modify_job job_id (\<lambda>s. s\<lparr>rj_completed := True, rj_suspended := False\<rparr>))
               (ret (success (''job completed; land='' @ str_or (vr_detail land) (status_name (vr_status land))) []))))))"

section \<open>The human gate\<close>

datatype gate_outcome = GateProceed | GateDeny | GateDefer

fun gate_name :: "gate_outcome \<Rightarrow> string" where
  "gate_name GateProceed = ''proceed''"
| "gate_name GateDeny = ''deny''"
| "gate_name GateDefer = ''defer''"

record gate_decision =
  gd_outcome :: gate_outcome
  gd_confidence :: json
  gd_rationale :: string
  gd_answers :: "string list"
  gd_source :: string

definition strip_chars :: "char list \<Rightarrow> string \<Rightarrow> string" where
  "strip_chars cs s = rev (dropWhile (\<lambda>c. c \<in> set cs) (rev (dropWhile (\<lambda>c. c \<in> set cs) s)))"

definition parse_gate_answer_token :: "string list \<Rightarrow> gate_outcome" where
  "parse_gate_answer_token answers =
     (case answers of
        [] \<Rightarrow> GateDefer
      | a # _ \<Rightarrow>
          (let raw = py_lower (py_strip a);
               token = strip_chars [CHR '' '', CHR ''.'', CHR 0x22, CHR 0x27, CHR 0x60]
                         (takeWhile (\<lambda>c. \<not> is_space c \<and> c \<notin> set '',:;'') raw)
           in if token \<in> {''proceed'', ''yes'', ''continue'', ''approve''} then GateProceed
              else if token \<in> {''pause'', ''no'', ''deny'', ''suspend'', ''reject''} then GateDeny
              else GateDefer))"

definition deferred_gate :: "string \<Rightarrow> string \<Rightarrow> gate_decision" where
  "deferred_gate rationale source =
     \<lparr>gd_outcome = GateDefer, gd_confidence = JNull, gd_rationale = rationale, gd_answers = [], gd_source = source\<rparr>"

definition decide_gate :: "gate_answer \<Rightarrow> gate_decision" where
  "decide_gate answer =
     (case answer of
        GateDeferred reason \<Rightarrow> deferred_gate (take 500 reason) ''veritas_defer''
      | GateFailed message \<Rightarrow> deferred_gate (take 500 (''veritas_error:'' @ message)) ''error''
      | GateAnswered defer_flag confidence rationale answers source \<Rightarrow>
          \<lparr>gd_outcome = (if defer_flag then GateDefer else parse_gate_answer_token answers), gd_confidence = confidence,
           gd_rationale = take 500 (if defer_flag then str_or rationale ''deferred'' else rationale),
           gd_answers = answers, gd_source = source\<rparr>)"

definition decision_to_audit :: "gate_decision \<Rightarrow> obj" where
  "decision_to_audit dec =
     [(''outcome'', JStr (gate_name (gd_outcome dec))), (''confidence'', gd_confidence dec), (''rationale'', JStr (gd_rationale dec)),
      (''answers'', JList (map JStr (gd_answers dec))), (''source'', JStr (gd_source dec))]"

text \<open>\<open>annotation\<close> creates an empty annotation when the trigger has none.\<close>

definition resolve_pause_clarify :: "rail_host \<Rightarrow> bool \<Rightarrow> ident \<Rightarrow> ident option \<Rightarrow> gate_decision rail" where
  "resolve_pause_clarify h auto_clarify job_id trigger =
     (if \<not> auto_clarify then ret (deferred_gate ''rail_pause_auto_clarify_disabled'' ''config'')
      else
        rbind (lookup_goal job_id) (\<lambda>job.
          case job of
            None \<Rightarrow> ret (deferred_gate ''job_root_missing'' ''error'')
          | Some job \<Rightarrow>
              rbind (asks (\<lambda>w. if truthy trigger then get_goal (rw_dag w) (opt_str trigger) else None)) (\<lambda>goal.
              rthen (if truthy trigger
                     then modify_job job_id (\<lambda>s. s\<lparr>rj_annotations := set_default (opt_str trigger) new_annotation (rj_annotations s)\<rparr>)
                     else ret ())
              (rbind (asks (\<lambda>w. case dict_get (rw_jobs w) job_id of
                                 Some s \<Rightarrow> (if truthy trigger then dict_get (rj_annotations s) (opt_str trigger) else None)
                               | None \<Rightarrow> None)) (\<lambda>ann.
                 let tags = (case ann of Some a \<Rightarrow> ga_tags a | None \<Rightarrow> (case goal of None \<Rightarrow> [] | Some g \<Rightarrow> g_rail_tags g))
                 in (case rh_clarify h of
                       None \<Rightarrow> ret (deferred_gate ''soothe_config_unavailable'' ''config'')
                     | Some policy \<Rightarrow>
                         rbind (lift_outcome (policy job goal (if tags = [] then (case goal of None \<Rightarrow> [] | Some g \<Rightarrow> g_rail_tags g) else tags)))
                           (\<lambda>answer. ret (decide_gate answer))))))))"

definition do_pause_for_user :: "rail_host \<Rightarrow> bool \<Rightarrow> ident \<Rightarrow> ident option \<Rightarrow> verb_result rail" where
  "do_pause_for_user h auto_clarify job_id trigger =
     rbind (require_job job_id) (\<lambda>_.
     rbind (resolve_pause_clarify h auto_clarify job_id trigger) (\<lambda>dec.
     rthen (modify_job job_id (\<lambda>s. s\<lparr>rj_last_pause_clarify := Some (decision_to_audit dec)\<rparr>))
     (if gd_outcome dec = GateProceed
      then rthen (modify_job job_id (\<lambda>s. s\<lparr>rj_suspended := False\<rparr>))
           (rthen (\<lambda>w. (Inr (), w\<lparr>rw_notified := rw_notified w @ [job_id]\<rparr>))
           (ret (success ''veritas_auto_proceed'' [])))
      else
        rthen (modify_job job_id (\<lambda>s. s\<lparr>rj_suspended := True\<rparr>))
        (rthen (if truthy trigger then annotate (opt_str trigger) job_id None None None (Some ''suspended'') else ret ())
        (rbind (lookup_goal job_id) (\<lambda>jg.
         rthen (case jg of
                  None \<Rightarrow> ret ()
                | Some g \<Rightarrow> if terminal g then ret () else engine (suspend_goal (rh_now h) job_id ''rail:pause_for_user''))
         (ret (success (''job suspended for user ('' @ gate_name (gd_outcome dec) @ '')'') []))))))))"

end
