(* ===== verification/Rail_Recipe.thy ===== *)
theory Rail_Recipe
  imports Rail_Verbs
begin

text \<open>
  Recipes (\<open>rails/recipe_exec.py\<close>): the \<open>do:\<close> lists a rail may give instead of a verb of the host, the native
  synthesis of \<open>rails/autoresearch_exec.py\<close>, and \<open>invoke\<close> of \<open>rails/builtins_exec.py\<close>, which picks one of them for
  a verb and turns every exception into an error result.
\<close>

section \<open>Exceptions as results\<close>

fun exn_name :: "exn \<Rightarrow> string" where
  "exn_name (ValueError _) = ''ValueError''"
| "exn_name (KeyError _) = ''KeyError''"
| "exn_name (InvalidGoalTransitionError _) = ''InvalidGoalTransitionError''"
| "exn_name (RuntimeError _) = ''RuntimeError''"
| "exn_name (TypeError _) = ''TypeError''"
| "exn_name (AttributeError _) = ''AttributeError''"

definition catch :: "string \<Rightarrow> verb_result rail \<Rightarrow> verb_result rail" where
  "catch what m w =
     (case m w of
        (Inl e, w') \<Rightarrow> (Inr (failed_verb (exn_name e @ '': '' @ what @ '' failed'')), w')
      | (Inr r, w') \<Rightarrow> (Inr r, w'))"

section \<open>Text and references of a recipe\<close>

record recipe_ctx =
  rc_job :: ident
  rc_trigger :: "ident option"
  rc_steps :: "(string, ident) dict"
  rc_created :: "ident list"
  rc_skipped :: "string option"

definition replace_key :: "string \<Rightarrow> string \<Rightarrow> string \<Rightarrow> string" where
  "replace_key key val text0 =
     py_replace (''$'' @ key) val (py_replace (''${'' @ key @ ''}'') val (py_replace (''{'' @ key @ ''}'') val text0))"

definition interpolate_recipe_text :: "rail_job \<Rightarrow> ident \<Rightarrow> string \<Rightarrow> string" where
  "interpolate_recipe_text st job_id template =
     replace_key ''job_id'' job_id
       (replace_key ''wave_index'' (show_int (rj_wave_index st))
         (replace_key ''feedback_round'' (show_int (rj_feedback_round st)) (interpolate_brief template job_id)))"

definition resolve_ref :: "recipe_ctx \<Rightarrow> string \<Rightarrow> ident option" where
  "resolve_ref ctx ref =
     (let name = py_strip ref
      in if name = [] then None
         else if name = ''trigger'' then rc_trigger ctx
         else if name = ''self'' then (if rc_created ctx = [] then None else Some (last (rc_created ctx)))
         else (case dict_get (rc_steps ctx) name of Some gid \<Rightarrow> Some gid | None \<Rightarrow> Some name))"

definition resolve_ref_list :: "rail_host \<Rightarrow> recipe_ctx \<Rightarrow> json option \<Rightarrow> ident list" where
  "resolve_ref_list h ctx refs =
     (let names = (case refs of
                     Some (JStr s) \<Rightarrow> [s]
                   | Some (JList xs) \<Rightarrow> map (str_of_json (rh_render h)) xs
                   | _ \<Rightarrow> [])
      in add_tags [] (filter (\<lambda>gid. gid \<noteq> []) (map (\<lambda>n. opt_str (resolve_ref ctx n)) names)))"

section \<open>Operations\<close>

definition as_obj :: "json \<Rightarrow> obj" where
  "as_obj j = (case j of JObj o' \<Rightarrow> o' | _ \<Rightarrow> [])"

definition field_str :: "rail_host \<Rightarrow> obj \<Rightarrow> string \<Rightarrow> string" where
  "field_str h spec k = py_strip (str_of_json (rh_render h) (json_or (dict_get spec k) (JStr [])))"

definition op_gate :: "rail_host \<Rightarrow> json \<Rightarrow> recipe_ctx \<Rightarrow> recipe_ctx rail" where
  "op_gate h spec0 ctx =
     (let spec = as_obj spec0; skip = (\<lambda>why. ret (ctx\<lparr>rc_skipped := Some why\<rparr>))
      in rbind (require_job (rc_job ctx)) (\<lambda>st.
         if field_str h spec ''unless'' = ''acceptance_met'' \<and> rj_acceptance_met st then skip ''acceptance already met''
         else if dict_get spec ''max'' = Some (JStr ''feedback_rounds'') \<and> rj_feedback_round st \<ge> rj_max_feedback_rounds st
         then skip (''max_feedback_rounds='' @ show_int (rj_max_feedback_rounds st) @ '' reached'')
         else if dict_get spec ''max'' = Some (JStr ''waves'') \<and> int (length (rj_spawned_slices st)) \<ge> effective_max_slices st
         then skip (''max_slices='' @ show_int (effective_max_slices st) @ '' reached'')
         else if field_str h spec ''no_inflight'' = ''feedback''
         then rbind (asks (\<lambda>w. feedback_inflight st (rw_dag w))) (\<lambda>inflight.
                case inflight of Some gid \<Rightarrow> skip (''feedback inflight: '' @ gid) | None \<Rightarrow> ret ctx)
         else ret ctx))"

definition fail_op :: "string \<Rightarrow> 'a rail" where
  "fail_op msg = lift_outcome (Inl (ValueError msg))"

definition op_bump :: "rail_host \<Rightarrow> json \<Rightarrow> recipe_ctx \<Rightarrow> recipe_ctx rail" where
  "op_bump h spec ctx =
     (let counter = (case spec of JStr s \<Rightarrow> py_strip s | JObj o' \<Rightarrow> field_str h o' ''counter'' | _ \<Rightarrow> [])
      in if counter = ''feedback_round''
         then rthen (modify_job (rc_job ctx) (\<lambda>s. s\<lparr>rj_feedback_round := rj_feedback_round s + 1\<rparr>)) (ret ctx)
         else if counter = ''wave_index''
         then rthen (modify_job (rc_job ctx) (\<lambda>s. s\<lparr>rj_wave_index := rj_wave_index s + 1\<rparr>)) (ret ctx)
         else fail_op (''unsupported bump counter: '' @ quoted counter))"

definition root_waits_on :: "rail_host \<Rightarrow> json option \<Rightarrow> recipe_ctx \<Rightarrow> ident option \<Rightarrow> unit rail" where
  "root_waits_on h refs ctx default_self =
     (let gids0 = (if refs = Some (JStr ''self'') \<or> refs = Some (JBool True)
                  then (if truthy default_self then [opt_str default_self] else resolve_ref_list h ctx (Some (JList [JStr ''self''])))
                  else resolve_ref_list h ctx refs);
          gids = filter (\<lambda>g. g \<noteq> [] \<and> g \<noteq> rc_job ctx) gids0
      in if gids = [] then ret () else wait_for h (rc_job ctx) (append_new gids))"

definition scope_of :: "string \<Rightarrow> intake_scope option" where
  "scope_of s = (if s = ''minimal'' then Some ScopeMinimal else if s = ''simple'' then Some ScopeSimple
     else if s = ''complex'' then Some ScopeComplex else None)"

text \<open>The fields of a \<open>spawn_goal\<close> step, checked in the order of the code.\<close>

record goal_request =
  gr_brief :: string
  gr_tags :: "string list"
  gr_role :: "string option"
  gr_priority :: int
  gr_depends :: "ident list"
  gr_scope :: "intake_scope option"

definition read_request :: "rail_host \<Rightarrow> rail_job \<Rightarrow> recipe_ctx \<Rightarrow> json \<Rightarrow> goal_request outcome" where
  "read_request h st ctx spec0 =
     (case spec0 of
        JObj spec \<Rightarrow>
          (case dict_get spec ''brief'' of
             Some (JStr raw) \<Rightarrow>
               if py_strip raw = [] then Inl (ValueError ''spawn_goal.brief is required'')
               else (case json_or (dict_get spec ''tags'') (JList []) of
                       JList ts \<Rightarrow>
                         (let tags = map (\<lambda>t. interpolate_recipe_text st (rc_job ctx) (str_of_json (rh_render h) t)) ts;
                              text0 = interpolate_recipe_text st (rc_job ctx) raw
                          in case int_of_json (json_or (dict_get spec ''priority'') (JInt 70)) of
                               Inl e \<Rightarrow> Inl e
                             | Inr priority \<Rightarrow>
                                 (let req = \<lparr>gr_brief = (if ''architecture'' \<in> set tags \<and> ''milestones'' \<in> set tags then rh_hints h text0 else text0),
                                        gr_tags = tags,
                                        gr_role = (case dict_get spec ''role'' of
                                                     Some (JStr r) \<Rightarrow> (if py_strip r = [] then None else Some (py_strip r)) | _ \<Rightarrow> None),
                                        gr_priority = priority,
                                        gr_depends = filter (\<lambda>d. d \<noteq> rc_job ctx) (resolve_ref_list h ctx (dict_get spec ''depends'')),
                                        gr_scope = None\<rparr>
                                  in case dict_get spec ''intake_scope'' of
                                       Some (JStr s) \<Rightarrow>
                                         if py_strip s = [] then Inr req
                                         else (case scope_of (py_lower (py_strip s)) of
                                                 Some sc \<Rightarrow> Inr (req\<lparr>gr_scope := Some sc\<rparr>)
                                               | None \<Rightarrow> Inl (ValueError (''spawn_goal.intake_scope must be minimal|simple|complex; got '' @ quoted s)))
                                     | _ \<Rightarrow> Inr req))
                     | _ \<Rightarrow> Inl (ValueError ''spawn_goal.tags must be a list''))
           | _ \<Rightarrow> Inl (ValueError ''spawn_goal.brief is required''))
      | _ \<Rightarrow> Inl (ValueError ''spawn_goal spec must be a mapping''))"

definition op_spawn_goal :: "rail_host \<Rightarrow> json \<Rightarrow> recipe_ctx \<Rightarrow> recipe_ctx rail" where
  "op_spawn_goal h spec0 ctx =
     rbind (require_job (rc_job ctx)) (\<lambda>st.
     rbind (lift_outcome (read_request h st ctx spec0)) (\<lambda>req.
     rbind (asks (\<lambda>w. job_workspace h (rw_dag w) (rc_job ctx))) (\<lambda>ws.
     rbind (spawn_goal h (rc_job ctx) (Inr (gr_brief req)) (gr_priority req) (gr_depends req) [] ws (rj_rail_id st) (gr_scope req)) (\<lambda>gid.
     rthen (annotate gid (rc_job ctx) (Some (gr_tags req)) (gr_role req) (Some (rc_job ctx)) None)
     (let spec = as_obj spec0;
          ctx1 = ctx\<lparr>rc_created := rc_created ctx @ [gid]\<rparr>;
          ctx2 = (case dict_get spec ''id'' of
                    Some (JStr s) \<Rightarrow> (if py_strip s = [] then ctx1 else ctx1\<lparr>rc_steps := dict_set (py_strip s) gid (rc_steps ctx1)\<rparr>)
                  | _ \<Rightarrow> ctx1)
      in rthen (case dict_get spec ''wire'' of
                  Some (JObj wire) \<Rightarrow> (if dict_get wire ''root_waits_on'' \<in> {None, Some JNull} then ret ()
                                    else root_waits_on h (dict_get wire ''root_waits_on'') ctx2 (Some gid))
                | _ \<Rightarrow> ret ())
           (ret ctx2))))))"

definition op_wire_deps :: "rail_host \<Rightarrow> json \<Rightarrow> recipe_ctx \<Rightarrow> recipe_ctx rail" where
  "op_wire_deps h spec ctx =
     (case spec of
        JObj o' \<Rightarrow> rthen (root_waits_on h (dict_get o' ''root_waits_on'') ctx None) (ret ctx)
      | _ \<Rightarrow> fail_op ''wire_deps spec must be a mapping'')"

definition op_pause_job :: "rail_host \<Rightarrow> bool \<Rightarrow> json \<Rightarrow> recipe_ctx \<Rightarrow> recipe_ctx rail" where
  "op_pause_job h auto_clarify spec ctx =
     rbind (do_pause_for_user h auto_clarify (rc_job ctx) (rc_trigger ctx)) (\<lambda>r.
     ret (if vr_status r \<noteq> VSuccess then ctx\<lparr>rc_skipped := Some (str_or (vr_detail r) (status_name (vr_status r)))\<rparr> else ctx))"

definition op_complete_job :: "rail_host \<Rightarrow> json \<Rightarrow> recipe_ctx \<Rightarrow> recipe_ctx rail" where
  "op_complete_job h spec ctx =
     rbind (do_complete_job h (rc_job ctx)) (\<lambda>r.
     ret (if vr_status r \<noteq> VSuccess then ctx\<lparr>rc_skipped := Some (str_or (vr_detail r) (status_name (vr_status r)))\<rparr>
          else ctx\<lparr>rc_created := rc_created ctx @ vr_created r\<rparr>))"

definition recipe_op :: "rail_host \<Rightarrow> bool \<Rightarrow> string \<Rightarrow> (json \<Rightarrow> recipe_ctx \<Rightarrow> recipe_ctx rail) option" where
  "recipe_op h auto_clarify op =
     (if op = ''gate'' then Some (op_gate h)
      else if op = ''bump'' then Some (op_bump h)
      else if op = ''spawn_goal'' then Some (op_spawn_goal h)
      else if op = ''wire_deps'' then Some (op_wire_deps h)
      else if op = ''pause_job'' then Some (op_pause_job h auto_clarify)
      else if op = ''complete_job'' then Some (op_complete_job h)
      else None)"

section \<open>Running a recipe\<close>

fun recipe_steps :: "rail_host \<Rightarrow> bool \<Rightarrow> nat \<Rightarrow> json list \<Rightarrow> recipe_ctx \<Rightarrow> (verb_result + recipe_ctx) rail" where
  "recipe_steps h auto_clarify i [] ctx = ret (Inr ctx)"
| "recipe_steps h auto_clarify i (step # steps) ctx =
     (if rc_skipped ctx \<noteq> None then ret (Inr ctx)
      else (case step of
              JObj [(op, spec)] \<Rightarrow>
                (case recipe_op h auto_clarify op of
                   None \<Rightarrow> ret (Inl (failed_verb (''unknown L0 op: '' @ op)))
                 | Some f \<Rightarrow> rbind (f (if spec = JNull then JObj [] else spec) ctx) (\<lambda>ctx'. recipe_steps h auto_clarify (Suc i) steps ctx'))
            | _ \<Rightarrow> ret (Inl (failed_verb (''recipe step['' @ show_nat i @ ''] must be a single-key mapping'')))))"

definition recipe_result :: "verb_result + recipe_ctx \<Rightarrow> verb_result" where
  "recipe_result r =
     (case r of
        Inl e \<Rightarrow> e
      | Inr ctx \<Rightarrow>
          (case rc_skipped ctx of
             Some why \<Rightarrow> skipped why
           | None \<Rightarrow> success (''recipe spawned '' @ show_nat (length (rc_created ctx)) @ '' goal(s)'') (rc_created ctx)))"

definition run_recipe :: "rail_host \<Rightarrow> bool \<Rightarrow> json list \<Rightarrow> ident \<Rightarrow> ident option \<Rightarrow> verb_result rail" where
  "run_recipe h auto_clarify steps job_id trigger =
     rthen (require_job job_id)
     (catch ''recipe''
        (rbind (recipe_steps h auto_clarify 0 steps
                 \<lparr>rc_job = job_id, rc_trigger = trigger, rc_steps = [], rc_created = [], rc_skipped = None\<rparr>) (\<lambda>r.
         ret (recipe_result r))))"

section \<open>Research synthesis\<close>

definition research_scout_inform_ids :: "rail_job \<Rightarrow> goal_dag \<Rightarrow> ident list" where
  "research_scout_inform_ids st d =
     map fst (filter (\<lambda>(gid, a). ''research'' \<in> set (ga_tags a) \<and> (''scout'' \<in> set (ga_tags a) \<or> ''gather'' \<in> set (ga_tags a)) \<and>
                (case get_goal d gid of None \<Rightarrow> False | Some g \<Rightarrow> g_status g = GCompleted)) (rj_annotations st))"

definition research_plan_and_implement :: "rail_host \<Rightarrow> ident \<Rightarrow> verb_result rail" where
  "research_plan_and_implement h job_id =
     rbind (require_job job_id) (\<lambda>st.
     rbind (asks (\<lambda>w. research_scout_inform_ids st (rw_dag w))) (\<lambda>informs.
     rbind (spawn_goal h job_id (Inl (ResearchPlanBrief job_id)) 70 informs informs None (rj_rail_id st) None) (\<lambda>plan.
     rthen (annotate plan job_id (Some [''research'', ''planning'', ''questions'']) (Some ''planner'') (Some job_id) None)
     (rbind (spawn_goal h job_id (Inl (ResearchSynthesisBrief job_id)) 75 [plan] informs None (rj_rail_id st) None) (\<lambda>synth.
     rthen (annotate synth job_id (Some [''research'', ''synthesis'']) (Some ''writer'') (Some job_id) None)
     (ret (success ''spawned research synthesis plan+writer'' [plan, synth])))))))"

section \<open>Dispatch\<close>

definition recipe_of :: "rail_job option \<Rightarrow> string \<Rightarrow> json list option" where
  "recipe_of st builtin =
     (case st of
        None \<Rightarrow> None
      | Some s \<Rightarrow>
          (case dict_get (rj_verb_overrides s) builtin of
             None \<Rightarrow> None
           | Some body \<Rightarrow> (case dict_get body ''do'' of Some (JList (x # xs)) \<Rightarrow> Some (x # xs) | _ \<Rightarrow> None)))"

definition reuse_or :: "rail_host \<Rightarrow> string \<Rightarrow> ident \<Rightarrow> verb_result rail \<Rightarrow> verb_result rail" where
  "reuse_or h builtin job_id m =
     (if builtin \<noteq> ''plan_milestones'' then m
      else rbind (ingest_wave_plan h job_id) (\<lambda>_.
           rbind (asks (\<lambda>w. has_wave_plan_reuse_candidate h (rw_dag w) (dict_get (rw_jobs w) job_id))) (\<lambda>reuse.
             if reuse then plan_milestones_verify_existing h job_id else m)))"

definition dispatch :: "rail_host \<Rightarrow> bool \<Rightarrow> (string \<Rightarrow> verb_result rail option) \<Rightarrow> string \<Rightarrow> ident \<Rightarrow> ident option \<Rightarrow> verb_result rail" where
  "dispatch h auto_clarify handler builtin job_id trigger =
     catch (''builtin '' @ builtin)
       (reuse_or h builtin job_id
         (rbind (asks (\<lambda>w. dict_get (rw_jobs w) job_id)) (\<lambda>st.
            (case recipe_of st builtin of
               Some steps \<Rightarrow> run_recipe h auto_clarify steps job_id trigger
             | None \<Rightarrow>
                 if (case st of None \<Rightarrow> False | Some s \<Rightarrow> rj_rail_id s = ''autoresearch'') \<and> builtin = ''plan_and_implement''
                 then research_plan_and_implement h job_id
                 else (case handler builtin of
                         None \<Rightarrow> ret (failed_verb (''unknown builtin: '' @ builtin))
                       | Some m \<Rightarrow> m)))))"

text \<open>Two verbs call others through \<open>invoke\<close>: \<open>merge_branches\<close> spawns the next makers and \<open>retry_architecture\<close> plans anew.\<close>

definition invoke_spawn_wave_makers :: "rail_host \<Rightarrow> bool \<Rightarrow> ident \<Rightarrow> ident option \<Rightarrow> verb_result rail" where
  "invoke_spawn_wave_makers h auto_clarify job_id trigger =
     dispatch h auto_clarify (\<lambda>_. Some (do_spawn_wave_makers h job_id)) ''spawn_wave_makers'' job_id trigger"

definition invoke_plan_milestones :: "rail_host \<Rightarrow> bool \<Rightarrow> ident \<Rightarrow> verb_result rail" where
  "invoke_plan_milestones h auto_clarify job_id =
     dispatch h auto_clarify (\<lambda>_. Some (do_plan_milestones h job_id)) ''plan_milestones'' job_id None"

definition do_retry_architecture :: "rail_host \<Rightarrow> bool \<Rightarrow> ident \<Rightarrow> ident option \<Rightarrow> verb_result rail" where
  "do_retry_architecture h auto_clarify job_id trigger =
     (if \<not> truthy trigger then ret (skipped ''no trigger architecture'')
      else
        rbind (require_job job_id) (\<lambda>st.
        rbind (lookup_goal (opt_str trigger)) (\<lambda>found.
          case found of
            None \<Rightarrow> ret (failed_verb ''trigger architecture missing'')
          | Some failed \<Rightarrow>
              (let ann = (case dict_get (rj_annotations st) (opt_str trigger) of None \<Rightarrow> new_annotation | Some a \<Rightarrow> a);
                   role = (if truthy (ga_role ann) then ga_role ann else g_role failed)
               in if ''architecture'' \<notin> set (goal_tags st (opt_str trigger) failed) \<and> role \<noteq> Some ''planner''
                  then ret (skipped ''trigger is not architecture'')
                  else
                    rthen (prune_goal h job_id (opt_str trigger) failed)
                    (rthen (modify_job job_id (\<lambda>s. s\<lparr>rj_wave_slices := None, rj_decompose_plan := None, rj_wave_plan_source_path := None\<rparr>))
                    (rbind (invoke_plan_milestones h auto_clarify job_id) (\<lambda>r.
                       case vr_created r of
                         [] \<Rightarrow> ret r
                       | gid # _ \<Rightarrow>
                           if vr_status r \<noteq> VSuccess then ret r
                           else rthen (wait_for h job_id (\<lambda>deps. append_new [gid] (filter (\<lambda>d. d \<noteq> opt_str trigger) deps)))
                                (ret (success (''retried architecture -> '' @ gid) [gid])))))))))"

definition native_handler :: "rail_host \<Rightarrow> bool \<Rightarrow> ident \<Rightarrow> ident option \<Rightarrow> string \<Rightarrow> verb_result rail option" where
  "native_handler h auto_clarify job_id trigger builtin =
     (if builtin = ''decompose_parallel'' then Some (do_decompose_parallel h job_id)
      else if builtin = ''plan_and_implement'' then Some (do_plan_and_implement h job_id)
      else if builtin = ''plan_milestones'' then Some (do_plan_milestones h job_id)
      else if builtin = ''spawn_wave_makers'' then Some (do_spawn_wave_makers h job_id)
      else if builtin = ''spawn_integrate'' then Some (do_spawn_integrate h job_id trigger)
      else if builtin = ''commit_milestone'' then Some (do_commit_milestone h job_id trigger)
      else if builtin = ''review'' then Some (do_review h job_id trigger)
      else if builtin = ''qa_verify'' then Some (do_qa_verify h job_id trigger)
      else if builtin = ''spawn_feedback_cycle'' then Some (do_spawn_feedback_cycle h job_id trigger)
      else if builtin = ''retry_maker'' then Some (do_retry_maker h job_id trigger)
      else if builtin = ''retry_architecture'' then Some (do_retry_architecture h auto_clarify job_id trigger)
      else if builtin = ''retry_branch'' then Some (do_retry_branch h job_id)
      else if builtin = ''merge_branches''
      then Some (do_merge_branches h (\<lambda>maker_id. invoke_spawn_wave_makers h auto_clarify job_id (Some maker_id)) job_id trigger)
      else if builtin = ''land_job_branch'' then Some (do_land_job_branch h job_id)
      else if builtin = ''pause_for_user'' then Some (do_pause_for_user h auto_clarify job_id trigger)
      else if builtin = ''complete_job'' then Some (do_complete_job h job_id)
      else None)"

definition invoke :: "rail_host \<Rightarrow> bool \<Rightarrow> string \<Rightarrow> ident \<Rightarrow> ident option \<Rightarrow> verb_result rail" where
  "invoke h auto_clarify builtin job_id trigger =
     dispatch h auto_clarify (native_handler h auto_clarify job_id trigger) builtin job_id trigger"

end
