(* ===== verification/Rail_Facts.thy ===== *)
theory Rail_Facts
  imports Rail_Recipe
begin

text \<open>
  What every verb of LoopRail respects. An order on the states of a job that the small steps of the verbs follow
  is respected by each verb, by each recipe and by \<open>invoke\<close>; the locales \<open>job_order\<close> and \<open>free_rounds\<close> say
  which small steps these are, and are interpreted on the two orders used here: progress, which is never undone,
  and the bound on the rounds of feedback.
\<close>

section \<open>Orders on worlds\<close>

named_theorems keeps_rules "programs that respect an order on worlds"

definition keeps :: "(rail_world \<Rightarrow> rail_world \<Rightarrow> bool) \<Rightarrow> 'a rail \<Rightarrow> bool" where
  "keeps R m \<longleftrightarrow> (\<forall>w. R w (snd (m w)))"

text \<open>The order on the state of one job, and no goal lost.\<close>

definition world_le :: "(rail_job \<Rightarrow> rail_job \<Rightarrow> bool) \<Rightarrow> ident \<Rightarrow> rail_world \<Rightarrow> rail_world \<Rightarrow> bool" where
  "world_le le job w w' \<longleftrightarrow>
     dict_keys (rw_jobs w') = dict_keys (rw_jobs w) \<and>
     (\<forall>st. dict_get (rw_jobs w) job = Some st \<longrightarrow> (\<exists>st'. dict_get (rw_jobs w') job = Some st' \<and> le st st')) \<and>
     set (goal_ids (rw_dag w)) \<subseteq> set (goal_ids (rw_dag w'))"

lemma keeps_case_prod [keeps_rules]: "(\<And>a b. keeps R (f a b)) \<Longrightarrow> keeps R (case_prod f x)"
  by (cases x) simp

lemma keeps_if [keeps_rules]: "(b \<Longrightarrow> keeps R m) \<Longrightarrow> (\<not> b \<Longrightarrow> keeps R k) \<Longrightarrow> keeps R (if b then m else k)"
  by simp

lemma keeps_option [keeps_rules]:
  "(x = None \<Longrightarrow> keeps R m) \<Longrightarrow> (\<And>y. x = Some y \<Longrightarrow> keeps R (f y)) \<Longrightarrow> keeps R (case x of None \<Rightarrow> m | Some y \<Rightarrow> f y)"
  by (cases x) simp_all

lemma keeps_sum [keeps_rules]:
  "(\<And>y. keeps R (f y)) \<Longrightarrow> (\<And>y. keeps R (g y)) \<Longrightarrow> keeps R (case x of Inl y \<Rightarrow> f y | Inr y \<Rightarrow> g y)"
  by (cases x) simp_all

lemma keeps_list [keeps_rules]:
  "keeps R m \<Longrightarrow> (\<And>y ys. keeps R (f y ys)) \<Longrightarrow> keeps R (case x of [] \<Rightarrow> m | y # ys \<Rightarrow> f y ys)"
  by (cases x) simp_all

lemma keeps_json [keeps_rules]:
  "keeps R a \<Longrightarrow> (\<And>b. keeps R (f b)) \<Longrightarrow> (\<And>i. keeps R (g i)) \<Longrightarrow> (\<And>s. keeps R (k s)) \<Longrightarrow> (\<And>xs. keeps R (l xs)) \<Longrightarrow>
   (\<And>o'. keeps R (p o')) \<Longrightarrow>
   keeps R (case j of JNull \<Rightarrow> a | JBool b \<Rightarrow> f b | JInt i \<Rightarrow> g i | JStr s \<Rightarrow> k s | JList xs \<Rightarrow> l xs | JObj o' \<Rightarrow> p o')"
  by (cases j) simp_all

lemma keeps_target [keeps_rules]:
  "(\<And>r. keeps R (f r)) \<Longrightarrow> (\<And>m a g. keeps R (k m a g)) \<Longrightarrow> keeps R (case x of NoTarget r \<Rightarrow> f r | Target m a g \<Rightarrow> k m a g)"
  by (cases x) simp_all

lemma keeps_bool [keeps_rules]: "keeps R m \<Longrightarrow> keeps R k \<Longrightarrow> keeps R (case b of True \<Rightarrow> m | False \<Rightarrow> k)"
  by (cases b) simp_all

lemma keeps_let [keeps_rules]: "(\<And>x. keeps R (f x)) \<Longrightarrow> keeps R (Let v f)"
  by simp

locale rail_preorder =
  fixes R :: "rail_world \<Rightarrow> rail_world \<Rightarrow> bool"
  assumes refl: "R w w"
    and trans: "R w w' \<Longrightarrow> R w' w'' \<Longrightarrow> R w w''"
begin

lemma keeps_ret: "keeps R (ret a)"
  by (simp add: keeps_def ret_def refl)

lemma keeps_asks: "keeps R (asks f)"
  by (simp add: keeps_def asks_def refl)

lemma keeps_lift: "keeps R (lift_outcome r)"
  by (simp add: keeps_def lift_outcome_def refl)

lemma keeps_lift_at: "keeps R (\<lambda>w. lift_outcome (r w) w)"
  by (simp add: keeps_def lift_outcome_def refl)

lemma keeps_fail: "keeps R (fail_op msg)"
  by (simp add: fail_op_def keeps_lift)

lemma keeps_require: "keeps R (require_job job_id)"
  by (simp add: keeps_def require_job_def refl split: option.split)

lemma keeps_lookup: "keeps R (lookup_goal gid)"
  by (simp add: lookup_goal_def keeps_asks)

lemma keeps_rbind: "keeps R m \<Longrightarrow> (\<And>a. keeps R (f a)) \<Longrightarrow> keeps R (rbind m f)"
  unfolding keeps_def rbind_def by (auto split: prod.split sum.split) (metis snd_conv trans)+

lemma keeps_rthen: "keeps R m \<Longrightarrow> keeps R k \<Longrightarrow> keeps R (rthen m k)"
  by (simp add: rthen_def keeps_rbind)

lemma keeps_rmap: "(\<And>x. keeps R (f x)) \<Longrightarrow> keeps R (rmap f xs)"
  by (induction xs) (auto intro!: keeps_ret keeps_rbind)

lemma keeps_catch: "keeps R m \<Longrightarrow> keeps R (catch what m)"
  by (auto simp: keeps_def catch_def split: prod.split sum.split) (metis snd_conv)+

lemmas rules = keeps_ret keeps_asks keeps_lift keeps_lift_at keeps_fail keeps_require keeps_lookup
  keeps_rbind keeps_rthen keeps_rmap keeps_catch

end

section \<open>The goals of the context engine are never removed\<close>

lemma goal_ids_modify [simp]: "set (goal_ids (modify_goal gid f d)) = set (goal_ids d)"
  by (simp add: goal_ids_def modify_goal_def)

lemma goal_ids_update [simp]: "set (goal_ids (snd (update_dependencies now gid deps d))) = set (goal_ids d)"
  by (simp add: update_dependencies_def split: option.split)

lemma goal_ids_add: "add_goal g d = Inr d' \<Longrightarrow> set (goal_ids d) \<subseteq> set (goal_ids d')"
  by (auto simp: add_goal_def put_goal_def goal_ids_def dict_keys_set_image Let_def split: option.splits if_splits)
    (metis fst_conv image_eqI)+

lemma goal_ids_create: "set (goal_ids d) \<subseteq> set (goal_ids (snd (create_goal fresh now description priority parent deps reasoning source iters extra d)))"
  unfolding create_goal_def Let_def by (simp split: sum.split) (metis goal_ids_add)

lemma goal_ids_cancel: "set (goal_ids d) \<subseteq> set (goal_ids (snd (cancel_goal now gid d)))"
  by (simp add: cancel_goal_def dag_cancel_goal_def split: option.split sum.split)

lemma goal_ids_complete: "set (goal_ids d) \<subseteq> set (goal_ids (snd (complete_goal now gid d)))"
  by (simp add: complete_goal_def dag_complete_goal_def split: option.split sum.split)

lemma goal_ids_suspend: "set (goal_ids d) \<subseteq> set (goal_ids (snd (suspend_goal now gid reason d)))"
  by (simp add: suspend_goal_def dag_suspend_goal_def split: option.split sum.split)

section \<open>Orders on the state of a job\<close>

text \<open>\<open>le\<close> is followed by every small step of the verbs; a round of feedback is added only below the bound.\<close>

locale job_order =
  fixes le :: "rail_job \<Rightarrow> rail_job \<Rightarrow> bool"
    and h :: rail_host
    and job :: ident
  assumes le_refl: "le st st"
    and le_trans: "le st st1 \<Longrightarrow> le st1 st2 \<Longrightarrow> le st st2"
    and annotated: "le st (st\<lparr>rj_annotations := dict_set gid a (rj_annotations st)\<rparr>)"
    and spawned: "le st (st\<lparr>rj_spawned_slices := dict_set sid gid (rj_spawned_slices st)\<rparr>)"
    and sliced: "le st (st\<lparr>rj_wave_slices := v\<rparr>)"
    and planned: "le st (st\<lparr>rj_decompose_plan := plan, rj_scout_count := scouts, rj_max_slices := slices, rj_max_waves := waves,
      rj_wave_plan_source_path := path\<rparr>)"
    and rebuilt: "le st (rebuild_spawned_slices st)"
    and based: "\<not> truthy (rj_base_branch st) \<Longrightarrow> le st (st\<lparr>rj_base_branch := b\<rparr>)"
    and branched: "\<not> truthy (rj_job_branch st) \<Longrightarrow> le st (st\<lparr>rj_job_branch := b\<rparr>)"
    and waved: "le st (st\<lparr>rj_wave_index := rj_wave_index st + 1\<rparr>)"
    and completed: "le st (st\<lparr>rj_completed := True\<rparr>)"
    and suspended: "le st (st\<lparr>rj_suspended := sus\<rparr>)"
    and clarified: "le st (st\<lparr>rj_last_pause_clarify := audit\<rparr>)"
    and rounded: "rj_feedback_round st < rj_max_feedback_rounds st \<Longrightarrow> le st (st\<lparr>rj_feedback_round := rj_feedback_round st + 1\<rparr>)"
begin

sublocale w: rail_preorder "world_le le job"
proof
  show "world_le le job w w" for w by (auto simp: world_le_def le_refl)
  show "world_le le job w w'" if "world_le le job w w1" "world_le le job w1 w'" for w w1 w'
    using that unfolding world_le_def by (metis le_trans subset_trans)
qed

lemma keeps_modify: "(\<And>st. le st (f st)) \<Longrightarrow> keeps (world_le le job) (modify_job job f)"
  by (auto simp: keeps_def modify_job_def world_le_def le_refl)

lemma keeps_engine: "(\<And>d. set (goal_ids d) \<subseteq> set (goal_ids (snd (op d)))) \<Longrightarrow> keeps (world_le le job) (engine op)"
  by (auto simp: keeps_def engine_def world_le_def le_refl split: prod.split) (metis snd_conv subsetD)+

lemma keeps_dag: "(\<And>d. set (goal_ids d) \<subseteq> set (goal_ids (f d))) \<Longrightarrow> keeps (world_le le job) (\<lambda>w. (Inr a, w\<lparr>rw_dag := f (rw_dag w)\<rparr>))"
  by (auto simp: keeps_def world_le_def le_refl)

lemma keeps_notify: "keeps (world_le le job) (\<lambda>w. (Inr a, w\<lparr>rw_notified := rw_notified w @ js\<rparr>))"
  by (auto simp: keeps_def world_le_def le_refl)

lemma keeps_draw: "keeps (world_le le job) (draw_id h)"
  by (auto simp: keeps_def draw_id_def world_le_def le_refl)

lemma two: "le st (f st) \<Longrightarrow> le (f st) st2 \<Longrightarrow> le st st2"
  by (rule le_trans)

lemma le_prepare: "le st (prepare_branches h job repo st)"
proof -
  have "le st (st\<lparr>rj_base_branch := (if truthy (rj_base_branch st) then rj_base_branch st else b)\<rparr>)" for b
    using based [of st b] by (simp add: le_refl)
  moreover have "le st1 (st1\<lparr>rj_job_branch := (if truthy (rj_job_branch st1) then rj_job_branch st1 else b)\<rparr>)" for st1 b
    using branched [of st1 b] by (simp add: le_refl)
  ultimately have "le st (st\<lparr>rj_base_branch := (if truthy (rj_base_branch st) then rj_base_branch st else b1),
      rj_job_branch := (if truthy (rj_job_branch st) then rj_job_branch st else b2)\<rparr>)" for b1 b2
    using le_trans [of st "st\<lparr>rj_base_branch := (if truthy (rj_base_branch st) then rj_base_branch st else b1)\<rparr>"] by fastforce
  then show ?thesis by (auto simp: prepare_branches_def le_refl split: option.split)
qed

lemma le_planned: "le st (apply_wave_plan p source st)"
proof -
  have "\<exists>v plan scouts slices waves path. apply_wave_plan p source st =
      st\<lparr>rj_wave_slices := v\<rparr>\<lparr>rj_decompose_plan := plan, rj_scout_count := scouts, rj_max_slices := slices, rj_max_waves := waves,
        rj_wave_plan_source_path := path\<rparr>"
  proof -
    let ?r = "apply_wave_plan p source st"
    have "?r = st\<lparr>rj_wave_slices := rj_wave_slices ?r\<rparr>\<lparr>rj_decompose_plan := rj_decompose_plan ?r, rj_scout_count := rj_scout_count ?r,
        rj_max_slices := rj_max_slices ?r, rj_max_waves := rj_max_waves ?r, rj_wave_plan_source_path := rj_wave_plan_source_path ?r\<rparr>"
      by (simp add: apply_wave_plan_def Let_def split: option.split)
    then show ?thesis by blast
  qed
  then show ?thesis using le_trans [OF sliced planned] by metis
qed

lemma le_ingest: "le st (ingest_job_wave_plan h d st)"
  by (auto simp: ingest_job_wave_plan_def Let_def le_refl le_planned split: option.split)

lemma keeps_spawn: "keeps (world_le le job) (spawn_goal h job b priority deps informs ws rail scope)"
  unfolding spawn_goal_def by (intro keeps_rules w.rules keeps_draw keeps_engine goal_ids_create)

lemma keeps_annotate: "keeps (world_le le job) (annotate gid job tags role branch status)"
  unfolding annotate_def Let_def
  by (intro w.rules keeps_modify annotated keeps_dag) simp

lemma keeps_wait: "keeps (world_le le job) (wait_for h job f)"
  unfolding wait_for_def
  by (intro w.rules keeps_rules keeps_engine) (simp add: case_prod_beta)

lemma keeps_modify_if: "(\<And>st. b st \<Longrightarrow> le st (f st)) \<Longrightarrow> keeps (world_le le job) (modify_job job (\<lambda>st. if b st then f st else st))"
  by (intro keeps_modify) (simp add: le_refl)

lemma keeps_slices: "keeps (world_le le job) (modify_job job (\<lambda>s. if nonempty (rj_wave_slices s) then s else s\<lparr>rj_wave_slices := v\<rparr>))"
  by (intro keeps_modify) (simp add: le_refl sliced)

lemma keeps_base: "keeps (world_le le job) (modify_job job (\<lambda>s. if truthy (rj_base_branch s) then s else s\<lparr>rj_base_branch := b\<rparr>))"
  by (intro keeps_modify) (simp add: le_refl based)

lemma keeps_branches: "keeps (world_le le job) (modify_job job (prepare_branches h job repo))"
  by (intro keeps_modify le_prepare)

lemma keeps_retry_branches:
  "keeps (world_le le job) (modify_job job (\<lambda>s. prepare_branches h job repo (if truthy (rj_job_branch s) then s else s\<lparr>rj_job_branch := b\<rparr>)))"
  by (intro keeps_modify) (simp add: le_prepare, blast intro: le_trans branched le_prepare)

lemma keeps_ingest: "keeps (world_le le job) (ingest_wave_plan h job)"
  by (auto simp: keeps_def ingest_wave_plan_def world_le_def le_refl le_ingest)

lemma keeps_default: "keeps (world_le le job) (modify_job job (\<lambda>s. s\<lparr>rj_annotations := set_default gid a (rj_annotations s)\<rparr>))"
  by (intro keeps_modify) (simp add: set_default_def annotated le_refl split: option.split)

lemma keeps_finished: "keeps (world_le le job) (modify_job job (\<lambda>s. s\<lparr>rj_completed := True, rj_suspended := False\<rparr>))"
  by (intro keeps_modify) (metis le_trans completed suspended)

lemma keeps_replan:
  "keeps (world_le le job) (modify_job job (\<lambda>s. s\<lparr>rj_wave_slices := None, rj_decompose_plan := None, rj_wave_plan_source_path := None\<rparr>))"
proof (intro keeps_modify)
  fix st
  have "le (st\<lparr>rj_wave_slices := None\<rparr>) (st\<lparr>rj_wave_slices := None, rj_decompose_plan := None, rj_wave_plan_source_path := None\<rparr>)"
    using planned [where st = "st\<lparr>rj_wave_slices := None\<rparr>" and plan = None and scouts = "rj_scout_count st"
        and slices = "rj_max_slices st" and waves = "rj_max_waves st" and path = None] by simp
  then show "le st (st\<lparr>rj_wave_slices := None, rj_decompose_plan := None, rj_wave_plan_source_path := None\<rparr>)"
    using le_trans sliced by blast
qed

lemmas steps = w.rules keeps_spawn keeps_annotate keeps_wait keeps_slices keeps_base keeps_branches keeps_retry_branches keeps_ingest
  keeps_default keeps_finished keeps_replan

section \<open>Every verb follows the order\<close>

lemma keeps_scout: "keeps (world_le le job) (spawn_scout h job rail ispec)"
  unfolding spawn_scout_def Let_def by (intro keeps_rules steps)

lemma keeps_maker: "keeps (world_le le job) (spawn_maker h job repo specs arch nslice)"
  unfolding spawn_maker_def Let_def by (intro keeps_rules steps keeps_modify spawned)

lemma keeps_plans:
  "keeps (world_le le job) (do_decompose_parallel h job)"
  "keeps (world_le le job) (do_plan_and_implement h job)"
  "keeps (world_le le job) (do_plan_milestones h job)"
  "keeps (world_le le job) (plan_milestones_verify_existing h job)"
  "keeps (world_le le job) (research_plan_and_implement h job)"
  unfolding do_decompose_parallel_def do_plan_and_implement_def do_plan_milestones_def plan_milestones_verify_existing_def
    research_plan_and_implement_def Let_def
  by (intro keeps_rules steps keeps_scout)+

lemma keeps_spawn_makers: "keeps (world_le le job) (do_spawn_wave_makers h job)"
  unfolding do_spawn_wave_makers_def select_slices_def spawn_makers_def Let_def
  by (intro keeps_rules steps keeps_maker keeps_modify rebuilt waved)

lemma keeps_spawn_annotated: "keeps (world_le le job) (spawn_annotated h job b priority deps ws tags role branch)"
  unfolding spawn_annotated_def by (intro keeps_rules steps)

lemma keeps_prune: "keeps (world_le le job) (prune_goal h job gid g)"
  unfolding prune_goal_def by (intro keeps_rules steps keeps_engine goal_ids_cancel)

lemma keeps_checks:
  "keeps (world_le le job) (do_spawn_integrate h job trigger)"
  "keeps (world_le le job) (do_commit_milestone h job trigger)"
  "keeps (world_le le job) (do_review h job trigger)"
  "keeps (world_le le job) (do_qa_verify h job trigger)"
  "keeps (world_le le job) (feedback_round_goals h job trigger n)"
  unfolding do_spawn_integrate_def do_commit_milestone_def do_review_def do_qa_verify_def feedback_round_goals_def
  by (intro keeps_rules steps keeps_spawn_annotated)+

lemma keeps_retries:
  "keeps (world_le le job) (do_retry_maker h job trigger)"
  "keeps (world_le le job) (do_retry_branch h job)"
  unfolding do_retry_maker_def respawn_maker_def do_retry_branch_def retry_branch_one_def Let_def
  by (intro keeps_rules steps keeps_prune keeps_modify spawned)+

lemma keeps_feedback: "keeps (world_le le job) (do_spawn_feedback_cycle h job trigger)"
proof -
  let ?step = "rthen (modify_job job (\<lambda>s. s\<lparr>rj_feedback_round := rj_feedback_round s + 1\<rparr>))"
  have "world_le le job w (snd (?step (feedback_round_goals h job trigger n) w))"
    if "dict_get (rw_jobs w) job = Some st" "rj_feedback_round st < rj_max_feedback_rounds st" for w st n
  proof -
    let ?w = "snd (modify_job job (\<lambda>s. s\<lparr>rj_feedback_round := rj_feedback_round s + 1\<rparr>) w)"
    have first: "world_le le job w ?w"
      using that by (auto simp: modify_job_def world_le_def rounded)
    have second: "world_le le job ?w (snd (feedback_round_goals h job trigger n ?w))"
      using keeps_checks(5) by (simp add: keeps_def)
    have run: "?step (feedback_round_goals h job trigger n) w = feedback_round_goals h job trigger n ?w"
      by (simp add: rthen_def rbind_def modify_job_def)
    show ?thesis unfolding run by (rule w.trans [OF first second])
  qed
  then show ?thesis
    by (auto simp: keeps_def do_spawn_feedback_cycle_def rbind_def require_job_def lookup_goal_def asks_def ret_def w.refl
      split: option.split)
qed

lemma keeps_resolve: "keeps (world_le le job) (spawn_merge_resolve_goal h job maker branch detail ws)"
  unfolding spawn_merge_resolve_goal_def by (intro keeps_rules steps)

lemma keeps_finish: "(\<And>m. keeps (world_le le job) (spawn_next m)) \<Longrightarrow> keeps (world_le le job) (finish_merge h spawn_next job maker repo detail)"
  unfolding finish_merge_def by (intro keeps_rules steps keeps_spawn_annotated) blast

lemma keeps_merge: "(\<And>m. keeps (world_le le job) (spawn_next m)) \<Longrightarrow> keeps (world_le le job) (do_merge_branches h spawn_next job trigger)"
  unfolding do_merge_branches_def by (intro keeps_rules steps keeps_finish keeps_resolve) blast+

lemma keeps_land: "keeps (world_le le job) (do_land_job_branch h job)"
  unfolding do_land_job_branch_def by (intro keeps_rules steps)

lemma keeps_complete: "keeps (world_le le job) (do_complete_job h job)"
  unfolding do_complete_job_def by (intro keeps_rules steps keeps_land keeps_engine goal_ids_complete)

lemma keeps_clarify: "keeps (world_le le job) (resolve_pause_clarify h auto_clarify job trigger)"
  unfolding resolve_pause_clarify_def Let_def by (intro keeps_rules steps)

lemma keeps_pause: "keeps (world_le le job) (do_pause_for_user h auto_clarify job trigger)"
  unfolding do_pause_for_user_def
  by (intro keeps_rules steps keeps_clarify keeps_modify clarified suspended keeps_notify keeps_engine goal_ids_suspend)

end

section \<open>Recipes and dispatch\<close>

text \<open>An order that recipes follow too, and one that also allows rounds of feedback beyond the bound, as a recipe can.\<close>

locale recipe_order = job_order +
  assumes recipes: "dict_get (rw_jobs w) job = Some st \<Longrightarrow> recipe_of (Some st) builtin = Some steps \<Longrightarrow>
    world_le le job w (snd (run_recipe h auto_clarify steps job trigger w))"
begin

lemma keeps_reuse: "keeps (world_le le job) m \<Longrightarrow> keeps (world_le le job) (catch what (reuse_or h builtin job m))"
  unfolding reuse_or_def by (intro keeps_rules w.rules keeps_ingest keeps_plans)

lemma keeps_dispatch:
  assumes "\<And>m. handler builtin = Some m \<Longrightarrow> keeps (world_le le job) m"
  shows "keeps (world_le le job) (dispatch h auto_clarify handler builtin job trigger)"
proof -
  have other: "keeps (world_le le job) (if b then research_plan_and_implement h job
      else case handler builtin of None \<Rightarrow> ret (failed_verb msg) | Some m \<Rightarrow> m)" for b msg
    using assms by (intro keeps_rules w.rules keeps_plans)
  have "keeps (world_le le job) (rbind (asks (\<lambda>w. dict_get (rw_jobs w) job)) (\<lambda>st.
            case recipe_of st builtin of
               Some steps \<Rightarrow> run_recipe h auto_clarify steps job trigger
             | None \<Rightarrow>
                 if (case st of None \<Rightarrow> False | Some s \<Rightarrow> rj_rail_id s = ''autoresearch'') \<and> builtin = ''plan_and_implement''
                 then research_plan_and_implement h job
                 else (case handler builtin of None \<Rightarrow> ret (failed_verb (''unknown builtin: '' @ builtin)) | Some m \<Rightarrow> m)))"
    unfolding keeps_def rbind_def asks_def
  proof (intro allI)
    fix w
    show "world_le le job w (snd (case (Inr (dict_get (rw_jobs w) job), w) of (Inl e, w') \<Rightarrow> (Inl e, w') | (Inr st, w') \<Rightarrow>
        (case recipe_of st builtin of
               Some steps \<Rightarrow> run_recipe h auto_clarify steps job trigger
             | None \<Rightarrow>
                 if (case st of None \<Rightarrow> False | Some s \<Rightarrow> rj_rail_id s = ''autoresearch'') \<and> builtin = ''plan_and_implement''
                 then research_plan_and_implement h job
                 else (case handler builtin of None \<Rightarrow> ret (failed_verb (''unknown builtin: '' @ builtin)) | Some m \<Rightarrow> m)) w'))"
    proof (cases "recipe_of (dict_get (rw_jobs w) job) builtin")
      case None
      then show ?thesis using other by (simp add: keeps_def)
    next
      case (Some steps)
      then obtain st where "dict_get (rw_jobs w) job = Some st" by (auto simp: recipe_of_def split: option.splits)
      with Some show ?thesis using recipes by simp
    qed
  qed
  then show ?thesis unfolding dispatch_def by (rule keeps_reuse)
qed

lemma keeps_replan_verb: "keeps (world_le le job) (do_retry_architecture h auto_clarify job trigger)"
  unfolding do_retry_architecture_def Let_def invoke_plan_milestones_def
  by (intro keeps_rules steps keeps_prune keeps_dispatch) (use keeps_plans in auto)

lemma keeps_native: "native_handler h auto_clarify job trigger builtin = Some m \<Longrightarrow> keeps (world_le le job) m"
  unfolding native_handler_def invoke_spawn_wave_makers_def
  by (auto split: if_splits intro!: keeps_plans keeps_spawn_makers keeps_checks keeps_feedback keeps_retries keeps_replan_verb
      keeps_merge keeps_land keeps_pause keeps_complete keeps_dispatch)

lemma keeps_invoke: "keeps (world_le le job) (invoke h auto_clarify builtin job trigger)"
  unfolding invoke_def by (intro keeps_dispatch keeps_native)

end

text \<open>The job of a recipe never changes.\<close>

definition ctx_job :: "ident \<Rightarrow> recipe_ctx rail \<Rightarrow> bool" where
  "ctx_job job m \<longleftrightarrow> (\<forall>w ctx w'. m w = (Inr ctx, w') \<longrightarrow> rc_job ctx = job)"

lemma ctx_job_rbind: "(\<And>a. ctx_job job (f a)) \<Longrightarrow> ctx_job job (rbind m f)"
  by (auto simp: ctx_job_def rbind_def split: prod.splits sum.splits)

lemma ctx_job_rthen: "ctx_job job k \<Longrightarrow> ctx_job job (rthen m k)"
  by (simp add: rthen_def ctx_job_rbind)

lemma ctx_job_ret: "rc_job ctx = job \<Longrightarrow> ctx_job job (ret ctx)"
  by (simp add: ctx_job_def ret_def)

lemma ctx_job_fail: "ctx_job job (fail_op msg)"
  by (simp add: ctx_job_def fail_op_def lift_outcome_def)

lemma ctx_job_op: "recipe_op h auto_clarify op = Some f \<Longrightarrow> ctx_job (rc_job ctx) (f spec ctx)"
  unfolding recipe_op_def op_wire_deps_def op_pause_job_def op_complete_job_def op_gate_def op_bump_def op_spawn_goal_def Let_def
  by (auto split: if_splits json.split option.split intro!: ctx_job_rbind ctx_job_rthen ctx_job_ret ctx_job_fail)

locale free_rounds = job_order +
  assumes any_round: "le st (st\<lparr>rj_feedback_round := rj_feedback_round st + 1\<rparr>)"
begin

lemma keeps_gate:
  assumes "rc_job ctx = job"
  shows "keeps (world_le le job) (op_gate h spec ctx)"
  unfolding op_gate_def Let_def assms by (intro keeps_rules steps)

lemma keeps_bump:
  assumes "rc_job ctx = job"
  shows "keeps (world_le le job) (op_bump h spec ctx)"
  unfolding op_bump_def Let_def assms by (intro keeps_rules steps keeps_modify any_round waved)

lemma keeps_root_waits:
  assumes "rc_job ctx = job"
  shows "keeps (world_le le job) (root_waits_on h refs ctx self)"
  unfolding root_waits_on_def Let_def assms by (intro keeps_rules steps)

lemma keeps_op_spawn:
  assumes "rc_job ctx = job"
  shows "keeps (world_le le job) (op_spawn_goal h spec ctx)"
  unfolding op_spawn_goal_def Let_def assms
  by (intro keeps_rules steps keeps_root_waits) (simp_all add: assms split: option.split json.split)

lemma keeps_wire_deps:
  assumes "rc_job ctx = job"
  shows "keeps (world_le le job) (op_wire_deps h spec ctx)"
  unfolding op_wire_deps_def by (intro keeps_rules steps keeps_root_waits assms)

lemma keeps_pause_job:
  assumes "rc_job ctx = job"
  shows "keeps (world_le le job) (op_pause_job h auto_clarify spec ctx)"
  unfolding op_pause_job_def assms by (intro steps keeps_pause)

lemma keeps_complete_job:
  assumes "rc_job ctx = job"
  shows "keeps (world_le le job) (op_complete_job h spec ctx)"
  unfolding op_complete_job_def assms by (intro steps keeps_complete)

lemma keeps_op:
  assumes "recipe_op h auto_clarify op = Some f" and job: "rc_job ctx = job"
  shows "keeps (world_le le job) (f spec ctx)"
proof -
  have "f \<in> {op_gate h, op_bump h, op_spawn_goal h, op_wire_deps h, op_pause_job h auto_clarify, op_complete_job h}"
    using assms(1) by (simp add: recipe_op_def split: if_splits)
  then show ?thesis
    using keeps_gate [OF job] keeps_bump [OF job] keeps_op_spawn [OF job] keeps_wire_deps [OF job] keeps_pause_job [OF job]
      keeps_complete_job [OF job] by blast
qed

lemma keeps_recipe_steps: "rc_job ctx = job \<Longrightarrow> keeps (world_le le job) (recipe_steps h auto_clarify i steps ctx)"
proof (induction steps arbitrary: i ctx)
  case Nil
  show ?case by (simp add: w.keeps_ret)
next
  case (Cons step steps)
  show ?case
  proof (cases "\<exists>op spec f. rc_skipped ctx = None \<and> step = JObj [(op, spec)] \<and> recipe_op h auto_clarify op = Some f")
    case True
    then obtain op spec f where step: "rc_skipped ctx = None" "step = JObj [(op, spec)]" "recipe_op h auto_clarify op = Some f" by blast
    let ?m = "f (if spec = JNull then JObj [] else spec) ctx"
    have "world_le le job w (snd (rbind ?m (recipe_steps h auto_clarify (Suc i) steps) w))" for w
    proof -
      obtain r w1 where r: "?m w = (r, w1)" by fastforce
      have "world_le le job w w1" using keeps_op [OF step(3) Cons.prems] r by (metis keeps_def snd_conv)
      moreover have "world_le le job w1 (snd (recipe_steps h auto_clarify (Suc i) steps c w1))" if "r = Inr c" for c
        using Cons.IH ctx_job_op [OF step(3)] Cons.prems r that by (metis ctx_job_def keeps_def)
      ultimately show ?thesis by (cases r) (auto simp: rbind_def r intro: w.trans)
    qed
    then show ?thesis using step by (simp add: keeps_def)
  next
    case False
    then have "\<exists>r. recipe_steps h auto_clarify i (step # steps) ctx = ret r"
      by (auto split: json.split list.split option.split)
    then show ?thesis using w.keeps_ret by metis
  qed
qed

lemma keeps_recipe: "keeps (world_le le job) (run_recipe h auto_clarify steps job trigger)"
  unfolding run_recipe_def by (intro keeps_rules w.rules keeps_recipe_steps) simp

end

sublocale free_rounds \<subseteq> recipe_order
  by unfold_locales (use keeps_recipe in \<open>simp add: keeps_def\<close>)

section \<open>Progress is never undone\<close>

text \<open>What holds of the state of a job stays so: names, policy and acceptance do not change, annotations and makers are
  only added, counters only grow, and a branch once chosen is kept.\<close>

definition job_progress :: "rail_job \<Rightarrow> rail_job \<Rightarrow> bool" where
  "job_progress st st' \<longleftrightarrow>
     rj_job_id st' = rj_job_id st \<and> rj_rail_id st' = rj_rail_id st \<and> rj_verb_overrides st' = rj_verb_overrides st \<and>
     rj_acceptance_met st' = rj_acceptance_met st \<and> rj_require_plan st' = rj_require_plan st \<and>
     rj_fanout_enabled st' = rj_fanout_enabled st \<and> rj_worktrees_enabled st' = rj_worktrees_enabled st \<and>
     rj_max_feedback_rounds st' = rj_max_feedback_rounds st \<and>
     rj_feedback_round st \<le> rj_feedback_round st' \<and> rj_wave_index st \<le> rj_wave_index st' \<and>
     fst ` set (rj_annotations st) \<subseteq> fst ` set (rj_annotations st') \<and>
     fst ` set (rj_spawned_slices st) \<subseteq> fst ` set (rj_spawned_slices st') \<and>
     (rj_completed st \<longrightarrow> rj_completed st') \<and>
     (truthy (rj_job_branch st) \<longrightarrow> rj_job_branch st' = rj_job_branch st) \<and>
     (truthy (rj_base_branch st) \<longrightarrow> rj_base_branch st' = rj_base_branch st)"

lemma job_progress_trans: "job_progress st st1 \<Longrightarrow> job_progress st1 st2 \<Longrightarrow> job_progress st st2"
  unfolding job_progress_def by (elim conjE, intro conjI impI, simp_all)

lemma job_progress_rebuilt: "job_progress st (rebuild_spawned_slices st)"
  by (simp add: job_progress_def rebuild_spawned_slices_def)

interpretation progress: free_rounds job_progress h job for h job
proof unfold_locales
  show "job_progress st st1 \<Longrightarrow> job_progress st1 st2 \<Longrightarrow> job_progress st st2" for st st1 st2
    by (rule job_progress_trans)
  show "job_progress st (rebuild_spawned_slices st)" for st
    by (rule job_progress_rebuilt)
qed (simp_all add: job_progress_def dict_keys_set_image subset_insertI)

text \<open>The bound on the rounds, as long as no verb of the job is replaced by a recipe.\<close>

definition has_recipe :: "rail_job \<Rightarrow> bool" where
  "has_recipe st \<longleftrightarrow> list_ex (\<lambda>(verb, body). recipe_of (Some st) verb \<noteq> None) (rj_verb_overrides st)"

definition rounds_bounded :: "rail_job \<Rightarrow> rail_job \<Rightarrow> bool" where
  "rounds_bounded st st' \<longleftrightarrow>
     rj_verb_overrides st' = rj_verb_overrides st \<and> rj_max_feedback_rounds st' = rj_max_feedback_rounds st \<and>
     (\<not> has_recipe st \<longrightarrow> rj_feedback_round st \<le> rj_max_feedback_rounds st \<longrightarrow> rj_feedback_round st' \<le> rj_max_feedback_rounds st')"

lemma has_recipe_cong: "rj_verb_overrides st = rj_verb_overrides st' \<Longrightarrow> has_recipe st = has_recipe st'"
  by (simp add: has_recipe_def recipe_of_def)

lemma recipe_has_recipe: "recipe_of (Some st) verb = Some steps \<Longrightarrow> has_recipe st"
proof -
  assume recipe: "recipe_of (Some st) verb = Some steps"
  then obtain body where "dict_get (rj_verb_overrides st) verb = Some body" by (auto simp: recipe_of_def split: option.splits)
  then have "(verb, body) \<in> set (rj_verb_overrides st)" by (rule map_of_SomeD)
  with recipe show ?thesis unfolding has_recipe_def list_ex_iff by (intro bexI [of _ "(verb, body)"]) simp_all
qed

definition policy_kept :: "rail_job \<Rightarrow> rail_job \<Rightarrow> bool" where
  "policy_kept st st' \<longleftrightarrow> rj_verb_overrides st' = rj_verb_overrides st \<and> rj_max_feedback_rounds st' = rj_max_feedback_rounds st"

interpretation policy: free_rounds policy_kept h job for h job
  by unfold_locales (simp_all add: policy_kept_def rebuild_spawned_slices_def)

interpretation bounded: recipe_order rounds_bounded h job for h job
proof unfold_locales
  show "rounds_bounded st st1 \<Longrightarrow> rounds_bounded st1 st2 \<Longrightarrow> rounds_bounded st st2" for st st1 st2
    using has_recipe_cong unfolding rounds_bounded_def by metis
  show "world_le rounds_bounded job w (snd (run_recipe h auto_clarify steps job trigger w))"
    if st: "dict_get (rw_jobs w) job = Some st" and recipe: "recipe_of (Some st) builtin = Some steps"
    for w st builtin steps auto_clarify trigger
  proof -
    have "world_le policy_kept job w (snd (run_recipe h auto_clarify steps job trigger w))"
      using policy.keeps_recipe by (simp add: keeps_def)
    then show ?thesis using st recipe_has_recipe [OF recipe] by (auto simp: world_le_def policy_kept_def rounds_bounded_def)
  qed
qed (simp_all add: rounds_bounded_def rebuild_spawned_slices_def)

lemma invoke_result: "\<exists>v. fst (invoke h auto_clarify builtin job_id trigger w) = Inr v"
  by (auto simp: invoke_def dispatch_def catch_def split: prod.split sum.split)

text \<open>A call of a verb never raises and never undoes progress. Whatever the verb, its trigger and the recipe that
  may replace it: \<open>invoke\<close> returns a result even when the verb fails halfway, no goal leaves the goal DAG, and the
  state of the job only moves forward (annotations and makers are only added, counters grow, completion and
  chosen branches stay, and acceptance, the policy and the bound on the rounds do not change).\<close>

theorem invoke_never_undoes_progress:
  assumes "dict_get (rw_jobs w) job = Some st"
  shows "\<exists>v w' st'. invoke h auto_clarify builtin job trigger w = (Inr v, w') \<and> dict_get (rw_jobs w') job = Some st' \<and>
    job_progress st st' \<and> set (goal_ids (rw_dag w)) \<subseteq> set (goal_ids (rw_dag w'))"
proof -
  have "world_le job_progress job w (snd (invoke h auto_clarify builtin job trigger w))"
    using progress.keeps_invoke by (simp add: keeps_def)
  then show ?thesis
    using invoke_result [of h auto_clarify builtin job trigger w] assms
    by (cases "invoke h auto_clarify builtin job trigger w") (auto simp: world_le_def)
qed

text \<open>A sequence of calls on one job.\<close>

fun invoke_all :: "rail_host \<Rightarrow> bool \<Rightarrow> ident \<Rightarrow> (string \<times> ident option) list \<Rightarrow> rail_world \<Rightarrow> rail_world" where
  "invoke_all h auto_clarify job [] w = w"
| "invoke_all h auto_clarify job ((builtin, trigger) # calls) w =
     invoke_all h auto_clarify job calls (snd (invoke h auto_clarify builtin job trigger w))"

lemma invoke_all_le:
  assumes "\<And>builtin trigger w. world_le le job w (snd (invoke h auto_clarify builtin job trigger w))"
    and "\<And>w. world_le le job w w" and "\<And>w w1 w2. world_le le job w w1 \<Longrightarrow> world_le le job w1 w2 \<Longrightarrow> world_le le job w w2"
  shows "world_le le job w (invoke_all h auto_clarify job calls w)"
  using assms by (induction calls arbitrary: w) (auto, blast)

text \<open>Feedback ends: a job whose rail replaces no verb by a recipe never has more rounds of feedback than its bound,
  whatever verbs are called in whatever order.\<close>

theorem feedback_rounds_bounded:
  assumes "dict_get (rw_jobs w) job = Some st" and "\<not> has_recipe st" and "rj_feedback_round st \<le> rj_max_feedback_rounds st"
  shows "\<exists>st'. dict_get (rw_jobs (invoke_all h auto_clarify job calls w)) job = Some st' \<and>
    rj_max_feedback_rounds st' = rj_max_feedback_rounds st \<and> rj_feedback_round st' \<le> rj_max_feedback_rounds st"
proof -
  have "world_le rounds_bounded job w (invoke_all h auto_clarify job calls w)"
    using invoke_all_le [OF _ bounded.w.refl bounded.w.trans] bounded.keeps_invoke by (simp add: keeps_def)
  then show ?thesis using assms by (auto simp: world_le_def rounds_bounded_def)
qed

text \<open>A recipe has no such bound: a step that bumps the counter without a gate passes it.\<close>

definition bare_world :: "rail_job \<Rightarrow> rail_world" where
  "bare_world st = \<lparr>rw_jobs = [(rj_job_id st, st)],
     rw_dag = \<lparr>goals = [(rj_job_id st, (new_goal (rj_job_id st) ''job'' 0)\<lparr>g_rail_id := Some (rj_rail_id st)\<rparr>)]\<rparr>,
     rw_used = 0, rw_notified = []\<rparr>"

definition bumping_job :: rail_job where
  "bumping_job = (new_rail_job ''job'' ''custom'' ''1'')
     \<lparr>rj_max_feedback_rounds := 0, rj_verb_overrides := [(''spawn_feedback_cycle'', [(''do'', JList [JObj [(''bump'', JStr ''feedback_round'')]])])]\<rparr>"

lemma recipe_passes_the_bound:
  "map_option rj_feedback_round (dict_get (rw_jobs (snd (invoke sample_host False ''spawn_feedback_cycle'' ''job'' None (bare_world bumping_job)))) ''job'')
   = Some 1"
  by code_simp

section \<open>Examples\<close>

lemma invoke_never_undoes_progress_witness:
  "\<exists>v w'. invoke sample_host False ''spawn_wave_makers'' ''job'' None (bare_world planned_job) = (Inr v, w') \<and>
     set (goal_ids (rw_dag (bare_world planned_job))) \<subseteq> set (goal_ids (rw_dag w'))"
proof -
  have "dict_get (rw_jobs (bare_world planned_job)) ''job'' = Some planned_job" by code_simp
  from invoke_never_undoes_progress [OF this, of sample_host False "''spawn_wave_makers''" None] show ?thesis by blast
qed

lemma feedback_rounds_bounded_witness:
  "\<exists>st'. dict_get (rw_jobs (invoke_all sample_host False ''job''
      [(''spawn_feedback_cycle'', None), (''spawn_feedback_cycle'', None)] (bare_world planned_job))) ''job'' = Some st' \<and>
    rj_feedback_round st' \<le> 8"
proof -
  have st: "dict_get (rw_jobs (bare_world planned_job)) ''job'' = Some planned_job" "\<not> has_recipe planned_job"
      "rj_feedback_round planned_job \<le> rj_max_feedback_rounds planned_job" "rj_max_feedback_rounds planned_job = 8" by code_simp+
  show ?thesis using feedback_rounds_bounded [OF st(1-3)] st(4) by metis
qed

end
