(* ===== verification/Rail_Fanout.thy ===== *)
theory Rail_Fanout
  imports Rail_Facts
begin

text \<open>
  What the fan-out verbs of LoopRail do when they succeed: spawning makers stays within the budget and follows the
  plan, and merging picks a finished maker that is not merged and that nobody is resolving. The last section holds
  runs on concrete jobs.
\<close>

section \<open>Running a verb\<close>

named_theorems rail_run "running the parts of a verb that succeeds"

lemma rbind_Inr [rail_run]: "rbind m f w = (Inr b, w') \<longleftrightarrow> (\<exists>a w1. m w = (Inr a, w1) \<and> f a w1 = (Inr b, w'))"
  by (auto simp: rbind_def split: prod.splits sum.splits)

lemma rthen_Inr [rail_run]: "rthen m k w = (Inr b, w') \<longleftrightarrow> (\<exists>a w1. m w = (Inr a, w1) \<and> k w1 = (Inr b, w'))"
  by (simp add: rthen_def rbind_Inr)

lemma ret_Inr [rail_run]: "ret a w = (Inr b, w') \<longleftrightarrow> b = a \<and> w' = w"
  by (auto simp: ret_def)

lemma asks_Inr [rail_run]: "asks f w = (Inr b, w') \<longleftrightarrow> b = f w \<and> w' = w"
  by (auto simp: asks_def)

lemma lift_Inr [rail_run]: "lift_outcome r w = (Inr b, w') \<longleftrightarrow> r = Inr b \<and> w' = w"
  by (auto simp: lift_outcome_def)

lemma require_Inr [rail_run]: "require_job job w = (Inr st, w') \<longleftrightarrow> dict_get (rw_jobs w) job = Some st \<and> w' = w"
  by (auto simp: require_job_def split: option.splits)

lemma modify_Inr [rail_run]: "modify_job job f w = (Inr b, w') \<longleftrightarrow> w' = w\<lparr>rw_jobs := dict_modify job f (rw_jobs w)\<rparr>"
  by (auto simp: modify_job_def)

lemma engine_jobs: "engine op w = (r, w') \<Longrightarrow> rw_jobs w' = rw_jobs w"
  by (auto simp: engine_def split: prod.splits)

lemma spawn_goal_jobs: "spawn_goal h job b priority deps informs ws rail scope w = (Inr gid, w') \<Longrightarrow> rw_jobs w' = rw_jobs w"
  unfolding spawn_goal_def by (auto simp: rail_run draw_id_def dest!: engine_jobs)

lemma wait_for_jobs: "wait_for h job f w = (Inr u, w') \<Longrightarrow> rw_jobs w' = rw_jobs w"
  unfolding wait_for_def lookup_goal_def by (auto simp: rail_run split: option.splits dest!: engine_jobs)

lemma annotate_job:
  assumes "annotate gid job tags role branch status w = (Inr u, w')" and "dict_get (rw_jobs w) job = Some st"
  shows "\<exists>anns. dict_get (rw_jobs w') job = Some (st\<lparr>rj_annotations := anns\<rparr>)"
  using assms unfolding annotate_def Let_def by (auto simp: rail_run)

section \<open>Spawning makers\<close>

lemma spawn_maker_job:
  assumes "spawn_maker h job repo specs arch (n, sid) w = (Inr gid, w')" and "dict_get (rw_jobs w) job = Some st"
  shows "\<exists>anns. dict_get (rw_jobs w') job =
    Some (st\<lparr>rj_annotations := anns, rj_spawned_slices := dict_set sid gid (rj_spawned_slices st)\<rparr>)"
  using assms unfolding spawn_maker_def Let_def snd_conv fst_conv
  by (auto simp: rail_run dest!: spawn_goal_jobs annotate_job)

lemma rmap_spawn_maker:
  assumes "rmap (spawn_maker h job repo specs arch) (List.enumerate n sids) w = (Inr gids, w')"
    and "dict_get (rw_jobs w) job = Some st"
  shows "\<exists>anns spawned. dict_get (rw_jobs w') job = Some (st\<lparr>rj_annotations := anns, rj_spawned_slices := spawned\<rparr>) \<and>
    set (dict_keys spawned) = set (dict_keys (rj_spawned_slices st)) \<union> set sids \<and>
    length spawned \<le> length (rj_spawned_slices st) + length sids \<and> length gids = length sids"
  using assms
proof (induction sids arbitrary: n w st gids)
  case Nil
  then have "gids = []" "w' = w" by (simp_all add: rail_run)
  moreover have "st = st\<lparr>rj_annotations := rj_annotations st, rj_spawned_slices := rj_spawned_slices st\<rparr>" by simp
  ultimately show ?case using Nil.prems(2) by (intro exI [of _ "rj_annotations st"] exI [of _ "rj_spawned_slices st"]) simp
next
  case (Cons sid sids)
  from Cons.prems(1) obtain gid w1 rest where first: "spawn_maker h job repo specs arch (n, sid) w = (Inr gid, w1)"
    and more: "rmap (spawn_maker h job repo specs arch) (List.enumerate (Suc n) sids) w1 = (Inr rest, w')" and gids: "gids = gid # rest"
    by (auto simp: rail_run)
  obtain anns where st1: "dict_get (rw_jobs w1) job =
      Some (st\<lparr>rj_annotations := anns, rj_spawned_slices := dict_set sid gid (rj_spawned_slices st)\<rparr>)"
    using spawn_maker_job [OF first Cons.prems(2)] by blast
  have "length (dict_set sid gid (rj_spawned_slices st)) \<le> Suc (length (rj_spawned_slices st))"
    using dict_keys_set [of sid gid "rj_spawned_slices st"] by (metis length_append_singleton length_map le_SucI order_refl)
  moreover obtain anns' spawned where w': "dict_get (rw_jobs w') job = Some (st\<lparr>rj_annotations := anns', rj_spawned_slices := spawned\<rparr>)"
    and "set (dict_keys spawned) = insert sid (set (dict_keys (rj_spawned_slices st))) \<union> set sids"
    and "length spawned \<le> length (dict_set sid gid (rj_spawned_slices st)) + length sids" "length rest = length sids"
    using Cons.IH [OF more st1] by (auto simp: dict_keys_set_image simp del: dict_keys_set)
  ultimately show ?case
    by (intro exI [of _ anns'] exI [of _ spawned]) (simp add: gids)
qed

lemma select_slices_job:
  assumes "select_slices h job w = (Inr (Inr (ready, source)), w')" and "dict_get (rw_jobs w) job = Some st"
  shows "\<exists>st1 all_ready. dict_get (rw_jobs w') job = Some st1 \<and> rw_dag w' = rw_dag w \<and>
    rj_spawned_slices st1 = rj_spawned_slices (rebuild_spawned_slices (ingest_job_wave_plan h (rw_dag w) st)) \<and>
    nonempty (rj_wave_slices st1) \<and> ready \<noteq> [] \<and>
    ready_unspawned_slice_ids h (rw_dag w) st1 = Inr all_ready \<and>
    ready = take (nat (effective_max_slices st1 - int (length (rj_spawned_slices st1)))) all_ready"
proof -
  define a where "a = rebuild_spawned_slices (ingest_job_wave_plan h (rw_dag w) st)"
  define res where "res = resolve_fanout_slices (rh_render h) (rj_wave_slices a) (rj_decompose_plan a) None
      (max (effective_max_slices a) (effective_engine_max_parallel_goals a)) (rj_require_plan a)"
  define st1 where "st1 = (if nonempty (rj_wave_slices a) then a else a\<lparr>rj_wave_slices := Some (fr_slices res)\<rparr>)"
  from assms have "fr_slices res \<noteq> [] \<and> dict_get (rw_jobs w') job = Some st1 \<and> rw_dag w' = rw_dag w \<and>
      (\<exists>all_ready. ready_unspawned_slice_ids h (rw_dag w) st1 = Inr all_ready \<and> ready \<noteq> [] \<and>
        ready = take (nat (effective_max_slices st1 - int (length (rj_spawned_slices st1)))) all_ready)"
    unfolding select_slices_def ingest_wave_plan_def Let_def
    by (auto simp: rail_run a_def [symmetric] res_def [symmetric] st1_def split: if_splits)
  moreover have "rj_spawned_slices st1 = rj_spawned_slices a" by (simp add: st1_def)
  moreover have "nonempty (rj_wave_slices st1)" if "fr_slices res \<noteq> []"
    using that by (simp add: st1_def nonempty_def split: option.split)
  ultimately show ?thesis by (auto simp: a_def)
qed

lemma effective_max_slices_frame [simp]:
  "effective_max_slices (st\<lparr>rj_annotations := anns\<rparr>) = effective_max_slices st"
  "effective_max_slices (st\<lparr>rj_spawned_slices := spawned\<rparr>) = effective_max_slices st"
  "effective_max_slices (st\<lparr>rj_wave_index := n\<rparr>) = effective_max_slices st"
  by (simp_all add: effective_max_slices_def split: option.split)

lemma spawn_makers_job:
  assumes "spawn_makers h job ready source w = (Inr r, w')" and "dict_get (rw_jobs w) job = Some st"
  shows "\<exists>st'. dict_get (rw_jobs w') job = Some st' \<and> effective_max_slices st' = effective_max_slices st \<and>
    set (dict_keys (rj_spawned_slices st')) = set (dict_keys (rj_spawned_slices st)) \<union> set ready \<and>
    length (rj_spawned_slices st') \<le> length (rj_spawned_slices st) + length ready \<and>
    vr_status r = VSuccess \<and> length (vr_created r) = length ready \<and> rj_wave_index st' = rj_wave_index st + 1"
proof -
  let ?repo = "job_workspace h (rw_dag w) job"
  let ?arch = "annotated_completed ''architecture'' st (rw_dag w)"
  let ?w1 = "w\<lparr>rw_jobs := dict_modify job (prepare_branches h job ?repo) (rw_jobs w)\<rparr>"
  let ?st1 = "prepare_branches h job ?repo st"
  obtain created w2 u w3 where made: "rmap (spawn_maker h job ?repo (spec_by_slice h st) ?arch) (List.enumerate 0 ready) ?w1 = (Inr created, w2)"
    and waits: "wait_for h job (append_new created) (w2\<lparr>rw_jobs := dict_modify job (\<lambda>s. s\<lparr>rj_wave_index := rj_wave_index s + 1\<rparr>) (rw_jobs w2)\<rparr>) = (Inr u, w3)"
    and r: "r = success (spawned_detail h (length created) ready source) created" "w' = w3"
    using assms unfolding spawn_makers_def by (auto simp: rail_run)
  have "dict_get (rw_jobs ?w1) job = Some ?st1" using assms(2) by simp
  from rmap_spawn_maker [OF made this] obtain anns spawned where
    st2: "dict_get (rw_jobs w2) job = Some (?st1\<lparr>rj_annotations := anns, rj_spawned_slices := spawned\<rparr>)"
      "set (dict_keys spawned) = set (dict_keys (rj_spawned_slices ?st1)) \<union> set ready"
      "length spawned \<le> length (rj_spawned_slices ?st1) + length ready" "length created = length ready" by blast
  moreover have "rj_spawned_slices ?st1 = rj_spawned_slices st" "effective_max_slices ?st1 = effective_max_slices st"
      "rj_wave_index ?st1 = rj_wave_index st"
    by (simp_all add: prepare_branches_def effective_max_slices_def split: option.split)
  ultimately show ?thesis
    using wait_for_jobs [OF waits] r by (simp add: success_def)
qed


section \<open>Merging makers\<close>

lemma merge_target_maker:
  assumes "merge_target d st trigger = Target maker ann g"
  shows "dict_get (rj_annotations st) maker = Some ann \<and> ''implementation'' \<in> set (ga_tags ann) \<and>
    ga_branch_status ann \<notin> {''merged'', ''pruned''} \<and> get_goal d maker = Some g \<and> g_status g = GCompleted \<and>
    resolve_inflight_for_maker d (Some st) maker = None"
  using assms unfolding merge_target_def by (auto split: option.splits if_splits)

definition awaits_merge :: "goal_dag \<Rightarrow> rail_job \<Rightarrow> ident \<Rightarrow> bool" where
  "awaits_merge d st m \<longleftrightarrow>
     (case dict_get (rj_annotations st) m of
        None \<Rightarrow> False
      | Some a \<Rightarrow> ''implementation'' \<in> set (ga_tags a) \<and> ''feedback'' \<notin> set (ga_tags a) \<and> ''resolve'' \<notin> set (ga_tags a) \<and>
          ga_branch_status a \<in> {''active'', ''conflict''}) \<and>
     (case get_goal d m of None \<Rightarrow> False | Some g \<Rightarrow> g_status g = GCompleted) \<and>
     resolve_inflight_for_maker d (Some st) m = None"

lemma unmerged_set:
  assumes "wf_dict (rj_annotations st)"
  shows "{m \<in> set (unmerged_maker_ids d (Some st)). resolve_inflight_for_maker d (Some st) m = None} = {m. awaits_merge d st m}"
proof -
  have "m \<in> fst ` {x \<in> set (rj_annotations st). P x} \<longleftrightarrow> (\<exists>a. dict_get (rj_annotations st) m = Some a \<and> P (m, a))" for m P
    using dict_get_in [OF assms] by force
  then show ?thesis
    unfolding unmerged_maker_ids_def awaits_merge_def by (auto split: option.split)
qed

lemma filter_sorted_first:
  assumes "sorted (map key xs)" and "filter P xs = m # ms" and "x \<in> set xs" and "P x"
  shows "key m \<le> key x"
proof -
  have "sorted (map key (filter P xs))" using assms(1) by (rule sorted_filter)
  moreover have "x \<in> set (m # ms)" using assms(2-4) by (metis (mono_tags, lifting) mem_Collect_eq set_filter)
  ultimately show ?thesis using assms(2) by auto
qed

lemma merge_target_facts:
  assumes wf: "wf_dict (rj_annotations st)"
  shows "(\<exists>m a g. merge_target d st None = Target m a g) \<longleftrightarrow> (\<exists>m. awaits_merge d st m)"
    and "merge_target d st None = Target m a g \<Longrightarrow> awaits_merge d st m \<and> get_goal d m = Some g \<and>
      (\<forall>m' g'. awaits_merge d st m' \<and> get_goal d m' = Some g' \<longrightarrow> g_created_at g \<le> g_created_at g')"
    and "merge_target d st trigger = Target m a g \<Longrightarrow> dict_get (rj_annotations st) m = Some a \<and>
      ga_branch_status a \<notin> {''merged'', ''pruned''} \<and> g_status g = GCompleted"
proof -
  let ?free = "\<lambda>m. resolve_inflight_for_maker d (Some st) m = None"
  let ?ids = "unmerged_maker_ids d (Some st)"
  have candidate: "merge_candidate d st None = (case filter ?free ?ids of m # _ \<Rightarrow> Some m | [] \<Rightarrow> None)"
    by (simp add: merge_candidate_def)
  have target: "\<exists>a g. merge_target d st None = Target m a g \<and> awaits_merge d st m \<and> get_goal d m = Some g"
    if "filter ?free ?ids = m # ms" for m ms
  proof -
    have "m \<in> set (filter ?free ?ids)" using that by simp
    then have "awaits_merge d st m" using unmerged_set [OF wf, of d] by auto
    then show ?thesis using that
      unfolding merge_target_def candidate by (auto simp: awaits_merge_def split: option.splits)
  qed
  have none: "merge_target d st None = NoTarget (skipped ''no unmerged maker ready (resolve inflight or none)'')" if "filter ?free ?ids = []"
    unfolding merge_target_def candidate using that by simp
  show "(\<exists>m a g. merge_target d st None = Target m a g) \<longleftrightarrow> (\<exists>m. awaits_merge d st m)"
  proof (cases "filter ?free ?ids")
    case Nil
    then have "\<not> awaits_merge d st m" for m using unmerged_set [OF wf, of d] unfolding filter_empty_conv by blast
    with none [OF Nil] show ?thesis by simp
  qed (use target in blast)
  show "awaits_merge d st m \<and> get_goal d m = Some g \<and>
      (\<forall>m' g'. awaits_merge d st m' \<and> get_goal d m' = Some g' \<longrightarrow> g_created_at g \<le> g_created_at g')"
    if t: "merge_target d st None = Target m a g"
  proof (cases "filter ?free ?ids")
    case Nil
    with none t show ?thesis by simp
  next
    case (Cons m0 ms)
    with target [OF Cons] t have m: "m0 = m" "awaits_merge d st m" "get_goal d m = Some g" by auto
    have "g_created_at g \<le> g_created_at g'" if "awaits_merge d st m'" "get_goal d m' = Some g'" for m' g'
    proof -
      have "m' \<in> set ?ids" "?free m'" using that(1) unmerged_set [OF wf, of d] by blast+
      moreover have "sorted (map (\<lambda>gid. (case get_goal d gid of None \<Rightarrow> 0 | Some g \<Rightarrow> g_created_at g, gid)) ?ids)"
        unfolding unmerged_maker_ids_def by simp
      ultimately have "(g_created_at g, m) \<le> (g_created_at g', m')"
        using filter_sorted_first [OF _ Cons] m(1,3) that(2) by fastforce
      then show ?thesis by auto
    qed
    with m show ?thesis by blast
  qed
  show "dict_get (rj_annotations st) m = Some a \<and> ga_branch_status a \<notin> {''merged'', ''pruned''} \<and> g_status g = GCompleted"
    if "merge_target d st trigger = Target m a g"
    using merge_target_maker [OF that] by blast
qed


section \<open>Runs\<close>

text \<open>A workspace with a dump of the plan, as the host itself writes it when a plan is applied.\<close>

definition dump_host :: rail_host where
  "dump_host = sample_host
     \<lparr>rh_files := \<lparr>hf_expand = id, hf_resolve = id,
        hf_read = (\<lambda>p. if p = ''/srv/x/.soothe/wave-plan.json'' then FileText ''plan'' else NotAFile)\<rparr>,
      rh_loads := (\<lambda>s. if s = ''plan'' then Some (JObj (wave_plan_to_dict sample_wave_plan)) else None)\<rparr>"

definition child_goal :: "ident \<Rightarrow> goal_status \<Rightarrow> string list \<Rightarrow> goal_node" where
  "child_goal gid status tags =
     (new_goal gid gid 0)\<lparr>g_status := status, g_parent_id := Some ''job'', g_rail_tags := tags\<rparr>"

definition run_world :: "rail_job \<Rightarrow> (ident \<times> goal_status \<times> goal_annotation) list \<Rightarrow> rail_world" where
  "run_world st children =
     \<lparr>rw_jobs = [(''job'', st\<lparr>rj_annotations := map (\<lambda>(gid, _, a). (gid, a)) children\<rparr>)],
      rw_dag = \<lparr>goals = (''job'', (new_goal ''job'' ''job'' 0)\<lparr>g_workspace := Some ''/srv/x''\<rparr>) #
                  map (\<lambda>(gid, status, a). (gid, child_goal gid status (ga_tags a))) children\<rparr>,
      rw_used = 0, rw_notified = []\<rparr>"

definition tagged :: "string list \<Rightarrow> string \<Rightarrow> goal_annotation" where
  "tagged tags branch = \<lparr>ga_tags = tags, ga_branch_id = Some branch, ga_branch_status = ''active'', ga_role = None\<rparr>"

definition job_after :: "'a outcome \<times> rail_world \<Rightarrow> rail_job option" where
  "job_after r = dict_get (rw_jobs (snd r)) ''job''"

text \<open>\<open>retry_architecture\<close> clears the plan so that stale slices cannot start makers, but the planning it then asks for
  reads the same dump back at once.\<close>

lemma stale_plan_is_restored:
  "map_option rj_wave_slices (job_after (do_retry_architecture dump_host False ''job'' (Some ''arch'')
      (run_world planned_job [(''arch'', GFailed, tagged [''architecture''] ''job'')]))) = Some (Some [''api'', ''db''])"
  by code_simp

text \<open>\<open>retry_maker\<close> files the new maker under the slug, not under the slice: the slice still points to the failed goal.\<close>

definition spaced_job :: rail_job where
  "spaced_job = (new_rail_job ''job'' ''custom'' ''1'')\<lparr>rj_wave_slices := Some [''auth api'']\<rparr>"

lemma retry_keeps_the_failed_maker:
  "(let w1 = snd (do_spawn_wave_makers sample_host ''job'' (run_world spaced_job []));
        w2 = w1\<lparr>rw_dag := dag_fail_goal 0 ''g0'' ''boom'' (rw_dag w1)\<rparr>
    in map_option rj_spawned_slices (job_after (do_retry_maker sample_host ''job'' (Some ''g0'') w2))) =
   Some [(''auth api'', ''g0''), (''auth-api'', ''g1'')]"
  by code_simp

text \<open>A failed \<open>resolve\<close> goal counts as a maker: retrying it starts a maker for a slice named \<open>resolve\<close>.\<close>

lemma retry_takes_resolve_for_a_slice:
  "map_option rj_spawned_slices (job_after (do_retry_maker sample_host ''job'' (Some ''r'')
      (run_world spaced_job [(''r'', GFailed, tagged [''resolve'', ''merge'', ''implementation''] ''b'')]))) =
   Some [(''resolve'', ''g0'')]"
  by code_simp

text \<open>\<open>retry_branch\<close> does not look at branches: a goal on another branch is cancelled and pruned too.\<close>

lemma retry_branch_prunes_every_branch:
  "(let r = do_retry_branch sample_host ''job''
        (run_world spaced_job [(''a'', GFailed, tagged [''implementation''] ''branch-a''), (''b'', GActive, tagged [''implementation''] ''branch-b'')])
    in map_option g_status (get_goal (rw_dag (snd r)) ''b'')) = Some GCancelled"
  by code_simp

text \<open>A plan with two slices of one name starts two makers for it.\<close>

definition twin_job :: rail_job where
  "twin_job = (new_rail_job ''job'' ''custom'' ''1'')
     \<lparr>rj_decompose_plan := Some (map decompose_entry [plain_slice ''core'' [], plain_slice ''core'' []])\<rparr>"

lemma duplicate_slices_start_two_makers:
  "(let r = do_spawn_wave_makers sample_host ''job'' (run_world twin_job [])
    in map_sum (\<lambda>_. ()) vr_created (fst r) = Inr [''g0'', ''g1''] \<and> map_option rj_spawned_slices (job_after r) = Some [(''core'', ''g1'')])"
  by code_simp

text \<open>\<open>${feedback_round}\<close> keeps its dollar sign, because \<open>{feedback_round}\<close> is replaced first.\<close>

lemma dollar_brace_keeps_the_dollar:
  "interpolate_recipe_text (new_rail_job ''job'' ''r'' ''1'') ''job'' ''round ${feedback_round}'' = ''round $0''"
  by code_simp



end
