(* ===== verification/Rail_Persistence.thy ===== *)
theory Rail_Persistence
  imports Rail_Verbs
begin

text \<open>
  \<open>rail_state.json\<close> (\<open>_persist_rail_state_unlocked\<close>, \<open>_load_rail_state_unlocked\<close> and \<open>_coerce_verb_overrides\<close> of
  \<open>rails/builtins_exec.py\<close>): the object that is written, with its keys sorted by \<open>json.dumps\<close>, and how it is read
  back. The text of the file is left out. A field of a type the writer never produces is read as absent where the
  code would keep the value as it is (the slice names, the plan, the strings of an annotation).
\<close>

section \<open>Writing\<close>

fun sort_json :: "json \<Rightarrow> json" where
  "sort_json (JList xs) = JList (map sort_json xs)"
| "sort_json (JObj kvs) = JObj (sort_key fst (map (\<lambda>(k, v). (k, sort_json v)) kvs))"
| "sort_json j = j"

definition sort_obj :: "obj \<Rightarrow> obj" where
  "sort_obj o' = sort_key fst (map (\<lambda>(k, v). (k, sort_json v)) o')"

definition str_json :: "string option \<Rightarrow> json" where
  "str_json v = (case v of None \<Rightarrow> JNull | Some s \<Rightarrow> JStr s)"

definition int_json :: "int option \<Rightarrow> json" where
  "int_json v = (case v of None \<Rightarrow> JNull | Some n \<Rightarrow> JInt n)"

definition annotation_payload :: "goal_annotation \<Rightarrow> json" where
  "annotation_payload a =
     JObj [(''tags'', JList (map JStr (ga_tags a))), (''branch_id'', str_json (ga_branch_id a)),
       (''branch_status'', JStr (ga_branch_status a)), (''role'', str_json (ga_role a))]"

definition rail_state_payload :: "rail_job \<Rightarrow> obj" where
  "rail_state_payload st =
     [(''job_id'', JStr (rj_job_id st)), (''rail_id'', JStr (rj_rail_id st)), (''rail_version'', JStr (rj_rail_version st)),
      (''suspended'', JBool (rj_suspended st)), (''completed'', JBool (rj_completed st)), (''scout_count'', int_json (rj_scout_count st)),
      (''decompose_plan'', case rj_decompose_plan st of None \<Rightarrow> JNull | Some specs \<Rightarrow> JList (map JObj specs)),
      (''wave_index'', JInt (rj_wave_index st)), (''max_waves'', JInt (rj_max_waves st)), (''max_slices'', int_json (rj_max_slices st)),
      (''wave_slices'', case rj_wave_slices st of None \<Rightarrow> JNull | Some ns \<Rightarrow> JList (map JStr ns)),
      (''spawned_slices'', JObj (map (\<lambda>(k, v). (k, JStr v)) (rj_spawned_slices st))),
      (''job_branch'', str_json (rj_job_branch st)), (''base_branch'', str_json (rj_base_branch st)),
      (''wave_plan_source_path'', str_json (rj_wave_plan_source_path st)), (''worktrees_enabled'', JBool (rj_worktrees_enabled st)),
      (''worktree_recycle_on_merge'', JBool (rj_recycle_on_merge st)), (''worktree_recycle_on_complete'', JBool (rj_recycle_on_complete st)),
      (''fanout_enabled'', JBool (rj_fanout_enabled st)), (''require_plan'', JBool (rj_require_plan st)),
      (''engine_max_parallel_goals'', int_json (rj_engine_max_parallel_goals st)), (''feedback_round'', JInt (rj_feedback_round st)),
      (''max_feedback_rounds'', JInt (rj_max_feedback_rounds st)), (''acceptance_met'', JBool (rj_acceptance_met st)),
      (''verb_overrides'', JObj (map (\<lambda>(k, v). (k, JObj v)) (rj_verb_overrides st))),
      (''last_pause_clarify'', case rj_last_pause_clarify st of None \<Rightarrow> JNull | Some audit \<Rightarrow> JObj audit),
      (''annotations'', JObj (map (\<lambda>(gid, a). (gid, annotation_payload a)) (rj_annotations st)))]"

definition written_state :: "rail_job \<Rightarrow> json" where
  "written_state st = sort_json (JObj (rail_state_payload st))"

section \<open>Reading\<close>

definition and_then :: "'a outcome \<Rightarrow> ('a \<Rightarrow> 'b outcome) \<Rightarrow> 'b outcome" where
  "and_then r f = (case r of Inl e \<Rightarrow> Inl e | Inr a \<Rightarrow> f a)"

definition str_of :: "json option \<Rightarrow> string option" where
  "str_of j = (case j of Some (JStr s) \<Rightarrow> Some s | _ \<Rightarrow> None)"

definition coerce_body :: "(json \<Rightarrow> string) \<Rightarrow> obj \<Rightarrow> obj" where
  "coerce_body render body =
     (case dict_get body ''brief'' of Some (JStr s) \<Rightarrow> (if py_strip s = [] then [] else [(''brief'', JStr (py_strip s))]) | _ \<Rightarrow> []) @
     (case dict_get body ''tags'' of
        Some (JList ts) \<Rightarrow> [(''tags'', JList (map JStr (filter (\<lambda>t. t \<noteq> []) (map (\<lambda>t. py_strip (str_of_json render t)) ts))))] | _ \<Rightarrow> []) @
     (case dict_get body ''role'' of Some (JStr s) \<Rightarrow> (if py_strip s = [] then [] else [(''role'', JStr (py_strip s))]) | _ \<Rightarrow> []) @
     (case dict_get body ''do'' of Some (JList (x # xs)) \<Rightarrow> [(''do'', JList (x # xs))] | _ \<Rightarrow> [])"

definition coerce_verb_overrides :: "(json \<Rightarrow> string) \<Rightarrow> json option \<Rightarrow> (string, obj) dict" where
  "coerce_verb_overrides render raw =
     (case raw of
        Some (JObj kvs) \<Rightarrow>
          foldl (\<lambda>out (name, body). case body of
                   JObj b \<Rightarrow> (if coerce_body render b = [] then out else dict_set (py_strip name) (coerce_body render b) out)
                 | _ \<Rightarrow> out) [] kvs
      | _ \<Rightarrow> [])"

definition opt_int :: "obj \<Rightarrow> string \<Rightarrow> int option outcome" where
  "opt_int raw k =
     (case dict_get raw k of None \<Rightarrow> Inr None | Some JNull \<Rightarrow> Inr None | Some j \<Rightarrow> map_sum id Some (int_of_json j))"

definition int_or :: "obj \<Rightarrow> string \<Rightarrow> int \<Rightarrow> int outcome" where
  "int_or raw k dflt = int_of_json (json_or (dict_get raw k) (JInt dflt))"

definition bool_or :: "obj \<Rightarrow> string \<Rightarrow> bool \<Rightarrow> bool" where
  "bool_or raw k dflt = (case dict_get raw k of None \<Rightarrow> dflt | Some j \<Rightarrow> json_true j)"

definition str_if_true :: "(json \<Rightarrow> string) \<Rightarrow> obj \<Rightarrow> string \<Rightarrow> string option" where
  "str_if_true render raw k =
     (case dict_get raw k of None \<Rightarrow> None | Some j \<Rightarrow> if json_true j then Some (str_of_json render j) else None)"

definition read_annotation :: "(json \<Rightarrow> string) \<Rightarrow> obj \<Rightarrow> goal_annotation outcome" where
  "read_annotation render raw =
     map_sum id (\<lambda>tags. \<lparr>ga_tags = tags, ga_branch_id = str_of (dict_get raw ''branch_id''),
         ga_branch_status = str_of_json render (json_or (dict_get raw ''branch_status'') (JStr ''active'')),
         ga_role = str_of (dict_get raw ''role'')\<rparr>)
       (strs_of_json render (json_or (dict_get raw ''tags'') (JList [])))"

fun read_annotations :: "(json \<Rightarrow> string) \<Rightarrow> obj \<Rightarrow> (ident, goal_annotation) dict \<Rightarrow> (ident, goal_annotation) dict outcome" where
  "read_annotations render [] out = Inr out"
| "read_annotations render ((gid, JObj raw) # rest) out =
     and_then (read_annotation render raw) (\<lambda>a. read_annotations render rest (dict_set gid a out))"
| "read_annotations render (_ # rest) out = read_annotations render rest out"

definition read_spawned :: "(json \<Rightarrow> string) \<Rightarrow> json \<Rightarrow> (string, ident) dict" where
  "read_spawned render j =
     (case j of
        JObj kvs \<Rightarrow> foldl (\<lambda>out (k, v). if k \<noteq> [] \<and> json_true v then dict_set k (str_of_json render v) out else out) [] kvs
      | _ \<Rightarrow> [])"

definition read_names :: "json option \<Rightarrow> string list option" where
  "read_names j =
     (case j of
        Some (JList xs) \<Rightarrow> (if list_all (\<lambda>x. str_of (Some x) \<noteq> None) xs then Some (map (\<lambda>x. opt_str (str_of (Some x))) xs) else None)
      | _ \<Rightarrow> None)"

definition read_specs :: "json option \<Rightarrow> obj list option" where
  "read_specs j =
     (case j of
        Some (JList xs) \<Rightarrow> Some (concat (map (\<lambda>x. case x of JObj o' \<Rightarrow> [o'] | _ \<Rightarrow> []) xs))
      | _ \<Rightarrow> None)"

definition state_of_obj :: "(json \<Rightarrow> string) \<Rightarrow> ident \<Rightarrow> obj \<Rightarrow> rail_job outcome" where
  "state_of_obj render job_id raw =
     and_then (case json_or (dict_get raw ''annotations'') (JObj []) of
                 JObj kvs \<Rightarrow> read_annotations render kvs []
               | _ \<Rightarrow> Inl (AttributeError ''object has no attribute items'')) (\<lambda>anns.
     and_then (opt_int raw ''max_slices'') (\<lambda>max_slices.
     and_then (opt_int raw ''scout_count'') (\<lambda>scout_count.
     and_then (int_or raw ''wave_index'' 0) (\<lambda>wave_index.
     and_then (int_or raw ''max_waves'' 32) (\<lambda>max_waves.
     and_then (opt_int raw ''engine_max_parallel_goals'') (\<lambda>engine_max.
     and_then (int_or raw ''feedback_round'' 0) (\<lambda>feedback_round.
     and_then (int_or raw ''max_feedback_rounds'' 8) (\<lambda>max_rounds.
     Inr \<lparr>rj_job_id = str_of_json render (json_or (dict_get raw ''job_id'') (JStr job_id)),
          rj_rail_id = str_of_json render (json_or (dict_get raw ''rail_id'') (JStr [])),
          rj_rail_version = str_of_json render (json_or (dict_get raw ''rail_version'') (JStr [])),
          rj_annotations = anns, rj_suspended = bool_or raw ''suspended'' False, rj_completed = bool_or raw ''completed'' False,
          rj_scout_count = scout_count, rj_decompose_plan = read_specs (dict_get raw ''decompose_plan''),
          rj_wave_index = wave_index, rj_max_waves = max_waves, rj_max_slices = max_slices,
          rj_wave_slices = read_names (dict_get raw ''wave_slices''),
          rj_spawned_slices = read_spawned render (json_or (dict_get raw ''spawned_slices'') (JObj [])),
          rj_job_branch = str_if_true render raw ''job_branch'', rj_base_branch = str_if_true render raw ''base_branch'',
          rj_wave_plan_source_path = str_if_true render raw ''wave_plan_source_path'',
          rj_worktrees_enabled = bool_or raw ''worktrees_enabled'' True,
          rj_recycle_on_merge = bool_or raw ''worktree_recycle_on_merge'' True,
          rj_recycle_on_complete = bool_or raw ''worktree_recycle_on_complete'' True,
          rj_fanout_enabled = bool_or raw ''fanout_enabled'' (bool_or raw ''require_plan'' False),
          rj_require_plan = bool_or raw ''require_plan'' False,
          rj_engine_max_parallel_goals = engine_max, rj_feedback_round = feedback_round, rj_max_feedback_rounds = max_rounds,
          rj_acceptance_met = bool_or raw ''acceptance_met'' False,
          rj_verb_overrides = coerce_verb_overrides render (dict_get raw ''verb_overrides''),
          rj_last_pause_clarify = (case dict_get raw ''last_pause_clarify'' of Some (JObj audit) \<Rightarrow> Some audit | _ \<Rightarrow> None)\<rparr>))))))))"

text \<open>\<open>file\<close> is what the file parses to, if it exists and is JSON.\<close>

definition load_rail_state :: "(json \<Rightarrow> string) \<Rightarrow> ident \<Rightarrow> json option \<Rightarrow> rail_job option outcome" where
  "load_rail_state render job_id file =
     (case file of
        Some (JObj raw) \<Rightarrow> map_sum id Some (state_of_obj render job_id raw)
      | _ \<Rightarrow> Inr None)"

section \<open>Sorted keys\<close>

lemma get_map_value: "dict_get (map (\<lambda>(k, v). (k, f v)) d) k = map_option f (dict_get d k)"
  by (induction d) auto

lemma keys_map_value: "map fst (map (\<lambda>(k, v). (k, f v)) d) = dict_keys d"
  by (induction d) auto

lemma get_sort_key: "distinct (map fst d) \<Longrightarrow> dict_get (sort_key fst d) k = dict_get d k"
proof -
  assume d: "distinct (map fst d)"
  have "distinct (map fst (sort_key fst d))"
    using d by (metis distinct_sort distinct_map inj_on_def set_sort)
  then have "map_of (sort_key fst d) = map_of d" using d by (simp add: map_of_inject_set)
  then show ?thesis by simp
qed

lemma insort_map_value: "insort_key fst (k, f v) (map (\<lambda>(k, v). (k, f v)) d) = map (\<lambda>(k, v). (k, f v)) (insort_key fst (k, v) d)"
  by (induction d) auto

lemma sort_map_value: "sort_key fst (map (\<lambda>(k, v). (k, f v)) d) = map (\<lambda>(k, v). (k, f v)) (sort_key fst d)"
  by (induction d) (auto simp: insort_map_value)

lemma sort_obj_map_value: "sort_obj (map (\<lambda>(k, v). (k, f v)) d) = map (\<lambda>(k, v). (k, sort_json (f v))) (sort_key fst d)"
proof -
  have "map (\<lambda>(k, v). (k, sort_json v)) (map (\<lambda>(k, v). (k, f v)) d) = map (\<lambda>(k, v). (k, sort_json (f v))) d" by auto
  then show ?thesis unfolding sort_obj_def by (simp only: sort_map_value)
qed

lemma get_sort_obj: "distinct (map fst o') \<Longrightarrow> dict_get (sort_obj o') k = map_option sort_json (dict_get o' k)"
  unfolding sort_obj_def by (subst get_sort_key) (simp_all add: get_map_value keys_map_value del: map_map)

lemma sort_json_obj: "sort_json (JObj o') = JObj (sort_obj o')"
  by (simp add: sort_obj_def)

lemma payload_keys: "distinct (map fst (rail_state_payload st))"
  by (simp add: rail_state_payload_def)

lemma sort_json_leaves [simp]:
  "sort_json (str_json v) = str_json v" "sort_json (int_json n) = int_json n" "sort_json (JList (map JStr ns)) = JList (map JStr ns)"
  by (simp_all add: str_json_def int_json_def comp_def split: option.split)

section \<open>Round trip\<close>

lemma foldl_dict_set:
  assumes "distinct (map fst xs)"
  shows "foldl (\<lambda>out (k, v). dict_set k (f v) out) [] xs = map (\<lambda>(k, v). (k, f v)) xs"
  using assms
proof (induction xs rule: rev_induct)
  case (snoc p xs)
  obtain k v where p: "p = (k, v)" by (cases p)
  have "k \<notin> set (dict_keys (map (\<lambda>(k, v). (k, f v)) xs))" using snoc.prems p unfolding keys_map_value by simp
  then show ?case using snoc p by (simp add: dict_set_new)
qed simp

lemma read_annotation_payload:
  assumes "ga_branch_status a \<noteq> []"
  shows "read_annotation render (sort_obj [(''tags'', JList (map JStr (ga_tags a))), (''branch_id'', str_json (ga_branch_id a)),
       (''branch_status'', JStr (ga_branch_status a)), (''role'', str_json (ga_role a))]) = Inr a"
proof -
  have "str_of (Some (str_json v)) = v" for v by (simp add: str_of_def str_json_def split: option.split)
  then show ?thesis using assms
    by (simp add: read_annotation_def get_sort_obj json_or_def str_of_json_def strs_of_json_def comp_def)
qed

lemma read_annotations_payload:
  assumes "\<forall>(gid, a) \<in> set anns. ga_branch_status a \<noteq> []" and "distinct (map fst anns)" and "set (map fst anns) \<inter> set (map fst out) = {}"
  shows "read_annotations render (map (\<lambda>(gid, a). (gid, sort_json (annotation_payload a))) anns) out = Inr (out @ anns)"
  using assms
proof (induction anns arbitrary: out)
  case (Cons p anns)
  obtain gid a where p: "p = (gid, a)" by (cases p)
  have new: "dict_set gid a out = out @ [(gid, a)]" using Cons.prems(3) p by (intro dict_set_new) auto
  have "read_annotations render (map (\<lambda>(gid, a). (gid, sort_json (annotation_payload a))) anns) (out @ [(gid, a)]) = Inr ((out @ [(gid, a)]) @ anns)"
    using Cons.prems p by (intro Cons.IH) auto
  then show ?case
    using read_annotation_payload [of a] Cons.prems(1)
    by (simp add: p annotation_payload_def sort_json_obj and_then_def new del: sort_json.simps)
qed simp

text \<open>What a job must satisfy for the file to hold all of it: the code replaces 0 and empty texts by defaults when it reads.\<close>

definition storable :: "rail_job \<Rightarrow> bool" where
  "storable st \<longleftrightarrow>
     rj_job_id st \<noteq> [] \<and> rj_max_waves st \<noteq> 0 \<and> rj_max_feedback_rounds st \<noteq> 0 \<and>
     rj_job_branch st \<noteq> Some [] \<and> rj_base_branch st \<noteq> Some [] \<and> rj_wave_plan_source_path st \<noteq> Some [] \<and>
     wf_dict (rj_annotations st) \<and> wf_dict (rj_spawned_slices st) \<and>
     list_all (\<lambda>(gid, a). ga_branch_status a \<noteq> []) (rj_annotations st) \<and>
     list_all (\<lambda>(k, v). k \<noteq> [] \<and> v \<noteq> []) (rj_spawned_slices st)"

lemma read_spawned_payload:
  assumes "wf_dict sp" and "list_all (\<lambda>(k, v). k \<noteq> [] \<and> v \<noteq> []) sp"
  shows "read_spawned render (JObj (sort_obj (map (\<lambda>(k, v). (k, JStr v)) sp))) = sort_key fst sp"
proof -
  have sorted: "sort_obj (map (\<lambda>(k, v). (k, JStr v)) sp) = map (\<lambda>(k, v). (k, JStr v)) (sort_key fst sp)"
    by (simp add: sort_obj_map_value)
  have "distinct (map fst (sort_key fst sp))"
    using assms(1) unfolding wf_dict_def by (metis distinct_map distinct_sort set_sort)
  moreover have "(k, v) \<in> set (sort_key fst sp) \<Longrightarrow> k \<noteq> [] \<and> v \<noteq> []" for k v using assms(2) by (auto simp: list_all_iff)
  then have "foldl (\<lambda>out (k, v). if k \<noteq> [] \<and> json_true v then dict_set k (str_of_json render v) out else out) []
      (map (\<lambda>(k, v). (k, JStr v)) (sort_key fst sp)) = foldl (\<lambda>out (k, v). dict_set k (id v) out) [] (sort_key fst sp)"
    unfolding foldl_map by (intro foldl_cong) (auto simp: str_of_json_def)
  ultimately show ?thesis unfolding read_spawned_def sorted by (simp add: foldl_dict_set)
qed


text \<open>What the file does not hold: a bound of 0 rounds comes back as 8 rounds.\<close>

lemma zero_rounds_come_back_as_eight:
  "map_sum id (map_option rj_max_feedback_rounds) (load_rail_state (\<lambda>_. []) ''job''
     (Some (written_state ((new_rail_job ''job'' ''r'' ''1'')\<lparr>rj_max_feedback_rounds := 0\<rparr>)))) = Inr (Some 8)"
  by code_simp

text \<open>The order of the annotations is lost, and \<open>review\<close> takes the last commit milestone in it: before the restart the
  newest one, after it the one with the greatest id.\<close>

definition committed_job :: rail_job where
  "committed_job = (new_rail_job ''job'' ''r'' ''1'')\<lparr>rj_annotations :=
     map (\<lambda>gid. (gid, \<lparr>ga_tags = [''commit''], ga_branch_id = None, ga_branch_status = ''active'', ga_role = None\<rparr>)) [''zz'', ''aa'']\<rparr>"

definition committed_dag :: goal_dag where
  "committed_dag = \<lparr>goals = map (\<lambda>gid. (gid, (new_goal gid gid 0)\<lparr>g_status := GCompleted\<rparr>)) [''zz'', ''aa'']\<rparr>"

lemma restart_changes_the_last_commit:
  "last (annotated_completed ''commit'' committed_job committed_dag) = ''aa'' \<and>
   map_sum id (map_option (\<lambda>st. last (annotated_completed ''commit'' st committed_dag)))
     (load_rail_state (\<lambda>_. []) ''job'' (Some (written_state committed_job))) = Inr (Some ''zz'')"
  by (intro conjI; code_simp)


end
