(* ===== verification/Rail_Catalog.thy ===== *)
theory Rail_Catalog
  imports Rail_Fanout Rail_Persistence
begin

text \<open>
  Rails as documents: the checks of \<open>rails/catalog.py\<close> and \<open>rails/l0_schema.py\<close> on the parsed YAML of a rail, which
  is JSON here (the keys that YAML 1.1 reads as booleans do not occur). An error is a \<open>ValueError\<close> whose text leaves
  out the path and the lists of allowed names. Finding and hashing the files is left out.
\<close>

section \<open>Rails\<close>

record rail_def =
  rd_id :: string
  rd_version :: string
  rd_summary :: string
  rd_applies_when :: string
  rd_conditions :: "(string, string) dict"
  rd_flow :: "obj list"
  rd_rules :: "obj list"
  rd_fanout :: obj
  rd_verbs :: "(string, obj) dict"
  rd_worktrees :: obj
  rd_auto_pick :: bool

definition CE_RAIL_BUILTINS :: "string set" where
  "CE_RAIL_BUILTINS =
     {''decompose_parallel'', ''plan_and_implement'', ''plan_milestones'', ''spawn_wave_makers'', ''spawn_integrate'',
      ''commit_milestone'', ''spawn_feedback_cycle'', ''review'', ''qa_verify'', ''retry_branch'', ''retry_maker'',
      ''retry_architecture'', ''merge_branches'', ''land_job_branch'', ''pause_for_user'', ''complete_job''}"

definition L0_OPS :: "string set" where
  "L0_OPS = {''spawn_goal'', ''wire_deps'', ''gate'', ''bump'', ''pause_job'', ''complete_job''}"

definition catalog_error :: "string \<Rightarrow> 'a outcome" where
  "catalog_error msg = Inl (ValueError msg)"

definition present :: "obj \<Rightarrow> string \<Rightarrow> json option" where
  "present o' k = (case dict_get o' k of None \<Rightarrow> None | Some JNull \<Rightarrow> None | Some j \<Rightarrow> Some j)"

fun and_all :: "('a \<Rightarrow> 'b outcome) \<Rightarrow> 'a list \<Rightarrow> 'b list outcome" where
  "and_all f [] = Inr []"
| "and_all f (x # xs) = and_then (f x) (\<lambda>y. and_then (and_all f xs) (\<lambda>ys. Inr (y # ys)))"

definition is_safe_rail_id :: "string \<Rightarrow> bool" where
  "is_safe_rail_id i \<longleftrightarrow>
     py_strip i \<noteq> [] \<and> CHR 0x2F \<notin> set i \<and> CHR 0x5C \<notin> set i \<and> \<not> contains ''..'' i"

section \<open>Policies\<close>

definition bool_field :: "string \<Rightarrow> obj \<Rightarrow> string \<Rightarrow> obj outcome" where
  "bool_field what raw k =
     (case present raw k of
        None \<Rightarrow> Inr []
      | Some (JBool b) \<Rightarrow> Inr [(k, JBool b)]
      | Some _ \<Rightarrow> catalog_error (what @ ''.'' @ k @ '' must be a bool''))"

definition normalize_worktrees :: "json option \<Rightarrow> obj outcome" where
  "normalize_worktrees raw =
     (case raw of
        None \<Rightarrow> Inr []
      | Some JNull \<Rightarrow> Inr []
      | Some (JObj o') \<Rightarrow>
          if \<not> set (dict_keys o') \<subseteq> {''enabled'', ''recycle_on_merge'', ''recycle_on_complete''}
          then catalog_error ''worktrees unknown key(s)''
          else map_sum id concat (and_all (bool_field ''worktrees'' o') [''enabled'', ''recycle_on_merge'', ''recycle_on_complete''])
      | Some _ \<Rightarrow> catalog_error ''worktrees must be a mapping when present'')"

definition ranged_field :: "obj \<Rightarrow> string \<Rightarrow> obj outcome" where
  "ranged_field raw k =
     (case present raw k of
        None \<Rightarrow> Inr []
      | Some j \<Rightarrow>
          (case int_of_json j of
             Inl _ \<Rightarrow> catalog_error (''fanout.'' @ k @ '' must be an int'')
           | Inr n \<Rightarrow> if n < 1 \<or> n > 32 then catalog_error (''fanout.'' @ k @ '' out of range 1..32'') else Inr [(k, JInt n)]))"

definition normalize_fanout :: "json option \<Rightarrow> obj outcome" where
  "normalize_fanout raw =
     (case raw of
        None \<Rightarrow> Inr []
      | Some JNull \<Rightarrow> Inr []
      | Some (JObj o') \<Rightarrow>
          if present o' ''artifact'' \<noteq> None then catalog_error ''fanout.artifact is removed''
          else if present o' ''default_modules'' \<noteq> None then catalog_error ''fanout.default_modules is not supported''
          else and_then (bool_field ''fanout'' o' ''require_plan'') (\<lambda>a.
               and_then (ranged_field o' ''scout_count'') (\<lambda>b.
               and_then (ranged_field o' ''max_waves'') (\<lambda>c. Inr (a @ b @ c))))
      | Some _ \<Rightarrow> catalog_error ''fanout must be a mapping when present'')"

definition normalize_auto_pick :: "json option \<Rightarrow> bool outcome" where
  "normalize_auto_pick raw =
     (case raw of
        None \<Rightarrow> Inr True | Some JNull \<Rightarrow> Inr True | Some (JBool b) \<Rightarrow> Inr b
      | Some _ \<Rightarrow> catalog_error ''auto_pick must be a bool when present'')"

section \<open>Recipes\<close>

definition is_str :: "json \<Rightarrow> bool" where
  "is_str j \<longleftrightarrow> (case j of JStr _ \<Rightarrow> True | _ \<Rightarrow> False)"

definition json_text :: "json \<Rightarrow> string" where
  "json_text j = (case j of JStr s \<Rightarrow> s | _ \<Rightarrow> [])"

definition blank :: "json \<Rightarrow> bool" where
  "blank j \<longleftrightarrow> \<not> is_str j \<or> py_strip (json_text j) = []"

definition str_list :: "json \<Rightarrow> bool" where
  "str_list j \<longleftrightarrow> (case j of JList xs \<Rightarrow> list_all is_str xs | _ \<Rightarrow> False)"

definition bump_counter :: "(json \<Rightarrow> string) \<Rightarrow> json \<Rightarrow> string option" where
  "bump_counter render spec =
     (case spec of
        JStr s \<Rightarrow> Some (py_strip s)
      | JObj o' \<Rightarrow> Some (py_strip (str_of_json render (json_or (dict_get o' ''counter'') (JStr []))))
      | _ \<Rightarrow> None)"

definition check_op :: "(json \<Rightarrow> string) \<Rightarrow> string \<Rightarrow> json \<Rightarrow> unit outcome" where
  "check_op render op spec =
     (if op \<notin> L0_OPS then catalog_error (''unknown L0 op '' @ op)
      else if op = ''spawn_goal''
      then (case spec of
              JObj o' \<Rightarrow>
                if (case dict_get o' ''brief'' of None \<Rightarrow> True | Some b \<Rightarrow> blank b) then catalog_error ''spawn_goal.brief required''
                else if (case present o' ''tags'' of None \<Rightarrow> False | Some t \<Rightarrow> \<not> str_list t) then catalog_error ''spawn_goal.tags must be list[str]''
                else if (case present o' ''intake_scope'' of None \<Rightarrow> False
                         | Some s \<Rightarrow> \<not> is_str s \<or> scope_of (py_lower (py_strip (json_text s))) = None)
                then catalog_error ''spawn_goal.intake_scope must be minimal|simple|complex''
                else Inr ()
            | _ \<Rightarrow> catalog_error ''spawn_goal must be a mapping'')
      else if op = ''bump''
      then (case bump_counter render spec of
              None \<Rightarrow> catalog_error ''bump must be str or mapping''
            | Some c \<Rightarrow> if c \<in> {''feedback_round'', ''wave_index''} then Inr () else catalog_error ''bump unsupported counter'')
      else if op = ''gate''
      then (case spec of JNull \<Rightarrow> Inr () | JObj _ \<Rightarrow> Inr () | _ \<Rightarrow> catalog_error ''gate must be a mapping'')
      else if op = ''wire_deps''
      then (case spec of JObj _ \<Rightarrow> Inr () | _ \<Rightarrow> catalog_error ''wire_deps must be a mapping'')
      else Inr ())"

definition check_step :: "(json \<Rightarrow> string) \<Rightarrow> json \<Rightarrow> json outcome" where
  "check_step render item =
     (case item of
        JObj [(op, spec)] \<Rightarrow> and_then (check_op render op spec) (\<lambda>_. Inr (JObj [(op, spec)]))
      | _ \<Rightarrow> catalog_error ''do step must be a single-key mapping'')"

definition normalize_do_steps :: "(json \<Rightarrow> string) \<Rightarrow> json \<Rightarrow> json list outcome" where
  "normalize_do_steps render raw =
     (case raw of
        JList (x # xs) \<Rightarrow> and_all (check_step render) (x # xs)
      | _ \<Rightarrow> catalog_error ''do must be a non-empty list'')"

section \<open>Verbs\<close>

definition text_field :: "string \<Rightarrow> obj \<Rightarrow> string \<Rightarrow> obj outcome" where
  "text_field verb body k =
     (case present body k of
        None \<Rightarrow> Inr []
      | Some j \<Rightarrow> if blank j then catalog_error (''verbs.'' @ verb @ ''.'' @ k @ '' must be a non-empty string'')
                 else Inr [(k, JStr (py_strip (json_text j)))])"

definition tags_field :: "string \<Rightarrow> obj \<Rightarrow> obj outcome" where
  "tags_field verb body =
     (case present body ''tags'' of
        None \<Rightarrow> Inr []
      | Some (JList ts) \<Rightarrow>
          if list_all is_str ts
          then Inr [(''tags'', JList (map JStr (filter (\<lambda>t. t \<noteq> []) (map (\<lambda>t. py_strip (json_text t)) ts))))]
          else catalog_error (''verbs.'' @ verb @ ''.tags must be a list of strings'')
      | Some _ \<Rightarrow> catalog_error (''verbs.'' @ verb @ ''.tags must be a list of strings''))"

definition do_field :: "(json \<Rightarrow> string) \<Rightarrow> obj \<Rightarrow> obj outcome" where
  "do_field render body =
     (case present body ''do'' of
        None \<Rightarrow> Inr []
      | Some j \<Rightarrow> map_sum id (\<lambda>steps. [(''do'', JList steps)]) (normalize_do_steps render j))"

definition verb_entry :: "(json \<Rightarrow> string) \<Rightarrow> string \<times> json \<Rightarrow> (string \<times> obj) outcome" where
  "verb_entry render nb =
     (let verb = py_strip (fst nb)
      in if verb = [] then catalog_error ''verbs keys must be non-empty strings''
         else if verb \<notin> CE_RAIL_BUILTINS then catalog_error (''verbs.'' @ verb @ '' is not a known catalog verb'')
         else (case snd nb of
                 JObj body \<Rightarrow>
                   if \<not> set (dict_keys body) \<subseteq> {''brief'', ''tags'', ''role'', ''do''}
                   then catalog_error (''verbs.'' @ verb @ '' unknown key(s)'')
                   else and_then (text_field verb body ''brief'') (\<lambda>a.
                        and_then (tags_field verb body) (\<lambda>b.
                        and_then (text_field verb body ''role'') (\<lambda>c.
                        and_then (do_field render body) (\<lambda>d.
                          if a @ b @ c @ d = [] then catalog_error (''verbs.'' @ verb @ '' must set at least one of brief/tags/role/do'')
                          else Inr (verb, a @ b @ c @ d)))))
               | _ \<Rightarrow> catalog_error (''verbs.'' @ verb @ '' must be a mapping'')))"

definition normalize_verbs :: "(json \<Rightarrow> string) \<Rightarrow> json option \<Rightarrow> (string, obj) dict outcome" where
  "normalize_verbs render raw =
     (case raw of
        None \<Rightarrow> Inr []
      | Some JNull \<Rightarrow> Inr []
      | Some (JObj o') \<Rightarrow> map_sum id (foldl (\<lambda>out (verb, entry). dict_set verb entry out) []) (and_all (verb_entry render) o')
      | Some _ \<Rightarrow> catalog_error ''verbs must be a mapping when present'')"

section \<open>Documents\<close>

definition require_str :: "obj \<Rightarrow> string \<Rightarrow> string outcome" where
  "require_str data k =
     (case dict_get data k of
        None \<Rightarrow> catalog_error (''missing or empty required field '' @ quoted k)
      | Some j \<Rightarrow> if blank j then catalog_error (''missing or empty required field '' @ quoted k) else Inr (py_strip (json_text j)))"

definition condition_entry :: "string \<times> json \<Rightarrow> (string \<times> string) outcome" where
  "condition_entry p =
     (if is_str (snd p) then Inr (fst p, py_strip (json_text (snd p))) else catalog_error ''conditions entries must be strings'')"

definition normalize_conditions :: "json option \<Rightarrow> (string, string) dict outcome" where
  "normalize_conditions raw =
     (case raw of
        None \<Rightarrow> Inr [] | Some JNull \<Rightarrow> Inr []
      | Some (JObj o') \<Rightarrow> and_all condition_entry o'
      | Some _ \<Rightarrow> catalog_error ''conditions must be a mapping'')"

text \<open>The legacy key \<open>on\<close> becomes \<open>event\<close>, unless one came before; a later \<open>event\<close> replaces it.\<close>

definition normalize_flow_entry_keys :: "obj \<Rightarrow> obj" where
  "normalize_flow_entry_keys entry =
     foldl (\<lambda>fixed (k, v). if k = ''on'' then set_default ''event'' v fixed else dict_set k v fixed) [] entry"

definition flow_item :: "string \<Rightarrow> json \<Rightarrow> obj outcome" where
  "flow_item field j = (case j of JObj o' \<Rightarrow> Inr (normalize_flow_entry_keys o') | _ \<Rightarrow> catalog_error (field @ '' items must be mappings''))"

definition normalize_list_of_maps :: "string \<Rightarrow> json option \<Rightarrow> obj list outcome" where
  "normalize_list_of_maps field raw =
     (case raw of
        None \<Rightarrow> Inr [] | Some JNull \<Rightarrow> Inr []
      | Some (JList xs) \<Rightarrow> and_all (flow_item field) xs
      | Some _ \<Rightarrow> catalog_error (field @ '' must be a list''))"

definition then_verb :: "obj \<Rightarrow> string list outcome" where
  "then_verb entry =
     (case dict_get entry ''then'' of
        None \<Rightarrow> Inr [] | Some JNull \<Rightarrow> Inr [] | Some (JStr s) \<Rightarrow> Inr [s]
      | Some _ \<Rightarrow> catalog_error ''then must be a verb string'')"

definition collect_then_verbs :: "obj list \<Rightarrow> obj list \<Rightarrow> string list outcome" where
  "collect_then_verbs flow rules = map_sum id concat (and_all then_verb (flow @ rules))"

definition load_rail :: "(json \<Rightarrow> string) \<Rightarrow> string \<Rightarrow> json \<Rightarrow> rail_def outcome" where
  "load_rail render stem doc =
     (case doc of
        JObj data \<Rightarrow>
          and_then (require_str data ''id'') (\<lambda>rail_id.
          if stem \<noteq> rail_id then catalog_error ''id must match filename stem''
          else if \<not> is_safe_rail_id rail_id then catalog_error ''rail id contains path traversal characters''
          else
            and_then (require_str data ''version'') (\<lambda>version.
            and_then (require_str data ''summary'') (\<lambda>summary.
            and_then (require_str data ''applies_when'') (\<lambda>applies_when.
            and_then (normalize_conditions (dict_get data ''conditions'')) (\<lambda>conditions.
            and_then (normalize_list_of_maps ''flow'' (dict_get data ''flow'')) (\<lambda>flow.
            and_then (normalize_list_of_maps ''rules'' (dict_get data ''rules'')) (\<lambda>rules.
            and_then (normalize_fanout (dict_get data ''fanout'')) (\<lambda>fanout.
            and_then (normalize_verbs render (dict_get data ''verbs'')) (\<lambda>verbs.
            and_then (normalize_worktrees (dict_get data ''worktrees'')) (\<lambda>worktrees.
            and_then (normalize_auto_pick (dict_get data ''auto_pick'')) (\<lambda>auto_pick.
            if flow = [] \<and> rules = [] then catalog_error ''rail must define flow and/or rules''
            else and_then (collect_then_verbs flow rules) (\<lambda>used.
              if \<not> set used \<subseteq> CE_RAIL_BUILTINS then catalog_error ''unknown then: verb(s)''
              else Inr \<lparr>rd_id = rail_id, rd_version = version, rd_summary = summary, rd_applies_when = applies_when,
                        rd_conditions = conditions, rd_flow = flow, rd_rules = rules, rd_fanout = fanout, rd_verbs = verbs,
                        rd_worktrees = worktrees, rd_auto_pick = auto_pick\<rparr>))))))))))))
      | _ \<Rightarrow> catalog_error ''rail document must be a mapping'')"

section \<open>What the catalog guarantees\<close>

lemma and_then_Inr [simp]: "and_then r f = Inr b \<longleftrightarrow> (\<exists>a. r = Inr a \<and> f a = Inr b)"
  by (cases r) (simp_all add: and_then_def)

lemma and_all_Inr: "and_all f xs = Inr ys \<Longrightarrow> list_all2 (\<lambda>x y. f x = Inr y) xs ys"
  by (induction xs arbitrary: ys) auto

lemma and_all_member: "and_all f xs = Inr ys \<Longrightarrow> y \<in> set ys \<Longrightarrow> \<exists>x \<in> set xs. f x = Inr y"
  by (induction xs arbitrary: ys) auto

lemma catalog_error_not [simp]: "catalog_error msg \<noteq> Inr x"
  by (simp add: catalog_error_def)

definition runnable_step :: "json \<Rightarrow> bool" where
  "runnable_step step \<longleftrightarrow> (case step of JObj [(op, spec)] \<Rightarrow> op \<in> L0_OPS | _ \<Rightarrow> False)"

lemma check_step_runnable: "check_step render item = Inr step \<Longrightarrow> runnable_step step"
  by (auto simp: check_step_def runnable_step_def check_op_def split: json.splits list.splits if_splits)

lemma normalize_do_steps_runnable: "normalize_do_steps render raw = Inr steps \<Longrightarrow> steps \<noteq> [] \<and> list_all runnable_step steps"
proof -
  assume "normalize_do_steps render raw = Inr steps"
  then obtain x xs where "and_all (check_step render) (x # xs) = Inr steps"
    unfolding normalize_do_steps_def by (cases raw) (auto split: list.splits simp del: and_all.simps)
  then show ?thesis using check_step_runnable and_all_member
    unfolding list_all_iff by (metis and_all_Inr list.rel_distinct(2))
qed

lemma recipe_op_known: "op \<in> L0_OPS \<Longrightarrow> \<exists>f. recipe_op h auto_clarify op = Some f"
  by (auto simp: L0_OPS_def recipe_op_def)

lemma recipe_steps_runnable:
  "list_all runnable_step steps \<Longrightarrow> recipe_steps h auto_clarify i steps ctx w \<noteq> (Inr (Inl e), w')"
proof (induction steps arbitrary: i ctx w)
  case (Cons step steps)
  obtain op spec where step: "step = JObj [(op, spec)]" "op \<in> L0_OPS"
    using Cons.prems by (auto simp: runnable_step_def split: json.splits list.splits)
  obtain f where f: "recipe_op h auto_clarify op = Some f" using recipe_op_known [OF step(2)] by blast
  have IH: "recipe_steps h auto_clarify (Suc i) steps c w1 \<noteq> (Inr (Inl e), w')" for c w1
    using Cons by simp
  show ?case using IH by (auto simp: step f ret_def rbind_Inr)
qed (simp add: ret_def)

lemma then_verb_used:
  assumes "collect_then_verbs flow rules = Inr used" and "entry \<in> set (flow @ rules)" and "dict_get entry ''then'' = Some (JStr verb)"
  shows "verb \<in> set used"
proof -
  obtain vss where vss: "and_all then_verb (flow @ rules) = Inr vss" "used = concat vss"
    using assms(1) unfolding collect_then_verbs_def by (cases "and_all then_verb (flow @ rules)") auto
  obtain k where k: "k < length (flow @ rules)" "(flow @ rules) ! k = entry" using assms(2) by (metis in_set_conv_nth)
  have "then_verb entry = Inr (vss ! k)" "k < length vss"
    using and_all_Inr [OF vss(1)] k by (auto simp: list_all2_conv_all_nth)
  then have "vss ! k = [verb]" using assms(3) by (simp add: then_verb_def)
  then show ?thesis using vss(2) \<open>k < length vss\<close> by (metis concat.simps(2) concat_eq_Nil_conv in_set_conv_nth list.set_intros(1) nth_mem set_concat UN_I)
qed

lemma builtin_handled: "verb \<in> CE_RAIL_BUILTINS \<Longrightarrow> native_handler h auto_clarify job trigger verb \<noteq> None"
  by (auto simp: CE_RAIL_BUILTINS_def native_handler_def)

lemma foldl_set_member:
  "dict_get (foldl (\<lambda>out (k, v). dict_set k v out) out kvs) k = Some v \<Longrightarrow> dict_get out k = Some v \<or> (k, v) \<in> set kvs"
proof (induction kvs arbitrary: out)
  case (Cons p kvs)
  obtain a b where p: "p = (a, b)" by (cases p)
  then show ?case using Cons.IH [of "dict_set a b out"] Cons.prems by (auto split: if_splits)
qed simp

lemma verb_entry_recipe:
  assumes "verb_entry render nb = Inr (verb, body)" and "dict_get body ''do'' = Some (JList steps)"
  shows "steps \<noteq> [] \<and> list_all runnable_step steps"
proof -
  obtain b where b: "snd nb = JObj b" using assms(1) by (auto simp: verb_entry_def Let_def split: if_splits json.splits)
  obtain e1 e2 e3 e4 where e: "text_field (py_strip (fst nb)) b ''brief'' = Inr e1" "tags_field (py_strip (fst nb)) b = Inr e2"
      "text_field (py_strip (fst nb)) b ''role'' = Inr e3" "do_field render b = Inr e4" "body = e1 @ e2 @ e3 @ e4"
    using assms(1) by (auto simp: verb_entry_def Let_def b split: if_splits)
  have "dict_get e1 ''do'' = None" "dict_get e2 ''do'' = None" "dict_get e3 ''do'' = None"
    using e(1-3) by (auto simp: text_field_def tags_field_def split: option.splits if_splits json.splits)
  then have "dict_get e4 ''do'' = Some (JList steps)" using assms(2) e(5) by (simp add: map_add_def)
  then show ?thesis using e(4) normalize_do_steps_runnable
    by (auto simp: do_field_def split: option.splits) (cases "normalize_do_steps render (the (present b ''do''))"; auto)+
qed

lemma normalize_verbs_entries:
  assumes "normalize_verbs render raw = Inr vs" and "vs \<noteq> []"
  shows "\<exists>o' entries. and_all (verb_entry render) o' = Inr entries \<and> vs = foldl (\<lambda>out (k, v). dict_set k v out) [] entries"
proof (cases raw)
  case (Some j)
  then obtain o' where j: "j = JObj o'" using assms by (cases j) (simp_all add: normalize_verbs_def)
  show ?thesis
  proof (cases "and_all (verb_entry render) o'")
    case (Inr entries)
    then show ?thesis using assms(1) Some j by (intro exI [of _ o'] exI [of _ entries]) (simp add: normalize_verbs_def)
  qed (use assms(1) Some j in \<open>simp add: normalize_verbs_def\<close>)
qed (use assms in \<open>simp add: normalize_verbs_def\<close>)

lemma load_rail_parts:
  assumes "load_rail render stem doc = Inr rail"
  obtains data used where "doc = JObj data" "stem = rd_id rail" "is_safe_rail_id (rd_id rail)"
    "normalize_fanout (dict_get data ''fanout'') = Inr (rd_fanout rail)"
    "normalize_verbs render (dict_get data ''verbs'') = Inr (rd_verbs rail)"
    "rd_flow rail \<noteq> [] \<or> rd_rules rail \<noteq> []"
    "collect_then_verbs (rd_flow rail) (rd_rules rail) = Inr used" "set used \<subseteq> CE_RAIL_BUILTINS"
  using assms unfolding load_rail_def by (cases doc) (auto split: if_splits)

lemma ranged_field_ok: "ranged_field raw k = Inr e \<Longrightarrow> (k', JInt n) \<in> set e \<Longrightarrow> k' = k \<and> 1 \<le> n \<and> n \<le> 32"
  by (auto simp: ranged_field_def split: option.splits sum.splits if_splits)

lemma normalize_fanout_ok:
  assumes "normalize_fanout raw = Inr e" and "(k, JInt n) \<in> set e"
  shows "1 \<le> n \<and> n \<le> 32"
proof -
  have "bool_field what o' k' = Inr e' \<Longrightarrow> (k, JInt n) \<notin> set e'" for what o' k' e'
    by (auto simp: bool_field_def split: option.splits json.splits)
  then show ?thesis using assms unfolding normalize_fanout_def
    by (auto split: option.splits json.splits if_splits dest: ranged_field_ok)
qed

text \<open>Claim C20. A rail that the catalog accepts can be run: its id is a plain file name and the name of its file, each event is
  answered by a verb the executor knows, the bounds of its fan-out are between 1 and 32, and none of its recipes
  ever stops on an unknown operation or a malformed step.\<close>

theorem catalog_rails_runnable:
  assumes "load_rail render stem doc = Inr rail"
  shows "stem = rd_id rail \<and> is_safe_rail_id stem \<and> (rd_flow rail \<noteq> [] \<or> rd_rules rail \<noteq> []) \<and>
    (\<forall>entry verb. entry \<in> set (rd_flow rail @ rd_rules rail) \<and> dict_get entry ''then'' = Some (JStr verb) \<longrightarrow>
       native_handler h auto_clarify job trigger verb \<noteq> None) \<and>
    (\<forall>k n. (k, JInt n) \<in> set (rd_fanout rail) \<longrightarrow> 1 \<le> n \<and> n \<le> 32) \<and>
    (\<forall>verb body steps. dict_get (rd_verbs rail) verb = Some body \<and> dict_get body ''do'' = Some (JList steps) \<longrightarrow>
       steps \<noteq> [] \<and> (\<forall>i ctx w e w'. recipe_steps h auto_clarify i steps ctx w \<noteq> (Inr (Inl e), w')))"
proof -
  obtain data used where parts: "doc = JObj data" "stem = rd_id rail" "is_safe_rail_id (rd_id rail)"
    "normalize_fanout (dict_get data ''fanout'') = Inr (rd_fanout rail)"
    "normalize_verbs render (dict_get data ''verbs'') = Inr (rd_verbs rail)"
    "rd_flow rail \<noteq> [] \<or> rd_rules rail \<noteq> []"
    "collect_then_verbs (rd_flow rail) (rd_rules rail) = Inr used" "set used \<subseteq> CE_RAIL_BUILTINS"
    by (rule load_rail_parts [OF assms])
  have verbs: "steps \<noteq> [] \<and> list_all runnable_step steps"
    if body: "dict_get (rd_verbs rail) verb = Some body" and steps: "dict_get body ''do'' = Some (JList steps)" for verb body steps
  proof -
    have "rd_verbs rail \<noteq> []" using body by auto
    with normalize_verbs_entries [OF parts(5)] obtain o' entries where entries: "and_all (verb_entry render) o' = Inr entries"
        "rd_verbs rail = foldl (\<lambda>out (k, v). dict_set k v out) [] entries"
      by blast
    have "(verb, body) \<in> set entries" using body foldl_set_member [of "[]" entries verb body] unfolding entries(2) by simp
    then obtain nb where "verb_entry render nb = Inr (verb, body)" using and_all_member [OF entries(1)] by blast
    then show ?thesis using verb_entry_recipe steps by blast
  qed
  have handled: "native_handler h auto_clarify job trigger verb \<noteq> None"
    if "entry \<in> set (rd_flow rail @ rd_rules rail)" "dict_get entry ''then'' = Some (JStr verb)" for entry verb
    using then_verb_used [OF parts(7) that] parts(8) builtin_handled by blast
  show ?thesis
    using parts(2,3,6) handled normalize_fanout_ok [OF parts(4)] verbs recipe_steps_runnable by blast
qed

section \<open>Examples\<close>

definition sample_rail_doc :: json where
  "sample_rail_doc = JObj
     [(''id'', JStr ''fan''), (''version'', JStr ''1''), (''summary'', JStr ''s''), (''applies_when'', JStr ''a''),
      (''fanout'', JObj [(''require_plan'', JBool True), (''max_waves'', JInt 4)]),
      (''conditions'', JObj [(''architecture_ready'', JStr ''planned''), (''slices_ready_to_spawn'', JStr ''ready''),
         (''job_complete'', JStr ''done'')]),
      (''verbs'', JObj [(''spawn_feedback_cycle'',
         JObj [(''do'', JList [JObj [(''gate'', JObj [(''max'', JStr ''feedback_rounds'')])], JObj [(''bump'', JStr ''feedback_round'')]])])]),
      (''flow'', JList
        [JObj [(''event'', JStr ''job_start''), (''then'', JStr ''plan_milestones'')],
         JObj [(''on'', JStr ''goal_completed''), (''when'', JStr ''slices_ready_to_spawn''), (''then'', JStr ''spawn_wave_makers''),
               (''priority'', JInt 50)],
         JObj [(''event'', JStr ''goal_completed''), (''when'', JStr ''architecture_ready''), (''then'', JStr ''spawn_wave_makers'')],
         JObj [(''event'', JStr ''dag_idle''), (''when'', JStr ''job_complete''), (''then'', JStr ''complete_job'')]])]"

definition sample_rail :: rail_def where
  "sample_rail = (case load_rail (\<lambda>_. []) ''fan'' sample_rail_doc of Inr r \<Rightarrow> r | Inl _ \<Rightarrow> undefined)"

lemma sample_rail_loads: "load_rail (\<lambda>_. []) ''fan'' sample_rail_doc = Inr sample_rail"
proof -
  have "(case load_rail (\<lambda>_. []) ''fan'' sample_rail_doc of Inr r \<Rightarrow> True | Inl _ \<Rightarrow> False)" by code_simp
  then show ?thesis unfolding sample_rail_def by (cases "load_rail (\<lambda>_. []) ''fan'' sample_rail_doc") simp_all
qed

lemma catalog_rails_runnable_witness:
  "rd_id sample_rail = ''fan'' \<and> native_handler sample_host False ''job'' None ''plan_milestones'' \<noteq> None"
proof -
  have "\<exists>entry. entry \<in> set (rd_flow sample_rail @ rd_rules sample_rail) \<and> dict_get entry ''then'' = Some (JStr ''plan_milestones'')"
  proof -
    have "list_ex (\<lambda>entry. dict_get entry ''then'' = Some (JStr ''plan_milestones'')) (rd_flow sample_rail @ rd_rules sample_rail)"
      by code_simp
    then show ?thesis by (auto simp: list_ex_iff)
  qed
  then show ?thesis
    using catalog_rails_runnable [OF sample_rail_loads, of sample_host False "''job''" None] by metis
qed

text \<open>What the catalog does not check: the name of a bound in a gate. A gate with a misspelt one never stops anything.\<close>

lemma misspelt_gate_accepted:
  "check_op (\<lambda>_. []) ''gate'' (JObj [(''max'', JStr ''feedback_round'')]) = Inr () \<and>
   fst (op_gate sample_host (JObj [(''max'', JStr ''feedback_round'')])
     \<lparr>rc_job = ''job'', rc_trigger = None, rc_steps = [], rc_created = [], rc_skipped = None\<rparr> (bare_world bumping_job)) =
   Inr \<lparr>rc_job = ''job'', rc_trigger = None, rc_steps = [], rc_created = [], rc_skipped = None\<rparr>"
  by (intro conjI; code_simp)

end
