(* ===== verification/Rail_Guards.thy ===== *)
theory Rail_Guards
  imports Rail_Catalog
begin

text \<open>
  The guards of a rail (\<open>rails/guards.py\<close>) and the facts they are decided on (\<open>_eval_when\<close> of
  \<open>rails/interpreter.py\<close>). A guard whose condition has a known name is decided by the state of the job and the DAG;
  any other is put to a model, whose reply is an argument. Only whether a guard matches is kept of its result.
\<close>

section \<open>Facts\<close>

record rail_facts =
  rf_planning_ids :: "ident list"
  rf_implementation_ids :: "ident list"
  rf_integrate_ids :: "ident list"
  rf_commit_ids :: "ident list"
  rf_review_ids :: "ident list"
  rf_qa_ids :: "ident list"
  rf_all_exploration_terminal :: bool
  rf_all_architecture_terminal :: bool
  rf_all_implementation_completed :: bool
  rf_all_commit_terminal :: bool
  rf_all_review_terminal :: bool
  rf_all_qa_terminal :: bool
  rf_any_qa_completed :: bool
  rf_any_verify_completed :: bool
  rf_any_integrate_completed :: bool
  rf_feedback_inflight :: bool
  rf_feedback_round :: int
  rf_max_feedback_rounds :: int
  rf_acceptance_met :: bool
  rf_below_slice_budget :: bool
  rf_slices_ready_unspawned :: bool
  rf_trigger_needs_merge :: bool
  rf_trigger_just_merged :: bool
  rf_trigger_is_merge_resolve :: bool
  rf_unmerged_maker_ids :: "ident list"
  rf_resolve_inflight_blocks_all :: bool
  rf_fanout_enabled :: bool
  rf_require_plan :: bool
  rf_wave_plan_ready :: bool
  rf_pending :: nat

definition fanout_mode :: "rail_facts \<Rightarrow> bool" where
  "fanout_mode f \<longleftrightarrow> rf_fanout_enabled f \<or> rf_require_plan f"

definition plan_available :: "rail_facts \<Rightarrow> bool" where
  "plan_available f \<longleftrightarrow> \<not> rf_require_plan f \<or> rf_wave_plan_ready f"

definition slices_open :: "string \<Rightarrow> rail_facts \<Rightarrow> bool" where
  "slices_open event f \<longleftrightarrow>
     event \<in> {''goal_completed'', ''dag_idle''} \<and> rf_all_architecture_terminal f \<and> plan_available f \<and>
     rf_slices_ready_unspawned f \<and> rf_below_slice_budget f"

section \<open>Structural guards\<close>

definition guard_architecture_ready :: "string \<Rightarrow> string list \<Rightarrow> rail_facts \<Rightarrow> bool" where
  "guard_architecture_ready event tags f \<longleftrightarrow>
     rf_all_architecture_terminal f \<and> rf_implementation_ids f = [] \<and> plan_available f \<and>
     (event = ''dag_idle'' \<or> event = ''goal_completed'' \<and> ''architecture'' \<in> set tags)"

definition guard_needs_merge :: "string \<Rightarrow> string list \<Rightarrow> rail_facts \<Rightarrow> bool" where
  "guard_needs_merge event tags f \<longleftrightarrow>
     event = ''goal_completed'' \<and> ''implementation'' \<in> set tags \<and> ''feedback'' \<notin> set tags \<and> ''resolve'' \<notin> set tags \<and>
       rf_trigger_needs_merge f \<or>
     event = ''goal_completed'' \<and> rf_trigger_is_merge_resolve f \<and> rf_unmerged_maker_ids f \<noteq> [] \<or>
     event = ''dag_idle'' \<and> rf_unmerged_maker_ids f \<noteq> [] \<and> \<not> rf_resolve_inflight_blocks_all f"

definition guard_wave_makers_done :: "string \<Rightarrow> string list \<Rightarrow> rail_facts \<Rightarrow> bool" where
  "guard_wave_makers_done event tags f \<longleftrightarrow>
     rf_all_implementation_completed f \<and> rf_implementation_ids f \<noteq> [] \<and>
     (if event = ''dag_idle'' then rf_integrate_ids f = []
      else event = ''goal_completed'' \<and> ''implementation'' \<in> set tags)"

definition guard_needs_commit :: "string \<Rightarrow> string list \<Rightarrow> rail_facts \<Rightarrow> bool" where
  "guard_needs_commit event tags f \<longleftrightarrow>
     (let made = rf_all_implementation_completed f \<and> rf_implementation_ids f \<noteq> [] \<and> rf_integrate_ids f = []
      in if event = ''dag_idle'' then rf_pending f = 0 \<and> rf_commit_ids f = [] \<and> (rf_any_integrate_completed f \<or> made)
         else if event = ''goal_completed'' \<and> ''integrate'' \<in> set tags then True
         else event = ''goal_completed'' \<and> ''implementation'' \<in> set tags \<and> made \<and> rf_commit_ids f = [])"

definition guard_needs_review :: "string \<Rightarrow> string list \<Rightarrow> rail_facts \<Rightarrow> bool" where
  "guard_needs_review event tags f \<longleftrightarrow>
     (if fanout_mode f
      then (if event = ''dag_idle''
            then rf_pending f = 0 \<and> rf_commit_ids f \<noteq> [] \<and> rf_all_commit_terminal f \<and> rf_review_ids f = []
            else event = ''goal_completed'' \<and> ''commit'' \<in> set tags)
      else (event \<noteq> ''dag_idle'' \<and> event = ''goal_completed'' \<and> (''implementation'' \<in> set tags \<or> ''commit'' \<in> set tags) \<and>
            (rf_commit_ids f = [] \<or> rf_all_commit_terminal f)))"

definition guard_needs_qa :: "string \<Rightarrow> string list \<Rightarrow> rail_facts \<Rightarrow> bool" where
  "guard_needs_qa event tags f \<longleftrightarrow>
     (if event = ''dag_idle''
      then rf_pending f = 0 \<and> rf_review_ids f \<noteq> [] \<and> rf_all_review_terminal f \<and> rf_qa_ids f = []
      else event = ''goal_completed'' \<and> ''review'' \<in> set tags)"

text \<open>A bound of 0 rounds is read as 8.\<close>

definition guard_needs_feedback :: "string \<Rightarrow> string list \<Rightarrow> rail_facts \<Rightarrow> bool" where
  "guard_needs_feedback event tags f \<longleftrightarrow>
     (let bound = (if rf_max_feedback_rounds f \<noteq> 0 then rf_max_feedback_rounds f else 8);
          trigger_ok = (if event = ''dag_idle'' then rf_any_qa_completed f \<or> rf_any_verify_completed f
                        else event \<in> {''goal_completed'', ''goal_failed''} \<and> (''qa'' \<in> set tags \<or> ''verify'' \<in> set tags))
      in fanout_mode f \<and> trigger_ok \<and> rf_pending f = 0 \<and> \<not> rf_feedback_inflight f \<and> rf_feedback_round f < bound \<and>
         \<not> rf_acceptance_met f)"

definition guard_job_complete :: "rail_facts \<Rightarrow> bool" where
  "guard_job_complete f \<longleftrightarrow>
     (let ok = rf_pending f = 0 \<and> (rf_qa_ids f = [] \<or> rf_all_qa_terminal f);
          ok = (if rf_review_ids f \<noteq> [] \<and> rf_pending f = 0 \<and> rf_qa_ids f = [] then True else ok)
      in if fanout_mode f \<and> \<not> rf_acceptance_met f then False else ok)"

definition structural_short_circuit :: "string option \<Rightarrow> string \<Rightarrow> string list \<Rightarrow> rail_facts \<Rightarrow> bool option" where
  "structural_short_circuit condition_name event tags f =
     (let name = py_strip (opt_str condition_name)
      in if name = [] then None
         else if name = ''architecture_ready'' then Some (guard_architecture_ready event tags f)
         else if name = ''slices_ready_to_spawn'' then Some (slices_open event f)
         else if name = ''maker_needs_merge'' then Some (guard_needs_merge event tags f)
         else if name = ''maker_merged''
         then Some (event = ''goal_completed'' \<and> ''implementation'' \<in> set tags \<and> rf_trigger_just_merged f)
         else if name = ''wave_makers_done'' then Some (guard_wave_makers_done event tags f)
         else if name = ''needs_commit'' then Some (guard_needs_commit event tags f)
         else if name = ''ready_for_next_wave'' then Some (fanout_mode f \<and> slices_open event f)
         else if name = ''scouts_done'' then Some (rf_all_exploration_terminal f)
         else if name \<in> {''ready_to_plan'', ''ready_to_fix''}
         then Some (rf_all_exploration_terminal f \<and> rf_implementation_ids f = [] \<and> rf_planning_ids f = [])
         else if name \<in> {''needs_review'', ''needs_check''} then Some (guard_needs_review event tags f)
         else if name = ''needs_qa'' then Some (guard_needs_qa event tags f)
         else if name = ''branch_is_stuck''
         then Some (event = ''goal_failed'' \<and> (''maker'' \<in> set tags \<or> ''implementation'' \<in> set tags))
         else if name = ''architecture_failed'' then Some (event = ''goal_failed'' \<and> ''architecture'' \<in> set tags)
         else if name = ''needs_feedback'' then Some (guard_needs_feedback event tags f)
         else if name = ''needs_human''
         then (if ''needs_human'' \<in> set tags \<or> ''cutover'' \<in> set tags
               then Some (if event = ''dag_idle'' then rf_pending f = 0 else event \<in> {''goal_completed'', ''goal_failed''})
               else None)
         else if name = ''checker_failed_recoverable''
         then (if event = ''goal_send_back'' \<and> ''review'' \<in> set tags then Some True else None)
         else if name = ''job_complete'' then Some (guard_job_complete f)
         else None)"

text \<open>The reply of the model, if it can be read: whether it matched, and whether its confidence reaches the least one.\<close>

datatype guard_reply = GuardFailed | GuardReply bool bool

record guard_context =
  gx_job :: ident
  gx_event :: string
  gx_goal :: "ident option"
  gx_condition_name :: "string option"
  gx_condition_text :: string
  gx_goal_summary :: string
  gx_siblings :: "(ident, goal_status) dict"
  gx_tags_by_goal :: "(ident, string list) dict"
  gx_retry_count :: int
  gx_tags :: "string list"
  gx_facts :: rail_facts

definition llm_evaluate :: "(guard_context \<Rightarrow> guard_reply) \<Rightarrow> guard_context \<Rightarrow> bool" where
  "llm_evaluate model ctx =
     (case structural_short_circuit (gx_condition_name ctx) (gx_event ctx) (gx_tags ctx) (gx_facts ctx) of
        Some matched \<Rightarrow> matched
      | None \<Rightarrow> (case model ctx of GuardFailed \<Rightarrow> False | GuardReply matched confident \<Rightarrow> matched \<and> confident))"

section \<open>Computing the facts\<close>

definition branch_status_of :: "goal_dag \<Rightarrow> rail_job option \<Rightarrow> ident \<Rightarrow> string option" where
  "branch_status_of d st gid =
     (let own = (case st of None \<Rightarrow> None
                 | Some s \<Rightarrow> (case dict_get (rj_annotations s) gid of
                               None \<Rightarrow> None | Some a \<Rightarrow> if ga_branch_status a = [] then None else Some (ga_branch_status a)))
      in case own of
           Some b \<Rightarrow> Some b
         | None \<Rightarrow> (case get_goal d gid of None \<Rightarrow> None | Some g \<Rightarrow> map_option br_str (g_branch_status g)))"

definition tagged_ids :: "string \<Rightarrow> (ident, string list) dict \<Rightarrow> ident list" where
  "tagged_ids tag tags = map fst (filter (\<lambda>(gid, ts). tag \<in> set ts) tags)"

definition wave_maker_ids :: "goal_dag \<Rightarrow> rail_job option \<Rightarrow> (ident, string list) dict \<Rightarrow> ident list" where
  "wave_maker_ids d st tags =
     map fst (filter (\<lambda>(gid, ts). ''implementation'' \<in> set ts \<and> ''feedback'' \<notin> set ts \<and> branch_status_of d st gid \<noteq> Some ''pruned'') tags)"

definition sibling_statuses :: "goal_dag \<Rightarrow> ident \<Rightarrow> (ident, goal_status) dict" where
  "sibling_statuses d job = foldl (\<lambda>m g. dict_set (g_id g) (g_status g) m) [] (job_descendants d job)"

definition status_in :: "(ident, goal_status) dict \<Rightarrow> goal_status set \<Rightarrow> ident \<Rightarrow> bool" where
  "status_in siblings S gid \<longleftrightarrow> (case dict_get siblings gid of None \<Rightarrow> False | Some s \<Rightarrow> s \<in> S)"

definition all_in :: "(ident, goal_status) dict \<Rightarrow> goal_status set \<Rightarrow> ident list \<Rightarrow> bool" where
  "all_in siblings S ids \<longleftrightarrow> ids \<noteq> [] \<and> list_all (status_in siblings S) ids"

definition any_completed :: "(ident, goal_status) dict \<Rightarrow> ident list \<Rightarrow> bool" where
  "any_completed siblings ids \<longleftrightarrow> list_ex (status_in siblings {GCompleted}) ids"

definition open_siblings :: "ident \<Rightarrow> (ident, goal_status) dict \<Rightarrow> nat" where
  "open_siblings job siblings = length (filter (\<lambda>(gid, s). gid \<noteq> job \<and> s \<in> {GPending, GActive}) siblings)"

definition trigger_annotation :: "rail_job option \<Rightarrow> ident option \<Rightarrow> goal_annotation option" where
  "trigger_annotation st trigger =
     (case st of
        None \<Rightarrow> None
      | Some s \<Rightarrow>
          if \<not> truthy trigger then None
          else (case dict_get (rj_annotations s) (opt_str trigger) of
                  None \<Rightarrow> None | Some a \<Rightarrow> if ''implementation'' \<in> set (ga_tags a) then Some a else None))"

definition gather_facts ::
  "rail_host \<Rightarrow> goal_dag \<Rightarrow> rail_job option \<Rightarrow> ident \<Rightarrow> ident option \<Rightarrow> (ident, string list) dict \<Rightarrow> rail_facts outcome" where
  "gather_facts h d st job trigger tags =
     and_then (has_ready_unspawned_slices h d st) (\<lambda>ready.
       (let siblings = sibling_statuses d job;
            unmerged = unmerged_maker_ids d st;
            tann = trigger_annotation st trigger;
            require_plan = (case st of None \<Rightarrow> False | Some s \<Rightarrow> rj_require_plan s);
            or_true = (\<lambda>ids. ids = [] \<or> all_in siblings TERMINAL_STATES ids)
        in Inr
          \<lparr>rf_planning_ids = tagged_ids ''planning'' tags, rf_implementation_ids = wave_maker_ids d st tags,
           rf_integrate_ids = tagged_ids ''integrate'' tags, rf_commit_ids = tagged_ids ''commit'' tags,
           rf_review_ids = tagged_ids ''review'' tags, rf_qa_ids = tagged_ids ''qa'' tags,
           rf_all_exploration_terminal = all_in siblings TERMINAL_STATES (tagged_ids ''exploration'' tags),
           rf_all_architecture_terminal = all_in siblings TERMINAL_STATES (tagged_ids ''architecture'' tags),
           rf_all_implementation_completed = all_in siblings {GCompleted} (wave_maker_ids d st tags),
           rf_all_commit_terminal = or_true (tagged_ids ''commit'' tags),
           rf_all_review_terminal = or_true (tagged_ids ''review'' tags),
           rf_all_qa_terminal = or_true (tagged_ids ''qa'' tags),
           rf_any_qa_completed = any_completed siblings (tagged_ids ''qa'' tags),
           rf_any_verify_completed = any_completed siblings (tagged_ids ''verify'' tags),
           rf_any_integrate_completed = any_completed siblings (tagged_ids ''integrate'' tags),
           rf_feedback_inflight = list_ex (status_in siblings {GPending, GActive}) (tagged_ids ''feedback'' tags),
           rf_feedback_round = (case st of None \<Rightarrow> 0 | Some s \<Rightarrow> rj_feedback_round s),
           rf_max_feedback_rounds = (case st of None \<Rightarrow> 8 | Some s \<Rightarrow> rj_max_feedback_rounds s),
           rf_acceptance_met = (case st of
               None \<Rightarrow> json_truthy (json_field (case get_goal d job of None \<Rightarrow> None | Some g \<Rightarrow> g_maturity g) ''acceptance_met'')
             | Some s \<Rightarrow> acceptance_latched s (get_goal d job)),
           rf_below_slice_budget = (case st of None \<Rightarrow> True | Some s \<Rightarrow> int (length (rj_spawned_slices s)) < effective_max_slices s),
           rf_slices_ready_unspawned = ready,
           rf_trigger_needs_merge = (case tann of None \<Rightarrow> False | Some a \<Rightarrow> ga_branch_status a \<in> {''active'', ''conflict''}),
           rf_trigger_just_merged = (case tann of None \<Rightarrow> False | Some a \<Rightarrow> ga_branch_status a = ''merged''),
           rf_trigger_is_merge_resolve = (case tann of None \<Rightarrow> False | Some a \<Rightarrow> ''resolve'' \<in> set (ga_tags a) \<and> ''merge'' \<in> set (ga_tags a)),
           rf_unmerged_maker_ids = unmerged,
           rf_resolve_inflight_blocks_all = (unmerged \<noteq> [] \<and> list_all (\<lambda>m. resolve_inflight_for_maker d st m \<noteq> None) unmerged),
           rf_fanout_enabled = (case st of None \<Rightarrow> False | Some s \<Rightarrow> rj_fanout_enabled s \<or> rj_require_plan s),
           rf_require_plan = require_plan,
           rf_wave_plan_ready = (if require_plan then is_wave_plan_ready h d st else True),
           rf_pending = open_siblings job siblings\<rparr>))"

end
