(* ===== verification/Rail_Interpreter.thy ===== *)
theory Rail_Interpreter
  imports Rail_Guards
begin

text \<open>
  The rail interpreter (\<open>rails/interpreter.py\<close>): a rail is bound to a job, and every event of the job is put to the
  rules of its rail. The condition of a rule is a parsed YAML value; the evaluator of the named conditions is an
  argument, as it is one of the interpreter. A row of the trace keeps no time and, of the result of its guard, whether
  it matched.
\<close>

section \<open>State\<close>

record rail_event =
  ev_name :: string
  ev_job :: ident
  ev_goal :: "ident option"

record norm_rule =
  nr_id :: string
  nr_event :: string
  nr_when :: json
  nr_then :: string
  nr_priority :: int
  nr_allow_multiple :: bool

record fire_record =
  fr_rule :: string
  fr_event :: string
  fr_condition :: "string option"
  fr_matched :: bool
  fr_builtin :: "string option"
  fr_result :: "verb_status option"
  fr_goal :: "ident option"
  fr_seq :: nat

record interpreter =
  ip_rails :: "(ident, rail_def) dict"
  ip_rules :: "(ident, norm_rule list) dict"
  ip_trace :: "(ident, fire_record list) dict"

text \<open>\<open>MemoryRailTraceStore.append\<close>.\<close>

definition append_record :: "ident \<Rightarrow> fire_record \<Rightarrow> interpreter \<Rightarrow> interpreter" where
  "append_record job_id r ip =
     (let bucket = (case dict_get (ip_trace ip) job_id of None \<Rightarrow> [] | Some b \<Rightarrow> b)
      in ip\<lparr>ip_trace := dict_set job_id (bucket @ [r\<lparr>fr_seq := length bucket\<rparr>]) (ip_trace ip)\<rparr>)"

section \<open>Rules\<close>

definition rule_event :: "(json \<Rightarrow> string) \<Rightarrow> obj \<Rightarrow> string" where
  "rule_event render entry =
     (case dict_get entry ''event'' of
        Some j \<Rightarrow> str_of_json render j
      | None \<Rightarrow> (case dict_get entry ''on'' of Some j \<Rightarrow> str_of_json render j | None \<Rightarrow> []))"

definition entry_rule :: "(json \<Rightarrow> string) \<Rightarrow> int \<Rightarrow> string \<Rightarrow> obj \<Rightarrow> norm_rule list outcome" where
  "entry_rule render priority rule_id entry =
     (case dict_get entry ''then'' of
        Some (JStr verb) \<Rightarrow>
          and_then (case dict_get entry ''priority'' of None \<Rightarrow> Inr priority | Some j \<Rightarrow> int_of_json j) (\<lambda>p.
            Inr [\<lparr>nr_id = rule_id, nr_event = rule_event render entry,
                  nr_when = (case dict_get entry ''when'' of None \<Rightarrow> JNull | Some j \<Rightarrow> j),
                  nr_then = verb, nr_priority = p, nr_allow_multiple = json_truthy (dict_get entry ''allow_multiple'')\<rparr>])
      | _ \<Rightarrow> Inr [])"

definition normalize_rules :: "(json \<Rightarrow> string) \<Rightarrow> rail_def \<Rightarrow> norm_rule list outcome" where
  "normalize_rules render rail =
     map_sum id concat
       (and_all (\<lambda>(priority, rule_id, entry). entry_rule render priority rule_id entry)
         (map (\<lambda>(i, entry). (100, ''flow['' @ show_nat i @ '']'', entry)) (enumerate 0 (rd_flow rail)) @
          map (\<lambda>(i, entry). (99, str_of_json render (json_or (dict_get entry ''id'') (JStr (''rule['' @ show_nat i @ '']''))), entry))
            (enumerate 0 (rd_rules rail))))"

section \<open>Binding\<close>

definition fanout_int :: "obj \<Rightarrow> string \<Rightarrow> int \<Rightarrow> int outcome" where
  "fanout_int fanout k n = (case dict_get fanout k of None \<Rightarrow> Inr n | Some j \<Rightarrow> int_of_json j)"

definition policy_flag :: "obj \<Rightarrow> string \<Rightarrow> bool" where
  "policy_flag policy k = (case dict_get policy k of None \<Rightarrow> True | Some j \<Rightarrow> json_truthy (Some j))"

definition bound_state :: "ident \<Rightarrow> rail_def \<Rightarrow> int option \<Rightarrow> rail_job outcome" where
  "bound_state job_id rail engine_max =
     (let base = (new_rail_job job_id (rd_id rail) (rd_version rail))
            \<lparr>rj_engine_max_parallel_goals := Some (case engine_max of None \<Rightarrow> 32 | Some n \<Rightarrow> n),
             rj_verb_overrides := rd_verbs rail,
             rj_worktrees_enabled := policy_flag (rd_worktrees rail) ''enabled'',
             rj_recycle_on_merge := policy_flag (rd_worktrees rail) ''recycle_on_merge'',
             rj_recycle_on_complete := policy_flag (rd_worktrees rail) ''recycle_on_complete''\<rparr>
      in if rd_fanout rail = [] then Inr base
         else and_then (fanout_int (rd_fanout rail) ''scout_count'' 2) (\<lambda>scout.
              and_then (fanout_int (rd_fanout rail) ''max_waves'' 3) (\<lambda>waves.
                Inr (base\<lparr>rj_scout_count := Some scout, rj_max_waves := waves, rj_fanout_enabled := True,
                          rj_require_plan := json_truthy (dict_get (rd_fanout rail) ''require_plan'')\<rparr>))))"

definition builtins_bind_job :: "rail_job option \<Rightarrow> rail_job \<Rightarrow> unit rail" where
  "builtins_bind_job loaded st w =
     (let merged = bind_job_state (rw_dag w) loaded (dict_get (rw_jobs w) (rj_job_id st)) st
      in (Inr (), w\<lparr>rw_jobs := dict_set (rj_job_id merged) merged (rw_jobs w)\<rparr>))"

text \<open>\<open>resolved\<close> is what the catalog answers for the rail, \<open>saved\<close> what the file of the state parses to.\<close>

definition bind_job ::
  "rail_host \<Rightarrow> rail_def outcome \<Rightarrow> json option \<Rightarrow> ident \<Rightarrow> int option \<Rightarrow> interpreter \<Rightarrow> rail_world \<Rightarrow>
   rail_def outcome \<times> interpreter \<times> rail_world" where
  "bind_job h resolved saved job_id engine_max ip w =
     (case resolved of
        Inl e \<Rightarrow> (Inl e, ip, w)
      | Inr rail \<Rightarrow>
          (let ip = ip\<lparr>ip_rails := dict_set job_id rail (ip_rails ip)\<rparr>
           in case normalize_rules (rh_render h) rail of
                Inl e \<Rightarrow> (Inl e, ip, w)
              | Inr rules \<Rightarrow>
                  (let ip = ip\<lparr>ip_rules := dict_set job_id rules (ip_rules ip)\<rparr>
                   in case rbind (lift_outcome (bound_state job_id rail engine_max)) (\<lambda>st.
                           rbind (lift_outcome (load_rail_state (rh_render h) job_id saved)) (\<lambda>loaded.
                           rthen (builtins_bind_job loaded st)
                                 (if rd_fanout rail = [] then ret () else ingest_wave_plan h job_id))) w of
                        (Inl e, w') \<Rightarrow> (Inl e, ip, w')
                      | (Inr _, w') \<Rightarrow> (Inr rail, ip, w'))))"

section \<open>Conditions\<close>

text \<open>The first match of \<open>goal\.retry_count\s*>=\s*(\d+)\<close>, whatever the case of its letters.\<close>

definition retry_count_at :: "string \<Rightarrow> nat option" where
  "retry_count_at s =
     (if \<not> starts_with (py_lower s) ''goal.retry_count'' then None
      else (let rest = py_lstrip (drop 16 s)
            in if \<not> starts_with rest ''>='' then None
               else (let digits = takeWhile is_digit (py_lstrip (drop 2 rest))
                     in if digits = [] then None else Some (parse_digits digits))))"

fun search_retry_count :: "string \<Rightarrow> nat option" where
  "search_retry_count [] = None"
| "search_retry_count (c # s) =
     (case retry_count_at (c # s) of Some n \<Rightarrow> Some n | None \<Rightarrow> search_retry_count s)"

definition eval_check :: "(json \<Rightarrow> string) \<Rightarrow> json \<Rightarrow> rail_event \<Rightarrow> goal_dag \<Rightarrow> bool" where
  "eval_check render expr event d =
     (case search_retry_count (str_of_json render expr) of
        None \<Rightarrow> False
      | Some n \<Rightarrow>
          if \<not> truthy (ev_goal event) then False
          else (case get_goal d (opt_str (ev_goal event)) of None \<Rightarrow> False | Some g \<Rightarrow> int n \<le> g_retry_count g))"

text \<open>The name and the text of a condition.\<close>

definition condition_of :: "(json \<Rightarrow> string) \<Rightarrow> rail_def \<Rightarrow> json \<Rightarrow> string option \<times> string" where
  "condition_of render rail cond =
     (case cond of
        JStr s \<Rightarrow>
          (case dict_get (rd_conditions rail) s of
             Some t \<Rightarrow> (Some s, t)
           | None \<Rightarrow>
               if starts_with s ''$conditions.''
               then (let name = drop 12 s
                     in (Some name, (case dict_get (rd_conditions rail) name of None \<Rightarrow> s | Some t \<Rightarrow> t)))
               else (None, s))
      | _ \<Rightarrow> (None, str_of_json render cond))"

type_synonym verdict = "bool \<times> string option"

definition condition_label :: "string option \<times> string \<Rightarrow> string option" where
  "condition_label c = (if truthy (fst c) then fst c else Some (snd c))"

definition eval_condition ::
  "rail_host \<Rightarrow> (guard_context \<Rightarrow> bool) option \<Rightarrow> rail_def \<Rightarrow> rail_event \<Rightarrow> json \<Rightarrow> verdict rail" where
  "eval_condition h guards rail event cond =
     (let c = condition_of (rh_render h) rail cond
      in case guards of
           None \<Rightarrow> ret (False, condition_label c)
         | Some evaluate \<Rightarrow>
             rbind (if truthy (ev_goal event) then lookup_goal (opt_str (ev_goal event)) else ret None) (\<lambda>goal.
             rbind (asks (\<lambda>w. tags_by_goal (rw_dag w) (dict_get (rw_jobs w) (ev_job event)) (ev_job event))) (\<lambda>tags.
               (let own = (case dict_get tags (opt_str (ev_goal event)) of None \<Rightarrow> [] | Some t \<Rightarrow> t)
                in rbind (if truthy (ev_goal event) \<and> own = []
                          then rbind (ensure_trigger_tags (ev_job event) (opt_str (ev_goal event))) (\<lambda>repaired.
                               if repaired = [] then ret (own, tags)
                               else asks (\<lambda>w. (repaired, tags_by_goal (rw_dag w) (dict_get (rw_jobs w) (ev_job event)) (ev_job event))))
                          else ret (own, tags)) (\<lambda>(trigger_tags, tags).
                   rbind (\<lambda>w. lift_outcome (gather_facts h (rw_dag w) (dict_get (rw_jobs w) (ev_job event)) (ev_job event)
                                              (ev_goal event) tags) w) (\<lambda>facts.
                   rbind (asks (\<lambda>w. sibling_statuses (rw_dag w) (ev_job event))) (\<lambda>siblings.
                     ret (evaluate
                            \<lparr>gx_job = ev_job event, gx_event = ev_name event, gx_goal = ev_goal event,
                             gx_condition_name = fst c, gx_condition_text = snd c,
                             gx_goal_summary = (case goal of None \<Rightarrow> [] | Some g \<Rightarrow> take 500 (g_description g)),
                             gx_siblings = siblings, gx_tags_by_goal = tags,
                             gx_retry_count = (case goal of None \<Rightarrow> 0 | Some g \<Rightarrow> g_retry_count g),
                             gx_tags = trigger_tags, gx_facts = facts\<rparr>,
                          condition_label c))))))))"

text \<open>The parts of a conjunction: iterating over a string gives its characters, over a mapping its keys.\<close>

definition all_parts :: "json \<Rightarrow> json list option" where
  "all_parts j =
     (case j of
        JList xs \<Rightarrow> Some xs
      | JStr s \<Rightarrow> Some (map (\<lambda>c. JStr [c]) s)
      | JObj o' \<Rightarrow> Some (map JStr (dict_keys o'))
      | _ \<Rightarrow> None)"

definition obj_field :: "json \<Rightarrow> string \<Rightarrow> json option" where
  "obj_field j k = (case j of JObj o' \<Rightarrow> dict_get o' k | _ \<Rightarrow> None)"

text \<open>Every part must match; the first that does not ends the evaluation.\<close>

fun eval_parts :: "(json \<Rightarrow> verdict rail) \<Rightarrow> json list \<Rightarrow> string list \<Rightarrow> verdict rail" where
  "eval_parts f [] labels = ret (True, Some (py_join ''&'' labels))"
| "eval_parts f (part # parts) labels =
     rbind (f part) (\<lambda>(matched, label).
       (let labels = labels @ [opt_str label]
        in if matched then eval_parts f parts labels else ret (False, Some (py_join ''&'' labels))))"

lemma eval_parts_same: "(\<And>part. part \<in> set parts \<Longrightarrow> f part = g part) \<Longrightarrow> eval_parts f parts labels = eval_parts g parts labels"
  by (induction parts arbitrary: labels) (simp_all cong: if_cong)

lemma eval_parts_cong [fundef_cong]:
  "parts = parts' \<Longrightarrow> labels = labels' \<Longrightarrow> (\<And>part. part \<in> set parts' \<Longrightarrow> f part = g part) \<Longrightarrow>
   eval_parts f parts labels = eval_parts g parts' labels'"
  using eval_parts_same by blast

lemma size_member: "x \<in> set xs \<Longrightarrow> size x < Suc (size_list size (xs :: json list))"
  by (induction xs) auto

lemma size_field: "dict_get o' k = Some v \<Longrightarrow> size v < size (JObj o')"
  by (induction o') (auto split: if_splits)

lemma size_obj_field: "obj_field j k = Some v \<Longrightarrow> size v < size j"
  by (cases j) (auto simp: obj_field_def simp del: json.size dest!: size_field)

lemma size_part: "all_parts j = Some parts \<Longrightarrow> part \<in> set parts \<Longrightarrow> size part \<le> size j"
  by (cases j) (auto simp: all_parts_def less_Suc_eq_le dest: size_member)

text \<open>\<open>nl\<close> is looked through once at the top, and once in every part.\<close>

definition through_nl :: "json \<Rightarrow> json" where
  "through_nl j = (case obj_field j ''nl'' of None \<Rightarrow> j | Some v \<Rightarrow> v)"

lemma size_through_nl: "size (through_nl j) \<le> size j"
  by (auto simp: through_nl_def less_imp_le dest: size_obj_field split: option.split)

lemma part_smaller:
  assumes "obj_field (through_nl cond) ''all'' = Some j" and "all_parts j = Some parts" and "part \<in> set parts"
  shows "size (through_nl part) < size cond"
  using assms size_through_nl [of part] size_part [of j parts part] size_obj_field size_through_nl [of cond]
  by (metis le_less_trans less_le_trans)

function eval_when ::
  "rail_host \<Rightarrow> (guard_context \<Rightarrow> bool) option \<Rightarrow> rail_def \<Rightarrow> rail_event \<Rightarrow> json \<Rightarrow> verdict rail" where
  "eval_when h guards rail event cond =
     (if cond = JNull \<or> cond = JStr [] then ret (True, None)
      else (case obj_field cond ''check'' of
              Some expr \<Rightarrow>
                asks (\<lambda>w. (eval_check (rh_render h) expr event (rw_dag w), Some (str_of_json (rh_render h) expr)))
            | None \<Rightarrow>
                (case obj_field (through_nl cond) ''all'' of
                   None \<Rightarrow> eval_condition h guards rail event (through_nl cond)
                 | Some j \<Rightarrow>
                     (case all_parts j of
                        None \<Rightarrow> lift_outcome (Inl (TypeError ''object is not iterable''))
                      | Some parts \<Rightarrow> eval_parts (\<lambda>part. eval_when h guards rail event (through_nl part)) parts []))))"
  by pat_completeness auto

termination
  by (relation "measure (\<lambda>(h, guards, rail, event, cond). size cond)") (simp_all add: part_smaller)

declare eval_when.simps [simp del]

section \<open>Events\<close>

text \<open>The rows fired, in order; what raised, if anything did. An invalid transition raised by a verb would count as a verb
  skipped.\<close>

definition fire ::
  "rail_host \<Rightarrow> bool \<Rightarrow> norm_rule \<Rightarrow> rail_event \<Rightarrow> rail_world \<Rightarrow> verb_status outcome \<times> rail_world" where
  "fire h auto_clarify rule event w =
     (case invoke h auto_clarify (nr_then rule) (ev_job event) (ev_goal event) w of
        (Inr r, w') \<Rightarrow> (Inr (vr_status r), w')
      | (Inl (InvalidGoalTransitionError _), w') \<Rightarrow> (Inr VSkipped, w')
      | (Inl e, w') \<Rightarrow> (Inl e, w'))"

definition fired_row :: "norm_rule \<Rightarrow> rail_event \<Rightarrow> string option \<Rightarrow> verb_status option \<Rightarrow> fire_record" where
  "fired_row rule event label result =
     \<lparr>fr_rule = nr_id rule, fr_event = ev_name event, fr_condition = label, fr_matched = (result \<noteq> None),
      fr_builtin = (if result = None then None else Some (nr_then rule)), fr_result = result, fr_goal = ev_goal event, fr_seq = 0\<rparr>"

fun walk_rules ::
  "rail_host \<Rightarrow> bool \<Rightarrow> (guard_context \<Rightarrow> bool) option \<Rightarrow> rail_def \<Rightarrow> rail_event \<Rightarrow> norm_rule list \<Rightarrow> rail_world \<Rightarrow>
   exn option \<times> fire_record list \<times> rail_world" where
  "walk_rules h auto_clarify guards rail event [] w = (None, [], w)"
| "walk_rules h auto_clarify guards rail event (rule # rules) w =
     (case eval_when h guards rail event (nr_when rule) w of
        (Inl e, w1) \<Rightarrow> (Some e, [], w1)
      | (Inr (matched, label), w1) \<Rightarrow>
          if \<not> matched
          then (case walk_rules h auto_clarify guards rail event rules w1 of
                  (err, rows, w2) \<Rightarrow> (err, fired_row rule event label None # rows, w2))
          else (case fire h auto_clarify rule event w1 of
                  (Inl e, w2) \<Rightarrow> (Some e, [], w2)
                | (Inr result, w2) \<Rightarrow>
                    if \<not> nr_allow_multiple rule then (None, [fired_row rule event label (Some result)], w2)
                    else (case walk_rules h auto_clarify guards rail event rules w2 of
                            (err, rows, w3) \<Rightarrow> (err, fired_row rule event label (Some result) # rows, w3))))"

definition rules_for :: "interpreter \<Rightarrow> rail_event \<Rightarrow> norm_rule list" where
  "rules_for ip event =
     sort_key nr_priority (filter (\<lambda>r. nr_event r = ev_name event)
       (case dict_get (ip_rules ip) (ev_job event) of None \<Rightarrow> [] | Some rs \<Rightarrow> rs))"

definition handle ::
  "rail_host \<Rightarrow> bool \<Rightarrow> (guard_context \<Rightarrow> bool) option \<Rightarrow> rail_event \<Rightarrow> interpreter \<Rightarrow> rail_world \<Rightarrow>
   fire_record list outcome \<times> interpreter \<times> rail_world" where
  "handle h auto_clarify guards event ip w =
     (case dict_get (ip_rails ip) (ev_job event) of
        None \<Rightarrow> (Inr [], ip, w)
      | Some rail \<Rightarrow>
          (case walk_rules h auto_clarify guards rail event (rules_for ip event) w of
             (err, rows, w') \<Rightarrow>
               (case err of Some e \<Rightarrow> Inl e | None \<Rightarrow> Inr rows,
                foldl (\<lambda>ip row. append_record (ev_job event) row ip) ip rows, w')))"

section \<open>The order of the rules\<close>

text \<open>A row of a rule that ends the walk.\<close>

definition ends_walk :: "norm_rule \<Rightarrow> fire_record \<Rightarrow> bool" where
  "ends_walk rule row \<longleftrightarrow> fr_matched row \<and> \<not> nr_allow_multiple rule"

text \<open>The row that a rule leaves.\<close>

definition row_of :: "rail_event \<Rightarrow> norm_rule \<Rightarrow> fire_record \<Rightarrow> bool" where
  "row_of event rule row \<longleftrightarrow>
     fr_rule row = nr_id rule \<and> fr_event row = ev_name event \<and> fr_goal row = ev_goal event \<and>
     (if fr_matched row then fr_builtin row = Some (nr_then rule) \<and> fr_result row \<noteq> None
      else fr_builtin row = None \<and> fr_result row = None)"

lemma row_of_fired [simp]: "row_of event rule (fired_row rule event label result)"
  by (simp add: row_of_def fired_row_def)

lemma ends_walk_fired [simp]: "ends_walk rule (fired_row rule event label result) \<longleftrightarrow> result \<noteq> None \<and> \<not> nr_allow_multiple rule"
  by (simp add: ends_walk_def fired_row_def)

lemma walk_rules_rows:
  "walk_rules h auto_clarify guards rail event rules w = (err, rows, w') \<Longrightarrow>
     length rows \<le> length rules \<and>
     (\<forall>i < length rows. row_of event (rules ! i) (rows ! i) \<and> (ends_walk (rules ! i) (rows ! i) \<longrightarrow> Suc i = length rows)) \<and>
     (err = None \<longrightarrow> length rows = length rules \<or> (\<exists>i < length rows. ends_walk (rules ! i) (rows ! i)))"
proof (induction rules arbitrary: w err rows w')
  case Nil
  then show ?case by simp
next
  case (Cons rule rules)
  have cons: "?case" if rows: "rows = fired_row rule event label result # rs" and step: "walk_rules h auto_clarify guards rail event rules w1 = (err, rs, w2)"
      and goes: "result \<noteq> None \<Longrightarrow> nr_allow_multiple rule" for label result rs w1 w2
  proof -
    note IH = Cons.IH [OF step]
    have "row_of event ((rule # rules) ! i) (rows ! i) \<and> (ends_walk ((rule # rules) ! i) (rows ! i) \<longrightarrow> Suc i = length rows)"
      if "i < length rows" for i
      using IH goes that unfolding rows by (cases i) auto
    moreover have "length rows = length (rule # rules) \<or> (\<exists>i < length rows. ends_walk ((rule # rules) ! i) (rows ! i))" if "err = None"
    proof -
      have "length rs = length rules \<or> (\<exists>i < length rs. ends_walk (rules ! i) (rs ! i))" using IH that by blast
      then show ?thesis unfolding rows by (metis Suc_less_eq length_Cons nth_Cons_Suc)
    qed
    moreover have "length rows \<le> length (rule # rules)" using IH rows by simp
    ultimately show ?thesis by blast
  qed
  obtain r w1 where verdict: "eval_when h guards rail event (nr_when rule) w = (r, w1)" by fastforce
  show ?case
  proof (cases r)
    case (Inl e)
    then show ?thesis using Cons.prems verdict by auto
  next
    case (Inr v)
    obtain matched label where v: "v = (matched, label)" by fastforce
    obtain res w2 where fire: "fire h auto_clarify rule event w1 = (res, w2)" by fastforce
    obtain e3 rs3 w3 where later: "walk_rules h auto_clarify guards rail event rules (if matched then w2 else w1) = (e3, rs3, w3)"
      by (metis prod_cases3)
    show ?thesis
    proof (cases "matched \<and> (\<not> nr_allow_multiple rule \<or> (\<exists>e. res = Inl e))")
      case True
      then show ?thesis using Cons.prems verdict Inr v fire later
        by (cases res) auto
    next
      case False
      then have rows: "rows = fired_row rule event label (if matched then Some (projr res) else None) # rs3" and "err = e3"
        using Cons.prems verdict Inr v fire later by (cases res; cases matched; auto)+
      then show ?thesis using cons [OF rows] later False by auto
    qed
  qed
qed

section \<open>Conditions and rules respect the orders of the verbs\<close>

context job_order
begin

lemma keeps_ensure: "keeps (world_le le job) (ensure_trigger_tags job gid)"
  by (auto simp: keeps_def ensure_trigger_tags_def world_le_def Let_def le_refl annotated split: option.split)

lemma keeps_condition:
  assumes "ev_job event = job"
  shows "keeps (world_le le job) (eval_condition h guards rail event cond)"
  unfolding eval_condition_def Let_def assms by (intro keeps_rules steps keeps_ensure)

lemma keeps_parts: "(\<And>part. part \<in> set parts \<Longrightarrow> keeps (world_le le job) (f part)) \<Longrightarrow> keeps (world_le le job) (eval_parts f parts labels)"
proof (induction parts arbitrary: labels)
  case (Cons part parts)
  then show ?case unfolding eval_parts.simps Let_def by (intro keeps_rules steps) simp_all
qed (simp add: w.keeps_ret)

lemma keeps_when:
  assumes "ev_job event = job"
  shows "keeps (world_le le job) (eval_when h guards rail event cond)"
proof (induction cond rule: measure_induct_rule [where f = size])
  case (less cond)
  show ?case unfolding eval_when.simps [of h guards rail event cond]
    by (intro keeps_rules steps keeps_condition keeps_parts less part_smaller) (use assms in assumption)+
qed

end

context recipe_order
begin

lemma fire_follows:
  assumes "ev_job event = job" and "fire h auto_clarify rule event w = (r, w')"
  shows "world_le le job w w'"
proof -
  have "world_le le job w (snd (invoke h auto_clarify (nr_then rule) job (ev_goal event) w))"
    using keeps_invoke by (simp add: keeps_def)
  moreover have "snd (invoke h auto_clarify (nr_then rule) job (ev_goal event) w) = w'"
    using assms by (auto simp: fire_def split: prod.splits sum.splits exn.splits)
  ultimately show ?thesis by simp
qed

lemma walk_follows:
  assumes "ev_job event = job"
  shows "world_le le job w (snd (snd (walk_rules h auto_clarify guards rail event rules w)))"
proof (induction rules arbitrary: w)
  case Nil
  show ?case by (simp add: w.refl)
next
  case (Cons rule rules)
  obtain r w1 where verdict: "eval_when h guards rail event (nr_when rule) w = (r, w1)" by fastforce
  have 1: "world_le le job w w1" using keeps_when [OF assms] verdict by (metis keeps_def snd_conv)
  obtain res w2 where fire: "fire h auto_clarify rule event w1 = (res, w2)" by fastforce
  have 2: "world_le le job w w2" using w.trans [OF 1 fire_follows [OF assms fire]] .
  show ?case using 1 2 w.trans [OF 1 Cons [of w1]] w.trans [OF 2 Cons [of w2]]
    by (auto simp: verdict fire split: prod.split sum.split)
qed

lemma handle_follows:
  assumes "ev_job event = job"
  shows "world_le le job w (snd (snd (handle h auto_clarify guards event ip w)))"
  using walk_follows [OF assms] w.refl by (auto simp: handle_def split: option.split prod.split) (metis snd_conv)+

end

section \<open>What an event does\<close>

definition trace_of :: "interpreter \<Rightarrow> ident \<Rightarrow> fire_record list" where
  "trace_of ip job_id = (case dict_get (ip_trace ip) job_id of None \<Rightarrow> [] | Some b \<Rightarrow> b)"

definition numbered :: "nat \<Rightarrow> fire_record list \<Rightarrow> fire_record list" where
  "numbered n rows = map (\<lambda>(i, row). row\<lparr>fr_seq := i\<rparr>) (enumerate n rows)"

lemma trace_of_append:
  "trace_of (append_record job_id row ip) = (trace_of ip)(job_id := trace_of ip job_id @ numbered (length (trace_of ip job_id)) [row])"
  by (auto simp: trace_of_def append_record_def numbered_def Let_def fun_eq_iff)

lemma trace_of_rows:
  "trace_of (foldl (\<lambda>ip row. append_record job_id row ip) ip rows) =
   (trace_of ip)(job_id := trace_of ip job_id @ numbered (length (trace_of ip job_id)) rows)"
proof (induction rows arbitrary: ip)
  case Nil
  show ?case by (simp add: numbered_def)
next
  case (Cons row rows)
  show ?case unfolding foldl_Cons Cons trace_of_append by (simp add: numbered_def)
qed

lemma rows_keep_rules: "ip_rules (foldl (\<lambda>ip row. append_record job_id row ip) ip rows) = ip_rules ip \<and>
    ip_rails (foldl (\<lambda>ip row. append_record job_id row ip) ip rows) = ip_rails ip"
  by (induction rows arbitrary: ip) (simp_all add: append_record_def Let_def)


text \<open>Claim C8. Whatever event is handled, and even when its handling raises, nothing is undone: the state of the job only moves
  forward, no goal leaves the DAG, and the trace of the job only grows, by rows numbered in order, while the traces of
  other jobs stay as they are.\<close>

theorem handle_never_undoes_progress:
  assumes "dict_get (rw_jobs w) (ev_job event) = Some st"
  shows "\<exists>r ip' w' st' rows. handle h auto_clarify guards event ip w = (r, ip', w') \<and>
    dict_get (rw_jobs w') (ev_job event) = Some st' \<and> job_progress st st' \<and>
    set (goal_ids (rw_dag w)) \<subseteq> set (goal_ids (rw_dag w')) \<and>
    trace_of ip' = (trace_of ip)(ev_job event := trace_of ip (ev_job event) @ numbered (length (trace_of ip (ev_job event))) rows)"
proof -
  obtain r ip' w' where h: "handle h auto_clarify guards event ip w = (r, ip', w')" by (metis prod_cases3)
  have "world_le job_progress (ev_job event) w w'"
    using progress.handle_follows [OF refl, of event w h auto_clarify guards ip] h by simp
  moreover have "\<exists>rows. ip' = foldl (\<lambda>ip row. append_record (ev_job event) row ip) ip rows"
    using h by (auto simp: handle_def split: prod.splits option.splits intro: exI [of _ "[]"])
  ultimately show ?thesis using assms h trace_of_rows unfolding world_le_def by metis
qed

fun handle_all ::
  "rail_host \<Rightarrow> bool \<Rightarrow> (guard_context \<Rightarrow> bool) option \<Rightarrow> ident \<Rightarrow> (string \<times> ident option) list \<Rightarrow> interpreter \<Rightarrow> rail_world \<Rightarrow>
   interpreter \<times> rail_world" where
  "handle_all h auto_clarify guards job [] ip w = (ip, w)"
| "handle_all h auto_clarify guards job ((name, goal) # events) ip w =
     (case handle h auto_clarify guards \<lparr>ev_name = name, ev_job = job, ev_goal = goal\<rparr> ip w of
        (_, ip', w') \<Rightarrow> handle_all h auto_clarify guards job events ip' w')"

context recipe_order
begin

lemma handle_all_follows: "world_le le job w (snd (handle_all h auto_clarify guards job events ip w))"
proof (induction events arbitrary: ip w)
  case Nil
  show ?case by (simp add: w.refl)
next
  case (Cons e events)
  obtain name goal where e: "e = (name, goal)" by fastforce
  obtain r ip' w' where h: "handle h auto_clarify guards \<lparr>ev_name = name, ev_job = job, ev_goal = goal\<rparr> ip w = (r, ip', w')"
    by (metis prod_cases3)
  then have "world_le le job w w'"
    using handle_follows [of "\<lparr>ev_name = name, ev_job = job, ev_goal = goal\<rparr>" w auto_clarify guards ip] by simp
  then show ?case using w.trans Cons [of w' ip'] by (simp add: e h)
qed

end


section \<open>Guards\<close>

text \<open>What a condition that matches was decided on: the facts of the world it leaves, which differs from the one it found by
  annotations only.\<close>

lemma ensure_result: "\<exists>tags w'. ensure_trigger_tags job_id gid w = (Inr tags, w') \<and> rw_dag w' = rw_dag w \<and> (tags = [] \<longrightarrow> w' = w)"
  by (auto simp: ensure_trigger_tags_def Let_def split: option.split)

lemma eval_condition_matched:
  assumes "eval_condition h (Some evaluate) rail event cond w = (Inr (True, label), w')"
  obtains ctx :: guard_context where "evaluate ctx" "gx_condition_name ctx = fst (condition_of (rh_render h) rail cond)" "gx_event ctx = ev_name event"
    "rw_dag w' = rw_dag w"
    "gather_facts h (rw_dag w') (dict_get (rw_jobs w') (ev_job event)) (ev_job event) (ev_goal event)
       (tags_by_goal (rw_dag w') (dict_get (rw_jobs w') (ev_job event)) (ev_job event)) = Inr (gx_facts ctx)"
proof -
  obtain tags w1 where repair: "ensure_trigger_tags (ev_job event) (opt_str (ev_goal event)) w = (Inr tags, w1)"
      "rw_dag w1 = rw_dag w" "tags = [] \<longrightarrow> w1 = w"
    using ensure_result by blast
  show ?thesis
    using assms that repair
    unfolding eval_condition_def Let_def
    by (auto simp: rbind_def ret_def asks_def lookup_goal_def lift_outcome_def split: if_splits prod.splits sum.splits)
qed

lemma eval_when_name:
  assumes "dict_get (rd_conditions rail) name = Some t" and "name \<noteq> []"
  shows "eval_when h guards rail event (JStr name) w = eval_condition h guards rail event (JStr name) w"
    and "fst (condition_of render rail (JStr name)) = Some name"
  using assms by (simp_all add: eval_when.simps [of h guards rail event "JStr name"] obj_field_def through_nl_def condition_of_def)

lemma gather_facts_Inr: "gather_facts h d st job trigger tags = Inr f \<Longrightarrow>
    rf_all_architecture_terminal f = all_in (sibling_statuses d job) TERMINAL_STATES (tagged_ids ''architecture'' tags) \<and>
    rf_require_plan f = (case st of None \<Rightarrow> False | Some s \<Rightarrow> rj_require_plan s) \<and>
    rf_wave_plan_ready f = (rf_require_plan f \<longrightarrow> is_wave_plan_ready h d st) \<and>
    rf_fanout_enabled f = (case st of None \<Rightarrow> False | Some s \<Rightarrow> rj_fanout_enabled s \<or> rj_require_plan s) \<and>
    rf_acceptance_met f = (case st of
        None \<Rightarrow> json_truthy (json_field (case get_goal d job of None \<Rightarrow> None | Some g \<Rightarrow> g_maturity g) ''acceptance_met'')
      | Some s \<Rightarrow> acceptance_latched s (get_goal d job)) \<and>
    rf_pending f = open_siblings job (sibling_statuses d job)"
  by (auto simp: gather_facts_def Let_def)

text \<open>A named condition decided by the evaluator of the code.\<close>

lemma structural_condition:
  assumes "eval_when h (Some (llm_evaluate model)) rail event (JStr name) w = (Inr (True, label), w')"
    and "dict_get (rd_conditions rail) name = Some t" and "name \<noteq> []"
    and "dict_get (rw_jobs w) (ev_job event) = Some st"
  obtains st' and ctx :: guard_context where "dict_get (rw_jobs w') (ev_job event) = Some st'" "job_progress st st'" "rw_dag w' = rw_dag w"
    "gather_facts h (rw_dag w) (Some st') (ev_job event) (ev_goal event) (tags_by_goal (rw_dag w) (Some st') (ev_job event)) =
       Inr (gx_facts ctx)"
    "case structural_short_circuit (Some name) (ev_name event) (gx_tags ctx) (gx_facts ctx) of None \<Rightarrow> True | Some b \<Rightarrow> b"
proof -
  have run: "eval_condition h (Some (llm_evaluate model)) rail event (JStr name) w = (Inr (True, label), w')"
    using assms(1) eval_when_name [OF assms(2,3)] by simp
  have "world_le job_progress (ev_job event) w w'"
    using progress.keeps_condition [OF refl, of event h "Some (llm_evaluate model)" rail "JStr name"] run by (metis keeps_def snd_conv)
  then obtain st' where st': "dict_get (rw_jobs w') (ev_job event) = Some st'" "job_progress st st'"
    using assms(4) by (auto simp: world_le_def)
  obtain ctx :: guard_context where ctx: "llm_evaluate model ctx" "gx_condition_name ctx = Some name" "gx_event ctx = ev_name event" "rw_dag w' = rw_dag w"
    "gather_facts h (rw_dag w') (dict_get (rw_jobs w') (ev_job event)) (ev_job event) (ev_goal event)
       (tags_by_goal (rw_dag w') (dict_get (rw_jobs w') (ev_job event)) (ev_job event)) = Inr (gx_facts ctx)"
    using eval_condition_matched [OF run] eval_when_name(2) [OF assms(2,3)] by metis
  show ?thesis using that [OF st' ctx(4), of ctx] ctx st' by (auto simp: llm_evaluate_def split: option.splits)
qed

text \<open>Claim C2. Makers wait for the plan. When the condition of a rule is one of the three that let makers be spawned and it matches,
  the job has goals tagged \<open>architecture\<close> and all of them are finished, and a job that requires a plan has one that
  every check of the plan accepts.\<close>

theorem makers_wait_for_the_plan:
  assumes "eval_when h (Some (llm_evaluate model)) rail event (JStr name) w = (Inr (True, label), w')"
    and "name \<in> {''architecture_ready'', ''slices_ready_to_spawn'', ''ready_for_next_wave''}"
    and "dict_get (rd_conditions rail) name = Some t"
    and "dict_get (rw_jobs w) (ev_job event) = Some st"
  shows "\<exists>st'. dict_get (rw_jobs w') (ev_job event) = Some st' \<and> rw_dag w' = rw_dag w \<and>
    (rj_require_plan st \<longrightarrow> is_wave_plan_ready h (rw_dag w) (Some st')) \<and>
    all_in (sibling_statuses (rw_dag w) (ev_job event)) TERMINAL_STATES
      (tagged_ids ''architecture'' (tags_by_goal (rw_dag w) (Some st') (ev_job event)))"
proof -
  have "name \<noteq> []" using assms(2) by auto
  then obtain st' and ctx :: guard_context where st': "dict_get (rw_jobs w') (ev_job event) = Some st'" "job_progress st st'" "rw_dag w' = rw_dag w"
    and facts: "gather_facts h (rw_dag w) (Some st') (ev_job event) (ev_goal event) (tags_by_goal (rw_dag w) (Some st') (ev_job event)) =
       Inr (gx_facts ctx)"
    and guard: "case structural_short_circuit (Some name) (ev_name event) (gx_tags ctx) (gx_facts ctx) of None \<Rightarrow> True | Some b \<Rightarrow> b"
    using structural_condition [OF assms(1,3) _ assms(4)] by metis
  have "plan_available (gx_facts ctx) \<and> rf_all_architecture_terminal (gx_facts ctx)"
    using guard assms(2) unfolding structural_short_circuit_def Let_def
    by (elim insertE emptyE; simp add: guard_architecture_ready_def slices_open_def py_strip_def py_lstrip_def py_rstrip_def is_space_def opt_str_def)
  then show ?thesis using gather_facts_Inr [OF facts] st' by (simp add: plan_available_def job_progress_def)
qed

lemma sibling_get:
  "distinct (map g_id gs) \<Longrightarrow> g \<in> set gs \<Longrightarrow> dict_get (foldl (\<lambda>m g. dict_set (g_id g) (g_status g) m) m0 gs) (g_id g) = Some (g_status g)"
proof (induction gs arbitrary: m0)
  case (Cons a gs)
  have "g_id a \<notin> g_id ` set gs \<Longrightarrow> dict_get (foldl (\<lambda>m g. dict_set (g_id g) (g_status g) m) m1 gs) (g_id a) = dict_get m1 (g_id a)" for m1
    by (induction gs arbitrary: m1) auto
  then show ?case using Cons by auto
qed simp

lemma no_open_siblings:
  assumes "distinct (map g_id (job_descendants d job))" and "open_siblings job (sibling_statuses d job) = 0"
    and "g \<in> set (job_descendants d job)"
  shows "g_id g = job \<or> g_status g \<notin> {GPending, GActive}"
proof -
  have "(g_id g, g_status g) \<in> set (sibling_statuses d job)"
    using sibling_get [OF assms(1,3), of "[]"] unfolding sibling_statuses_def by (rule map_of_SomeD)
  then show ?thesis using assms(2) by (auto simp: open_siblings_def filter_empty_conv)
qed

text \<open>Claim C5. A job is completed by its rail only when its work is over: when the condition \<open>job_complete\<close> matches, no other goal
  of the job is pending or active, and a job with fan-out has its acceptance latched.\<close>

theorem completion_waits_for_the_work:
  assumes "eval_when h (Some (llm_evaluate model)) rail event (JStr ''job_complete'') w = (Inr (True, label), w')"
    and "dict_get (rd_conditions rail) ''job_complete'' = Some t"
    and "dict_get (rw_jobs w) (ev_job event) = Some st"
    and "distinct (map g_id (job_descendants (rw_dag w) (ev_job event)))"
  shows "(\<forall>g \<in> set (job_descendants (rw_dag w) (ev_job event)). g_id g = ev_job event \<or> g_status g \<notin> {GPending, GActive}) \<and>
    (rj_fanout_enabled st \<or> rj_require_plan st \<longrightarrow> acceptance_latched st (get_goal (rw_dag w) (ev_job event)))"
proof -
  obtain st' and ctx :: guard_context where st': "job_progress st st'"
    and facts: "gather_facts h (rw_dag w) (Some st') (ev_job event) (ev_goal event) (tags_by_goal (rw_dag w) (Some st') (ev_job event)) =
       Inr (gx_facts ctx)"
    and guard: "case structural_short_circuit (Some ''job_complete'') (ev_name event) (gx_tags ctx) (gx_facts ctx) of None \<Rightarrow> True | Some b \<Rightarrow> b"
    using structural_condition [OF assms(1,2) _ assms(3)] by (metis list.distinct(1))
  have "guard_job_complete (gx_facts ctx)"
    using guard unfolding structural_short_circuit_def Let_def
    by (simp add: py_strip_def py_lstrip_def py_rstrip_def is_space_def opt_str_def)
  then have "rf_pending (gx_facts ctx) = 0" "fanout_mode (gx_facts ctx) \<longrightarrow> rf_acceptance_met (gx_facts ctx)"
    by (auto simp: guard_job_complete_def Let_def split: if_splits)
  then show ?thesis using gather_facts_Inr [OF facts] st' no_open_siblings [OF assms(4)]
    by (auto simp: fanout_mode_def job_progress_def acceptance_latched_def)
qed

section \<open>Rails without judgement\<close>

text \<open>The conditions that are always decided by the state of the job.\<close>

definition STRUCTURAL_NAMES :: "string set" where
  "STRUCTURAL_NAMES =
     {''architecture_ready'', ''slices_ready_to_spawn'', ''maker_needs_merge'', ''maker_merged'', ''wave_makers_done'',
      ''needs_commit'', ''ready_for_next_wave'', ''scouts_done'', ''ready_to_plan'', ''ready_to_fix'', ''needs_review'',
      ''needs_check'', ''needs_qa'', ''branch_is_stuck'', ''architecture_failed'', ''needs_feedback'', ''job_complete''}"

lemma structural_names_decided:
  assumes "name \<in> STRUCTURAL_NAMES"
  shows "structural_short_circuit (Some name) event tags f \<noteq> None"
  using assms unfolding STRUCTURAL_NAMES_def structural_short_circuit_def Let_def
  by (elim insertE emptyE; simp add: py_strip_def py_lstrip_def py_rstrip_def is_space_def opt_str_def)

lemma structural_eval_when:
  assumes "name \<in> STRUCTURAL_NAMES" and "dict_get (rd_conditions rail) name = Some t"
  shows "eval_when h (Some (llm_evaluate model)) rail event (JStr name) w = eval_when h (Some (llm_evaluate model')) rail event (JStr name) w"
proof -
  have nonempty: "name \<noteq> []" using assms(1) by (auto simp: STRUCTURAL_NAMES_def)
  have same: "llm_evaluate model ctx = llm_evaluate model' ctx" if "gx_condition_name ctx = Some name" for ctx :: guard_context
    using structural_names_decided [OF assms(1), of "gx_event ctx" "gx_tags ctx" "gx_facts ctx"] that
    by (auto simp: llm_evaluate_def)
  note name = eval_when_name(2) [OF assms(2) nonempty, of "rh_render h"]
  show ?thesis unfolding eval_when_name(1) [OF assms(2) nonempty] eval_condition_def Let_def name
    by (simp add: same)
qed

text \<open>A rule whose condition needs no judgement.\<close>

definition structural_rule :: "rail_def \<Rightarrow> norm_rule \<Rightarrow> bool" where
  "structural_rule rail rule \<longleftrightarrow>
     (case nr_when rule of
        JNull \<Rightarrow> True
      | JStr name \<Rightarrow> name \<in> STRUCTURAL_NAMES \<and> dict_get (rd_conditions rail) name \<noteq> None
      | _ \<Rightarrow> False)"

lemma structural_rule_when:
  assumes "structural_rule rail rule"
  shows "eval_when h (Some (llm_evaluate model)) rail event (nr_when rule) w = eval_when h (Some (llm_evaluate model')) rail event (nr_when rule) w"
proof (cases "nr_when rule")
  case JNull
  then show ?thesis by (simp add: eval_when.simps)
next
  case (JStr name)
  then show ?thesis using assms structural_eval_when by (auto simp: structural_rule_def)
qed (use assms in \<open>simp_all add: structural_rule_def\<close>)

lemma structural_walk:
  assumes "list_all (structural_rule rail) rules"
  shows "walk_rules h auto_clarify (Some (llm_evaluate model)) rail event rules w =
    walk_rules h auto_clarify (Some (llm_evaluate model')) rail event rules w"
  using assms
proof (induction rules arbitrary: w)
  case (Cons rule rules)
  then have "structural_rule rail rule" by simp
  then have 1: "eval_when h (Some (llm_evaluate model)) rail event (nr_when rule) w = eval_when h (Some (llm_evaluate model')) rail event (nr_when rule) w"
    by (rule structural_rule_when)
  have 2: "walk_rules h auto_clarify (Some (llm_evaluate model)) rail event rules =
      walk_rules h auto_clarify (Some (llm_evaluate model')) rail event rules"
    by (rule ext) (use Cons in simp)
  show ?case unfolding walk_rules.simps 1 2 ..
qed simp

text \<open>Claim C30. A rail whose rules for an event use only structural conditions is deterministic: the event is handled in the
  same way whatever the model would answer.\<close>

theorem structural_rails_ignore_the_model:
  assumes "dict_get (ip_rails ip) (ev_job event) = Some rail" and "list_all (structural_rule rail) (rules_for ip event)"
  shows "handle h auto_clarify (Some (llm_evaluate model)) event ip w = handle h auto_clarify (Some (llm_evaluate model')) event ip w"
  unfolding handle_def structural_walk [OF assms(2), of h auto_clarify model event w model']
  using assms(1) structural_walk [OF assms(2), of h auto_clarify model event w model'] by simp

section \<open>Examples\<close>

definition sample_rules :: "norm_rule list" where
  "sample_rules = (case normalize_rules (\<lambda>_. []) sample_rail of Inr rs \<Rightarrow> rs | Inl _ \<Rightarrow> [])"

definition sample_interpreter :: interpreter where
  "sample_interpreter = \<lparr>ip_rails = [(''job'', sample_rail)], ip_rules = [(''job'', sample_rules)], ip_trace = []\<rparr>"

definition no_model :: "guard_context \<Rightarrow> guard_reply" where
  "no_model ctx = GuardFailed"

definition some_event :: "string \<Rightarrow> rail_event" where
  "some_event name = \<lparr>ev_name = name, ev_job = ''job'', ev_goal = None\<rparr>"

definition planned_world :: rail_world where
  "planned_world = run_world (planned_job\<lparr>rj_require_plan := True, rj_fanout_enabled := True\<rparr>)
     [(''a'', GCompleted, tagged [''architecture''] ''a'')]"

definition accepted_world :: rail_world where
  "accepted_world = run_world ((new_rail_job ''job'' ''fan'' ''1'')\<lparr>rj_fanout_enabled := True, rj_acceptance_met := True\<rparr>)
     [(''q'', GCompleted, tagged [''qa''] ''q'')]"

lemma makers_wait_for_the_plan_witness:
  "\<exists>st'. dict_get (rw_jobs planned_world) ''job'' = Some st' \<and> is_wave_plan_ready sample_host (rw_dag planned_world) (Some st')"
proof -
  have "eval_when sample_host (Some (llm_evaluate no_model)) sample_rail (some_event ''dag_idle'') (JStr ''architecture_ready'') planned_world =
      (Inr (True, Some ''architecture_ready''), planned_world)" by code_simp
  moreover have "dict_get (rd_conditions sample_rail) ''architecture_ready'' = Some ''planned''" by code_simp
  moreover have "map_option rj_require_plan (dict_get (rw_jobs planned_world) (ev_job (some_event ''dag_idle''))) = Some True" by code_simp
  ultimately show ?thesis
    using makers_wait_for_the_plan [of sample_host no_model sample_rail "some_event ''dag_idle''" "''architecture_ready''" planned_world]
    by (force simp: some_event_def)
qed

lemma completion_waits_for_the_work_witness:
  "\<exists>st. dict_get (rw_jobs accepted_world) ''job'' = Some st \<and> rj_fanout_enabled st \<and>
     acceptance_latched st (get_goal (rw_dag accepted_world) ''job'')"
proof -
  have "eval_when sample_host (Some (llm_evaluate no_model)) sample_rail (some_event ''dag_idle'') (JStr ''job_complete'') accepted_world =
      (Inr (True, Some ''job_complete''), accepted_world)" by code_simp
  moreover have "dict_get (rd_conditions sample_rail) ''job_complete'' = Some ''done''" by code_simp
  moreover obtain st where "dict_get (rw_jobs accepted_world) ''job'' = Some st" "rj_fanout_enabled st"
    by (simp add: accepted_world_def run_world_def)
  moreover have "distinct (map g_id (job_descendants (rw_dag accepted_world) ''job''))" by code_simp
  ultimately show ?thesis
    using completion_waits_for_the_work [of sample_host no_model sample_rail "some_event ''dag_idle''" accepted_world]
    by (fastforce simp: some_event_def)
qed


lemma handle_never_undoes_progress_witness:
  "\<exists>r ip' w' st'. handle sample_host False None (some_event ''dag_idle'') sample_interpreter planned_world = (r, ip', w') \<and>
     dict_get (rw_jobs w') ''job'' = Some st' \<and> rj_require_plan st'"
proof -
  obtain st where st: "dict_get (rw_jobs planned_world) (ev_job (some_event ''dag_idle'')) = Some st" "rj_require_plan st"
    by (simp add: planned_world_def run_world_def some_event_def)
  then show ?thesis
    using handle_never_undoes_progress [OF st(1), of sample_host False None sample_interpreter]
    by (fastforce simp: some_event_def job_progress_def)
qed


lemma structural_rails_ignore_the_model_witness:
  "handle sample_host False (Some (llm_evaluate no_model)) (some_event ''dag_idle'') sample_interpreter planned_world =
   handle sample_host False (Some (llm_evaluate (\<lambda>_. GuardReply True True))) (some_event ''dag_idle'') sample_interpreter planned_world"
proof (rule structural_rails_ignore_the_model)
  show "dict_get (ip_rails sample_interpreter) (ev_job (some_event ''dag_idle'')) = Some sample_rail"
    by (simp add: sample_interpreter_def some_event_def)
  show "list_all (structural_rule sample_rail) (rules_for sample_interpreter (some_event ''dag_idle''))" by code_simp
qed

end
