(* ===== verification/Rail_Selector.thy ===== *)
theory Rail_Selector
  imports Rail_Interpreter
begin

text \<open>
  Which rail a job gets: the three-tier catalog (\<open>LoopRailCatalog\<close> of \<open>rails/catalog.py\<close>) and the cascade of
  \<open>rails/selector.py\<close>. The directories are lists of files in the order of their paths, each with its stem and what it
  parses to; the answer of the model is an argument, with whether its confidence reaches the least one. The hash of the
  candidates and the confidence are left out of the result.
\<close>

section \<open>Catalog\<close>

record rail_tier =
  rt_name :: string
  rt_files :: "(string \<times> json outcome) list"

definition catalog_index :: "rail_tier list \<Rightarrow> (string, json outcome) dict" where
  "catalog_index tiers =
     foldl (\<lambda>by_id tier.
              if rt_name tier = ''drafts'' then by_id
              else foldl (\<lambda>by_id (stem, doc). dict_set stem doc by_id) by_id (rt_files tier))
       [] tiers"

definition load_rail_file :: "(json \<Rightarrow> string) \<Rightarrow> string \<Rightarrow> json outcome \<Rightarrow> rail_def outcome" where
  "load_rail_file render stem doc = and_then doc (load_rail render stem)"

definition catalog_resolve :: "(json \<Rightarrow> string) \<Rightarrow> rail_tier list \<Rightarrow> string \<Rightarrow> rail_def outcome" where
  "catalog_resolve render tiers rail_id =
     (if \<not> is_safe_rail_id rail_id then catalog_error ''rail id contains path traversal characters''
      else (case dict_get (catalog_index tiers) rail_id of
              None \<Rightarrow> catalog_error ''rail not found''
            | Some doc \<Rightarrow> load_rail_file render rail_id doc))"

definition load_all :: "(json \<Rightarrow> string) \<Rightarrow> rail_tier list \<Rightarrow> (string, rail_def) dict outcome" where
  "load_all render tiers =
     and_all (\<lambda>(rail_id, doc). and_then (load_rail_file render rail_id doc) (\<lambda>rail. Inr (rail_id, rail))) (catalog_index tiers)"

section \<open>Selection\<close>

datatype pick_source = FromExplicit | FromLlm | FromWorkspace | FromConfig | FromNone

datatype pick_reply = PickFailed | PickReply "string option" bool string

record pick_result =
  pk_rail_id :: "string option"
  pk_reasoning :: string
  pk_source :: pick_source
  pk_candidates :: "string list"

record pick_options =
  po_auto_pick :: bool
  po_deny :: "string list"
  po_max_candidates :: int
  po_skip_llm_if_workspace_default :: bool
  po_abstain_overrides_defaults :: bool

text \<open>\<open>marker\<close> holds the lines of \<open>.rail-default\<close>, if it can be read.\<close>

definition read_workspace_rail_default :: "string list option \<Rightarrow> string option" where
  "read_workspace_rail_default marker =
     (case marker of
        None \<Rightarrow> None
      | Some lines \<Rightarrow> find (\<lambda>line. line \<noteq> [] \<and> \<not> starts_with line ''#'') (map py_strip lines))"

definition deterministic_fallback :: "string list option \<Rightarrow> string option \<Rightarrow> string option \<times> pick_source" where
  "deterministic_fallback marker default_rail =
     (case read_workspace_rail_default marker of
        Some r \<Rightarrow> (Some r, FromWorkspace)
      | None \<Rightarrow>
          if py_strip (opt_str default_rail) \<noteq> [] then (Some (py_strip (opt_str default_rail)), FromConfig)
          else (None, FromNone))"

definition resolve_rail_id :: "string option \<Rightarrow> string list option \<Rightarrow> string option \<Rightarrow> string option" where
  "resolve_rail_id explicit marker default_rail =
     (if py_strip (opt_str explicit) \<noteq> [] then Some (py_strip (opt_str explicit))
      else fst (deterministic_fallback marker default_rail))"

definition filter_auto_pick_candidates :: "(string, rail_def) dict \<Rightarrow> string list \<Rightarrow> rail_def list" where
  "filter_auto_pick_candidates rails deny =
     (let denied = filter (\<lambda>d. d \<noteq> []) (map py_strip deny)
      in sort_key rd_id (map snd (filter (\<lambda>(rail_id, rail). rd_auto_pick rail \<and> rail_id \<notin> set denied) rails)))"

definition fallback_reasoning :: "pick_source \<Rightarrow> string" where
  "fallback_reasoning s =
     (case s of FromWorkspace \<Rightarrow> ''workspace .rail-default'' | FromConfig \<Rightarrow> ''agent.autopilot.default_rail'' | _ \<Rightarrow> ''no rail resolved'')"

definition fallback_result :: "string list option \<Rightarrow> string option \<Rightarrow> string list \<Rightarrow> pick_result" where
  "fallback_result marker default_rail ids =
     (case deterministic_fallback marker default_rail of
        (rid, source) \<Rightarrow>
          \<lparr>pk_rail_id = rid, pk_reasoning = fallback_reasoning source, pk_source = source, pk_candidates = ids\<rparr>)"

text \<open>What the reply of the model decides; \<open>None\<close> falls back.\<close>

definition accept_pick :: "bool \<Rightarrow> string list \<Rightarrow> pick_reply \<Rightarrow> pick_result option" where
  "accept_pick abstain_overrides ids reply =
     (case reply of
        PickFailed \<Rightarrow> None
      | PickReply rail_id confident reasoning \<Rightarrow>
          (let picked = (if truthy rail_id then Some (py_strip (opt_str rail_id)) else None)
           in if picked \<noteq> None \<and> the picked \<notin> set ids then None
              else if \<not> confident then None
              else if picked = None \<and> abstain_overrides
              then Some \<lparr>pk_rail_id = None, pk_reasoning = (if reasoning = [] then ''llm abstain'' else reasoning),
                         pk_source = FromLlm, pk_candidates = ids\<rparr>
              else if picked \<noteq> None
              then Some \<lparr>pk_rail_id = picked, pk_reasoning = (if reasoning = [] then ''llm pick'' else reasoning),
                         pk_source = FromLlm, pk_candidates = ids\<rparr>
              else None))"

text \<open>\<open>picker\<close> is the model, if there is one. An explicit id that does not resolve is a \<open>ValueError\<close>.\<close>

definition resolve_rail_for_job ::
  "(json \<Rightarrow> string) \<Rightarrow> rail_tier list \<Rightarrow> (string \<Rightarrow> rail_def list \<Rightarrow> pick_reply) option \<Rightarrow> pick_options \<Rightarrow>
   string option \<Rightarrow> string \<Rightarrow> string list option \<Rightarrow> string option \<Rightarrow> pick_result outcome" where
  "resolve_rail_for_job render tiers picker opts explicit description marker default_rail =
     (if py_strip (opt_str explicit) \<noteq> []
      then (let rail_id = py_strip (opt_str explicit)
            in case catalog_resolve render tiers rail_id of
                 Inl _ \<Rightarrow> Inl (ValueError (''unknown rail_id: '' @ rail_id))
               | Inr _ \<Rightarrow> Inr \<lparr>pk_rail_id = Some rail_id, pk_reasoning = ''explicit rail_id'', pk_source = FromExplicit, pk_candidates = []\<rparr>)
      else if po_skip_llm_if_workspace_default opts \<and> read_workspace_rail_default marker \<noteq> None
      then Inr \<lparr>pk_rail_id = read_workspace_rail_default marker, pk_reasoning = ''workspace .rail-default (skip LLM)'',
                pk_source = FromWorkspace, pk_candidates = []\<rparr>
      else
        (let candidates = (case load_all render tiers of Inl _ \<Rightarrow> [] | Inr rails \<Rightarrow> filter_auto_pick_candidates rails (po_deny opts));
             ids = map rd_id candidates
         in case picker of
              None \<Rightarrow> Inr (fallback_result marker default_rail ids)
            | Some pick \<Rightarrow>
                if po_auto_pick opts \<and> candidates \<noteq> [] \<and> int (length candidates) \<le> po_max_candidates opts
                then (case accept_pick (po_abstain_overrides_defaults opts) ids (pick description candidates) of
                        Some r \<Rightarrow> Inr r
                      | None \<Rightarrow> Inr (fallback_result marker default_rail ids))
                else Inr (fallback_result marker default_rail ids)))"

section \<open>What is selected\<close>

lemma index_member: "dict_get (catalog_index tiers) i = Some doc \<longleftrightarrow> (i, doc) \<in> set (catalog_index tiers)"
proof -
  have files: "distinct (map fst (foldl (\<lambda>m (stem, doc). dict_set stem doc m) by_id fs))" if "distinct (map fst by_id)"
    for by_id :: "(string, json outcome) dict" and fs
    using that by (induction fs arbitrary: by_id) auto
  have "distinct (map fst (foldl (\<lambda>by_id tier.
              if rt_name tier = ''drafts'' then by_id
              else foldl (\<lambda>by_id (stem, doc). dict_set stem doc by_id) by_id (rt_files tier)) by_id tiers))"
    if "distinct (map fst by_id)" for by_id
    using that by (induction tiers arbitrary: by_id) (auto simp: files)
  then have "distinct (map fst (catalog_index tiers))" by (simp add: catalog_index_def)
  then show ?thesis by (simp add: map_of_eq_Some_iff)
qed

lemma and_all_pairs:
  assumes "and_all f xs = Inr ys" and "y \<in> set ys"
  obtains x where "x \<in> set xs" "f x = Inr y"
  using and_all_member [OF assms] by blast

text \<open>A candidate is a rail the catalog resolves under its id, open to the choice and not denied.\<close>

lemma candidate_sound:
  assumes "load_all render tiers = Inr rails" and "rail \<in> set (filter_auto_pick_candidates rails deny)"
  shows "catalog_resolve render tiers (rd_id rail) = Inr rail \<and> rd_auto_pick rail \<and> rd_id rail \<notin> py_strip ` set deny"
proof -
  obtain i where i: "(i, rail) \<in> set rails" "rd_auto_pick rail" "i = [] \<or> i \<notin> py_strip ` set deny"
    using assms(2) by (auto simp: filter_auto_pick_candidates_def Let_def)
  obtain p where p: "p \<in> set (catalog_index tiers)"
      "(case p of (i, doc) \<Rightarrow> and_then (load_rail_file render i doc) (\<lambda>rail. Inr (i, rail))) = Inr (i, rail)"
    using and_all_pairs [OF assms(1) [unfolded load_all_def] i(1)] by blast
  obtain doc where doc: "p = (i, doc)" "load_rail_file render i doc = Inr rail" using p(2) by (cases p) auto
  obtain d where "load_rail render i d = Inr rail" using doc(2) by (auto simp: load_rail_file_def)
  then have rail: "i = rd_id rail" "is_safe_rail_id (rd_id rail)" using load_rail_parts by blast+
  then have "i \<noteq> []" by (auto simp: is_safe_rail_id_def)
  then show ?thesis using i rail doc p(1) index_member [of tiers i doc] by (auto simp: catalog_resolve_def)
qed

text \<open>Claim C32. A rail is selected from the catalog: an explicit id is taken exactly when the catalog resolves it and is an
  error otherwise; without one the selection never fails, and a rail picked by the model is one the catalog resolves,
  that is open to the choice and not denied; whatever the model does not decide is decided by the defaults.\<close>

theorem selection_sound:
  "if py_strip (opt_str explicit) \<noteq> []
   then map_sum id pk_rail_id (resolve_rail_for_job render tiers picker opts explicit description marker default_rail) =
          (case catalog_resolve render tiers (py_strip (opt_str explicit)) of
             Inl _ \<Rightarrow> Inl (ValueError (''unknown rail_id: '' @ py_strip (opt_str explicit)))
           | Inr _ \<Rightarrow> Inr (Some (py_strip (opt_str explicit))))
   else \<exists>r. resolve_rail_for_job render tiers picker opts explicit description marker default_rail = Inr r \<and>
          (case pk_source r of
             FromExplicit \<Rightarrow> False
           | FromLlm \<Rightarrow> (case pk_rail_id r of
                 None \<Rightarrow> po_abstain_overrides_defaults opts
               | Some i \<Rightarrow> \<exists>rail. catalog_resolve render tiers i = Inr rail \<and> rd_auto_pick rail \<and> i \<notin> py_strip ` set (po_deny opts))
           | source \<Rightarrow> (pk_rail_id r, source) = deterministic_fallback marker default_rail)"
proof (cases "py_strip (opt_str explicit) \<noteq> []")
  case True
  then show ?thesis by (simp add: resolve_rail_for_job_def Let_def split: sum.split)
next
  case False
  let ?goal = "\<lambda>r. case pk_source r of
             FromExplicit \<Rightarrow> False
           | FromLlm \<Rightarrow> (case pk_rail_id r of
                 None \<Rightarrow> po_abstain_overrides_defaults opts
               | Some i \<Rightarrow> \<exists>rail. catalog_resolve render tiers i = Inr rail \<and> rd_auto_pick rail \<and> i \<notin> py_strip ` set (po_deny opts))
           | source \<Rightarrow> (pk_rail_id r, source) = deterministic_fallback marker default_rail"
  define candidates where "candidates = (case load_all render tiers of Inl _ \<Rightarrow> [] | Inr rails \<Rightarrow> filter_auto_pick_candidates rails (po_deny opts))"
  have fallback: "?goal (fallback_result marker default_rail ids)" for ids
    by (auto simp: fallback_result_def deterministic_fallback_def split: option.split)
  have picked: "?goal r" if "accept_pick (po_abstain_overrides_defaults opts) (map rd_id candidates) reply = Some r" for reply r
  proof (cases "pk_rail_id r")
    case None
    then show ?thesis using that by (auto simp: accept_pick_def Let_def split: pick_reply.splits if_splits)
  next
    case (Some i)
    then have "i \<in> rd_id ` set candidates" and source: "pk_source r = FromLlm"
      using that by (auto simp: accept_pick_def Let_def split: pick_reply.splits if_splits)
    then obtain rail where rail: "rail \<in> set candidates" "i = rd_id rail" by blast
    then obtain rails where "load_all render tiers = Inr rails" "rail \<in> set (filter_auto_pick_candidates rails (po_deny opts))"
      by (cases "load_all render tiers") (simp_all add: candidates_def)
    from candidate_sound [OF this] show ?thesis using Some source rail by auto
  qed
  have workspace: "?goal \<lparr>pk_rail_id = read_workspace_rail_default marker, pk_reasoning = t, pk_source = FromWorkspace, pk_candidates = []\<rparr>"
    if "read_workspace_rail_default marker \<noteq> None" for t
    using that by (auto simp: deterministic_fallback_def)
  have "\<exists>r. resolve_rail_for_job render tiers picker opts explicit description marker default_rail = Inr r \<and> ?goal r"
    using False workspace fallback picked
    unfolding resolve_rail_for_job_def Let_def candidates_def [symmetric]
    by (auto split: option.split)
  then show ?thesis using False by simp
qed

end
