(* ===== verification/Spec2Isabelle.thy ===== *)
theory Spec2Isabelle
  imports Root_Eval Step_Planner Goal_Tree Lifecycle Budgets Directives Ledger Goal_Scheduling Workspace_Reservation
    Worker_Pool Context_Projector Rail_Selector
begin

text \<open>
  This library models the planning and execution core of Soothe, an agent system that turns a request into a goal
  DAG, the steps of each goal into a step DAG, and runs both until they are done.

  \<^bold>\<open>The program and its parts.\<close> A job is a root goal. The context engine (\<open>soothe/context\<close>) keeps the goal DAG and,
  inside each goal, its step DAG, the message ledger, budgets and directives. The autopilot
  (\<open>soothe_autopilot\<close>) asks the scheduler for ready goals, reserves a workspace for each, runs it on a slot of the worker
  pool, and gives it the contributions of its parents through the context projector. Inside a goal the loop
  (\<open>soothe/sloop\<close>) goes round three stations: DISPATCH claims the ready steps, RECONCILE turns proposals of the running
  steps into new steps, ROOT_EVAL ends the goal or asks for more. A job may run under a rail (\<open>soothe/rails\<close>): a document
  whose rules react to the events of the job by calling verbs, which add, annotate, merge, retry and complete goals of
  the same goal DAG.

  \<^bold>\<open>Foundations.\<close> \<open>Prelude\<close> has insertion-ordered dictionaries (a Python \<open>dict\<close>: association lists whose updates keep the
  place of a key), JSON values, exceptions as values (\<open>'a outcome\<close> is an exception or a result) and the string
  operations of the language, on ASCII characters. \<open>Object_Store\<close> is the locale of a store of objects that are looked up
  under an id and changed in place; both DAGs interpret it.

  \<^bold>\<open>Steps.\<close> \<open>Dag_Utils\<close> is the expansion of completed ids (\<open>context/dag_utils.py\<close>). \<open>Step_Dag\<close> is \<open>StepNode\<close> and \<open>StepDAG\<close> of
  \<open>context/models.py\<close>; \<open>Step_Chain\<close> shows that the queue loop of \<open>chain_depth\<close> ends and computes the longest chain, and
  \<open>Step_Progress\<close> when \<open>ready_steps\<close> has something to offer.

  \<^bold>\<open>Goals.\<close> \<open>Goal_Dag\<close> is \<open>GoalNode\<close> and \<open>GoalStepDAG\<close>. \<open>Goal_Tree\<close> shows the depth limit, \<open>Goal_Scheduling\<close> the scheduler
  (\<open>planning_scheduling.py\<close>): which goals it offers, that it makes progress, that two conflicting goals are never active
  together. \<open>Context_Engine\<close> has the operations of \<open>ContextEngine\<close> (\<open>context/engine.py\<close>); \<open>Lifecycle\<close> states them as a step
  relation with its transition table and reachable states, \<open>Budgets\<close> and \<open>Directives\<close> describe each on every branch, and
  \<open>Ledger\<close> is \<open>context/ledger.py\<close>. \<open>Goal_Planner\<close> (\<open>planning_goal_planner.py\<close>) makes the child goals of a decomposition,
  which stay acyclic and known.

  \<^bold>\<open>Decomposition.\<close> \<open>Reconcile\<close> is \<open>sloop/decompose/reconcile.py\<close> with the proposals of \<open>context/decomposition.py\<close>;
  \<open>Cycle_Removal\<close> its depth-first search, \<open>Reconcile_Facts\<close>, \<open>Reconcile_Properties\<close> and \<open>Reconcile_Commit\<close> what a plan and its commit
  promise: distinct ids, budgets, depth, no cycle.

  \<^bold>\<open>The loop.\<close> \<open>Loop_Stations\<close> and \<open>Work_Queue\<close> are DISPATCH, RECONCILE and ROOT_EVAL (\<open>sloop/stations/decompose\<close>), \<open>Root_Eval\<close> the
  end of a goal, \<open>Loop_Graph\<close> the routers and declared edges (\<open>sloop/orchestrator\<close>), \<open>Step_Planner\<close> and \<open>Completion\<close> the
  planners of \<open>context/planning_step_planner.py\<close> and \<open>planning_completion.py\<close>.

  \<^bold>\<open>The autopilot.\<close> \<open>Workspace_Reservation\<close> and \<open>Worker_Pool\<close> (\<open>workers\<close>): no two goals hold overlapping workspaces, and the pool
  refines a set of slots that are free or hold one goal. \<open>Context_Store\<close> and \<open>Context_Projector\<close> (\<open>dispatch\<close>): the store
  refines a map to the last contribution, and a bundle holds nothing but what the parents contributed.

  \<^bold>\<open>Rails.\<close> \<open>Wave_Plan\<close> and \<open>Wave_Sources\<close> are \<open>rails/wave_plan.py\<close>: the schema of a plan, its ingestion and the files it may
  come from. \<open>Rail_State\<close> is \<open>RailJobState\<close> with binding, annotations and the catalog of slices (\<open>rails/builtins_exec.py\<close>);
  \<open>Rail_Builtins\<close>, \<open>Rail_Verbs\<close> and \<open>Rail_Recipe\<close> are its sixteen verbs, the human gate (\<open>pause_clarify.py\<close>), recipes
  (\<open>recipe_exec.py\<close>) and \<open>invoke\<close>, as programs that pass a \<open>rail_world\<close> (the jobs, the goal DAG, the ids drawn, the jobs
  notified) and keep what they changed when they raise. \<open>Rail_Persistence\<close> is \<open>rail_state.json\<close>. \<open>Rail_Catalog\<close> checks a document
  (\<open>catalog.py\<close>, \<open>l0_schema.py\<close>), \<open>Rail_Guards\<close> decides conditions (\<open>guards.py\<close>) on facts of the world, \<open>Rail_Interpreter\<close> binds
  a job and handles events (\<open>interpreter.py\<close>), \<open>Rail_Selector\<close> chooses the rail of a job (\<open>selector.py\<close>). \<open>Rail_Facts\<close> states the orders
  that every verb follows as locales (\<open>job_order\<close>, \<open>recipe_order\<close>, \<open>free_rounds\<close>), interpreted on progress, on the policy of a
  job and on the bound of feedback rounds; \<open>Rail_Interpreter\<close> extends them to conditions, rules and events, so that
  handling any sequence of events undoes nothing. \<open>Rail_Fanout\<close> shows what spawning and merging do.

  \<^bold>\<open>Conventions.\<close> Records have the fields of the classes, datatypes the values of the enumerations. Python integers are
  \<open>int\<close>, so there is no overflow to model. An operation that raises returns the exception, and the state as it was left
  at that point. Operations under one lock are one step. Clocks, fresh ids, the file system, the JSON and YAML parsers, git, the
  models and the rendering of values by \<open>str\<close> are arguments; a theorem assumes nothing of them unless it says so.

  \<^bold>\<open>Loops.\<close> Loops over data are structural recursion. The queue loop of \<open>chain_depth\<close>, the search for cycles, the scan for embedded JSON and the
  search for ancestors are total functions whose measures are proved to decrease; where a loop carries a bound as an argument it is the
  number of nodes, shown to be enough. Conditions of rules recurse on the size of the condition.

  \<^bold>\<open>Not modelled.\<close> The asynchronous shells (the service of the autopilot, the executor of steps, the daemon and its channels), the terminal
  program, the SDK, prompts and the wording of briefs, stores on disk apart from the files above, git and work trees, metrics and
  logging: they are input and output around the modelled core, or calls of models and third-party libraries. Inside the modelled
  files the following are left out: the planning facade and the stores of the context engine, the terminal reports of the budget
  gate, the report of the step planner, the removal of work trees and the check loop of a pause, the JSONL trace and the lock of the
  interpreter, the counters of the guards, and the hash of the rail candidates.
\<close>

end
